(* ===== verification/LinX_Prelude.thy ===== *)
theory LinX_Prelude
  imports Complex_Main "HOL-Library.AList"
begin

section \<open>Shared notions of the LinX backend models\<close>

text \<open>
  What every component model uses: identifiers and instants, Python dictionaries, the two
  selection idioms of the code (\<open>min(xs, key=f)\<close> and a stable descending sort), and the
  string normalisation \<open>str(value or "").strip().lower()\<close> that guards every status
  comparison.

  Conventions. A UUID is compared for equality only, so it is a natural number. A
  \<open>datetime\<close> is an integer count of microseconds, its resolution in Python; a duration in
  seconds is scaled by \<open>usec\<close> where the code compares \<open>total_seconds()\<close> with it.
  Floats (\<open>time.time()\<close>, scores, gigabytes) are reals: rounding is not modelled.
  A Python string is a \<open>string\<close> whose characters are the code points 0 to 255; \<open>strip\<close> and
  \<open>lower\<close> are exact on these. A Python dictionary keeps insertion order, so it is an
  association list with distinct keys, updated by \<open>AList.update\<close> (in place, or appended)
  and \<open>AList.delete\<close>.
\<close>

type_synonym uuid = nat
type_synonym timestamp = int
type_synonym ('k, 'v) dict = "('k \<times> 'v) list"

definition usec :: "int \<Rightarrow> int" where
  "usec s = s * 1000000"

named_theorems linx_inv
named_theorems linx_step

text \<open>The built-in exceptions the modelled code raises or lets through.\<close>

datatype py_error =
    KeyError
  | IndexError
  | ValueError string
  | TypeError
  | RuntimeError string
  | AttributeError
  | ZeroDivisionError

subsection \<open>Dictionaries\<close>

definition dict_get :: "('k, 'v) dict \<Rightarrow> 'k \<Rightarrow> 'v option" where
  "dict_get d k = map_of d k"

definition dict_set :: "'k \<Rightarrow> 'v \<Rightarrow> ('k, 'v) dict \<Rightarrow> ('k, 'v) dict" where
  "dict_set k v d = AList.update k v d"

definition dict_del :: "'k \<Rightarrow> ('k, 'v) dict \<Rightarrow> ('k, 'v) dict" where
  "dict_del k d = AList.delete k d"

definition dict_wf :: "('k, 'v) dict \<Rightarrow> bool" where
  "dict_wf d \<longleftrightarrow> distinct (map fst d)"

abbreviation dict_keys :: "('k, 'v) dict \<Rightarrow> 'k list" where
  "dict_keys d \<equiv> map fst d"

abbreviation dict_values :: "('k, 'v) dict \<Rightarrow> 'v list" where
  "dict_values d \<equiv> map snd d"

lemma dict_get_empty [simp]: "dict_get [] k = None"
  by (simp add: dict_get_def)

lemma dict_get_set [simp]:
  "dict_get (dict_set k v d) k' = (if k' = k then Some v else dict_get d k')"
  by (simp add: dict_get_def dict_set_def update_conv)

lemma dict_get_del [simp]:
  "dict_get (dict_del k d) k' = (if k' = k then None else dict_get d k')"
  by (simp add: dict_get_def dict_del_def delete_conv)

lemma dict_get_None_iff: "dict_get d k = None \<longleftrightarrow> k \<notin> set (dict_keys d)"
  by (simp add: dict_get_def map_of_eq_None_iff)

lemma dict_get_mem: "dict_get d k = Some v \<Longrightarrow> (k, v) \<in> set d"
  by (simp add: dict_get_def map_of_SomeD)

lemma dict_get_key: "dict_get d k = Some v \<Longrightarrow> k \<in> set (dict_keys d)"
  by (force dest: dict_get_mem)

lemma dict_mem_get: "dict_wf d \<Longrightarrow> (k, v) \<in> set d \<longleftrightarrow> dict_get d k = Some v"
  by (simp add: dict_wf_def dict_get_def)

lemma dict_wf_empty [simp]: "dict_wf []"
  by (simp add: dict_wf_def)

lemma dict_wf_set [simp, linx_inv]: "dict_wf d \<Longrightarrow> dict_wf (dict_set k v d)"
  by (simp add: dict_wf_def dict_set_def distinct_update)

lemma dict_wf_del [simp, linx_inv]: "dict_wf d \<Longrightarrow> dict_wf (dict_del k d)"
  by (simp add: dict_wf_def dict_del_def distinct_delete)

lemma dict_keys_set:
  "set (dict_keys (dict_set k v d)) = insert k (set (dict_keys d))"
  using dom_update[of k v d] by (simp add: dict_set_def dom_map_of_conv_image_fst)

lemma dict_keys_del: "set (dict_keys (dict_del k d)) = set (dict_keys d) - {k}"
  by (simp add: dict_del_def delete_keys del: set_map)

lemma length_dict_set:
  "length (dict_set k v d) = (if k \<in> set (dict_keys d) then length d else Suc (length d))"
  by (induction d) (auto simp: dict_set_def)

lemma length_dict_del_le: "length (dict_del k d) \<le> length d"
  by (simp add: dict_del_def length_delete_le)

lemma length_dict_del:
  assumes "dict_wf d" and "k \<in> set (dict_keys d)"
  shows "Suc (length (dict_del k d)) = length d"
proof -
  have "card (set (dict_keys d)) = length d" if "dict_wf d" for d :: "('a, 'b) dict"
    using that by (metis dict_wf_def distinct_card length_map)
  moreover have "card (set (dict_keys d)) > 0"
    using assms(2) by (metis card_gt_0_iff empty_iff List.finite_set)
  ultimately show ?thesis
    using assms by (metis card_Suc_Diff1 dict_keys_del dict_wf_del List.finite_set)
qed

text \<open>Removing several keys one after another, as the code's clean-up loops do.\<close>

definition dict_del_all :: "'k list \<Rightarrow> ('k, 'v) dict \<Rightarrow> ('k, 'v) dict" where
  "dict_del_all ks d = fold dict_del ks d"

lemma dict_get_del_all:
  "dict_get (dict_del_all ks d) k = (if k \<in> set ks then None else dict_get d k)"
  unfolding dict_del_all_def by (induction ks arbitrary: d) auto

lemma dict_wf_del_all [simp, linx_inv]: "dict_wf d \<Longrightarrow> dict_wf (dict_del_all ks d)"
  unfolding dict_del_all_def by (induction ks arbitrary: d) auto

subsection \<open>First occurrences, minima and stable sorting\<close>

text \<open>\<open>dict.fromkeys(xs)\<close>: the elements in the order of their first occurrence.\<close>

definition dedup :: "'a list \<Rightarrow> 'a list" where
  "dedup xs = rev (remdups (rev xs))"

lemma set_dedup [simp]: "set (dedup xs) = set xs"
  by (simp add: dedup_def)

lemma distinct_dedup [simp]: "distinct (dedup xs)"
  by (simp add: dedup_def)

lemma dedup_id: "distinct xs \<Longrightarrow> dedup xs = xs"
  by (simp add: dedup_def distinct_remdups_id)

text \<open>\<open>min(xs, key=f)\<close>: the first element whose key is least; \<open>ValueError\<close> on \<open>[]\<close> is \<open>None\<close>.\<close>

fun min_by :: "('a \<Rightarrow> 'b::linorder) \<Rightarrow> 'a list \<Rightarrow> 'a option" where
  "min_by f [] = None"
| "min_by f (x # xs) =
     (case min_by f xs of None \<Rightarrow> Some x | Some y \<Rightarrow> if f x \<le> f y then Some x else Some y)"

lemma min_by_None [simp]: "min_by f xs = None \<longleftrightarrow> xs = []"
  by (cases xs) (auto split: option.splits)

lemma min_by_in: "min_by f xs = Some x \<Longrightarrow> x \<in> set xs"
  by (induction xs arbitrary: x) (auto split: option.splits if_splits)

lemma min_by_le: "min_by f xs = Some x \<Longrightarrow> y \<in> set xs \<Longrightarrow> f x \<le> f y"
  by (induction xs arbitrary: x) (fastforce split: option.splits if_splits)+

text \<open>\<open>max(xs, key=f)\<close>: the first element whose key is greatest.\<close>

fun max_by :: "('a \<Rightarrow> 'b::linorder) \<Rightarrow> 'a list \<Rightarrow> 'a option" where
  "max_by f [] = None"
| "max_by f (x # xs) =
     (case max_by f xs of None \<Rightarrow> Some x | Some y \<Rightarrow> if f y \<le> f x then Some x else Some y)"

lemma max_by_None [simp]: "max_by f xs = None \<longleftrightarrow> xs = []"
  by (cases xs) (auto split: option.splits)

lemma max_by_in: "max_by f xs = Some x \<Longrightarrow> x \<in> set xs"
  by (induction xs arbitrary: x) (auto split: option.splits if_splits)

lemma max_by_ge: "max_by f xs = Some x \<Longrightarrow> y \<in> set xs \<Longrightarrow> f y \<le> f x"
  by (induction xs arbitrary: x) (fastforce split: option.splits if_splits)+

text \<open>
  \<open>xs.sort(key=f, reverse=True)\<close> is stable: equal keys keep their order. On integer keys
  that is an ascending stable sort by the negated key.
\<close>

definition sort_desc :: "('a \<Rightarrow> int) \<Rightarrow> 'a list \<Rightarrow> 'a list" where
  "sort_desc f xs = sort_key (\<lambda>x. - f x) xs"

lemma set_sort_desc [simp]: "set (sort_desc f xs) = set xs"
  by (simp add: sort_desc_def)

subsection \<open>Strings\<close>

definition char_lower :: "char \<Rightarrow> char" where
  "char_lower c =
     (let n = (of_char c :: nat)
      in if (65 \<le> n \<and> n \<le> 90) \<or> (192 \<le> n \<and> n \<le> 222 \<and> n \<noteq> 215) then char_of (n + 32) else c)"

definition py_isspace :: "char \<Rightarrow> bool" where
  "py_isspace c =
     (let n = (of_char c :: nat)
      in (9 \<le> n \<and> n \<le> 13) \<or> (28 \<le> n \<and> n \<le> 32) \<or> n = 133 \<or> n = 160)"

definition py_lower :: "string \<Rightarrow> string" where
  "py_lower s = map char_lower s"

definition py_strip :: "string \<Rightarrow> string" where
  "py_strip s = rev (dropWhile py_isspace (rev (dropWhile py_isspace s)))"

text \<open>\<open>int(s)\<close> in base ten: white space around it, a sign, single underscores between digits.\<close>

fun int10_digits :: "nat \<Rightarrow> bool \<Rightarrow> string \<Rightarrow> nat option" where
  "int10_digits acc prev [] = (if prev then Some acc else None)"
| "int10_digits acc prev (c # cs) =
     (let n = (of_char c :: nat)
      in if n = 95 then (if prev then int10_digits acc False cs else None)
         else if 48 \<le> n \<and> n \<le> 57 then int10_digits (10 * acc + (n - 48)) True cs
         else None)"

definition py_int10 :: "string \<Rightarrow> int option" where
  "py_int10 s =
     (case py_strip s of
        [] \<Rightarrow> None
      | c # cs \<Rightarrow>
          if c = CHR ''-'' then map_option (\<lambda>n. - int n) (int10_digits 0 False cs)
          else if c = CHR ''+'' then map_option int (int10_digits 0 False cs)
          else map_option int (int10_digits 0 False (c # cs)))"

text \<open>\<open>str(value or "").strip().lower()\<close> on an optional string.\<close>

definition norm_str :: "string option \<Rightarrow> string" where
  "norm_str v = py_lower (py_strip (case v of None \<Rightarrow> [] | Some s \<Rightarrow> s))"

text \<open>\<open>needle in hay\<close> on strings.\<close>

fun py_substr :: "string \<Rightarrow> string \<Rightarrow> bool" where
  "py_substr needle [] = (needle = [])"
| "py_substr needle (c # cs) =
     (take (length needle) (c # cs) = needle \<or> py_substr needle cs)"

end
