(* ===== verification/Dep_Graph.thy ===== *)
theory Dep_Graph
  imports LinX_Prelude
begin

section \<open>Dependency maps and cycle checks\<close>

text \<open>
  The three places of the backend that order work by dependencies (the task manager, the
  skill library, the project task editor) all keep a dictionary from an item to the list of
  items it depends on, read with \<open>dependencies.get(item, [])\<close>. This theory holds that view of
  the dictionary as a graph, the facts about closed sets and cycles that their depth-first
  searches share, and the contract a cycle check offers to a scheduler.
\<close>

type_synonym 'n depmap = "('n, 'n list) dict"

definition deps_of :: "'n depmap \<Rightarrow> 'n \<Rightarrow> 'n list" where
  "deps_of g n = (case dict_get g n of None \<Rightarrow> [] | Some ds \<Rightarrow> ds)"

definition dep_edges :: "'n depmap \<Rightarrow> ('n \<times> 'n) set" where
  "dep_edges g = {(n, d). d \<in> set (deps_of g n)}"

lemma dep_edges_iff [simp]: "(n, d) \<in> dep_edges g \<longleftrightarrow> d \<in> set (deps_of g n)"
  by (simp add: dep_edges_def)

lemma deps_of_not_key [simp]: "n \<notin> set (dict_keys g) \<Longrightarrow> deps_of g n = []"
  by (metis deps_of_def dict_get_None_iff option.simps(4))

lemma dep_edges_key: "d \<in> set (deps_of g n) \<Longrightarrow> n \<in> set (dict_keys g)"
  by (metis deps_of_not_key empty_iff empty_set)

lemma finite_dep_edges [simp]: "finite (dep_edges g)"
proof -
  have "dep_edges g \<subseteq> (SIGMA n : set (dict_keys g). set (deps_of g n))"
    by (auto dest!: dep_edges_key)
  then show ?thesis by (rule finite_subset) auto
qed

text \<open>The part of the graph that a search from \<open>roots\<close> sees.\<close>

definition reach_edges :: "('n \<times> 'n) set \<Rightarrow> 'n set \<Rightarrow> ('n \<times> 'n) set" where
  "reach_edges E roots = {(n, d) \<in> E. n \<in> E\<^sup>* `` roots}"

lemma reach_edges_subset: "reach_edges E roots \<subseteq> E"
  by (auto simp: reach_edges_def)

lemma reach_edges_step:
  "n \<in> roots \<Longrightarrow> (n, d) \<in> E \<Longrightarrow> (n, d) \<in> reach_edges E roots"
  by (auto simp: reach_edges_def)

lemma reach_edges_trancl:
  assumes "r \<in> roots" and "(r, x) \<in> E\<^sup>*" and "(x, y) \<in> E\<^sup>+"
  shows "(x, y) \<in> (reach_edges E roots)\<^sup>+"
  using assms(3)
proof (induction rule: trancl_induct)
  case (base y)
  with assms show ?case by (auto simp: reach_edges_def)
next
  case (step y z)
  from assms(2) step.hyps(1) have "(r, y) \<in> E\<^sup>*" by (meson rtrancl_trans trancl_into_rtrancl)
  with assms(1) step.hyps(2) have "(y, z) \<in> reach_edges E roots" by (auto simp: reach_edges_def)
  with step.IH show ?case by (rule trancl_into_trancl)
qed

lemma reach_edges_cycle_iff:
  "\<not> acyclic (reach_edges E roots) \<longleftrightarrow> (\<exists>r \<in> roots. \<exists>x. (r, x) \<in> E\<^sup>* \<and> (x, x) \<in> E\<^sup>+)"
proof
  assume "\<not> acyclic (reach_edges E roots)"
  then obtain x where x: "(x, x) \<in> (reach_edges E roots)\<^sup>+" by (auto simp: acyclic_def)
  then obtain y where "(x, y) \<in> reach_edges E roots" by (meson tranclD)
  then obtain r where "r \<in> roots" "(r, x) \<in> E\<^sup>*" by (auto simp: reach_edges_def)
  moreover have "(x, x) \<in> E\<^sup>+" using x by (rule trancl_mono) (rule reach_edges_subset)
  ultimately show "\<exists>r \<in> roots. \<exists>x. (r, x) \<in> E\<^sup>* \<and> (x, x) \<in> E\<^sup>+" by blast
next
  assume "\<exists>r \<in> roots. \<exists>x. (r, x) \<in> E\<^sup>* \<and> (x, x) \<in> E\<^sup>+"
  then show "\<not> acyclic (reach_edges E roots)"
    by (auto simp: acyclic_def intro: reach_edges_trancl)
qed

subsection \<open>Closed sets of finished nodes\<close>

text \<open>
  A depth-first search leaves behind a set of finished nodes that is closed under edges and
  free of cycles; finishing one more node whose successors are finished keeps both.
\<close>

definition finished :: "('n \<times> 'n) set \<Rightarrow> 'n set \<Rightarrow> bool" where
  "finished E S \<longleftrightarrow> E `` S \<subseteq> S \<and> (\<forall>x \<in> S. (x, x) \<notin> E\<^sup>+)"

lemma finished_empty [simp]: "finished E {}"
  by (simp add: finished_def)

lemma closed_rtrancl: "E `` S \<subseteq> S \<Longrightarrow> x \<in> S \<Longrightarrow> (x, y) \<in> E\<^sup>* \<Longrightarrow> y \<in> S"
  by (metis Image_closed_trancl Image_iff)

lemma closed_trancl: "E `` S \<subseteq> S \<Longrightarrow> x \<in> S \<Longrightarrow> (x, y) \<in> E\<^sup>+ \<Longrightarrow> y \<in> S"
  by (meson closed_rtrancl trancl_into_rtrancl)

lemma finished_insert:
  assumes "finished E S" and "E `` {d} \<subseteq> S"
  shows "finished E (insert d S)"
proof (cases "d \<in> S")
  case True
  with assms(1) show ?thesis by (simp add: insert_absorb)
next
  case False
  have "(d, d) \<notin> E\<^sup>+"
  proof
    assume "(d, d) \<in> E\<^sup>+"
    then obtain s where "(d, s) \<in> E" "(s, d) \<in> E\<^sup>*" by (meson tranclD)
    with assms have "d \<in> S" by (auto simp: finished_def dest: closed_rtrancl)
    with False show False ..
  qed
  with assms show ?thesis by (auto simp: finished_def)
qed

lemma finished_no_cycle:
  "finished E S \<Longrightarrow> r \<in> S \<Longrightarrow> (r, x) \<in> E\<^sup>* \<Longrightarrow> (x, x) \<notin> E\<^sup>+"
  by (auto simp: finished_def dest: closed_rtrancl)

subsection \<open>Dependency order\<close>

text \<open>Every item of the list stands after the items it depends on.\<close>

definition in_dep_order :: "('n \<Rightarrow> 'n set) \<Rightarrow> 'n list \<Rightarrow> bool" where
  "in_dep_order D xs \<longleftrightarrow> (\<forall>i < length xs. D (xs ! i) \<subseteq> set (take i xs))"

lemma in_dep_order_Nil [simp]: "in_dep_order D []"
  by (simp add: in_dep_order_def)

lemma in_dep_order_snoc:
  "in_dep_order D (xs @ [x]) \<longleftrightarrow> in_dep_order D xs \<and> D x \<subseteq> set xs"
  by (auto simp: in_dep_order_def nth_append less_Suc_eq)

lemma in_dep_order_finished:
  "in_dep_order (\<lambda>n. set (deps_of g n)) xs \<Longrightarrow> finished (dep_edges g) (set xs)"
proof (induction xs rule: rev_induct)
  case (snoc x xs)
  then have "finished (dep_edges g) (insert x (set xs))"
    by (intro finished_insert) (auto simp: in_dep_order_snoc dep_edges_def)
  then show ?case by simp
qed simp

subsection \<open>The contract of a cycle check\<close>

text \<open>
  What a scheduler relies on: the check answers exactly whether the finite graph it looks at
  has a cycle. Then a negative answer means that the edges are well-founded, that any set of
  unfinished items holds one whose dependencies are all outside it (work never dead-locks),
  and that no item waits for itself.
\<close>

locale cycle_check =
  fixes edges :: "'g \<Rightarrow> ('n \<times> 'n) set"
    and cyclic :: "'g \<Rightarrow> bool"
  assumes finite_edges: "finite (edges g)"
    and cyclic_iff: "cyclic g \<longleftrightarrow> \<not> acyclic (edges g)"
begin

lemma passes_wf: "\<not> cyclic g \<Longrightarrow> wf ((edges g)\<inverse>)"
  using cyclic_iff finite_edges by (simp add: finite_acyclic_wf_converse)

lemma passes_ready:
  assumes "\<not> cyclic g" and "P \<noteq> {}"
  shows "\<exists>x \<in> P. \<forall>d. (x, d) \<in> edges g \<longrightarrow> d \<notin> P"
proof -
  from assms(2) obtain p where "p \<in> P" by blast
  with passes_wf[OF assms(1)] obtain x where "x \<in> P" and "\<And>d. (d, x) \<in> (edges g)\<inverse> \<Longrightarrow> d \<notin> P"
    by (metis wfE_min)
  then show ?thesis by auto
qed

lemma passes_irrefl: "\<not> cyclic g \<Longrightarrow> (x, x) \<notin> (edges g)\<^sup>+"
  using cyclic_iff by (simp add: acyclic_def)

lemma rejects_cycle: "cyclic g \<Longrightarrow> \<exists>x. (x, x) \<in> (edges g)\<^sup>+"
  using cyclic_iff by (simp add: acyclic_def)

end

end
