(* ===== verification/Task_Graph.thy ===== *)
theory Task_Graph
  imports Dep_Graph
begin

section \<open>Task dependency resolution (\<open>task_manager/dependency_resolver.py\<close>)\<close>

text \<open>
  \<open>DependencyResolver._has_cycles\<close> is a depth-first search that keeps the visited nodes and
  the recursion stack in two sets shared by the nested calls; they are passed and returned
  here, for items of any type (\<open>Skill_Deps\<close> relates its own search to this one). \<open>hc_deps\<close> is the \<open>for\<close> loop of \<open>visit\<close> over a dependency list with the nested
  call written out, \<open>hc_visit\<close> is \<open>visit\<close> itself, \<open>hc_tasks\<close> the loop over all tasks.
\<close>

record dependency_graph =
  dg_tasks :: "uuid list"
  dg_dependencies :: "uuid depmap"
  dg_execution_order :: "uuid list"
  dg_has_cycles :: bool

function hc_deps :: "'n depmap \<Rightarrow> 'n list \<Rightarrow> 'n set \<Rightarrow> 'n set \<Rightarrow> bool \<times> 'n set \<times> 'n set" where
  "hc_deps g [] vis rec = (False, vis, rec)"
| "hc_deps g (d # ds) vis rec =
     (if d \<notin> vis then
        (case hc_deps g (deps_of g d) (insert d vis) (insert d rec) of
           (found, vis', rec') \<Rightarrow>
             if found then (True, vis', rec') else hc_deps g ds vis' (rec' - {d}))
      else if d \<in> rec then (True, vis, rec)
      else hc_deps g ds vis rec)"
  by pat_completeness auto

lemma hc_deps_vis_mono_dom:
  "hc_deps_dom (g, ds, vis, rec) \<Longrightarrow> vis \<subseteq> fst (snd (hc_deps g ds vis rec))"
proof (induction rule: hc_deps.pinduct)
  case (1 g vis rec)
  then show ?case by (simp add: hc_deps.psimps)
next
  case (2 g d ds vis rec)
  show ?case
  proof (cases "d \<in> vis")
    case True
    with 2 show ?thesis by (simp add: hc_deps.psimps)
  next
    case False
    obtain f v r where c: "hc_deps g (deps_of g d) (insert d vis) (insert d rec) = (f, v, r)"
      by (metis prod_cases3)
    from "2.IH"(1)[OF False] c have "insert d vis \<subseteq> v" by simp
    moreover have "v \<subseteq> fst (snd (hc_deps g ds v (r - {d})))" if "\<not> f"
      using "2.IH"(2)[OF False c[symmetric] refl] that by simp
    ultimately show ?thesis using False c 2 by (auto simp: hc_deps.psimps)
  qed
qed

termination hc_deps
proof (relation "inv_image (finite_psubset <*lex*> less_than)
    (\<lambda>(g, ds, vis, rec). (set (dict_keys g) - vis, length ds))", goal_cases)
  case 1
  show ?case by (rule wf_inv_image) (simp add: wf_lex_prod wf_finite_psubset)
next
  case (2 g d ds vis rec)
  then show ?case by (cases "d \<in> set (dict_keys g)") (auto simp: finite_psubset_def)
next
  case (3 g d ds vis rec f p v r)
  then have c: "hc_deps g (deps_of g d) (insert d vis) (insert d rec) = (f, v, r)" by simp
  have "vis \<subseteq> v"
    using hc_deps_vis_mono_dom[of g "deps_of g d" "insert d vis" "insert d rec"] 3 c by auto
  then show ?case by (auto simp: finite_psubset_def)
next
  case (4 g d ds vis rec)
  then show ?case by simp
qed

definition hc_visit :: "'n depmap \<Rightarrow> 'n \<Rightarrow> 'n set \<Rightarrow> 'n set \<Rightarrow> bool \<times> 'n set \<times> 'n set" where
  "hc_visit g t vis rec =
     (case hc_deps g (deps_of g t) (insert t vis) (insert t rec) of
        (found, vis', rec') \<Rightarrow> if found then (True, vis', rec') else (False, vis', rec' - {t}))"

fun hc_tasks :: "'n depmap \<Rightarrow> 'n list \<Rightarrow> 'n set \<Rightarrow> 'n set \<Rightarrow> bool" where
  "hc_tasks g [] vis rec = False"
| "hc_tasks g (t # ts) vis rec =
     (if t \<notin> vis then
        (case hc_visit g t vis rec of
           (found, vis', rec') \<Rightarrow> if found then True else hc_tasks g ts vis' rec')
      else hc_tasks g ts vis rec)"

definition has_cycles :: "uuid list \<Rightarrow> uuid depmap \<Rightarrow> bool" where
  "has_cycles tasks dependencies = hc_tasks dependencies tasks {} {}"

subsection \<open>The search is exact\<close>

lemma hc_deps_Cons:
  "hc_deps g (d # ds) vis rec =
     (if d \<notin> vis then
        (case hc_visit g d vis rec of
           (found, vis', rec') \<Rightarrow> if found then (True, vis', rec') else hc_deps g ds vis' rec')
      else if d \<in> rec then (True, vis, rec)
      else hc_deps g ds vis rec)"
  by (auto simp: hc_visit_def split: prod.splits)

lemma hc_deps_rec_subset: "hc_deps g ds vis rec = (False, v, r) \<Longrightarrow> r \<subseteq> rec"
proof (induction g ds vis rec arbitrary: v r rule: hc_deps.induct)
  case (1 g vis rec)
  then show ?case by simp
next
  case (2 g d ds vis rec)
  then show ?case by (fastforce split: prod.splits if_splits)
qed

lemma hc_deps_sound:
  assumes "hc_deps g ds vis rec = (True, v, r)"
    and "\<forall>s \<in> rec. \<forall>d \<in> set ds. (s, d) \<in> (dep_edges g)\<^sup>+"
  shows "\<exists>d \<in> set ds. \<exists>x. (d, x) \<in> (dep_edges g)\<^sup>* \<and> (x, x) \<in> (dep_edges g)\<^sup>+"
  using assms
proof (induction g ds vis rec arbitrary: v r rule: hc_deps.induct)
  case (1 g vis rec)
  then show ?case by simp
next
  case (2 g d ds vis rec)
  show ?case
  proof (cases "d \<in> vis")
    case True
    show ?thesis
    proof (cases "d \<in> rec")
      case True
      with "2.prems"(2) have "(d, d) \<in> (dep_edges g)\<^sup>+" by auto
      then show ?thesis by auto
    next
      case False
      with 2 True show ?thesis by fastforce
    qed
  next
    case False
    obtain f v1 r1 where c: "hc_deps g (deps_of g d) (insert d vis) (insert d rec) = (f, v1, r1)"
      by (metis prod_cases3)
    show ?thesis
    proof (cases f)
      case True
      have "\<forall>s \<in> insert d rec. \<forall>e \<in> set (deps_of g d). (s, e) \<in> (dep_edges g)\<^sup>+"
        using "2.prems"(2) by (auto intro: trancl_into_trancl)
      with "2.IH"(1)[OF False] c True
      have "\<exists>e \<in> set (deps_of g d). \<exists>x. (e, x) \<in> (dep_edges g)\<^sup>* \<and> (x, x) \<in> (dep_edges g)\<^sup>+"
        by auto
      then obtain e x where "e \<in> set (deps_of g d)" "(e, x) \<in> (dep_edges g)\<^sup>*" "(x, x) \<in> (dep_edges g)\<^sup>+"
        by blast
      moreover from this have "(d, x) \<in> (dep_edges g)\<^sup>*"
        by (meson converse_rtrancl_into_rtrancl dep_edges_iff)
      ultimately show ?thesis by auto
    next
      case nf: False
      with c have "r1 \<subseteq> insert d rec" using hc_deps_rec_subset by simp
      then have "r1 - {d} \<subseteq> rec" by auto
      with "2.prems"(2) have "\<forall>s \<in> r1 - {d}. \<forall>e \<in> set ds. (s, e) \<in> (dep_edges g)\<^sup>+" by auto
      with "2.IH"(2)[OF False c[symmetric] refl nf] "2.prems"(1) False c nf
      show ?thesis by auto
    qed
  qed
qed

lemma hc_deps_complete:
  assumes "hc_deps g ds vis rec = (False, v, r)"
    and "rec \<subseteq> vis" and "finished (dep_edges g) (vis - rec)"
  shows "r = rec \<and> vis \<subseteq> v \<and> set ds \<subseteq> v - rec \<and> finished (dep_edges g) (v - rec)"
  using assms
proof (induction g ds vis rec arbitrary: v r rule: hc_deps.induct)
  case (1 g vis rec)
  then show ?case by simp
next
  case (2 g d ds vis rec)
  show ?case
  proof (cases "d \<in> vis")
    case True
    with "2.prems"(1) have "d \<notin> rec" by auto
    with True 2 show ?thesis by auto
  next
    case False
    with "2.prems"(2) have "d \<notin> rec" by auto
    obtain f v1 r1 where c: "hc_deps g (deps_of g d) (insert d vis) (insert d rec) = (f, v1, r1)"
      by (metis prod_cases3)
    with "2.prems"(1) False have nf: "\<not> f" by auto
    have "insert d vis - insert d rec = vis - rec" using False by auto
    with "2.IH"(1)[OF False] c nf "2.prems"
    have r1: "r1 = insert d rec" and v1: "insert d vis \<subseteq> v1"
      and ds1: "set (deps_of g d) \<subseteq> v1 - insert d rec"
      and f1: "finished (dep_edges g) (v1 - insert d rec)"
      by (metis insert_mono)+
    have "finished (dep_edges g) (insert d (v1 - insert d rec))"
      using f1 ds1 by (intro finished_insert) auto
    moreover have "insert d (v1 - insert d rec) = v1 - rec"
      using v1 \<open>d \<notin> rec\<close> by auto
    ultimately have "finished (dep_edges g) (v1 - rec)" by simp
    moreover have "r1 - {d} = rec" using r1 \<open>d \<notin> rec\<close> by auto
    moreover have "hc_deps g ds v1 (r1 - {d}) = (False, v, r)"
      using "2.prems"(1) False c nf by simp
    moreover have "rec \<subseteq> v1" using "2.prems"(2) v1 by auto
    ultimately have "r = rec \<and> v1 \<subseteq> v \<and> set ds \<subseteq> v - rec \<and> finished (dep_edges g) (v - rec)"
      using "2.IH"(2)[OF False c[symmetric] refl nf] by simp
    with v1 \<open>d \<notin> rec\<close> show ?thesis by auto
  qed
qed

lemma hc_tasks_hc_deps: "hc_tasks g ts vis {} = fst (hc_deps g ts vis {})"
proof (induction ts arbitrary: vis)
  case Nil
  then show ?case by simp
next
  case (Cons t ts)
  obtain f v r where c: "hc_visit g t vis {} = (f, v, r)" by (metis prod_cases3)
  then have "r = {}" if "\<not> f"
    using that hc_deps_rec_subset[of g "deps_of g t" "insert t vis" "{t}"]
    by (auto simp: hc_visit_def split: prod.splits if_splits)
  with c Cons show ?case by (simp add: hc_deps_Cons del: hc_deps.simps(2))
qed

lemma hc_tasks_iff:
  "hc_tasks g tasks {} {} \<longleftrightarrow> \<not> acyclic (reach_edges (dep_edges g) (set tasks))"
proof -
  obtain f v r where c: "hc_deps g tasks {} {} = (f, v, r)" by (metis prod_cases3)
  show ?thesis
  proof (cases f)
    case True
    with c hc_deps_sound[of g tasks "{}" "{}" v r] show ?thesis
      by (simp add: hc_tasks_hc_deps reach_edges_cycle_iff)
  next
    case False
    with c hc_deps_complete[of g tasks "{}" "{}" v r]
    have "finished (dep_edges g) v" and "set tasks \<subseteq> v" by auto
    then have "\<not> (\<exists>t \<in> set tasks. \<exists>x. (t, x) \<in> (dep_edges g)\<^sup>* \<and> (x, x) \<in> (dep_edges g)\<^sup>+)"
      by (meson finished_no_cycle subsetD)
    with c False show ?thesis
      by (simp add: hc_tasks_hc_deps reach_edges_cycle_iff)
  qed
qed

lemma has_cycles_iff:
  "has_cycles tasks g \<longleftrightarrow> \<not> acyclic (reach_edges (dep_edges g) (set tasks))"
  by (simp add: has_cycles_def hc_tasks_iff)

text \<open>The resolver's check offers the scheduler's contract, on the part of the graph it sees.\<close>

definition resolver_edges :: "uuid list \<times> uuid depmap \<Rightarrow> (uuid \<times> uuid) set" where
  "resolver_edges = (\<lambda>(tasks, g). reach_edges (dep_edges g) (set tasks))"

interpretation task_check: cycle_check resolver_edges "\<lambda>(tasks, g). has_cycles tasks g"
proof unfold_locales
  fix x :: "uuid list \<times> uuid depmap"
  show "finite (resolver_edges x)"
    by (cases x) (auto simp: resolver_edges_def intro: finite_subset[OF reach_edges_subset])
  show "(case x of (tasks, g) \<Rightarrow> has_cycles tasks g) = (\<not> acyclic (resolver_edges x))"
    by (cases x) (simp add: resolver_edges_def has_cycles_iff)
qed

subsection \<open>Kahn's algorithm\<close>

text \<open>
  \<open>_topological_sort\<close> keeps \<open>in_degree\<close>, a dictionary whose keys are the tasks; here it is a
  function read at tasks only. Counting raises \<open>KeyError\<close> when a key of \<open>dependencies\<close>
  that is no task depends on a task.
\<close>

fun count_deps :: "uuid list \<Rightarrow> uuid \<Rightarrow> uuid list \<Rightarrow> (uuid \<Rightarrow> int) \<Rightarrow> py_error + (uuid \<Rightarrow> int)" where
  "count_deps tasks t [] deg = Inr deg"
| "count_deps tasks t (d # ds) deg =
     (if d \<in> set tasks then
        (if t \<in> set tasks then count_deps tasks t ds (deg(t := deg t + 1)) else Inl KeyError)
      else count_deps tasks t ds deg)"

fun count_all :: "uuid list \<Rightarrow> uuid depmap \<Rightarrow> (uuid \<Rightarrow> int) \<Rightarrow> py_error + (uuid \<Rightarrow> int)" where
  "count_all tasks [] deg = Inr deg"
| "count_all tasks ((t, ds) # g) deg =
     (case count_deps tasks t ds deg of Inl e \<Rightarrow> Inl e | Inr deg' \<Rightarrow> count_all tasks g deg')"

fun ts_relax :: "uuid depmap \<Rightarrow> uuid \<Rightarrow> uuid list \<Rightarrow> (uuid \<Rightarrow> int) \<Rightarrow> uuid list \<Rightarrow> (uuid \<Rightarrow> int) \<times> uuid list" where
  "ts_relax g t [] deg queue = (deg, queue)"
| "ts_relax g t (u # us) deg queue =
     (if t \<in> set (deps_of g u) then
        let deg' = deg(u := deg u - 1)
        in ts_relax g t us deg' (if deg' u = 0 then queue @ [u] else queue)
      else ts_relax g t us deg queue)"

lemma ts_relax_measure:
  assumes "set us \<subseteq> A" and "finite A" and "ts_relax g t us deg q = (deg', q')"
  shows "card {x \<in> A. 0 < deg' x} + length q' \<le> card {x \<in> A. 0 < deg x} + length q"
  using assms
proof (induction us arbitrary: deg q)
  case Nil
  then show ?case by simp
next
  case (Cons u us)
  let ?d = "deg(u := deg u - 1)"
  show ?case
  proof (cases "t \<in> set (deps_of g u)")
    case False
    with Cons show ?thesis by simp
  next
    case True
    show ?thesis
    proof (cases "deg u = 1")
      case one: True
      then have "{x \<in> A. 0 < deg x} = insert u {x \<in> A. 0 < ?d x}"
        using Cons.prems(1) by auto
      moreover have "finite {x \<in> A. 0 < ?d x}" using Cons.prems(2) by (auto intro: finite_subset[of _ A])
      moreover have "u \<notin> {x \<in> A. 0 < ?d x}" using one by simp
      ultimately have "card {x \<in> A. 0 < deg x} = Suc (card {x \<in> A. 0 < ?d x})"
        by (metis (no_types, lifting) card_insert_disjoint)
      moreover have "ts_relax g t us ?d (q @ [u]) = (deg', q')"
        using Cons.prems(3) True one by (simp add: Let_def)
      from Cons.IH[OF _ Cons.prems(2) this] Cons.prems(1)
      have "card {x \<in> A. 0 < deg' x} + length q' \<le> card {x \<in> A. 0 < ?d x} + length (q @ [u])"
        by (simp del: fun_upd_apply)
      ultimately show ?thesis by simp
    next
      case False
      then have "{x \<in> A. 0 < ?d x} = {x \<in> A. 0 < deg x}" by auto
      moreover have "ts_relax g t us ?d q = (deg', q')"
        using Cons.prems(3) True False by (simp add: Let_def)
      from Cons.IH[OF _ Cons.prems(2) this] Cons.prems(1)
      have "card {x \<in> A. 0 < deg' x} + length q' \<le> card {x \<in> A. 0 < ?d x} + length q"
        by (simp del: fun_upd_apply)
      ultimately show ?thesis by simp
    qed
  qed
qed

function ts_loop :: "uuid list \<Rightarrow> uuid depmap \<Rightarrow> (uuid \<Rightarrow> int) \<Rightarrow> uuid list \<Rightarrow> uuid list \<Rightarrow> uuid list" where
  "ts_loop tasks g deg [] result = result"
| "ts_loop tasks g deg (t # queue) result =
     (case ts_relax g t tasks deg queue of
        (deg', queue') \<Rightarrow> ts_loop tasks g deg' queue' (result @ [t]))"
  by pat_completeness auto

termination
proof (relation "measure (\<lambda>(tasks, g, deg, queue, result).
    card {x \<in> set tasks. 0 < deg x} + length queue)", goal_cases)
  case 1
  show ?case by simp
next
  case (2 tasks g deg t queue result deg' queue')
  then show ?case
    using ts_relax_measure[of tasks "set tasks" g t deg queue deg' queue'] by simp
qed

definition topological_sort :: "uuid list \<Rightarrow> uuid depmap \<Rightarrow> py_error + uuid list" where
  "topological_sort tasks dependencies =
     (case count_all tasks dependencies (\<lambda>_. 0) of
        Inl e \<Rightarrow> Inl e
      | Inr deg \<Rightarrow>
          Inr (ts_loop tasks dependencies deg (filter (\<lambda>t. deg t = 0) (dedup tasks)) []))"

definition resolve_dependencies :: "uuid list \<Rightarrow> uuid depmap \<Rightarrow> py_error + dependency_graph" where
  "resolve_dependencies tasks dependencies =
     (if has_cycles tasks dependencies then
        Inr \<lparr>dg_tasks = tasks, dg_dependencies = dependencies,
             dg_execution_order = tasks, dg_has_cycles = True\<rparr>
      else
        (case topological_sort tasks dependencies of
           Inl e \<Rightarrow> Inl e
         | Inr order \<Rightarrow>
             Inr \<lparr>dg_tasks = tasks, dg_dependencies = dependencies,
                  dg_execution_order = order, dg_has_cycles = False\<rparr>))"

definition get_ready_tasks :: "uuid list \<Rightarrow> uuid depmap \<Rightarrow> uuid set \<Rightarrow> uuid list" where
  "get_ready_tasks all_tasks dependencies completed =
     filter (\<lambda>t. t \<notin> completed \<and> list_all (\<lambda>d. d \<in> completed) (deps_of dependencies t)) all_tasks"

subsection \<open>What the order guarantees\<close>

text \<open>
  The calls of the task manager pass each task once, a dependency list for tasks only, and
  each dependency once. Under these the in-degree of a task is the number of its unplaced
  dependencies, and the loop places a task exactly when that number is zero.
\<close>

definition graph_ok :: "uuid list \<Rightarrow> uuid depmap \<Rightarrow> bool" where
  "graph_ok tasks g \<longleftrightarrow> distinct tasks \<and> dict_wf g \<and> set (dict_keys g) \<subseteq> set tasks
     \<and> list_all distinct (dict_values g)"

definition task_deps :: "uuid list \<Rightarrow> uuid depmap \<Rightarrow> uuid \<Rightarrow> uuid set" where
  "task_deps tasks g t = set (deps_of g t) \<inter> set tasks"

lemma finite_task_deps [simp]: "finite (task_deps tasks g t)"
  by (simp add: task_deps_def)

lemma graph_ok_distinct_deps: "graph_ok tasks g \<Longrightarrow> distinct (deps_of g t)"
  by (auto simp: graph_ok_def deps_of_def list_all_iff split: option.splits dest!: dict_get_mem)

lemma count_deps_Inr:
  "t \<in> set tasks \<Longrightarrow>
   count_deps tasks t ds deg =
     Inr (deg(t := deg t + int (length (filter (\<lambda>d. d \<in> set tasks) ds))))"
  by (induction ds arbitrary: deg) (auto simp: fun_eq_iff)

lemma deps_of_Cons: "deps_of ((t, ds) # g) x = (if x = t then ds else deps_of g x)"
  by (simp add: deps_of_def dict_get_def)

lemma count_all_Inr:
  assumes "dict_wf g" and "set (dict_keys g) \<subseteq> set tasks"
  shows "count_all tasks g deg =
     Inr (\<lambda>t. deg t + int (length (filter (\<lambda>d. d \<in> set tasks) (deps_of g t))))"
  using assms
proof (induction g arbitrary: deg)
  case Nil
  then show ?case by (simp add: deps_of_def)
next
  case (Cons p g)
  obtain t ds where p: "p = (t, ds)" by force
  with Cons.prems have t: "t \<in> set tasks" "t \<notin> set (dict_keys g)" "dict_wf g"
    "set (dict_keys g) \<subseteq> set tasks"
    by (auto simp: dict_wf_def)
  then have "deps_of g t = []" by (intro deps_of_not_key)
  with t p show ?case
    by (auto simp: count_deps_Inr Cons.IH deps_of_Cons fun_eq_iff simp del: set_map)
qed

lemma count_all_degree:
  assumes "graph_ok tasks g"
  shows "count_all tasks g (\<lambda>_. 0) = Inr (\<lambda>t. int (card (task_deps tasks g t)))"
proof -
  have "length (filter (\<lambda>d. d \<in> set tasks) (deps_of g t)) = card (task_deps tasks g t)" for t
    using distinct_card[of "filter (\<lambda>d. d \<in> set tasks) (deps_of g t)"]
      graph_ok_distinct_deps[OF assms, of t]
    by (simp add: task_deps_def Int_def)
  with assms show ?thesis by (simp add: count_all_Inr graph_ok_def)
qed

lemma ts_relax_eq:
  "distinct us \<Longrightarrow> ts_relax g t us deg q =
     ((\<lambda>u. if u \<in> set us \<and> t \<in> set (deps_of g u) then deg u - 1 else deg u),
      q @ filter (\<lambda>u. t \<in> set (deps_of g u) \<and> deg u = 1) us)"
proof (induction us arbitrary: deg q)
  case Nil
  then show ?case by simp
next
  case (Cons u us)
  then have "filter (\<lambda>x. t \<in> set (deps_of g x) \<and> (deg(u := deg u - 1)) x = 1) us
      = filter (\<lambda>x. t \<in> set (deps_of g x) \<and> deg x = 1) us"
    by (intro filter_cong) auto
  with Cons show ?case by (auto simp: Let_def fun_eq_iff)
qed

definition kahn_inv :: "uuid list \<Rightarrow> uuid depmap \<Rightarrow> (uuid \<Rightarrow> int) \<Rightarrow> uuid list \<Rightarrow> uuid list \<Rightarrow> bool" where
  "kahn_inv tasks g deg queue result \<longleftrightarrow>
     distinct (result @ queue)
     \<and> set (result @ queue) = {u \<in> set tasks. deg u = 0}
     \<and> (\<forall>u \<in> set tasks. deg u = int (card (task_deps tasks g u - set result)))
     \<and> in_dep_order (task_deps tasks g) result"

lemma kahn_inv_init:
  assumes "distinct tasks" and "\<forall>u \<in> set tasks. deg u = int (card (task_deps tasks g u))"
  shows "kahn_inv tasks g deg (filter (\<lambda>t. deg t = 0) (dedup tasks)) []"
  using assms by (auto simp: kahn_inv_def dedup_id)

lemma kahn_inv_step:
  assumes "distinct tasks" and inv: "kahn_inv tasks g deg (t # queue) result"
    and "ts_relax g t tasks deg queue = (deg', queue')"
  shows "kahn_inv tasks g deg' queue' (result @ [t])"
proof -
  let ?new = "filter (\<lambda>u. t \<in> set (deps_of g u) \<and> deg u = 1) tasks"
  have deg': "deg' = (\<lambda>u. if u \<in> set tasks \<and> t \<in> set (deps_of g u) then deg u - 1 else deg u)"
    and queue': "queue' = queue @ ?new"
    using assms(3) ts_relax_eq[OF assms(1)] by auto
  have deg: "\<And>u. u \<in> set tasks \<Longrightarrow> deg u = int (card (task_deps tasks g u - set result))"
    and zero: "set (result @ t # queue) = {u \<in> set tasks. deg u = 0}"
    and dist: "distinct (result @ t # queue)" and ord: "in_dep_order (task_deps tasks g) result"
    using inv by (auto simp: kahn_inv_def)
  have t: "t \<in> set tasks" "deg t = 0" "t \<notin> set result" using zero dist by auto
  have dep: "deg u = 1 + int (card (task_deps tasks g u - set (result @ [t])))"
    if "u \<in> set tasks" "t \<in> set (deps_of g u)" for u
  proof -
    have "t \<in> task_deps tasks g u - set result" using that t by (simp add: task_deps_def)
    moreover have "task_deps tasks g u - set (result @ [t]) = (task_deps tasks g u - set result) - {t}"
      by auto
    ultimately show ?thesis
      using deg[OF that(1)] card_Suc_Diff1[of "task_deps tasks g u - set result" t]
      by (metis finite_Diff finite_task_deps of_nat_Suc add.commute)
  qed
  then have pos: "\<forall>u \<in> set tasks. t \<in> set (deps_of g u) \<longrightarrow> deg u \<noteq> 0" by fastforce
  have nodep: "task_deps tasks g u - set (result @ [t]) = task_deps tasks g u - set result"
    if "t \<notin> set (deps_of g u)" for u
    using that by (auto simp: task_deps_def)
  have "distinct ((result @ [t]) @ queue')"
    using dist assms(1) zero by (auto simp: queue')
  moreover have "set ((result @ [t]) @ queue') = {u \<in> set tasks. deg' u = 0}"
    using zero pos t by (auto simp: queue' deg')
  moreover have "\<forall>u \<in> set tasks. deg' u = int (card (task_deps tasks g u - set (result @ [t])))"
    using dep deg nodep by (auto simp: deg')
  moreover have "task_deps tasks g t \<subseteq> set result"
    using deg[OF t(1)] t(2) by (simp add: Diff_eq_empty_iff)
  ultimately show ?thesis using ord by (simp add: kahn_inv_def in_dep_order_snoc)
qed

lemma ts_loop_inv:
  "distinct tasks \<Longrightarrow> kahn_inv tasks g deg queue result \<Longrightarrow>
   \<exists>deg'. kahn_inv tasks g deg' [] (ts_loop tasks g deg queue result)"
proof (induction tasks g deg queue result rule: ts_loop.induct)
  case (1 tasks g deg result)
  then show ?case by auto
next
  case (2 tasks g deg t queue result)
  then show ?case by (cases "ts_relax g t tasks deg queue") (simp add: kahn_inv_step)
qed

text \<open>When the loop ends on an acyclic graph nothing is left over.\<close>

lemma kahn_inv_complete:
  assumes "kahn_inv tasks g deg [] result" and "\<not> has_cycles tasks g"
  shows "set result = set tasks"
proof (rule ccontr)
  assume "set result \<noteq> set tasks"
  moreover have zero: "set result = {u \<in> set tasks. deg u = 0}"
    and deg: "\<And>u. u \<in> set tasks \<Longrightarrow> deg u = int (card (task_deps tasks g u - set result))"
    using assms(1) by (auto simp: kahn_inv_def)
  ultimately have "set tasks - set result \<noteq> {}" by auto
  with assms(2) task_check.passes_ready[of "(tasks, g)" "set tasks - set result"]
  obtain u where u: "u \<in> set tasks - set result"
    and nd: "\<forall>d. (u, d) \<in> resolver_edges (tasks, g) \<longrightarrow> d \<notin> set tasks - set result"
    by auto
  have "(u, d) \<in> resolver_edges (tasks, g)" if "d \<in> set (deps_of g u)" for d
    using u that by (simp add: resolver_edges_def reach_edges_step)
  with nd have "task_deps tasks g u \<subseteq> set result" by (auto simp: task_deps_def)
  then have "task_deps tasks g u - set result = {}" by auto
  with u deg have "deg u = 0" by simp
  with u zero show False by auto
qed

lemma topological_sort_ok:
  assumes "graph_ok tasks g" and "\<not> has_cycles tasks g"
  shows "\<exists>order. topological_sort tasks g = Inr order \<and> distinct order \<and> set order = set tasks
     \<and> in_dep_order (task_deps tasks g) order"
proof -
  let ?deg = "\<lambda>t. int (card (task_deps tasks g t))"
  let ?order = "ts_loop tasks g ?deg (filter (\<lambda>t. ?deg t = 0) (dedup tasks)) []"
  have "distinct tasks" using assms(1) by (simp add: graph_ok_def)
  then obtain deg' where inv: "kahn_inv tasks g deg' [] ?order"
    using ts_loop_inv[OF _ kahn_inv_init, of tasks ?deg g] by auto
  moreover have "topological_sort tasks g = Inr ?order"
    by (simp add: topological_sort_def count_all_degree[OF assms(1)])
  ultimately show ?thesis
    using kahn_inv_complete[OF inv assms(2)] by (auto simp: kahn_inv_def)
qed

lemma get_ready_tasks_iff:
  "t \<in> set (get_ready_tasks all g completed) \<longleftrightarrow>
     t \<in> set all \<and> t \<notin> completed \<and> set (deps_of g t) \<subseteq> completed"
  by (auto simp: get_ready_tasks_def list_all_iff)

subsection \<open>Properties\<close>

text \<open>C34: \<open>_has_cycles\<close> answers \<open>True\<close> exactly when some task can reach an item that depends
  on itself, directly or through other items; it always terminates.\<close>

theorem has_cycles_exact:
  "has_cycles tasks g \<longleftrightarrow>
     (\<exists>t x. t \<in> set tasks \<and> (t, x) \<in> (dep_edges g)\<^sup>* \<and> (x, x) \<in> (dep_edges g)\<^sup>+)"
  by (auto simp: has_cycles_iff reach_edges_cycle_iff)

text \<open>C2: \<open>resolve_dependencies\<close> on a well-formed request never raises. It flags a cycle exactly
  when there is one, and then returns the tasks as given; otherwise the execution order holds
  every task once, each after all the tasks it depends on.\<close>

theorem resolve_dependencies_order:
  assumes "graph_ok tasks g"
  shows "\<exists>r. resolve_dependencies tasks g = Inr r \<and> dg_tasks r = tasks \<and> dg_dependencies r = g
     \<and> dg_has_cycles r = (\<not> acyclic (resolver_edges (tasks, g)))
     \<and> (if dg_has_cycles r then dg_execution_order r = tasks
        else distinct (dg_execution_order r) \<and> set (dg_execution_order r) = set tasks
          \<and> in_dep_order (task_deps tasks g) (dg_execution_order r))"
proof (cases "has_cycles tasks g")
  case True
  then show ?thesis by (simp add: resolve_dependencies_def resolver_edges_def has_cycles_iff)
next
  case False
  from topological_sort_ok[OF assms False] obtain order where "topological_sort tasks g = Inr order"
    and "distinct order \<and> set order = set tasks \<and> in_dep_order (task_deps tasks g) order"
    by blast
  with False show ?thesis
    by (simp add: resolve_dependencies_def resolver_edges_def has_cycles_iff)
qed

theorem resolve_dependencies_order_witness:
  "graph_ok [1, 2, 3] [(1, [2, 3]), (2, [3])]
   \<and> (\<exists>r. resolve_dependencies [1, 2, 3] [(1, [2, 3]), (2, [3])] = Inr r
        \<and> in_dep_order (task_deps [1, 2, 3] [(1, [2, 3]), (2, [3])]) (dg_execution_order r))"
proof -
  have g: "graph_ok [1, 2, 3] [(1, [2, 3]), (2, [3])]"
    by (simp add: graph_ok_def dict_wf_def)
  moreover have "\<not> has_cycles [1, 2, 3] [(1, [2, 3]), (2, [3])]" by code_simp
  ultimately show ?thesis
    using resolve_dependencies_order[OF g] by (auto simp: resolver_edges_def has_cycles_iff)
qed

text \<open>The scheduler never dead-locks: as long as some task of an acyclic, closed graph is
  unfinished, \<open>get_ready_tasks\<close> returns a task, and what it returns are exactly the
  unfinished tasks all of whose dependencies are completed.\<close>

theorem get_ready_tasks_progress:
  assumes "\<not> has_cycles all_tasks g"
    and "t \<in> set all_tasks" and "t \<notin> completed"
    and "(dep_edges g) `` set all_tasks \<subseteq> set all_tasks"
  shows "get_ready_tasks all_tasks g completed \<noteq> []
     \<and> set (get_ready_tasks all_tasks g completed)
         = {u \<in> set all_tasks. u \<notin> completed \<and> set (deps_of g u) \<subseteq> completed}"
proof -
  let ?P = "set all_tasks - completed"
  obtain u where u: "u \<in> ?P" and nd: "\<forall>d. (u, d) \<in> resolver_edges (all_tasks, g) \<longrightarrow> d \<notin> ?P"
    using assms task_check.passes_ready[of "(all_tasks, g)" ?P] by auto
  have "d \<in> completed" if "d \<in> set (deps_of g u)" for d
  proof -
    have "(u, d) \<in> resolver_edges (all_tasks, g)"
      using u that by (simp add: resolver_edges_def reach_edges_step)
    with nd have "d \<notin> ?P" by blast
    moreover have "d \<in> set all_tasks" using assms(4) u that by (auto simp: dep_edges_def)
    ultimately show ?thesis by blast
  qed
  with u have "u \<in> set (get_ready_tasks all_tasks g completed)"
    by (auto simp: get_ready_tasks_iff)
  then have "get_ready_tasks all_tasks g completed \<noteq> []" by auto
  then show ?thesis using get_ready_tasks_iff by blast
qed

theorem get_ready_tasks_progress_witness:
  "get_ready_tasks [1, 2] [(2, [1])] {1} \<noteq> []"
proof -
  have "\<not> has_cycles [1, 2] [(2, [1])]" by code_simp
  moreover have "(dep_edges [(2, [1])]) `` set [1, 2] \<subseteq> set [1, 2 :: uuid]"
    by (auto simp: dep_edges_def deps_of_def dict_get_def split: if_splits)
  ultimately show ?thesis
    using get_ready_tasks_progress[of "[1, 2]" "[(2, [1])]" 2 "{1}"] by simp
qed

text \<open>
  Outside \<open>graph_ok\<close> the order is not a permutation: a dependency listed twice counts twice
  in the in-degree and is subtracted once, so the task is silently dropped; a key of the
  dictionary that is no task raises \<open>KeyError\<close>.
\<close>

lemma duplicate_dependency_drops_task:
  "resolve_dependencies [1, 2] [(2, [1, 1])] =
     Inr \<lparr>dg_tasks = [1, 2], dg_dependencies = [(2, [1, 1])],
          dg_execution_order = [1], dg_has_cycles = False\<rparr>"
  by code_simp

lemma foreign_key_raises: "resolve_dependencies [1] [(2, [1])] = Inl KeyError"
  by code_simp

end
