(* ===== verification/Py_Values.thy ===== *)
theory Py_Values
  imports LinX_Prelude
begin

section \<open>Python values and the standard library's conversions\<close>

text \<open>
  The dynamically typed values that JSON columns and attribute dictionaries hold, and the parts
  of the standard library the modelled code calls on strings: \<open>str\<close> on a natural number,
  \<open>str.replace(sub, "")\<close>, \<open>str\<close> on a \<open>uuid.UUID\<close> (32 hexadecimal digits in five groups) and
  \<open>uuid.UUID(text)\<close>, which strips \<open>urn:\<close>, \<open>uuid:\<close>, braces and dashes, requires 32 characters and
  reads them with \<open>int(text, 16)\<close>. The theorem \<open>parse_uuid_str\<close> is their round trip.
\<close>

datatype pyval =
    PNone
  | PBool bool
  | PInt int
  | PFloat real
  | PStr string
  | PList "pyval list"
  | PDict "(string \<times> pyval) list"

text \<open>Python's truth value of an object: what \<open>x or y\<close> and \<open>if x\<close> test.\<close>

fun py_truthy :: "pyval \<Rightarrow> bool" where
  "py_truthy PNone = False"
| "py_truthy (PBool b) = b"
| "py_truthy (PInt i) = (i \<noteq> 0)"
| "py_truthy (PFloat x) = (x \<noteq> 0)"
| "py_truthy (PStr s) = (s \<noteq> [])"
| "py_truthy (PList xs) = (xs \<noteq> [])"
| "py_truthy (PDict d) = (d \<noteq> [])"

text \<open>\<open>a or b\<close> on optional strings and on optional values.\<close>

definition str_or :: "string option \<Rightarrow> string option \<Rightarrow> string option" where
  "str_or a b = (case a of Some (c # cs) \<Rightarrow> a | _ \<Rightarrow> b)"

definition val_or :: "pyval option \<Rightarrow> pyval option \<Rightarrow> pyval option" where
  "val_or a b = (case a of Some v \<Rightarrow> if py_truthy v then a else b | None \<Rightarrow> b)"

fun nat_str :: "nat \<Rightarrow> string" where
  "nat_str n =
     (if n < 10 then [char_of (48 + n)] else nat_str (n div 10) @ [char_of (48 + n mod 10)])"

declare nat_str.simps [simp del]

fun py_remove :: "string \<Rightarrow> string \<Rightarrow> string" where
  "py_remove sub [] = []"
| "py_remove sub (c # cs) =
     (if sub \<noteq> [] \<and> take (length sub) (c # cs) = sub then py_remove sub (drop (length sub - 1) cs)
      else c # py_remove sub cs)"

lemma py_remove_absent: "c \<in> set sub \<Longrightarrow> c \<notin> set s \<Longrightarrow> py_remove sub s = s"
proof (induction s)
  case (Cons a s)
  then have "take (length sub) (a # s) \<noteq> sub" by (metis in_set_takeD)
  with Cons show ?case by simp
qed simp

subsection \<open>Hexadecimal digits\<close>

definition hex_digit :: "nat \<Rightarrow> char" where
  "hex_digit n = char_of (if n < 10 then 48 + n else 87 + n)"

definition hex_val :: "char \<Rightarrow> nat option" where
  "hex_val c =
     (let n = (of_char c :: nat)
      in if 48 \<le> n \<and> n \<le> 57 then Some (n - 48)
         else if 97 \<le> n \<and> n \<le> 102 then Some (n - 87)
         else if 65 \<le> n \<and> n \<le> 70 then Some (n - 55)
         else None)"

fun hex_fixed :: "nat \<Rightarrow> nat \<Rightarrow> string" where
  "hex_fixed 0 n = []"
| "hex_fixed (Suc k) n = hex_fixed k (n div 16) @ [hex_digit (n mod 16)]"

text \<open>The digits of \<open>int(text, 16)\<close>: single underscores may stand between two digits.\<close>

fun int16_digits :: "nat \<Rightarrow> bool \<Rightarrow> string \<Rightarrow> nat option" where
  "int16_digits acc prev [] = (if prev then Some acc else None)"
| "int16_digits acc prev (c # cs) =
     (if of_char c = (95 :: nat) then (if prev then int16_digits acc False cs else None)
      else (case hex_val c of None \<Rightarrow> None | Some v \<Rightarrow> int16_digits (16 * acc + v) True cs))"

text \<open>\<open>int(text, 16)\<close>: surrounding white space, a \<open>+\<close>, a prefix \<open>0x\<close> (a \<open>-\<close> never reaches it).\<close>

definition py_int16 :: "string \<Rightarrow> nat option" where
  "py_int16 s =
     (let s1 = py_strip s;
          s2 = (case s1 of c # cs \<Rightarrow> if c = CHR ''+'' then cs else s1 | [] \<Rightarrow> []);
          s3 = (if take 2 s2 = ''0x'' \<or> take 2 s2 = ''0X''
                then (case drop 2 s2 of c # cs \<Rightarrow> if of_char c = (95 :: nat) then cs else c # cs
                      | [] \<Rightarrow> [])
                else s2)
      in int16_digits 0 False s3)"

definition strip_braces :: "string \<Rightarrow> string" where
  "strip_braces s =
     (let b = (\<lambda>c. c = CHR ''{'' \<or> c = CHR ''}'')
      in rev (dropWhile b (rev (dropWhile b s))))"

definition parse_uuid :: "string \<Rightarrow> uuid option" where
  "parse_uuid text =
     (let h = filter (\<lambda>c. c \<noteq> CHR ''-'')
                (strip_braces (py_remove ''uuid:'' (py_remove ''urn:'' text)))
      in if length h \<noteq> 32 then None else py_int16 h)"

definition uuid_str :: "uuid \<Rightarrow> string" where
  "uuid_str u =
     (let h = hex_fixed 32 u
      in take 8 h @ ''-'' @ take 4 (drop 8 h) @ ''-'' @ take 4 (drop 12 h) @ ''-''
           @ take 4 (drop 16 h) @ ''-'' @ drop 20 h)"

subsection \<open>The round trip\<close>

lemma of_char_hex_digit:
  "n < 16 \<Longrightarrow> of_char (hex_digit n) = (if n < 10 then 48 + n else 87 + n :: nat)"
  by (simp add: hex_digit_def)

lemma hex_val_digit [simp]: "n < 16 \<Longrightarrow> hex_val (hex_digit n) = Some n"
  by (simp add: hex_val_def of_char_hex_digit Let_def)

lemma length_hex_fixed [simp]: "length (hex_fixed k n) = k"
  by (induction k arbitrary: n) auto

lemma hex_fixed_digits: "c \<in> set (hex_fixed k n) \<Longrightarrow> \<exists>d < 16. c = hex_digit d"
proof (induction k arbitrary: n)
  case (Suc k)
  then show ?case
  proof (cases "c \<in> set (hex_fixed k (n div 16))")
    case False
    with Suc.prems have "c = hex_digit (n mod 16)" by simp
    moreover have "n mod 16 < 16" by simp
    ultimately show ?thesis by blast
  qed (rule Suc.IH)
qed simp

lemma hex_fixed_code:
  assumes "c \<in> set (hex_fixed k n)"
  shows "48 \<le> (of_char c :: nat)" and "(of_char c :: nat) \<le> 57 \<or> 97 \<le> (of_char c :: nat)"
    and "(of_char c :: nat) \<le> 102"
  using hex_fixed_digits[OF assms] by (auto simp: of_char_hex_digit split: if_splits)

lemma hex_fixed_no_char:
  "of_char c < (48 :: nat) \<or> (57 < (of_char c :: nat) \<and> (of_char c :: nat) < 97) \<or> 102 < (of_char c :: nat) \<Longrightarrow>
   c \<notin> set (hex_fixed k n)"
  using hex_fixed_code[of c k n] by linarith

lemma int16_digits_append:
  "(\<forall>c \<in> set xs. of_char c \<noteq> (95 :: nat)) \<Longrightarrow> xs \<noteq> [] \<Longrightarrow>
   int16_digits acc p (xs @ ys)
     = (case int16_digits acc p xs of None \<Rightarrow> None | Some a \<Rightarrow> int16_digits a True ys)"
proof (induction xs arbitrary: acc p)
  case (Cons c xs)
  then show ?case by (cases xs) (auto split: option.splits)
qed simp

lemma int16_digits_hex:
  "n < 16 ^ Suc k \<Longrightarrow> int16_digits 0 p (hex_fixed (Suc k) n) = Some n"
proof (induction k arbitrary: n p)
  case 0
  then show ?case by (simp add: of_char_hex_digit)
next
  case (Suc k)
  have "\<forall>c \<in> set (hex_fixed (Suc k) (n div 16)). of_char c \<noteq> (95 :: nat)"
    using hex_fixed_code(2,3) by fastforce
  moreover have "n div 16 < 16 ^ Suc k" using Suc.prems by (simp add: less_mult_imp_div_less)
  moreover have "of_char (hex_digit (n mod 16)) \<noteq> (95 :: nat)" by (simp add: of_char_hex_digit)
  moreover have "hex_fixed (Suc k) (n div 16) \<noteq> []" by (metis length_hex_fixed list.size(3) nat.simps(3))
  ultimately show ?case
    using Suc.IH[of "n div 16" p]
    by (subst hex_fixed.simps(2)) (simp add: int16_digits_append del: hex_fixed.simps(2))
qed

lemma strip_none: "\<forall>c \<in> set s. \<not> P c \<Longrightarrow> rev (dropWhile P (rev (dropWhile P s))) = s"
  by (metis dropWhile_eq_self_iff hd_in_set rev_rev_ident set_rev)

lemma py_int16_hex:
  assumes "n < 16 ^ Suc (Suc k)"
  shows "py_int16 (hex_fixed (Suc (Suc k)) n) = Some n"
proof -
  let ?h = "hex_fixed (Suc (Suc k)) n"
  obtain a b r where h: "?h = a # b # r"
    by (metis length_hex_fixed length_Suc_conv)
  have ends: "\<not> py_isspace c" if "c \<in> set ?h" for c
    using hex_fixed_code[OF that] by (auto simp: py_isspace_def Let_def)
  then have strip: "py_strip ?h = ?h"
    unfolding py_strip_def by (intro strip_none) blast
  have ca: "48 \<le> (of_char a :: nat)" and cb: "(of_char b :: nat) \<le> 102"
    using hex_fixed_code[of a] hex_fixed_code[of b] h by (metis list.set_intros)+
  have cb2: "(of_char b :: nat) \<noteq> 88"
    using hex_fixed_code(2)[of b "Suc (Suc k)" n] h by (auto simp del: hex_fixed.simps)
  have "a \<noteq> CHR ''+''" using ca by auto
  moreover have "b \<noteq> CHR ''x''" "b \<noteq> CHR ''X''" using cb cb2 by auto
  ultimately show ?thesis
    using strip int16_digits_hex[of n "Suc k" False] assms h
    by (simp add: py_int16_def Let_def del: hex_fixed.simps)
qed

theorem parse_uuid_str: "u < 2 ^ 128 \<Longrightarrow> parse_uuid (uuid_str u) = Some u"
proof -
  assume u: "u < 2 ^ 128"
  let ?h = "hex_fixed 32 u"
  have not_in: "c \<notin> set (uuid_str u)" if "c \<notin> set ?h" "c \<noteq> CHR ''-''" for c
    using that by (auto simp: uuid_str_def Let_def dest: in_set_takeD in_set_dropD)
  have "CHR '':'' \<notin> set (uuid_str u)" "CHR ''{'' \<notin> set (uuid_str u)" "CHR ''}'' \<notin> set (uuid_str u)"
    by (rule not_in; simp add: hex_fixed_no_char)+
  then have "py_remove ''uuid:'' (py_remove ''urn:'' (uuid_str u)) = uuid_str u"
    and "strip_braces (uuid_str u) = uuid_str u"
    by (simp_all add: py_remove_absent[of "CHR '':''"])
      (auto simp only: strip_braces_def Let_def intro!: strip_none)
  moreover have "filter (\<lambda>c. c \<noteq> CHR ''-'') (uuid_str u) = ?h"
  proof -
    have keep: "filter (\<lambda>c. c \<noteq> CHR ''-'') xs = xs" if "set xs \<subseteq> set ?h" for xs
      using that hex_fixed_no_char[of "CHR ''-''" 32 u] by (intro filter_True) auto
    have "filter (\<lambda>c. c \<noteq> CHR ''-'') (uuid_str u)
        = take 8 ?h @ take 4 (drop 8 ?h) @ take 4 (drop 12 ?h) @ take 4 (drop 16 ?h) @ drop 20 ?h"
      by (simp add: uuid_str_def Let_def keep set_take_subset set_drop_subset
          order_trans[OF set_take_subset set_drop_subset])
    also have "\<dots> = ?h"
      using append_take_drop_id[of 8 ?h] append_take_drop_id[of 4 "drop 8 ?h"]
        append_take_drop_id[of 4 "drop 12 ?h"] append_take_drop_id[of 4 "drop 16 ?h"]
      by (simp del: append_take_drop_id)
    finally show ?thesis .
  qed
  moreover have "py_int16 ?h = Some u"
  proof -
    have "u < 16 ^ Suc (Suc 30)" using u by simp
    then have "py_int16 (hex_fixed (Suc (Suc 30)) u) = Some u" by (rule py_int16_hex)
    moreover have "Suc (Suc 30) = 32" by simp
    ultimately show ?thesis by metis
  qed
  ultimately show ?thesis by (simp add: parse_uuid_def)
qed

end
