(* ===== verification/Task_Dependencies.thy ===== *)
theory Task_Dependencies
  imports Dep_Graph Py_Values
begin

section \<open>Dependencies between project tasks (\<open>project_execution/task_dependencies.py\<close>)\<close>

text \<open>
  The two tables the module works on are lists of rows in insertion order; a query is a
  \<open>filter\<close>, \<open>order_by(created_at)\<close> a stable sort (rows of one transaction share their
  \<open>func.now()\<close>; the database may order such ties in another way). The unique index on
  \<open>(project_task_id, depends_on_project_task_id)\<close> makes the flush raise \<open>IntegrityError\<close>. New
  primary keys and the transaction time are arguments. Payload fields are strings or absent.
\<close>

datatype dep_error =
    DependencyValidationError string
  | DependencyCycleError string
  | IntegrityError

record dep_row =
  dr_id :: uuid
  dr_task :: uuid
  dr_depends_on :: uuid
  dr_required_state :: string
  dr_type :: string
  dr_artifact_selector :: pyval
  dr_created_by :: "uuid option"
  dr_created_at :: timestamp
  dr_updated_at :: timestamp

record project_task =
  pt_id :: uuid
  pt_project :: uuid
  pt_title :: string
  pt_status :: string
  pt_input_payload :: pyval

record dep_db =
  db_tasks :: "project_task list"
  db_deps :: "dep_row list"

definition ALLOWED_DEPENDENCY_REQUIRED_STATES :: "string list" where
  "ALLOWED_DEPENDENCY_REQUIRED_STATES = [''ready_to_start'', ''approved'', ''completed'', ''accepted'']"

definition ALLOWED_DEPENDENCY_TYPES :: "string list" where
  "ALLOWED_DEPENDENCY_TYPES = [''hard'', ''soft'', ''artifact'', ''review'']"

definition dep_COMPLETED_STATUSES :: "string list" where
  "dep_COMPLETED_STATUSES = [''completed'', ''done'', ''success'', ''succeeded'']"

definition dep_APPROVED_STATUSES :: "string list" where
  "dep_APPROVED_STATUSES = dep_COMPLETED_STATUSES @ [''approved'', ''pending_acceptance'']"

definition dep_READY_TO_START_STATUSES :: "string list" where
  "dep_READY_TO_START_STATUSES =
     dep_APPROVED_STATUSES @ [''running'', ''reviewing'', ''assigned'', ''queued'', ''scheduled'']"

definition normalize_required_state :: "string option \<Rightarrow> dep_error + string" where
  "normalize_required_state value =
     (let n = norm_str (str_or value (Some ''approved''));
          normalized = (if n = [] then ''approved'' else n)
      in if normalized \<notin> set ALLOWED_DEPENDENCY_REQUIRED_STATES
         then Inl (DependencyValidationError (''Unsupported required_state: '' @ normalized))
         else Inr normalized)"

definition normalize_dependency_type :: "string option \<Rightarrow> dep_error + string" where
  "normalize_dependency_type value =
     (let n = norm_str (str_or value (Some ''hard''));
          normalized = (if n = [] then ''hard'' else n)
      in if normalized \<notin> set ALLOWED_DEPENDENCY_TYPES
         then Inl (DependencyValidationError (''Unsupported dependency_type: '' @ normalized))
         else Inr normalized)"

definition is_dependency_satisfied :: "string option \<Rightarrow> string option \<Rightarrow> dep_error + bool" where
  "is_dependency_satisfied dependency_task_status required_state =
     (let status = norm_str dependency_task_status
      in case normalize_required_state required_state of
           Inl e \<Rightarrow> Inl e
         | Inr required \<Rightarrow> Inr
             (if required = ''completed'' then status \<in> set dep_COMPLETED_STATUSES
              else if required = ''approved'' then status \<in> set dep_APPROVED_STATUSES
              else if required = ''accepted'' then status \<in> set dep_COMPLETED_STATUSES
              else if required = ''ready_to_start'' then status \<in> set dep_READY_TO_START_STATUSES
              else False))"

subsection \<open>Snapshots and readiness\<close>

definition list_task_dependencies :: "dep_db \<Rightarrow> uuid \<Rightarrow> dep_row list" where
  "list_task_dependencies db t =
     sort_key dr_created_at (filter (\<lambda>r. dr_task r = t) (db_deps db))"

definition db_task :: "dep_db \<Rightarrow> uuid \<Rightarrow> project_task option" where
  "db_task db t = find (\<lambda>x. pt_id x = t) (db_tasks db)"

record dep_snapshot =
  sn_id :: string
  sn_project_task_id :: string
  sn_depends_on_task_id :: string
  sn_depends_on_task_title :: "string option"
  sn_depends_on_task_status :: "string option"
  sn_required_state :: string
  sn_dependency_type :: string
  sn_artifact_selector :: pyval
  sn_satisfied :: bool
  sn_created_at :: timestamp
  sn_updated_at :: timestamp

definition snapshot_row :: "dep_db \<Rightarrow> dep_row \<Rightarrow> dep_error + dep_snapshot" where
  "snapshot_row db r =
     (let dependency_task = db_task db (dr_depends_on r);
          status = (case dependency_task of None \<Rightarrow> [] | Some x \<Rightarrow> pt_status x)
      in case (case dependency_task of
                 None \<Rightarrow> Inr False
               | Some x \<Rightarrow> is_dependency_satisfied (Some status) (Some (dr_required_state r))) of
           Inl e \<Rightarrow> Inl e
         | Inr sat \<Rightarrow>
             Inr \<lparr>sn_id = uuid_str (dr_id r), sn_project_task_id = uuid_str (dr_task r),
                  sn_depends_on_task_id = uuid_str (dr_depends_on r),
                  sn_depends_on_task_title = map_option pt_title dependency_task,
                  sn_depends_on_task_status = (if status = [] then None else Some status),
                  sn_required_state = dr_required_state r, sn_dependency_type = dr_type r,
                  sn_artifact_selector =
                    (if py_truthy (dr_artifact_selector r) then dr_artifact_selector r else PDict []),
                  sn_satisfied = sat, sn_created_at = dr_created_at r, sn_updated_at = dr_updated_at r\<rparr>)"

fun snapshot_rows :: "dep_db \<Rightarrow> dep_row list \<Rightarrow> dep_error + dep_snapshot list" where
  "snapshot_rows db [] = Inr []"
| "snapshot_rows db (r # rs) =
     (case snapshot_row db r of
        Inl e \<Rightarrow> Inl e
      | Inr s \<Rightarrow> (case snapshot_rows db rs of Inl e \<Rightarrow> Inl e | Inr ss \<Rightarrow> Inr (s # ss)))"

definition build_dependency_snapshot :: "dep_db \<Rightarrow> uuid \<Rightarrow> dep_error + dep_snapshot list" where
  "build_dependency_snapshot db t = snapshot_rows db (list_task_dependencies db t)"

record readiness =
  rd_ready :: bool
  rd_blocking_dependency_count :: nat
  rd_dependencies :: "dep_snapshot list"

definition compute_task_readiness :: "dep_db \<Rightarrow> uuid \<Rightarrow> dep_error + readiness" where
  "compute_task_readiness db t =
     (case build_dependency_snapshot db t of
        Inl e \<Rightarrow> Inl e
      | Inr snapshots \<Rightarrow>
          (let blocking = filter (\<lambda>s. \<not> sn_satisfied s \<and> sn_dependency_type s = ''hard'') snapshots
           in Inr \<lparr>rd_ready = (length blocking = 0), rd_blocking_dependency_count = length blocking,
                   rd_dependencies = snapshots\<rparr>))"

definition summarize_task_blockers :: "readiness \<Rightarrow> string option" where
  "summarize_task_blockers r =
     (let n = rd_blocking_dependency_count r
      in if n \<le> 0 then None
         else Some (''Waiting on '' @ nat_str n @ '' upstream dependenc''
                    @ (if n = 1 then ''y'' else ''ies'') @ ''.''))"

subsection \<open>The cycle check of an edit\<close>

text \<open>
  \<open>_build_adjacency\<close> collects a \<open>defaultdict(set)\<close>; the sets are duplicate-free lists in
  insertion order. Python iterates such a set in some other order, which the answer does not
  depend on (\<open>detect_cycle_exact\<close>). The \<open>deque\<close> is a list whose head is its right end.
\<close>

fun build_adjacency :: "(uuid \<times> uuid) list \<Rightarrow> uuid depmap \<Rightarrow> uuid depmap" where
  "build_adjacency [] adjacency = adjacency"
| "build_adjacency ((source, target) # rows) adjacency =
     (let old = deps_of adjacency source
      in build_adjacency rows
           (dict_set source (if target \<in> set old then old else old @ [target]) adjacency))"

fun dc_scan :: "uuid \<Rightarrow> uuid set \<Rightarrow> uuid list \<Rightarrow> uuid list \<Rightarrow> uuid list option" where
  "dc_scan start visited [] stack = Some stack"
| "dc_scan start visited (n # ns) stack =
     (if n = start then None
      else dc_scan start visited ns (if n \<notin> visited then n # stack else stack))"

lemma dc_scan_None: "dc_scan start visited ns stack = None \<longleftrightarrow> start \<in> set ns"
  by (induction ns arbitrary: stack) auto

lemma dc_scan_Some:
  "dc_scan start visited ns stack = Some stack' \<Longrightarrow>
   set stack' = set stack \<union> (set ns - visited) \<and> start \<notin> set ns"
  by (induction ns arbitrary: stack) (auto split: if_splits)

function dc_loop :: "uuid depmap \<Rightarrow> uuid \<Rightarrow> uuid set \<Rightarrow> uuid list \<Rightarrow> bool" where
  "dc_loop adjacency start visited [] = False"
| "dc_loop adjacency start visited (current # stack) =
     (if current \<in> visited then dc_loop adjacency start visited stack
      else
        (case dc_scan start (insert current visited) (deps_of adjacency current) stack of
           None \<Rightarrow> True
         | Some stack' \<Rightarrow> dc_loop adjacency start (insert current visited) stack'))"
  by pat_completeness auto

termination dc_loop
proof (relation "inv_image (finite_psubset <*lex*> less_than)
    (\<lambda>(adjacency, start, visited, stack). (set (dict_keys adjacency) - visited, length stack))",
    goal_cases)
  case 1
  show ?case by (rule wf_inv_image) (simp add: wf_lex_prod wf_finite_psubset)
next
  case (2 adjacency start visited current stack)
  then show ?case by simp
next
  case (3 adjacency start visited current stack stack')
  then show ?case
    by (cases "current \<in> set (dict_keys adjacency)") (auto simp: finite_psubset_def)
qed

definition detect_cycle :: "uuid depmap \<Rightarrow> uuid \<Rightarrow> bool" where
  "detect_cycle adjacency start_task_id = dc_loop adjacency start_task_id {} [start_task_id]"

subsection \<open>Replacing the dependencies of a task\<close>

record dep_item =
  it_depends_on_task_id :: "string option"
  it_dependsOnTaskId :: "string option"
  it_required_state :: "string option"
  it_requiredState :: "string option"
  it_dependency_type :: "string option"
  it_dependencyType :: "string option"
  it_artifact_selector :: "pyval option"
  it_artifactSelector :: "pyval option"

record norm_dep =
  nd_depends_on :: uuid
  nd_required_state :: string
  nd_type :: string
  nd_artifact_selector :: pyval

definition normalize_dep_item :: "uuid \<Rightarrow> dep_item \<Rightarrow> dep_error + norm_dep" where
  "normalize_dep_item t item =
     (let raw_task_id = py_strip
            (case str_or (it_depends_on_task_id item)
                    (str_or (it_dependsOnTaskId item) (Some [])) of None \<Rightarrow> [] | Some s \<Rightarrow> s)
      in if raw_task_id = [] then Inl (DependencyValidationError ''depends_on_task_id is required'')
         else case parse_uuid raw_task_id of
           None \<Rightarrow> Inl (DependencyValidationError (''Invalid depends_on_task_id: '' @ raw_task_id))
         | Some d \<Rightarrow>
             if d = t then Inl (DependencyValidationError ''Task cannot depend on itself'')
             else case normalize_required_state (str_or (it_required_state item) (it_requiredState item)) of
               Inl e \<Rightarrow> Inl e
             | Inr state \<Rightarrow>
                 (case normalize_dependency_type (str_or (it_dependency_type item) (it_dependencyType item)) of
                    Inl e \<Rightarrow> Inl e
                  | Inr type \<Rightarrow>
                      Inr \<lparr>nd_depends_on = d, nd_required_state = state, nd_type = type,
                           nd_artifact_selector =
                             (case val_or (it_artifact_selector item)
                                     (val_or (it_artifactSelector item) (Some (PDict []))) of
                                None \<Rightarrow> PDict [] | Some v \<Rightarrow> v)\<rparr>))"

fun normalize_dep_items :: "uuid \<Rightarrow> dep_item list \<Rightarrow> dep_error + norm_dep list" where
  "normalize_dep_items t [] = Inr []"
| "normalize_dep_items t (i # items) =
     (case normalize_dep_item t i of
        Inl e \<Rightarrow> Inl e
      | Inr n \<Rightarrow> (case normalize_dep_items t items of Inl e \<Rightarrow> Inl e | Inr ns \<Rightarrow> Inr (n # ns)))"

fun check_dep_tasks :: "dep_db \<Rightarrow> uuid \<Rightarrow> uuid list \<Rightarrow> dep_error option" where
  "check_dep_tasks db project [] = None"
| "check_dep_tasks db project (d # ds) =
     (case db_task db d of
        None \<Rightarrow> Some (DependencyValidationError (''Dependency task not found: '' @ uuid_str d))
      | Some x \<Rightarrow>
          if pt_project x \<noteq> project
          then Some (DependencyValidationError ''Dependency task must belong to the same project'')
          else check_dep_tasks db project ds)"

definition other_edges :: "dep_db \<Rightarrow> uuid \<Rightarrow> (uuid \<times> uuid) list" where
  "other_edges db t =
     map (\<lambda>r. (dr_task r, dr_depends_on r)) (filter (\<lambda>r. dr_task r \<noteq> t) (db_deps db))"

definition dep_rows_of ::
    "uuid \<Rightarrow> uuid option \<Rightarrow> (nat \<Rightarrow> uuid) \<Rightarrow> timestamp \<Rightarrow> norm_dep list \<Rightarrow> dep_row list" where
  "dep_rows_of t actor new_id now ns =
     map (\<lambda>(i, n). \<lparr>dr_id = new_id i, dr_task = t, dr_depends_on = nd_depends_on n,
                    dr_required_state = nd_required_state n, dr_type = nd_type n,
                    dr_artifact_selector = nd_artifact_selector n, dr_created_by = actor,
                    dr_created_at = now, dr_updated_at = now\<rparr>) (enumerate 0 ns)"

definition with_dependency_ids :: "uuid list \<Rightarrow> project_task \<Rightarrow> project_task" where
  "with_dependency_ids ids x =
     (let existing = (case pt_input_payload x of PDict d \<Rightarrow> d | _ \<Rightarrow> [])
      in x\<lparr>pt_input_payload :=
             PDict (dict_set ''dependency_ids'' (PList (map (\<lambda>u. PStr (uuid_str u)) ids)) existing)\<rparr>)"

definition replace_task_dependencies ::
    "dep_db \<Rightarrow> project_task \<Rightarrow> dep_item list \<Rightarrow> uuid option \<Rightarrow> (nat \<Rightarrow> uuid) \<Rightarrow> timestamp
      \<Rightarrow> dep_error + (dep_db \<times> dep_row list)" where
  "replace_task_dependencies db task dependencies actor new_id now =
     (let t = pt_id task
      in case normalize_dep_items t dependencies of
           Inl e \<Rightarrow> Inl e
         | Inr ns \<Rightarrow>
             (let ids = map nd_depends_on ns
              in case check_dep_tasks db (pt_project task) ids of
                   Some e \<Rightarrow> Inl e
                 | None \<Rightarrow>
                     if detect_cycle
                          (build_adjacency (other_edges db t @ map (\<lambda>d. (t, d)) ids) []) t
                     then Inl (DependencyCycleError ''Dependency change would introduce a cycle'')
                     else if \<not> distinct ids then Inl IntegrityError
                     else
                       (let db' = \<lparr>db_tasks = map (\<lambda>x. if pt_id x = t then with_dependency_ids ids x else x)
                                                 (db_tasks db),
                                   db_deps = filter (\<lambda>r. dr_task r \<noteq> t) (db_deps db)
                                             @ dep_rows_of t actor new_id now ns\<rparr>
                        in Inr (db', list_task_dependencies db' t))))"

subsection \<open>The cycle check is exact\<close>

lemma deps_of_set: "deps_of (dict_set k v g) x = (if x = k then v else deps_of g x)"
  by (simp add: deps_of_def)

lemma dep_edges_build:
  "dep_edges (build_adjacency rows g) = dep_edges g \<union> set rows"
proof (induction rows arbitrary: g)
  case (Cons row rows)
  obtain a b where "row = (a, b)" by force
  with Cons show ?case
    by (auto simp: dep_edges_def deps_of_set Let_def split: if_splits)
qed simp

lemma dc_loop_sound:
  "dc_loop g start visited stack \<Longrightarrow> \<forall>x \<in> set stack. (start, x) \<in> (dep_edges g)\<^sup>* \<Longrightarrow>
   (start, start) \<in> (dep_edges g)\<^sup>+"
proof (induction g start visited stack rule: dc_loop.induct)
  case (1 g start visited)
  then show ?case by simp
next
  case (2 g start visited c stack)
  show ?case
  proof (cases "c \<in> visited")
    case True
    with 2 show ?thesis by simp
  next
    case False
    show ?thesis
    proof (cases "dc_scan start (insert c visited) (deps_of g c) stack")
      case None
      then have "(c, start) \<in> dep_edges g" by (simp add: dc_scan_None)
      with "2.prems"(2) show ?thesis by (meson list.set_intros(1) rtrancl_into_trancl1)
    next
      case (Some stack')
      then have "set stack' \<subseteq> set stack \<union> set (deps_of g c)" by (auto dest: dc_scan_Some)
      moreover have "(start, x) \<in> (dep_edges g)\<^sup>*" if "x \<in> set (deps_of g c)" for x
        using "2.prems"(2) that by (auto intro: rtrancl_into_rtrancl)
      ultimately have "\<forall>x \<in> set stack'. (start, x) \<in> (dep_edges g)\<^sup>*" using "2.prems"(2) by auto
      with 2 False Some show ?thesis by simp
    qed
  qed
qed

lemma dc_loop_complete:
  assumes "\<not> dc_loop g start visited stack"
    and "\<forall>v \<in> visited. start \<notin> set (deps_of g v) \<and> set (deps_of g v) \<subseteq> visited \<union> set stack"
  shows "\<exists>W. visited \<union> set stack \<subseteq> W
           \<and> (\<forall>v \<in> W. start \<notin> set (deps_of g v) \<and> set (deps_of g v) \<subseteq> W)"
  using assms
proof (induction g start visited stack rule: dc_loop.induct)
  case (1 g start visited)
  then show ?case by (intro exI[of _ visited]) auto
next
  case (2 g start visited c stack)
  show ?case
  proof (cases "c \<in> visited")
    case True
    then have "visited \<union> set (c # stack) = visited \<union> set stack" by auto
    with 2 True show ?thesis by simp
  next
    case False
    with "2.prems"(1) obtain stack'
      where s: "dc_scan start (insert c visited) (deps_of g c) stack = Some stack'"
      by (auto split: option.splits)
    have s': "set stack' = set stack \<union> (set (deps_of g c) - insert c visited)"
      and ns: "start \<notin> set (deps_of g c)"
      using dc_scan_Some[OF s] by auto
    have "\<forall>v \<in> insert c visited. start \<notin> set (deps_of g v)
        \<and> set (deps_of g v) \<subseteq> insert c visited \<union> set stack'"
      using "2.prems"(2) s' ns by auto
    with "2.IH"(2)[OF False s] "2.prems"(1) False s obtain W
      where "insert c visited \<union> set stack' \<subseteq> W"
        and "\<forall>v \<in> W. start \<notin> set (deps_of g v) \<and> set (deps_of g v) \<subseteq> W"
      by auto
    then show ?thesis using s' by (intro exI[of _ W]) auto
  qed
qed

lemma detect_cycle_iff: "detect_cycle g start \<longleftrightarrow> (start, start) \<in> (dep_edges g)\<^sup>+"
proof
  assume "detect_cycle g start"
  then show "(start, start) \<in> (dep_edges g)\<^sup>+"
    using dc_loop_sound[of g start "{}" "[start]"] by (simp add: detect_cycle_def)
next
  assume cyc: "(start, start) \<in> (dep_edges g)\<^sup>+"
  show "detect_cycle g start"
  proof (rule ccontr)
    assume "\<not> detect_cycle g start"
    with dc_loop_complete[of g start "{}" "[start]"] obtain W where W: "start \<in> W"
      "\<forall>v \<in> W. start \<notin> set (deps_of g v) \<and> set (deps_of g v) \<subseteq> W"
      by (auto simp: detect_cycle_def)
    from cyc obtain y where "(start, y) \<in> (dep_edges g)\<^sup>*" "(y, start) \<in> dep_edges g"
      by (meson tranclD2)
    moreover have "dep_edges g `` W \<subseteq> W" using W(2) unfolding dep_edges_def by blast
    ultimately have "y \<in> W" using W(1) by (auto intro: closed_rtrancl)
    with W(2) \<open>(y, start) \<in> dep_edges g\<close> show False by simp
  qed
qed

subsection \<open>What an edit preserves\<close>

definition db_edges :: "dep_db \<Rightarrow> (uuid \<times> uuid) set" where
  "db_edges db = (\<lambda>r. (dr_task r, dr_depends_on r)) ` set (db_deps db)"

definition dep_row_valid :: "dep_row \<Rightarrow> bool" where
  "dep_row_valid r \<longleftrightarrow> dr_required_state r \<in> set ALLOWED_DEPENDENCY_REQUIRED_STATES
     \<and> dr_type r \<in> set ALLOWED_DEPENDENCY_TYPES"

definition dep_db_ok :: "dep_db \<Rightarrow> bool" where
  "dep_db_ok db \<longleftrightarrow> acyclic (db_edges db) \<and> list_all dep_row_valid (db_deps db)
     \<and> distinct (map (\<lambda>r. (dr_task r, dr_depends_on r)) (db_deps db))"

text \<open>
  An edge set that had no cycle gets one by new edges out of \<open>t\<close> only through \<open>t\<close> itself, which
  is why the code may start its search at the edited task.
\<close>

lemma acyclic_star_from:
  assumes "acyclic E" and "(t, t) \<notin> (E \<union> {t} \<times> D)\<^sup>+"
  shows "acyclic (E \<union> {t} \<times> D)"
proof -
  let ?F = "E \<union> {t} \<times> D"
  have key: "(x, y) \<in> E\<^sup>+ \<or> ((x, t) \<in> ?F\<^sup>* \<and> (t, y) \<in> ?F\<^sup>+)" if "(x, y) \<in> ?F\<^sup>+" for x y
    using that
  proof (induction rule: trancl_induct)
    case (base y)
    then show ?case by auto
  next
    case (step y z)
    show ?case
    proof (cases "y = t \<and> (y, z) \<notin> E")
      case True
      with step.hyps show ?thesis by (auto dest: trancl_into_rtrancl)
    next
      case False
      with step.hyps(2) have "(y, z) \<in> E" by auto
      with step.IH show ?thesis by (auto intro: trancl_into_trancl)
    qed
  qed
  show ?thesis
  proof (rule acyclicI, rule allI, rule notI)
    fix x assume "(x, x) \<in> ?F\<^sup>+"
    from key[OF this] show False
    proof
      assume "(x, x) \<in> E\<^sup>+"
      with assms(1) show False by (simp add: acyclic_def)
    next
      assume "(x, t) \<in> ?F\<^sup>* \<and> (t, x) \<in> ?F\<^sup>+"
      then have "(t, t) \<in> ?F\<^sup>+" by (metis trancl_rtrancl_trancl)
      with assms(2) show False ..
    qed
  qed
qed

lemma normalize_required_state_range:
  "normalize_required_state v = Inr s \<Longrightarrow> s \<in> set ALLOWED_DEPENDENCY_REQUIRED_STATES"
  by (auto simp: normalize_required_state_def Let_def split: if_splits)

lemma normalize_dependency_type_range:
  "normalize_dependency_type v = Inr s \<Longrightarrow> s \<in> set ALLOWED_DEPENDENCY_TYPES"
  by (auto simp: normalize_dependency_type_def Let_def split: if_splits)

lemma normalize_dep_item_ok:
  assumes "normalize_dep_item t i = Inr n"
  shows "nd_depends_on n \<noteq> t" and "nd_required_state n \<in> set ALLOWED_DEPENDENCY_REQUIRED_STATES"
    and "nd_type n \<in> set ALLOWED_DEPENDENCY_TYPES"
  using assms normalize_required_state_range normalize_dependency_type_range
  by (auto simp: normalize_dep_item_def Let_def split: if_splits option.splits sum.splits)

lemma normalize_dep_items_ok:
  "normalize_dep_items t items = Inr ns \<Longrightarrow>
   list_all (\<lambda>n. nd_depends_on n \<noteq> t \<and> nd_required_state n \<in> set ALLOWED_DEPENDENCY_REQUIRED_STATES
     \<and> nd_type n \<in> set ALLOWED_DEPENDENCY_TYPES) ns"
  by (induction items arbitrary: ns) (auto split: sum.splits dest: normalize_dep_item_ok)

lemma dep_rows_of_simps [simp]:
  "map dr_depends_on (dep_rows_of t a f now ns) = map nd_depends_on ns"
  "map (\<lambda>r. (dr_task r, dr_depends_on r)) (dep_rows_of t a f now ns)
     = map (\<lambda>d. (t, d)) (map nd_depends_on ns)"
  "map dr_required_state (dep_rows_of t a f now ns) = map nd_required_state ns"
  "map dr_type (dep_rows_of t a f now ns) = map nd_type ns"
  unfolding dep_rows_of_def
  by (induction ns rule: rev_induct) (auto simp: enumerate_append_eq)

lemma dep_rows_of_task: "r \<in> set (dep_rows_of t a f now ns) \<Longrightarrow> dr_task r = t \<and> dr_created_at r = now"
  by (auto simp: dep_rows_of_def)

lemma dep_rows_of_valid:
  assumes "list_all (\<lambda>n. nd_depends_on n \<noteq> t \<and> nd_required_state n \<in> set ALLOWED_DEPENDENCY_REQUIRED_STATES
     \<and> nd_type n \<in> set ALLOWED_DEPENDENCY_TYPES) ns"
  shows "list_all dep_row_valid (dep_rows_of t a f now ns)"
  using assms
  by (auto simp: dep_rows_of_def list_all_iff dep_row_valid_def in_set_enumerate_eq)

lemma edit_cycle:
  "detect_cycle (build_adjacency (other_edges db t @ map (Pair t) ids) []) t
     \<longleftrightarrow> (t, t) \<in> (set (other_edges db t) \<union> {t} \<times> set ids)\<^sup>+"
proof -
  have "dep_edges (build_adjacency (other_edges db t @ map (Pair t) ids) [])
      = set (other_edges db t) \<union> {t} \<times> set ids"
    by (auto simp: dep_edges_build)
  then show ?thesis by (simp add: detect_cycle_iff)
qed

lemma replace_cases:
  assumes "replace_task_dependencies db task items actor new_id now = Inr (db', rows)"
  obtains ns where "normalize_dep_items (pt_id task) items = Inr ns"
    and "check_dep_tasks db (pt_project task) (map nd_depends_on ns) = None"
    and "(pt_id task, pt_id task)
           \<notin> (set (other_edges db (pt_id task)) \<union> {pt_id task} \<times> set (map nd_depends_on ns))\<^sup>+"
    and "distinct (map nd_depends_on ns)"
    and "db_tasks db' = map (\<lambda>x. if pt_id x = pt_id task
           then with_dependency_ids (map nd_depends_on ns) x else x) (db_tasks db)"
    and "db_deps db' = filter (\<lambda>r. dr_task r \<noteq> pt_id task) (db_deps db)
           @ dep_rows_of (pt_id task) actor new_id now ns"
    and "rows = list_task_dependencies db' (pt_id task)"
  using assms that
  by (auto simp: replace_task_dependencies_def Let_def edit_cycle simp del: map_map
      split: sum.splits option.splits if_splits)

lemma other_edges_subset: "set (other_edges db t) \<subseteq> db_edges db"
  by (auto simp: other_edges_def db_edges_def)

lemma replace_edges:
  assumes "db_deps db' = filter (\<lambda>r. dr_task r \<noteq> t) (db_deps db) @ dep_rows_of t actor new_id now ns"
  shows "db_edges db' = set (other_edges db t) \<union> {t} \<times> set (map nd_depends_on ns)"
proof -
  have "(\<lambda>r. (dr_task r, dr_depends_on r)) ` set (dep_rows_of t actor new_id now ns)
      = set (map (\<lambda>d. (t, d)) (map nd_depends_on ns))"
    using dep_rows_of_simps(2)[of t actor new_id now ns] by (metis set_map)
  then show ?thesis
    using assms by (auto simp: db_edges_def other_edges_def image_Un)
qed

lemma sort_key_const: "\<forall>x \<in> set xs. f x = c \<Longrightarrow> sort_key f xs = xs"
proof (induction xs)
  case (Cons x xs)
  then show ?case by (cases xs) auto
qed simp

lemma replace_rows:
  assumes "db_deps db' = filter (\<lambda>r. dr_task r \<noteq> t) (db_deps db) @ dep_rows_of t actor new_id now ns"
  shows "list_task_dependencies db' t = dep_rows_of t actor new_id now ns"
proof -
  have "filter (\<lambda>r. dr_task r = t) (dep_rows_of t actor new_id now ns) = dep_rows_of t actor new_id now ns"
    by (rule filter_True) (auto dest: dep_rows_of_task)
  then show ?thesis
    unfolding list_task_dependencies_def
    by (subst sort_key_const[of _ _ now]) (auto simp: assms filter_empty_conv dest: dep_rows_of_task)
qed

lemma is_dependency_satisfied_valid:
  "s \<in> set ALLOWED_DEPENDENCY_REQUIRED_STATES \<Longrightarrow> normalize_required_state (Some s) = Inr s"
  unfolding ALLOWED_DEPENDENCY_REQUIRED_STATES_def
  by (simp, elim disjE; hypsubst; code_simp)

lemma normalize_type_valid:
  "s \<in> set ALLOWED_DEPENDENCY_TYPES \<Longrightarrow> normalize_dependency_type (Some s) = Inr s"
  unfolding ALLOWED_DEPENDENCY_TYPES_def
  by (simp, elim disjE; hypsubst; code_simp)

lemma snapshot_rows_valid:
  "list_all dep_row_valid rs \<Longrightarrow>
   \<exists>ss. snapshot_rows db rs = Inr ss \<and> length ss = length rs
     \<and> (\<forall>i < length rs. snapshot_row db (rs ! i) = Inr (ss ! i))"
proof (induction rs)
  case (Cons r rs)
  then obtain ss where ss: "snapshot_rows db rs = Inr ss" "length ss = length rs"
    "\<forall>i < length rs. snapshot_row db (rs ! i) = Inr (ss ! i)" by auto
  have "\<exists>s. snapshot_row db r = Inr s"
    using Cons.prems is_dependency_satisfied_valid[of "dr_required_state r"]
    by (cases "db_task db (dr_depends_on r)")
      (auto simp: snapshot_row_def is_dependency_satisfied_def dep_row_valid_def Let_def)
  then obtain s where "snapshot_row db r = Inr s" ..
  with ss show ?case by (intro exI[of _ "s # ss"]) (auto simp: nth_Cons split: nat.splits)
qed simp

definition dep_met :: "dep_db \<Rightarrow> dep_row \<Rightarrow> bool" where
  "dep_met db r =
     (case db_task db (dr_depends_on r) of
        None \<Rightarrow> False
      | Some x \<Rightarrow> is_dependency_satisfied (Some (pt_status x)) (Some (dr_required_state r)) = Inr True)"

lemma snapshot_row_satisfied:
  "snapshot_row db r = Inr s \<Longrightarrow> sn_satisfied s = dep_met db r \<and> sn_dependency_type s = dr_type r"
  by (auto simp: snapshot_row_def dep_met_def Let_def split: sum.splits option.splits)

subsection \<open>A concrete edit\<close>

definition sample_task :: "uuid \<Rightarrow> project_task" where
  "sample_task i =
     \<lparr>pt_id = i, pt_project = 9, pt_title = [], pt_status = [], pt_input_payload = PNone\<rparr>"

definition sample_db :: dep_db where
  "sample_db = \<lparr>db_tasks = [sample_task 1, sample_task 2], db_deps = []\<rparr>"

definition sample_item :: dep_item where
  "sample_item = \<lparr>it_depends_on_task_id = Some (uuid_str 2), it_dependsOnTaskId = None,
     it_required_state = None, it_requiredState = None, it_dependency_type = None,
     it_dependencyType = None, it_artifact_selector = None, it_artifactSelector = None\<rparr>"

lemma sample_db_ok: "dep_db_ok sample_db"
  by (simp add: dep_db_ok_def db_edges_def acyclic_def sample_db_def)

lemma sample_edit:
  "\<exists>db' rows. replace_task_dependencies sample_db (sample_task 1) [sample_item] None id 0 = Inr (db', rows)
     \<and> db_edges db' = {(1, 2)} \<and> map dr_depends_on rows = [2]"
proof -
  let ?n = "\<lparr>nd_depends_on = 2, nd_required_state = ''approved'', nd_type = ''hard'',
      nd_artifact_selector = PDict []\<rparr>"
  have strip: "str_or (Some (uuid_str 2)) (str_or None (Some [])) = Some (uuid_str 2)"
    "py_strip (uuid_str 2) = uuid_str 2" "uuid_str 2 \<noteq> []"
    by code_simp+
  have norm: "normalize_required_state (str_or None None) = Inr ''approved''"
    "normalize_dependency_type (str_or None None) = Inr ''hard''"
    by code_simp+
  have "normalize_dep_items 1 [sample_item] = Inr [?n]"
    using strip norm by (simp add: normalize_dep_item_def Let_def parse_uuid_str val_or_def sample_item_def)
  moreover have "\<not> detect_cycle (build_adjacency [(1, 2)] []) 1" by code_simp
  ultimately obtain db' rows
    where "replace_task_dependencies sample_db (sample_task 1) [sample_item] None id 0 = Inr (db', rows)"
      and "db_deps db' = dep_rows_of 1 None id 0 [?n]" and "rows = list_task_dependencies db' 1"
    by (simp add: replace_task_dependencies_def other_edges_def db_task_def Let_def sample_db_def sample_task_def)
  then show ?thesis by (simp add: db_edges_def dep_rows_of_def list_task_dependencies_def)
qed

subsection \<open>Properties\<close>

text \<open>\<open>_detect_cycle\<close> on the adjacency built from a list of edges answers \<open>True\<close> exactly
  when the start task reaches itself, whatever order the sets are traversed in; it terminates.\<close>

theorem detect_cycle_exact:
  "detect_cycle (build_adjacency rows []) start \<longleftrightarrow> (start, start) \<in> (set rows)\<^sup>+"
  by (simp add: detect_cycle_iff dep_edges_build) (simp add: dep_edges_def deps_of_def)

text \<open>C1: A successful \<open>replace_task_dependencies\<close> keeps the dependency table well-formed: the
  dependency graph of the whole database stays acyclic although only the edited task is
  searched, every row has an allowed state and type, and no edge is stored twice.\<close>

theorem replace_keeps_db_ok:
  assumes "dep_db_ok db"
    and "replace_task_dependencies db task items actor new_id now = Inr (db', rows)"
  shows "dep_db_ok db'"
proof -
  let ?t = "pt_id task"
  obtain ns where ns: "normalize_dep_items ?t items = Inr ns"
    and nc: "(?t, ?t) \<notin> (set (other_edges db ?t) \<union> {?t} \<times> set (map nd_depends_on ns))\<^sup>+"
    and di: "distinct (map nd_depends_on ns)"
    and deps: "db_deps db' = filter (\<lambda>r. dr_task r \<noteq> ?t) (db_deps db) @ dep_rows_of ?t actor new_id now ns"
    by (rule replace_cases[OF assms(2)])
  have "acyclic (set (other_edges db ?t))"
    using assms(1) other_edges_subset by (auto simp: dep_db_ok_def intro: acyclic_subset)
  then have "acyclic (db_edges db')"
    using nc replace_edges[OF deps] acyclic_star_from by metis
  moreover have "list_all dep_row_valid (db_deps db')"
    using assms(1) deps dep_rows_of_valid[OF normalize_dep_items_ok[OF ns]]
    by (auto simp: dep_db_ok_def list_all_iff)
  moreover have "distinct (map (\<lambda>r. (dr_task r, dr_depends_on r)) (db_deps db'))"
  proof -
    let ?e = "\<lambda>r. (dr_task r, dr_depends_on r)"
    have "distinct (map ?e (filter (\<lambda>r. dr_task r \<noteq> ?t) (db_deps db)))"
      using assms(1) by (simp add: dep_db_ok_def distinct_map_filter)
    moreover have "distinct (map ?e (dep_rows_of ?t actor new_id now ns))"
      unfolding dep_rows_of_simps(2) using di by (simp add: distinct_map inj_on_def)
    moreover have "set (map ?e (filter (\<lambda>r. dr_task r \<noteq> ?t) (db_deps db)))
        \<inter> set (map ?e (dep_rows_of ?t actor new_id now ns)) = {}"
      by (auto dest: dep_rows_of_task)
    ultimately show ?thesis by (simp only: deps map_append distinct_append)
  qed
  ultimately show ?thesis by (simp add: dep_db_ok_def)
qed

theorem replace_keeps_db_ok_witness:
  "\<exists>db' rows. replace_task_dependencies sample_db (sample_task 1) [sample_item] None id 0 = Inr (db', rows)
     \<and> dep_db_ok db' \<and> db_edges db' = {(1, 2)}"
  using sample_edit replace_keeps_db_ok[OF sample_db_ok] by blast

text \<open>What a successful \<open>replace_task_dependencies\<close> changes: the rows of other tasks and the
  other tasks are untouched; the edited task gets exactly one row per payload item, in order,
  and the returned list is these rows; its \<open>input_payload\<close> records the same identifiers.\<close>

theorem replace_frame:
  assumes "replace_task_dependencies db task items actor new_id now = Inr (db', rows)"
  shows "\<exists>ns. normalize_dep_items (pt_id task) items = Inr ns
     \<and> rows = dep_rows_of (pt_id task) actor new_id now ns
     \<and> db_deps db' = filter (\<lambda>r. dr_task r \<noteq> pt_id task) (db_deps db) @ rows
     \<and> db_tasks db' = map (\<lambda>x. if pt_id x = pt_id task
          then with_dependency_ids (map dr_depends_on rows) x else x) (db_tasks db)"
proof -
  obtain ns where "normalize_dep_items (pt_id task) items = Inr ns"
    and t: "db_tasks db' = map (\<lambda>x. if pt_id x = pt_id task
           then with_dependency_ids (map nd_depends_on ns) x else x) (db_tasks db)"
    and d: "db_deps db' = filter (\<lambda>r. dr_task r \<noteq> pt_id task) (db_deps db)
           @ dep_rows_of (pt_id task) actor new_id now ns"
    and "rows = list_task_dependencies db' (pt_id task)"
    by (rule replace_cases[OF assms])
  with replace_rows[OF d] show ?thesis by (intro exI[of _ ns]) simp
qed

theorem replace_frame_witness:
  "\<exists>db' :: dep_db. db_deps db' = [] \<and> db_tasks db' =
     [with_dependency_ids [] \<lparr>pt_id = 1, pt_project = 9, pt_title = [], pt_status = [], pt_input_payload = PNone\<rparr>]"
proof -
  let ?task = "\<lparr>pt_id = 1, pt_project = 9, pt_title = [], pt_status = [], pt_input_payload = PNone\<rparr>"
  let ?row = "\<lparr>dr_id = 5, dr_task = 1, dr_depends_on = 2, dr_required_state = ''approved'', dr_type = ''hard'',
     dr_artifact_selector = PNone, dr_created_by = None, dr_created_at = 0, dr_updated_at = 0\<rparr>"
  have "\<not> detect_cycle (build_adjacency [] []) 1" by code_simp
  then obtain db' rows where
    "replace_task_dependencies \<lparr>db_tasks = [?task], db_deps = [?row]\<rparr> ?task [] None id 0 = Inr (db', rows)"
    by (simp add: replace_task_dependencies_def other_edges_def Let_def)
  from replace_frame[OF this] show ?thesis by (intro exI[of _ db']) (auto simp: dep_rows_of_def)
qed

text \<open>An edit whose items are valid and whose tasks exist in the same project is rejected
  with \<open>DependencyCycleError\<close> exactly when the new edges together with the other tasks' rows
  would let the task reach itself.\<close>

theorem replace_cycle_error:
  assumes "normalize_dep_items (pt_id task) items = Inr ns"
    and "check_dep_tasks db (pt_project task) (map nd_depends_on ns) = None"
  shows "(\<exists>m. replace_task_dependencies db task items actor new_id now = Inl (DependencyCycleError m))
     \<longleftrightarrow> (pt_id task, pt_id task)
           \<in> (set (other_edges db (pt_id task)) \<union> {pt_id task} \<times> set (map nd_depends_on ns))\<^sup>+"
  using assms by (auto simp: replace_task_dependencies_def Let_def edit_cycle simp del: map_map)

theorem replace_cycle_error_witness:
  "\<exists>db task m. replace_task_dependencies db task [] None id 0 \<noteq> Inl (DependencyCycleError m)
     \<and> pt_id task = 1 \<and> other_edges db 1 = [(2, 1)]"
proof -
  let ?task = "\<lparr>pt_id = 1, pt_project = 9, pt_title = [], pt_status = [], pt_input_payload = PNone\<rparr>"
  let ?row = "\<lparr>dr_id = 5, dr_task = 2, dr_depends_on = 1, dr_required_state = ''approved'', dr_type = ''hard'',
     dr_artifact_selector = PNone, dr_created_by = None, dr_created_at = 0, dr_updated_at = 0\<rparr>"
  let ?db = "\<lparr>db_tasks = [?task], db_deps = [?row]\<rparr>"
  have o: "other_edges ?db 1 = [(2, 1)]" by (simp add: other_edges_def)
  have "(1 :: uuid, 1) \<notin> {(2, 1)}\<^sup>+" by (auto dest!: tranclD)
  with o replace_cycle_error[of ?task "[]" "[]" ?db None id 0]
  have "replace_task_dependencies ?db ?task [] None id 0 \<noteq> Inl (DependencyCycleError m)" for m
    by simp
  with o show ?thesis by (intro exI[of _ ?db] exI[of _ ?task] exI[of _ "[]"]) simp
qed

text \<open>On a well-formed table \<open>compute_task_readiness\<close> never raises; the task is ready exactly
  when each of its hard dependencies exists and its task's status meets the required state, and
  then, and only then, there is no blocker summary.\<close>

theorem readiness_exact:
  assumes "dep_db_ok db"
  shows "\<exists>r. compute_task_readiness db t = Inr r
     \<and> rd_ready r = (filter (\<lambda>d. dr_task d = t \<and> dr_type d = ''hard'' \<and> \<not> dep_met db d) (db_deps db) = [])
     \<and> rd_ready r = (summarize_task_blockers r = None)"
proof -
  let ?rows = "list_task_dependencies db t"
  have "list_all dep_row_valid ?rows"
    using assms by (auto simp: dep_db_ok_def list_task_dependencies_def list_all_iff)
  from snapshot_rows_valid[OF this, of db] obtain ss
    where ss: "build_dependency_snapshot db t = Inr ss" "length ss = length ?rows"
      and nth: "\<forall>i < length ?rows. snapshot_row db (?rows ! i) = Inr (ss ! i)"
    by (auto simp: build_dependency_snapshot_def)
  let ?bl = "filter (\<lambda>s. \<not> sn_satisfied s \<and> sn_dependency_type s = ''hard'') ss"
  have "?bl = [] \<longleftrightarrow> (\<forall>i < length ?rows. dep_met db (?rows ! i) \<or> dr_type (?rows ! i) \<noteq> ''hard'')"
    using ss(2) nth snapshot_row_satisfied by (fastforce simp: filter_empty_conv in_set_conv_nth)
  also have "\<dots> \<longleftrightarrow> (\<forall>d \<in> set ?rows. dep_met db d \<or> dr_type d \<noteq> ''hard'')"
    by (metis in_set_conv_nth)
  also have "\<dots> \<longleftrightarrow>
      filter (\<lambda>d. dr_task d = t \<and> dr_type d = ''hard'' \<and> \<not> dep_met db d) (db_deps db) = []"
    by (auto simp: list_task_dependencies_def filter_empty_conv)
  finally show ?thesis
    using ss(1) by (simp add: compute_task_readiness_def summarize_task_blockers_def Let_def)
qed

theorem readiness_exact_witness:
  "\<exists>r. compute_task_readiness
      \<lparr>db_tasks = [\<lparr>pt_id = 2, pt_project = 9, pt_title = [], pt_status = ''running'', pt_input_payload = PNone\<rparr>],
       db_deps = [\<lparr>dr_id = 5, dr_task = 1, dr_depends_on = 2, dr_required_state = ''approved'', dr_type = ''hard'',
         dr_artifact_selector = PNone, dr_created_by = None, dr_created_at = 0, dr_updated_at = 0\<rparr>]\<rparr> 1 = Inr r
     \<and> \<not> rd_ready r"
proof -
  let ?r = "\<lparr>dr_id = 5, dr_task = 1, dr_depends_on = 2, dr_required_state = ''approved'', dr_type = ''hard'',
         dr_artifact_selector = PNone, dr_created_by = None, dr_created_at = 0, dr_updated_at = 0\<rparr>"
  let ?db = "\<lparr>db_tasks = [\<lparr>pt_id = 2, pt_project = 9, pt_title = [], pt_status = ''running'', pt_input_payload = PNone\<rparr>],
       db_deps = [?r]\<rparr>"
  have "acyclic {(1 :: uuid, 2 :: uuid)}" by (simp add: acyclic_insert wf_acyclic)
  moreover have "dep_row_valid ?r" by code_simp
  ultimately have "dep_db_ok ?db" by (simp add: dep_db_ok_def db_edges_def)
  moreover have "\<not> dep_met ?db ?r" by code_simp
  ultimately show ?thesis using readiness_exact[of ?db 1] by auto
qed

text \<open>The payload a client sends back after reading the rows of a task.\<close>

definition item_of_row :: "dep_row \<Rightarrow> dep_item" where
  "item_of_row r =
     \<lparr>it_depends_on_task_id = Some (uuid_str (dr_depends_on r)), it_dependsOnTaskId = None,
      it_required_state = Some (dr_required_state r), it_requiredState = None,
      it_dependency_type = Some (dr_type r), it_dependencyType = None,
      it_artifact_selector = Some (dr_artifact_selector r), it_artifactSelector = None\<rparr>"

lemma uuid_str_chars: "c \<in> set (uuid_str u) \<Longrightarrow> \<not> py_isspace c"
proof -
  assume "c \<in> set (uuid_str u)"
  then have "c = CHR ''-'' \<or> c \<in> set (hex_fixed 32 u)"
    by (auto simp: uuid_str_def Let_def dest: in_set_takeD in_set_dropD)
  then show ?thesis
    using hex_fixed_code[of c 32 u] by (auto simp: py_isspace_def Let_def)
qed

lemma py_strip_uuid_str: "py_strip (uuid_str u) = uuid_str u"
  unfolding py_strip_def by (intro strip_none) (blast dest: uuid_str_chars)

lemma str_or_uuid: "str_or (Some (uuid_str u)) b = Some (uuid_str u)"
proof -
  have "length (uuid_str u) = 36" by (simp add: uuid_str_def Let_def)
  then show ?thesis by (cases "uuid_str u") (auto simp: str_or_def)
qed

lemma normalize_item_of_row:
  assumes "dep_row_valid r" and "dr_depends_on r < 2 ^ 128" and "dr_depends_on r \<noteq> t"
  shows "\<exists>n. normalize_dep_item t (item_of_row r) = Inr n \<and> nd_depends_on n = dr_depends_on r
     \<and> nd_required_state n = dr_required_state r \<and> nd_type n = dr_type r"
proof -
  have ne: "dr_required_state r \<noteq> []" "dr_type r \<noteq> []"
    using assms(1)
    by (auto simp: dep_row_valid_def ALLOWED_DEPENDENCY_REQUIRED_STATES_def ALLOWED_DEPENDENCY_TYPES_def)
  then have "str_or (Some (dr_required_state r)) None = Some (dr_required_state r)"
    and "str_or (Some (dr_type r)) None = Some (dr_type r)"
    by (auto simp: str_or_def split: list.splits)
  moreover have "uuid_str (dr_depends_on r) \<noteq> []"
    by (simp add: uuid_str_def Let_def)
  ultimately show ?thesis
    using assms is_dependency_satisfied_valid[of "dr_required_state r"] normalize_type_valid[of "dr_type r"]
    by (auto simp: normalize_dep_item_def item_of_row_def str_or_uuid py_strip_uuid_str
        parse_uuid_str dep_row_valid_def Let_def)
qed

lemma normalize_items_of_rows:
  assumes "list_all (\<lambda>r. dep_row_valid r \<and> dr_depends_on r < 2 ^ 128 \<and> dr_depends_on r \<noteq> t) rs"
  shows "\<exists>ns. normalize_dep_items t (map item_of_row rs) = Inr ns
     \<and> map nd_depends_on ns = map dr_depends_on rs
     \<and> map nd_required_state ns = map dr_required_state rs \<and> map nd_type ns = map dr_type rs"
  using assms
proof (induction rs)
  case (Cons r rs)
  then obtain ns where "normalize_dep_items t (map item_of_row rs) = Inr ns"
    "map nd_depends_on ns = map dr_depends_on rs"
    "map nd_required_state ns = map dr_required_state rs" "map nd_type ns = map dr_type rs" by auto
  moreover obtain n where "normalize_dep_item t (item_of_row r) = Inr n" "nd_depends_on n = dr_depends_on r"
    "nd_required_state n = dr_required_state r" "nd_type n = dr_type r"
    using normalize_item_of_row[of r t] Cons.prems by auto
  ultimately show ?case by (intro exI[of _ "n # ns"]) auto
qed simp

lemma with_dependency_ids_keeps [simp]:
  "pt_id (with_dependency_ids ids x) = pt_id x" "pt_project (with_dependency_ids ids x) = pt_project x"
  by (simp_all add: with_dependency_ids_def Let_def)

lemma find_task_map:
  "(\<And>x. pt_id (f x) = pt_id x) \<Longrightarrow>
   find (\<lambda>x. pt_id x = d) (map f xs) = map_option f (find (\<lambda>x. pt_id x = d) xs)"
  by (induction xs) auto

lemma check_dep_tasks_map:
  assumes "db_tasks db' = map (\<lambda>x. if pt_id x = t then with_dependency_ids ids x else x) (db_tasks db)"
  shows "check_dep_tasks db' p ds = check_dep_tasks db p ds"
proof (induction ds)
  case (Cons d ds)
  have "db_task db' d = map_option (\<lambda>x. if pt_id x = t then with_dependency_ids ids x else x) (db_task db d)"
    unfolding db_task_def assms by (rule find_task_map) simp
  with Cons show ?case by (auto split: option.splits)
qed simp

text \<open>Sending back what was stored is a no-op on the graph: after a successful edit, the
  payload built from the returned rows is accepted again and yields the same edges of every
  task and the same states and types (identifiers are 128-bit).\<close>

theorem replace_roundtrip:
  assumes "dep_db_ok db"
    and "replace_task_dependencies db task items actor new_id now = Inr (db', rows)"
    and "list_all (\<lambda>r. dr_depends_on r < 2 ^ 128) rows"
  shows "\<exists>db'' rows'. replace_task_dependencies db' task (map item_of_row rows) actor' new_id' now'
       = Inr (db'', rows')
     \<and> db_edges db'' = db_edges db' \<and> map dr_depends_on rows' = map dr_depends_on rows
     \<and> map dr_required_state rows' = map dr_required_state rows \<and> map dr_type rows' = map dr_type rows"
proof -
  let ?t = "pt_id task"
  obtain ns where ns: "normalize_dep_items ?t items = Inr ns"
    and ct: "check_dep_tasks db (pt_project task) (map nd_depends_on ns) = None"
    and nc: "(?t, ?t) \<notin> (set (other_edges db ?t) \<union> {?t} \<times> set (map nd_depends_on ns))\<^sup>+"
    and di: "distinct (map nd_depends_on ns)"
    and tasks: "db_tasks db' = map (\<lambda>x. if pt_id x = ?t then with_dependency_ids (map nd_depends_on ns) x else x) (db_tasks db)"
    and deps: "db_deps db' = filter (\<lambda>r. dr_task r \<noteq> ?t) (db_deps db) @ dep_rows_of ?t actor new_id now ns"
    and "rows = list_task_dependencies db' ?t"
    by (rule replace_cases[OF assms(2)])
  then have rows: "rows = dep_rows_of ?t actor new_id now ns" using replace_rows by metis
  have "list_all (\<lambda>r. dep_row_valid r \<and> dr_depends_on r < 2 ^ 128 \<and> dr_depends_on r \<noteq> ?t) rows"
    using assms(3) dep_rows_of_valid[OF normalize_dep_items_ok[OF ns]] normalize_dep_items_ok[OF ns]
      dep_rows_of_simps(1)[of ?t actor new_id now ns]
    unfolding rows list_all_iff by (metis (no_types, lifting) imageE image_eqI set_map)
  from normalize_items_of_rows[OF this] obtain ns'
    where ns': "normalize_dep_items ?t (map item_of_row rows) = Inr ns'"
      and same: "map nd_depends_on ns' = map dr_depends_on rows"
        "map nd_required_state ns' = map dr_required_state rows" "map nd_type ns' = map dr_type rows"
    by blast
  have ids: "map nd_depends_on ns' = map nd_depends_on ns" using same(1) rows by simp
  have other: "other_edges db' ?t = other_edges db ?t"
    by (auto simp: other_edges_def deps filter_empty_conv dest: dep_rows_of_task)
  obtain db'' rows' where r: "replace_task_dependencies db' task (map item_of_row rows) actor' new_id' now'
       = Inr (db'', rows')"
    using ns' ct nc di
    by (simp add: replace_task_dependencies_def Let_def edit_cycle ids other check_dep_tasks_map[OF tasks]
        del: map_map set_map)
  then obtain ns2 where "normalize_dep_items ?t (map item_of_row rows) = Inr ns2"
    and deps': "db_deps db'' = filter (\<lambda>r. dr_task r \<noteq> ?t) (db_deps db') @ dep_rows_of ?t actor' new_id' now' ns2"
    and "rows' = list_task_dependencies db'' ?t"
    by (rule replace_cases)
  with ns' have "ns2 = ns'" and rows': "rows' = dep_rows_of ?t actor' new_id' now' ns'"
    using replace_rows by fastforce+
  then have "db_edges db'' = db_edges db'"
    using replace_edges[OF deps'] replace_edges[OF deps] other ids by simp
  with r rows' same show ?thesis by (intro exI[of _ db''] exI[of _ rows']) simp
qed

theorem replace_roundtrip_witness:
  "\<exists>db1 rows db2 rows'. replace_task_dependencies sample_db (sample_task 1) [sample_item] None id 0 = Inr (db1, rows)
     \<and> replace_task_dependencies db1 (sample_task 1) (map item_of_row rows) None id 1 = Inr (db2, rows')
     \<and> db_edges db2 = {(1, 2)}"
proof -
  obtain db1 rows where r: "replace_task_dependencies sample_db (sample_task 1) [sample_item] None id 0 = Inr (db1, rows)"
    and e: "db_edges db1 = {(1, 2)}" and d: "map dr_depends_on rows = [2]"
    using sample_edit by (elim exE conjE) (rule that)
  have "list_all (\<lambda>r. dr_depends_on r < 2 ^ 128) rows"
    using d by auto
  from replace_roundtrip[OF sample_db_ok r this, of None id 1] r e show ?thesis by auto
qed

end
