(* ===== verification/Run_State.thy ===== *)
theory Run_State
  imports Py_Values
begin

section \<open>Run, task and project status (\<open>project_execution/service.py\<close>, \<open>execution_nodes.py\<close>)\<close>

text \<open>
  A run owns project tasks and execution nodes; their statuses are reconciled after every event.
  The database is a record of row lists (in the order an unordered query yields them), the
  session's \<open>flush\<close> writes \<open>updated_at = func.now()\<close> on the rows that changed (sessions are
  configured with \<open>autoflush=False\<close>, so nothing else does). \<open>now\<close> is the process clock
  \<open>datetime.now(timezone.utc)\<close>, \<open>db_now\<close> the transaction time; instants count from \<open>datetime.min\<close>.
\<close>

definition svc_COMPLETED_STATUSES :: "string list" where
  "svc_COMPLETED_STATUSES = [''completed'', ''done'', ''success'', ''succeeded'', ''approved'']"

definition svc_FAILED_STATUSES :: "string list" where
  "svc_FAILED_STATUSES = [''failed'', ''error'', ''cancelled'', ''canceled'']"

definition TERMINAL_RUN_STATUSES :: "string list" where
  "TERMINAL_RUN_STATUSES = svc_COMPLETED_STATUSES @ svc_FAILED_STATUSES"

definition EPHEMERAL_AGENT_CLEANUP_RUN_STATUSES :: "string list" where
  "EPHEMERAL_AGENT_CLEANUP_RUN_STATUSES = TERMINAL_RUN_STATUSES @ [''blocked'']"

definition TASK_ACTIVE_STEP_STATUSES :: "string list" where
  "TASK_ACTIVE_STEP_STATUSES = [''running'', ''acked'', ''leased'']"

definition TASK_ASSIGNED_STEP_STATUSES :: "string list" where
  "TASK_ASSIGNED_STEP_STATUSES = [''assigned'']"

definition TASK_PENDING_STEP_STATUSES :: "string list" where
  "TASK_PENDING_STEP_STATUSES = [''pending'', ''queued'']"

definition RUN_ACTIVE_STATUSES :: "string list" where
  "RUN_ACTIVE_STATUSES = [''running'', ''executing'', ''in_progress'']"

definition RUN_BLOCKED_STATUSES :: "string list" where
  "RUN_BLOCKED_STATUSES = [''blocked'']"

definition RUN_QUEUED_STATUSES :: "string list" where
  "RUN_QUEUED_STATUSES = [''queued'', ''assigned'', ''scheduled'', ''pending'']"

definition normalize_status :: "string \<Rightarrow> string" where
  "normalize_status value = norm_str (Some value)"

definition is_completed_status :: "string \<Rightarrow> bool" where
  "is_completed_status s \<longleftrightarrow> normalize_status s \<in> set svc_COMPLETED_STATUSES"

definition is_failed_status :: "string \<Rightarrow> bool" where
  "is_failed_status s \<longleftrightarrow>
     (let normalized = normalize_status s
      in normalized \<in> set svc_FAILED_STATUSES \<or> py_substr ''fail'' normalized)"

definition is_terminal_task_status :: "string \<Rightarrow> bool" where
  "is_terminal_task_status s \<longleftrightarrow> is_completed_status s \<or> is_failed_status s"

definition is_blocked_status :: "string \<Rightarrow> bool" where
  "is_blocked_status s \<longleftrightarrow> normalize_status s = ''blocked''"

definition latest_timestamp :: "timestamp option list \<Rightarrow> timestamp option" where
  "latest_timestamp values =
     (case List.map_filter (\<lambda>v. v) values of [] \<Rightarrow> None | t # ts \<Rightarrow> Some (fold max ts t))"

subsection \<open>The rows\<close>

record run_task =
  tk_id :: uuid
  tk_project :: uuid
  tk_run :: "uuid option"
  tk_title :: string
  tk_description :: "string option"
  tk_status :: string
  tk_assignee_agent :: "uuid option"
  tk_input_payload :: pyval
  tk_output_payload :: pyval
  tk_error_message :: "string option"
  tk_created_at :: timestamp
  tk_updated_at :: timestamp

record exec_node =
  en_id :: uuid
  en_project :: uuid
  en_run :: uuid
  en_task :: "uuid option"
  en_name :: string
  en_node_type :: string
  en_status :: string
  en_sequence_number :: int
  en_dependency_node_ids :: pyval
  en_node_payload :: pyval
  en_result_payload :: pyval
  en_error_message :: "string option"
  en_started_at :: "timestamp option"
  en_completed_at :: "timestamp option"
  en_created_at :: timestamp
  en_updated_at :: timestamp

record project_run =
  pr_id :: uuid
  pr_project :: uuid
  pr_status :: string
  pr_runtime_context :: pyval
  pr_error_message :: "string option"
  pr_started_at :: "timestamp option"
  pr_completed_at :: "timestamp option"
  pr_created_at :: timestamp
  pr_updated_at :: timestamp

record project_row =
  pj_id :: uuid
  pj_status :: string
  pj_updated_at :: timestamp

record agent_row =
  ag_id :: uuid
  ag_status :: string
  ag_is_ephemeral :: bool
  ag_lifecycle_scope :: "string option"
  ag_retired_at :: "timestamp option"

record run_db =
  rd_tasks :: "run_task list"
  rd_nodes :: "exec_node list"
  rd_runs :: "project_run list"
  rd_projects :: "project_row list"
  rd_agents :: "agent_row list"

subsection \<open>Tasks\<close>

definition resolve_task_status :: "string \<Rightarrow> exec_node list \<Rightarrow> string" where
  "resolve_task_status current_status records =
     (let sts = map (\<lambda>r. normalize_status (en_status r)) records
      in if sts = [] then current_status
         else if list_ex is_failed_status sts then ''failed''
         else if list_ex (\<lambda>s. s \<in> set TASK_ACTIVE_STEP_STATUSES) sts then ''running''
         else if list_ex (\<lambda>s. s \<in> set TASK_ASSIGNED_STEP_STATUSES) sts then ''assigned''
         else if list_ex (\<lambda>s. s \<in> set TASK_PENDING_STEP_STATUSES) sts then ''queued''
         else if list_all is_completed_status sts then ''completed''
         else if list_ex is_blocked_status sts then ''blocked''
         else current_status)"

text \<open>\<open>if next_status and task.status != next_status: task.status = next_status\<close>, then the flush.\<close>

definition set_task_status :: "timestamp \<Rightarrow> string \<Rightarrow> run_task \<Rightarrow> run_task" where
  "set_task_status db_now next t =
     (if next \<noteq> [] \<and> tk_status t \<noteq> next then t\<lparr>tk_status := next, tk_updated_at := db_now\<rparr> else t)"

definition nodes_of_task :: "uuid \<Rightarrow> exec_node list \<Rightarrow> exec_node list" where
  "nodes_of_task t nodes = filter (\<lambda>n. en_task n = Some t) nodes"

text \<open>\<open>order_by(sequence_number, created_at)\<close>.\<close>

definition node_order :: "exec_node list \<Rightarrow> exec_node list" where
  "node_order nodes = sort_key en_sequence_number (sort_key en_created_at nodes)"

definition reconcile_task_state :: "timestamp \<Rightarrow> uuid \<Rightarrow> run_db \<Rightarrow> run_db" where
  "reconcile_task_state db_now task_id db =
     db\<lparr>rd_tasks := map (\<lambda>t. if tk_id t = task_id
          then set_task_status db_now
                 (resolve_task_status (tk_status t) (node_order (nodes_of_task task_id (rd_nodes db)))) t
          else t) (rd_tasks db)\<rparr>"

subsection \<open>Projects\<close>

definition resolve_project_status :: "string \<Rightarrow> run_task list \<Rightarrow> project_run list \<Rightarrow> string" where
  "resolve_project_status current_status tasks runs =
     (let sts = map (\<lambda>t. normalize_status (tk_status t)) tasks
              @ map (\<lambda>r. normalize_status (pr_status r)) runs;
          from_run =
            (case max_by (\<lambda>r. case latest_timestamp [Some (pr_updated_at r), pr_completed_at r,
                                   pr_started_at r, Some (pr_created_at r)] of
                          None \<Rightarrow> 0 | Some x \<Rightarrow> x) runs of
               None \<Rightarrow> None
             | Some r \<Rightarrow>
                 (let s = normalize_status (pr_status r)
                  in if s \<in> set RUN_BLOCKED_STATUSES then Some ''blocked''
                     else if is_failed_status s then Some ''failed''
                     else if s \<in> set TERMINAL_RUN_STATUSES then Some ''completed''
                     else None));
          from_task =
            (case max_by (\<lambda>t. case latest_timestamp [Some (tk_updated_at t), Some (tk_created_at t)] of
                          None \<Rightarrow> 0 | Some x \<Rightarrow> x) tasks of
               None \<Rightarrow> None
             | Some t \<Rightarrow>
                 (let s = normalize_status (tk_status t)
                  in if s \<in> set RUN_BLOCKED_STATUSES then Some ''blocked''
                     else if is_failed_status s then Some ''failed''
                     else if is_completed_status s then Some ''completed''
                     else None))
      in if sts = [] then current_status
         else if list_ex (\<lambda>s. s \<in> set RUN_ACTIVE_STATUSES) sts then ''running''
         else if list_ex (\<lambda>s. s \<in> set RUN_QUEUED_STATUSES) sts then ''queued''
         else case from_run of Some s \<Rightarrow> s
              | None \<Rightarrow> (case from_task of Some s \<Rightarrow> s | None \<Rightarrow> current_status))"

definition set_project_status :: "timestamp \<Rightarrow> string \<Rightarrow> project_row \<Rightarrow> project_row" where
  "set_project_status db_now next p =
     (if next \<noteq> [] \<and> pj_status p \<noteq> next then p\<lparr>pj_status := next, pj_updated_at := db_now\<rparr> else p)"

definition reconcile_project_state :: "timestamp \<Rightarrow> uuid \<Rightarrow> run_db \<Rightarrow> run_db" where
  "reconcile_project_state db_now project_id db =
     db\<lparr>rd_projects := map (\<lambda>p. if pj_id p = project_id
          then set_project_status db_now
                 (resolve_project_status (pj_status p)
                   (filter (\<lambda>t. tk_project t = project_id) (rd_tasks db))
                   (filter (\<lambda>r. pr_project r = project_id) (rd_runs db))) p
          else p) (rd_projects db)\<rparr>"

subsection \<open>Ephemeral agents\<close>

definition payload_get :: "string \<Rightarrow> (string \<times> pyval) list \<Rightarrow> pyval" where
  "payload_get k d = (case dict_get d k of None \<Rightarrow> PNone | Some v \<Rightarrow> v)"

text \<open>\<open>uuid.UUID(str(raw))\<close>: of the other values only integers can print as 32 hexadecimal digits.\<close>

definition uuid_of_value :: "pyval \<Rightarrow> uuid option" where
  "uuid_of_value v =
     (case v of PStr s \<Rightarrow> parse_uuid s | PInt i \<Rightarrow> parse_uuid (nat_str (nat \<bar>i\<bar>)) | _ \<Rightarrow> None)"

definition assigned_agent_id :: "pyval \<Rightarrow> uuid option" where
  "assigned_agent_id runtime_context =
     (case runtime_context of
        PDict d \<Rightarrow>
          (let a = payload_get ''agent_assignment'' d;
               assignment = (if py_truthy a then a else payload_get ''executor_assignment'' d)
           in case assignment of
                PDict e \<Rightarrow>
                  (let raw = payload_get ''agent_id'' e
                   in if py_truthy raw then uuid_of_value raw else None)
              | _ \<Rightarrow> None)
      | _ \<Rightarrow> None)"

definition run_agent_ids :: "project_run \<Rightarrow> run_task list \<Rightarrow> uuid list" where
  "run_agent_ids run tasks =
     List.map_filter tk_assignee_agent tasks
       @ (case assigned_agent_id (pr_runtime_context run) of None \<Rightarrow> [] | Some a \<Rightarrow> [a])"

definition agent_retirable :: "uuid list \<Rightarrow> agent_row \<Rightarrow> bool" where
  "agent_retirable ids a \<longleftrightarrow> ag_id a \<in> set ids \<and> ag_is_ephemeral a
     \<and> ag_lifecycle_scope a = Some ''current_run'' \<and> ag_retired_at a = None"

definition retire_ephemeral_run_agents ::
    "timestamp \<Rightarrow> project_run \<Rightarrow> run_task list \<Rightarrow> run_db \<Rightarrow> uuid list \<times> run_db" where
  "retire_ephemeral_run_agents now run tasks db =
     (if normalize_status (pr_status run) \<notin> set EPHEMERAL_AGENT_CLEANUP_RUN_STATUSES then ([], db)
      else
        let ids = run_agent_ids run tasks
        in (map ag_id (filter (agent_retirable ids) (rd_agents db)),
            db\<lparr>rd_agents := map (\<lambda>a. if agent_retirable ids a
                 then a\<lparr>ag_status := ''offline'', ag_retired_at := Some now\<rparr> else a) (rd_agents db)\<rparr>))"

subsection \<open>Runs\<close>

text \<open>The status and completion time that \<open>reconcile_run_state\<close> gives the run.\<close>

definition next_run_state ::
    "timestamp \<Rightarrow> project_run \<Rightarrow> run_task list \<Rightarrow> exec_node list \<Rightarrow> project_run" where
  "next_run_state now run tasks nodes =
     (let completion = latest_timestamp ([pr_completed_at run, Some (pr_updated_at run), pr_started_at run]
            @ map (\<lambda>t. Some (tk_updated_at t)) tasks @ map en_completed_at nodes
            @ map (\<lambda>n. Some (en_updated_at n)) nodes);
          failed_nodes = list_ex (\<lambda>n. is_failed_status (en_status n)) nodes;
          failed_tasks = list_ex (\<lambda>t. is_failed_status (tk_status t)) tasks;
          has_active_tasks = list_ex (\<lambda>t. \<not> is_terminal_task_status (tk_status t)) tasks;
          resolved = (case completion of None \<Rightarrow> now | Some c \<Rightarrow> c)
      in if normalize_status (pr_status run) \<in> set TERMINAL_RUN_STATUSES then
           (if pr_completed_at run = None \<and> completion \<noteq> None then run\<lparr>pr_completed_at := completion\<rparr> else run)
         else if tasks = [] then
           (if pr_started_at run \<noteq> None
            then run\<lparr>pr_status := (if failed_nodes then ''failed'' else ''completed''),
                     pr_completed_at := Some resolved\<rparr>
            else run\<lparr>pr_completed_at := None\<rparr>)
         else if \<not> has_active_tasks then
           run\<lparr>pr_status := (if failed_tasks \<or> failed_nodes then ''failed'' else ''completed''),
               pr_completed_at := Some resolved\<rparr>
         else run\<lparr>pr_completed_at := None\<rparr>)"

definition find_run :: "uuid \<Rightarrow> run_db \<Rightarrow> project_run option" where
  "find_run rid db = find (\<lambda>r. pr_id r = rid) (rd_runs db)"

definition put_run :: "project_run \<Rightarrow> run_db \<Rightarrow> run_db" where
  "put_run run db = db\<lparr>rd_runs := map (\<lambda>r. if pr_id r = pr_id run then run else r) (rd_runs db)\<rparr>"

definition reconcile_run_tasks :: "timestamp \<Rightarrow> uuid \<Rightarrow> run_db \<Rightarrow> run_db" where
  "reconcile_run_tasks db_now rid db =
     (let nodes = node_order (filter (\<lambda>n. en_run n = rid) (rd_nodes db))
      in db\<lparr>rd_tasks := map (\<lambda>t. if tk_run t = Some rid
               then set_task_status db_now
                      (resolve_task_status (tk_status t) (nodes_of_task (tk_id t) nodes)) t
               else t) (rd_tasks db)\<rparr>)"

definition reconcile_run_state :: "timestamp \<Rightarrow> timestamp \<Rightarrow> uuid \<Rightarrow> run_db \<Rightarrow> project_run option \<times> run_db" where
  "reconcile_run_state now db_now rid db0 =
     (case find_run rid db0 of
        None \<Rightarrow> (None, db0)
      | Some run0 \<Rightarrow>
          (let db = reconcile_run_tasks db_now rid db0;
               tasks = filter (\<lambda>t. tk_run t = Some rid) (rd_tasks db);
               nodes = node_order (filter (\<lambda>n. en_run n = rid) (rd_nodes db));
               run1 = next_run_state now run0 tasks nodes;
               run = (if run1 \<noteq> run0 then run1\<lparr>pr_updated_at := db_now\<rparr> else run0);
               db1 = put_run run db;
               db2 = snd (retire_ephemeral_run_agents now run tasks db1);
               db3 = reconcile_project_state db_now (pr_project run) db2
           in (Some run, db3)))"

subsection \<open>Execution nodes\<close>

definition TERMINAL_NODE_STATUSES :: "string list" where
  "TERMINAL_NODE_STATUSES = [''completed'', ''failed'', ''cancelled'', ''blocked'']"

definition PENDING_NODE_STATUSES :: "string list" where
  "PENDING_NODE_STATUSES = [''pending'', ''queued'']"

definition as_payload_dict :: "pyval \<Rightarrow> pyval" where
  "as_payload_dict v = (case v of PDict d \<Rightarrow> PDict d | _ \<Rightarrow> PDict [])"

text \<open>\<open>str(item or "").strip()\<close>; items that are no strings do not occur in these lists.\<close>

definition payload_text :: "pyval \<Rightarrow> string" where
  "payload_text v = (case v of PStr s \<Rightarrow> py_strip s | _ \<Rightarrow> [])"

definition as_payload_list :: "pyval \<Rightarrow> string list" where
  "as_payload_list v =
     (case v of PList xs \<Rightarrow> filter (\<lambda>s. s \<noteq> []) (map payload_text xs) | _ \<Rightarrow> [])"

definition create_execution_node ::
    "uuid \<Rightarrow> timestamp \<Rightarrow> project_run \<Rightarrow> uuid option \<Rightarrow> string \<Rightarrow> string \<Rightarrow> string \<Rightarrow> int \<Rightarrow> pyval \<Rightarrow> pyval
      \<Rightarrow> string option \<Rightarrow> timestamp option \<Rightarrow> timestamp option \<Rightarrow> run_db \<Rightarrow> exec_node \<times> run_db" where
  "create_execution_node new_id db_now run task name node_type status sequence_number node_payload
     result_payload error_message started_at completed_at db =
     (let payload = as_payload_dict node_payload;
          node = \<lparr>en_id = new_id, en_project = pr_project run, en_run = pr_id run, en_task = task,
            en_name = name, en_node_type = node_type, en_status = status,
            en_sequence_number = sequence_number,
            en_dependency_node_ids = PList (map PStr (as_payload_list
              (case payload of PDict d \<Rightarrow> payload_get ''dependency_node_ids'' d | _ \<Rightarrow> PNone))),
            en_node_payload = payload, en_result_payload = as_payload_dict result_payload,
            en_error_message = error_message, en_started_at = started_at,
            en_completed_at = completed_at, en_created_at = db_now, en_updated_at = db_now\<rparr>
      in (node, db\<lparr>rd_nodes := rd_nodes db @ [node]\<rparr>))"

definition list_execution_nodes_for_run :: "uuid \<Rightarrow> run_db \<Rightarrow> exec_node list" where
  "list_execution_nodes_for_run rid db = node_order (filter (\<lambda>n. en_run n = rid) (rd_nodes db))"

definition node_is_ready :: "exec_node \<Rightarrow> string set \<Rightarrow> bool" where
  "node_is_ready n completed \<longleftrightarrow> list_all (\<lambda>d. d \<in> completed) (as_payload_list (en_dependency_node_ids n))"

definition get_ready_execution_nodes_for_run :: "uuid \<Rightarrow> run_db \<Rightarrow> exec_node list" where
  "get_ready_execution_nodes_for_run rid db =
     (let nodes = list_execution_nodes_for_run rid db;
          completed = set (map (\<lambda>n. uuid_str (en_id n))
            (filter (\<lambda>n. normalize_status (en_status n) \<in> set TERMINAL_NODE_STATUSES) nodes))
      in filter (\<lambda>n. normalize_status (en_status n) \<in> set PENDING_NODE_STATUSES
                   \<and> node_is_ready n completed) nodes)"

text \<open>
  The selection of \<open>scheduler._schedule_next_pending_step\<close>: which nodes it hands to
  \<open>_schedule_ready_node\<close>, and what it does when no node is pending (the audit event is not
  modelled).
\<close>

definition schedule_next_pending_step ::
    "timestamp \<Rightarrow> timestamp \<Rightarrow> uuid \<Rightarrow> run_db \<Rightarrow> exec_node list \<times> run_db" where
  "schedule_next_pending_step now db_now rid db =
     (case find_run rid db of
        None \<Rightarrow> ([], db)
      | Some run \<Rightarrow>
          (let nodes = list_execution_nodes_for_run rid db;
               pending = filter (\<lambda>n. normalize_status (en_status n) \<in> {''pending'', ''queued''}) nodes
           in if pending = [] then
                (if pr_status run \<notin> {''completed'', ''failed'', ''cancelled'', ''blocked''} then
                   (let run' = run\<lparr>pr_status := ''completed'', pr_completed_at := Some now, pr_updated_at := db_now\<rparr>;
                        db1 = snd (retire_ephemeral_run_agents now run' [] (put_run run' db))
                    in ([], snd (reconcile_run_state now db_now rid db1)))
                 else ([], db))
              else (get_ready_execution_nodes_for_run rid db, db)))"

subsection \<open>Stability of the decisions\<close>

lemma resolve_task_status_idem:
  "resolve_task_status (resolve_task_status c rs) rs = resolve_task_status c rs"
  by (simp add: resolve_task_status_def Let_def)

lemma set_task_status_again:
  "set_task_status n2 (resolve_task_status (tk_status t') rs) t' = t'"
  if "t' = set_task_status n1 (resolve_task_status (tk_status t) rs) t"
  using that resolve_task_status_idem[of "tk_status t" rs]
  by (auto simp: set_task_status_def)

lemma set_task_status_keeps [simp]:
  "tk_id (set_task_status n s t) = tk_id t" "tk_run (set_task_status n s t) = tk_run t"
  "tk_project (set_task_status n s t) = tk_project t"
  "tk_assignee_agent (set_task_status n s t) = tk_assignee_agent t"
  by (simp_all add: set_task_status_def)

lemma resolve_project_status_idem:
  "resolve_project_status (resolve_project_status c ts rs) ts rs = resolve_project_status c ts rs"
  by (simp add: resolve_project_status_def Let_def split: option.splits)

lemma normalize_result: "normalize_status ''failed'' = ''failed''" "normalize_status ''completed'' = ''completed''"
  by code_simp+

lemma terminal_results: "''failed'' \<in> set TERMINAL_RUN_STATUSES" "''completed'' \<in> set TERMINAL_RUN_STATUSES"
  by (simp_all add: TERMINAL_RUN_STATUSES_def svc_COMPLETED_STATUSES_def svc_FAILED_STATUSES_def)

lemma latest_timestamp_Some: "Some x \<in> set xs \<Longrightarrow> latest_timestamp xs \<noteq> None"
proof -
  assume "Some x \<in> set xs"
  then have "x \<in> set (List.map_filter (\<lambda>v. v) xs)" by (force simp: map_filter_def)
  then show ?thesis by (auto simp: latest_timestamp_def split: list.splits)
qed

lemma next_run_state_cases:
  fixes run tasks nodes now
  defines "r \<equiv> next_run_state now run tasks nodes"
  shows "(normalize_status (pr_status run) \<in> set TERMINAL_RUN_STATUSES
           \<and> pr_status r = pr_status run \<and> pr_completed_at r \<noteq> None)
     \<or> (normalize_status (pr_status run) \<notin> set TERMINAL_RUN_STATUSES
           \<and> (tasks = [] \<longrightarrow> pr_started_at run \<noteq> None)
           \<and> list_all (\<lambda>t. is_terminal_task_status (tk_status t)) tasks
           \<and> pr_status r = (if list_ex (\<lambda>t. is_failed_status (tk_status t)) tasks
                 \<or> list_ex (\<lambda>n. is_failed_status (en_status n)) nodes then ''failed'' else ''completed'')
           \<and> pr_completed_at r \<noteq> None)
     \<or> (normalize_status (pr_status run) \<notin> set TERMINAL_RUN_STATUSES
           \<and> (tasks = [] \<and> pr_started_at run = None
              \<or> \<not> list_all (\<lambda>t. is_terminal_task_status (tk_status t)) tasks)
           \<and> pr_status r = pr_status run \<and> pr_completed_at r = None)"
proof -
  have "latest_timestamp ([pr_completed_at run, Some (pr_updated_at run), pr_started_at run]
            @ map (\<lambda>t. Some (tk_updated_at t)) tasks @ map en_completed_at nodes
            @ map (\<lambda>n. Some (en_updated_at n)) nodes) \<noteq> None"
    by (rule latest_timestamp_Some[of "pr_updated_at run"]) simp
  then show ?thesis
    unfolding r_def next_run_state_def Let_def
    by (auto simp: list_ex_iff list_all_iff split: option.splits)
qed

lemma next_run_state_fields [simp]:
  "pr_id (next_run_state now run tasks nodes) = pr_id run"
  "pr_project (next_run_state now run tasks nodes) = pr_project run"
  "pr_started_at (next_run_state now run tasks nodes) = pr_started_at run"
  "pr_runtime_context (next_run_state now run tasks nodes) = pr_runtime_context run"
  "pr_error_message (next_run_state now run tasks nodes) = pr_error_message run"
  by (simp_all add: next_run_state_def Let_def)

lemma next_run_state_stable:
  assumes "pr_status r = pr_status (next_run_state now run tasks nodes)"
    and "pr_completed_at r = pr_completed_at (next_run_state now run tasks nodes)"
    and "pr_started_at r = pr_started_at run"
  shows "next_run_state now' r tasks nodes = r"
proof -
  let ?final = "\<lambda>x. normalize_status (pr_status x) \<in> set TERMINAL_RUN_STATUSES"
  consider "?final r" "pr_completed_at r \<noteq> None"
    | "\<not> ?final r" "pr_completed_at r = None" "tasks = []" "pr_started_at r = None"
    | "\<not> ?final r" "pr_completed_at r = None" "\<not> list_all (\<lambda>t. is_terminal_task_status (tk_status t)) tasks"
    using next_run_state_cases[of run now tasks nodes] assms
    by (auto simp: normalize_result terminal_results simp del: next_run_state_fields)
  then show ?thesis
  proof cases
    case 1
    then show ?thesis by (auto simp: next_run_state_def Let_def)
  next
    case 2
    then show ?thesis by (simp add: next_run_state_def Let_def)
  next
    case 3
    then have "tasks \<noteq> []" "list_ex (\<lambda>t. \<not> is_terminal_task_status (tk_status t)) tasks"
      by (auto simp: list_ex_iff list_all_iff)
    with 3 show ?thesis by (simp add: next_run_state_def Let_def)
  qed
qed

lemma find_run_map:
  "find (\<lambda>x. pr_id x = rid) xs = Some r0 \<Longrightarrow> pr_id r = rid \<Longrightarrow>
   find (\<lambda>x. pr_id x = rid) (map (\<lambda>x. if pr_id x = pr_id r then r else x) xs) = Some r"
  by (induction xs) (auto split: if_splits)

lemma find_run_put:
  "find_run rid db = Some r0 \<Longrightarrow> pr_id r = rid \<Longrightarrow> find_run rid (put_run r db) = Some r"
  using find_run_map[of rid "rd_runs db" r0 r] by (simp add: find_run_def put_run_def)

lemma find_run_id: "find_run rid db = Some r \<Longrightarrow> pr_id r = rid"
  by (auto simp: find_run_def find_Some_iff)

lemma reconcile_run_tasks_fields [simp]:
  "rd_nodes (reconcile_run_tasks n rid db) = rd_nodes db" "rd_runs (reconcile_run_tasks n rid db) = rd_runs db"
  "rd_projects (reconcile_run_tasks n rid db) = rd_projects db"
  "rd_agents (reconcile_run_tasks n rid db) = rd_agents db"
  by (simp_all add: reconcile_run_tasks_def Let_def)

text \<open>The parts of \<open>reconcile_run_state\<close>, named once for all proofs about it.\<close>

lemma reconcile_run_state_parts:
  assumes "reconcile_run_state now db_now rid db0 = (Some run, db')"
  obtains run0 tasks nodes where "find_run rid db0 = Some run0"
    and "tasks = filter (\<lambda>t. tk_run t = Some rid) (rd_tasks (reconcile_run_tasks db_now rid db0))"
    and "nodes = node_order (filter (\<lambda>n. en_run n = rid) (rd_nodes db0))"
    and "pr_id run = rid" and "pr_project run = pr_project run0" and "pr_started_at run = pr_started_at run0"
    and "pr_runtime_context run = pr_runtime_context run0"
    and "pr_status run = pr_status (next_run_state now run0 tasks nodes)"
    and "pr_completed_at run = pr_completed_at (next_run_state now run0 tasks nodes)"
    and "db' = reconcile_project_state db_now (pr_project run)
                (snd (retire_ephemeral_run_agents now run tasks (put_run run (reconcile_run_tasks db_now rid db0))))"
proof -
  from assms obtain run0 where f: "find_run rid db0 = Some run0"
    by (auto simp: reconcile_run_state_def split: option.splits)
  let ?tasks = "filter (\<lambda>t. tk_run t = Some rid) (rd_tasks (reconcile_run_tasks db_now rid db0))"
  let ?nodes = "node_order (filter (\<lambda>n. en_run n = rid) (rd_nodes db0))"
  show ?thesis
    using assms f find_run_id[OF f]
    by (intro that[of run0 ?tasks ?nodes]) (auto simp: reconcile_run_state_def Let_def)
qed

lemma retire_fields [simp]:
  "rd_tasks (snd (retire_ephemeral_run_agents now run tasks db)) = rd_tasks db"
  "rd_nodes (snd (retire_ephemeral_run_agents now run tasks db)) = rd_nodes db"
  "rd_runs (snd (retire_ephemeral_run_agents now run tasks db)) = rd_runs db"
  "rd_projects (snd (retire_ephemeral_run_agents now run tasks db)) = rd_projects db"
  by (simp_all add: retire_ephemeral_run_agents_def Let_def)

lemma reconcile_project_fields [simp]:
  "rd_tasks (reconcile_project_state n p db) = rd_tasks db"
  "rd_nodes (reconcile_project_state n p db) = rd_nodes db"
  "rd_runs (reconcile_project_state n p db) = rd_runs db"
  "rd_agents (reconcile_project_state n p db) = rd_agents db"
  by (simp_all add: reconcile_project_state_def)

lemma put_run_fields [simp]:
  "rd_tasks (put_run r db) = rd_tasks db" "rd_nodes (put_run r db) = rd_nodes db"
  "rd_projects (put_run r db) = rd_projects db" "rd_agents (put_run r db) = rd_agents db"
  by (simp_all add: put_run_def)

lemma map_absorb: "(\<And>x. f (g x) = g x) \<Longrightarrow> map f (map g xs) = map g xs"
  by simp

lemma map_eq_self: "(\<And>x. x \<in> set xs \<Longrightarrow> f x = x) \<Longrightarrow> map f xs = xs"
  by (induction xs) auto

lemma reconcile_run_tasks_again:
  assumes "rd_tasks db' = rd_tasks (reconcile_run_tasks n1 rid db)" and "rd_nodes db' = rd_nodes db"
  shows "reconcile_run_tasks n2 rid db' = db'"
proof -
  let ?nodes = "node_order (filter (\<lambda>n. en_run n = rid) (rd_nodes db))"
  let ?f = "\<lambda>n t. if tk_run t = Some rid
      then set_task_status n (resolve_task_status (tk_status t) (nodes_of_task (tk_id t) ?nodes)) t else t"
  have "?f n2 (?f n1 t) = ?f n1 t" for t
    using set_task_status_again[OF refl, of n2 n1 t "nodes_of_task (tk_id t) ?nodes"] by simp
  then have "map (?f n2) (map (?f n1) (rd_tasks db)) = map (?f n1) (rd_tasks db)"
    by (rule map_absorb)
  moreover have "rd_tasks db' = map (?f n1) (rd_tasks db)"
    using assms(1) by (simp add: reconcile_run_tasks_def Let_def)
  ultimately show ?thesis by (simp add: reconcile_run_tasks_def Let_def assms(2))
qed

lemma put_run_again: "rd_runs db = rd_runs (put_run r db0) \<Longrightarrow> put_run r db = db"
proof -
  assume "rd_runs db = rd_runs (put_run r db0)"
  then have "map (\<lambda>x. if pr_id x = pr_id r then r else x) (rd_runs db) = rd_runs db"
    by (auto simp: put_run_def intro!: map_eq_self)
  then show ?thesis by (simp add: put_run_def)
qed

lemma retire_again:
  assumes "rd_agents db = rd_agents (snd (retire_ephemeral_run_agents n1 run tasks db0))"
  shows "snd (retire_ephemeral_run_agents n2 run tasks db) = db"
proof -
  have "map (\<lambda>a. if agent_retirable ids a then a\<lparr>ag_status := ''offline'', ag_retired_at := Some n2\<rparr> else a)
      (map (\<lambda>a. if agent_retirable ids a then a\<lparr>ag_status := ''offline'', ag_retired_at := Some n1\<rparr> else a) xs)
    = map (\<lambda>a. if agent_retirable ids a then a\<lparr>ag_status := ''offline'', ag_retired_at := Some n1\<rparr> else a) xs"
    for ids xs
    by (rule map_eq_self) (auto simp: agent_retirable_def)
  with assms show ?thesis by (simp add: retire_ephemeral_run_agents_def Let_def)
qed

lemma set_project_status_id [simp]: "pj_id (set_project_status n s p) = pj_id p"
  by (simp add: set_project_status_def)

lemma set_project_status_again:
  fixes ts rs
  defines "next \<equiv> \<lambda>p. resolve_project_status (pj_status p) ts rs"
  shows "set_project_status n2 (next (set_project_status n1 (next p) p)) (set_project_status n1 (next p) p)
    = set_project_status n1 (next p) p"
  using resolve_project_status_idem[of "pj_status p" ts rs]
  by (auto simp: set_project_status_def next_def)

lemma reconcile_project_again:
  assumes "db = reconcile_project_state n1 p db0"
  shows "reconcile_project_state n2 p db = db"
proof -
  let ?ts = "filter (\<lambda>t. tk_project t = p) (rd_tasks db0)" and ?rs = "filter (\<lambda>r. pr_project r = p) (rd_runs db0)"
  let ?f = "\<lambda>n x. if pj_id x = p then set_project_status n (resolve_project_status (pj_status x) ?ts ?rs) x else x"
  have "?f n2 (?f n1 x) = ?f n1 x" for x
    using set_project_status_again[where ?n1.0 = n1 and ?n2.0 = n2 and ts = ?ts and rs = ?rs and p = x] by simp
  then have "map (?f n2) (map (?f n1) (rd_projects db0)) = map (?f n1) (rd_projects db0)"
    by (rule map_absorb)
  moreover have db: "rd_projects db = map (?f n1) (rd_projects db0)" "rd_tasks db = rd_tasks db0"
    "rd_runs db = rd_runs db0"
    by (simp_all add: assms reconcile_project_state_def)
  ultimately have "map (?f n2) (rd_projects db) = rd_projects db" by metis
  moreover have "reconcile_project_state n2 p db = db\<lparr>rd_projects := map (?f n2) (rd_projects db)\<rparr>"
    by (simp only: reconcile_project_state_def db(2,3))
  ultimately show ?thesis by simp
qed

lemma reconcile_idem:
  assumes "reconcile_run_state now db_now rid db = (r, db')"
  shows "reconcile_run_state now' db_now' rid db' = (r, db')"
proof (cases r)
  case None
  with assms show ?thesis by (auto simp: reconcile_run_state_def Let_def split: option.splits)
next
  case (Some run)
  obtain run0 tasks nodes where f: "find_run rid db = Some run0"
    and tasks: "tasks = filter (\<lambda>t. tk_run t = Some rid) (rd_tasks (reconcile_run_tasks db_now rid db))"
    and nodes: "nodes = node_order (filter (\<lambda>n. en_run n = rid) (rd_nodes db))"
    and run: "pr_id run = rid" "pr_started_at run = pr_started_at run0"
      "pr_status run = pr_status (next_run_state now run0 tasks nodes)"
      "pr_completed_at run = pr_completed_at (next_run_state now run0 tasks nodes)"
    and db': "db' = reconcile_project_state db_now (pr_project run)
        (snd (retire_ephemeral_run_agents now run tasks (put_run run (reconcile_run_tasks db_now rid db))))"
    by (rule reconcile_run_state_parts[OF assms[unfolded Some]])
  have t': "reconcile_run_tasks db_now' rid db' = db'"
    by (rule reconcile_run_tasks_again[of _ db_now _ db]) (simp_all add: db')
  have f': "find_run rid db' = Some run"
    using find_run_put[of rid "reconcile_run_tasks db_now rid db" run0 run] f run(1)
    by (simp add: find_run_def db')
  have n': "next_run_state now' run tasks nodes = run"
    using next_run_state_stable[OF run(3,4,2)] .
  have p': "put_run run db' = db'"
    by (rule put_run_again[of _ _ "reconcile_run_tasks db_now rid db"]) (simp add: db')
  have a': "snd (retire_ephemeral_run_agents now' run tasks db') = db'"
    by (rule retire_again[of _ now _ _ "put_run run (reconcile_run_tasks db_now rid db)"]) (simp add: db')
  have j': "reconcile_project_state db_now' (pr_project run) db' = db'"
    by (rule reconcile_project_again[OF db'])
  have tasks': "filter (\<lambda>t. tk_run t = Some rid) (rd_tasks db') = tasks"
    and nodes': "node_order (filter (\<lambda>n. en_run n = rid) (rd_nodes db')) = nodes"
    by (simp_all add: db' tasks nodes)
  show ?thesis
    by (simp add: reconcile_run_state_def f' t' Let_def tasks' nodes' n' p' a' j' Some)
qed

lemma set_node_order [simp]: "set (node_order ns) = set ns"
  by (simp add: node_order_def)

subsection \<open>Concrete rows for the witnesses\<close>

definition sample_run :: "string \<Rightarrow> project_run" where
  "sample_run st = \<lparr>pr_id = 1, pr_project = 9, pr_status = st, pr_runtime_context = PDict [],
     pr_error_message = None, pr_started_at = Some 5, pr_completed_at = None, pr_created_at = 1, pr_updated_at = 6\<rparr>"

definition sample_run_task :: "uuid \<Rightarrow> string \<Rightarrow> run_task" where
  "sample_run_task i st = \<lparr>tk_id = i, tk_project = 9, tk_run = Some 1, tk_title = ''t'',
     tk_description = None, tk_status = st, tk_assignee_agent = Some 7, tk_input_payload = PDict [],
     tk_output_payload = PDict [], tk_error_message = None, tk_created_at = 1, tk_updated_at = 6\<rparr>"

definition sample_node :: "uuid \<Rightarrow> uuid \<Rightarrow> string \<Rightarrow> exec_node" where
  "sample_node i t st = \<lparr>en_id = i, en_project = 9, en_run = 1, en_task = Some t, en_name = [],
     en_node_type = ''task'', en_status = st, en_sequence_number = 0,
     en_dependency_node_ids = PList [], en_node_payload = PDict [], en_result_payload = PDict [],
     en_error_message = None, en_started_at = None, en_completed_at = None, en_created_at = 1,
     en_updated_at = 6\<rparr>"

definition sample_agent :: agent_row where
  "sample_agent = \<lparr>ag_id = 7, ag_status = ''working'', ag_is_ephemeral = True,
     ag_lifecycle_scope = Some ''current_run'', ag_retired_at = None\<rparr>"

text \<open>One task is completed by its node, the other is still running.\<close>

definition sample_run_db :: "string \<Rightarrow> string \<Rightarrow> run_db" where
  "sample_run_db run_status node_status =
     \<lparr>rd_tasks = [sample_run_task 2 ''queued'', sample_run_task 3 ''queued''],
      rd_nodes = [sample_node 4 2 ''completed'', sample_node 5 3 node_status],
      rd_runs = [sample_run run_status], rd_projects = [\<lparr>pj_id = 9, pj_status = ''planning'', pj_updated_at = 0\<rparr>],
      rd_agents = [sample_agent]\<rparr>"

lemma sample_find_run [simp]: "find_run 1 (sample_run_db rs ns) = Some (sample_run rs)"
  by (simp add: find_run_def sample_run_db_def sample_run_def)

lemma reconcile_returns_run:
  "find_run rid db = Some run0 \<Longrightarrow> \<exists>run db'. reconcile_run_state now db_now rid db = (Some run, db')"
  by (simp add: reconcile_run_state_def Let_def)

subsection \<open>Properties\<close>

text \<open>How a task's status follows from its execution nodes: one failed (or cancelled) node
  makes the task failed whatever the others do, nothing else makes it failed; it becomes
  completed only when every node is completed, and with no node its status is left alone.\<close>

theorem task_status_follows_nodes:
  "(list_ex (\<lambda>n. is_failed_status (normalize_status (en_status n))) nodes \<longrightarrow> resolve_task_status c nodes = ''failed'')
   \<and> (resolve_task_status c nodes = ''failed'' \<longrightarrow>
        c = ''failed'' \<or> list_ex (\<lambda>n. is_failed_status (normalize_status (en_status n))) nodes)
   \<and> (resolve_task_status c nodes = ''completed'' \<longrightarrow> c = ''completed'' \<or> nodes \<noteq> []
        \<and> list_all (\<lambda>n. is_completed_status (normalize_status (en_status n))
            \<and> \<not> is_failed_status (normalize_status (en_status n))) nodes)
   \<and> resolve_task_status c [] = c"
  by (auto simp: resolve_task_status_def Let_def list_ex_iff list_all_iff split: if_splits)

theorem task_status_follows_nodes_witness:
  "resolve_task_status ''queued'' [sample_node 4 2 ''completed'', sample_node 5 2 ''timeout_failure''] = ''failed''"
proof -
  have "list_ex (\<lambda>n. is_failed_status (normalize_status (en_status n)))
      [sample_node 4 2 ''completed'', sample_node 5 2 ''timeout_failure'']"
    by code_simp
  with task_status_follows_nodes[of "[sample_node 4 2 ''completed'', sample_node 5 2 ''timeout_failure'']" "''queued''"]
  show ?thesis by blast
qed

lemma reconcile_decides:
  assumes "find_run rid db = Some run0" and "reconcile_run_state now db_now rid db = (Some run, db')"
  shows "(let tasks = filter (\<lambda>t. tk_run t = Some rid) (rd_tasks db');
            nodes = filter (\<lambda>n. en_run n = rid) (rd_nodes db');
            failed = list_ex (\<lambda>t. is_failed_status (tk_status t)) tasks
                   \<or> list_ex (\<lambda>n. is_failed_status (en_status n)) nodes
        in (if normalize_status (pr_status run0) \<in> set TERMINAL_RUN_STATUSES
            then pr_status run = pr_status run0 \<and> pr_completed_at run \<noteq> None
            else if list_ex (\<lambda>t. \<not> is_terminal_task_status (tk_status t)) tasks
                 \<or> tasks = [] \<and> pr_started_at run0 = None
            then pr_status run = pr_status run0 \<and> pr_completed_at run = None
            else pr_status run = (if failed then ''failed'' else ''completed'')
               \<and> pr_completed_at run \<noteq> None))
     \<and> find_run rid db' = Some run"
proof -
  obtain run1 tasks nodes where f: "find_run rid db = Some run1"
    and tasks: "tasks = filter (\<lambda>t. tk_run t = Some rid) (rd_tasks (reconcile_run_tasks db_now rid db))"
    and nodes: "nodes = node_order (filter (\<lambda>n. en_run n = rid) (rd_nodes db))"
    and run: "pr_id run = rid" "pr_status run = pr_status (next_run_state now run1 tasks nodes)"
      "pr_completed_at run = pr_completed_at (next_run_state now run1 tasks nodes)"
    and db': "db' = reconcile_project_state db_now (pr_project run)
        (snd (retire_ephemeral_run_agents now run tasks (put_run run (reconcile_run_tasks db_now rid db))))"
    by (rule reconcile_run_state_parts[OF assms(2)])
  have same: "run1 = run0" using f assms(1) by simp
  have t: "filter (\<lambda>t. tk_run t = Some rid) (rd_tasks db') = tasks" by (simp add: db' tasks)
  have n: "set (filter (\<lambda>n. en_run n = rid) (rd_nodes db')) = set nodes" by (simp add: db' nodes)
  have "find_run rid db' = Some run"
    using find_run_put[of rid "reconcile_run_tasks db_now rid db" run1 run] f run(1)
    by (simp add: find_run_def db')
  with next_run_state_cases[of run0 now tasks nodes] run(2,3)
  show ?thesis unfolding same t Let_def list_ex_iff list_all_iff n by auto
qed

text \<open>C37: \<open>reconcile_run_state\<close> never changes the status of a terminal run; it finishes another run
  only when all its tasks (as reconciled) are terminal, as failed exactly when a task or a node
  failed and as completed otherwise; while a task is active the run keeps its status and has
  no completion time.\<close>

theorem reconcile_run_decision:
  assumes "find_run rid db = Some run0" and "reconcile_run_state now db_now rid db = (Some run, db')"
  shows "(let tasks = filter (\<lambda>t. tk_run t = Some rid) (rd_tasks db');
            nodes = filter (\<lambda>n. en_run n = rid) (rd_nodes db');
            failed = list_ex (\<lambda>t. is_failed_status (tk_status t)) tasks
                   \<or> list_ex (\<lambda>n. is_failed_status (en_status n)) nodes
        in (if normalize_status (pr_status run0) \<in> set TERMINAL_RUN_STATUSES
            then pr_status run = pr_status run0 \<and> pr_completed_at run \<noteq> None
            else if list_ex (\<lambda>t. \<not> is_terminal_task_status (tk_status t)) tasks
                 \<or> tasks = [] \<and> pr_started_at run0 = None
            then pr_status run = pr_status run0 \<and> pr_completed_at run = None
            else pr_status run = (if failed then ''failed'' else ''completed'')
               \<and> pr_completed_at run \<noteq> None))
     \<and> find_run rid db' = Some run"
  by (rule reconcile_decides[OF assms])

theorem reconcile_run_decision_witness:
  "\<exists>run db'. reconcile_run_state 100 101 1 (sample_run_db ''running'' ''failed'') = (Some run, db')
     \<and> find_run 1 db' = Some run \<and> pr_status run = ''failed''"
proof -
  obtain run db' where e: "reconcile_run_state 100 101 1 (sample_run_db ''running'' ''failed'') = (Some run, db')"
    using reconcile_returns_run[OF sample_find_run] by blast
  have "map_option pr_status (fst (reconcile_run_state 100 101 1 (sample_run_db ''running'' ''failed''))) = Some ''failed''"
    by code_simp
  with e have "pr_status run = ''failed''" by simp
  with reconcile_run_decision[OF sample_find_run e] e show ?thesis by blast
qed

text \<open>C5: Reconciling is idempotent: a second \<open>reconcile_run_state\<close>, at any later clock, changes no
  row of any table and returns the same run.\<close>

theorem reconcile_run_idempotent:
  assumes "reconcile_run_state now db_now rid db = (r, db')"
  shows "reconcile_run_state now' db_now' rid db' = (r, db')"
  using assms by (rule reconcile_idem)

theorem reconcile_run_idempotent_witness:
  "\<exists>r db'. reconcile_run_state 100 101 1 (sample_run_db ''running'' ''failed'') = (r, db')
     \<and> reconcile_run_state 200 201 1 db' = (r, db')"
proof -
  obtain r db' where e: "reconcile_run_state 100 101 1 (sample_run_db ''running'' ''failed'') = (r, db')"
    by fastforce
  from reconcile_run_idempotent[OF e, of 200 201] e show ?thesis by blast
qed

text \<open>Agents: reconciling touches an agent only when the run is terminal or blocked, and then
  exactly the unretired ephemeral agents of scope \<open>current_run\<close> that a task or the runtime
  context of the run names; afterwards none of these is left unretired.\<close>

theorem reconcile_retires_agents:
  assumes "reconcile_run_state now db_now rid db = (Some run, db')"
  shows "(let ids = run_agent_ids run (filter (\<lambda>t. tk_run t = Some rid) (rd_tasks db'));
            finished = normalize_status (pr_status run) \<in> set EPHEMERAL_AGENT_CLEANUP_RUN_STATUSES
        in rd_agents db' = map (\<lambda>a. if finished \<and> agent_retirable ids a
               then a\<lparr>ag_status := ''offline'', ag_retired_at := Some now\<rparr> else a) (rd_agents db)
         \<and> (finished \<longrightarrow> \<not> list_ex (agent_retirable ids) (rd_agents db')))"
proof -
  obtain run0 tasks nodes where
    tasks: "tasks = filter (\<lambda>t. tk_run t = Some rid) (rd_tasks (reconcile_run_tasks db_now rid db))"
    and db': "db' = reconcile_project_state db_now (pr_project run)
        (snd (retire_ephemeral_run_agents now run tasks (put_run run (reconcile_run_tasks db_now rid db))))"
    by (rule reconcile_run_state_parts[OF assms])
  have "filter (\<lambda>t. tk_run t = Some rid) (rd_tasks db') = tasks" by (simp add: db' tasks)
  then show ?thesis
    by (auto simp: db' retire_ephemeral_run_agents_def Let_def list_ex_iff agent_retirable_def)
qed

theorem reconcile_retires_agents_witness:
  "\<exists>run db'. reconcile_run_state 100 101 1 (sample_run_db ''running'' ''failed'') = (Some run, db')
     \<and> map ag_status (rd_agents db') = [''offline'']"
proof -
  obtain run db' where e: "reconcile_run_state 100 101 1 (sample_run_db ''running'' ''failed'') = (Some run, db')"
    using reconcile_returns_run[OF sample_find_run] by blast
  let ?ids = "run_agent_ids run (filter (\<lambda>t. tk_run t = Some 1) (rd_tasks db'))"
  have "(\<lambda>(r, d). map_option (\<lambda>x. (normalize_status (pr_status x) \<in> set EPHEMERAL_AGENT_CLEANUP_RUN_STATUSES,
          run_agent_ids x (filter (\<lambda>t. tk_run t = Some 1) (rd_tasks d)))) r)
      (reconcile_run_state 100 101 1 (sample_run_db ''running'' ''failed'')) = Some (True, [7, 7])"
    by code_simp
  with e have "normalize_status (pr_status run) \<in> set EPHEMERAL_AGENT_CLEANUP_RUN_STATUSES" "?ids = [7, 7]"
    by auto
  with reconcile_retires_agents[OF e] e show ?thesis
    by (auto simp: Let_def sample_run_db_def sample_agent_def agent_retirable_def)
qed

text \<open>A node is offered for execution exactly when it is pending or queued and every node it
  depends on has reached a terminal status. Terminal includes failed, cancelled and blocked, so
  the dependents of a failed node are run.\<close>

theorem ready_nodes_exact:
  "n \<in> set (get_ready_execution_nodes_for_run rid db) \<longleftrightarrow>
     n \<in> set (rd_nodes db) \<and> en_run n = rid \<and> normalize_status (en_status n) \<in> {''pending'', ''queued''}
     \<and> set (as_payload_list (en_dependency_node_ids n)) \<subseteq>
         {uuid_str (en_id m) | m. m \<in> set (rd_nodes db) \<and> en_run m = rid
            \<and> normalize_status (en_status m) \<in> {''completed'', ''failed'', ''cancelled'', ''blocked''}}"
  by (auto simp: get_ready_execution_nodes_for_run_def list_execution_nodes_for_run_def Let_def
      node_is_ready_def list_all_iff PENDING_NODE_STATUSES_def TERMINAL_NODE_STATUSES_def)

text \<open>When no node of a run is pending or queued the scheduler declares the run completed,
  whatever its other nodes do: nodes that are still running (two ready nodes run in parallel)
  or that failed do not keep it from being completed, and reconciling does not correct it.\<close>

theorem no_pending_node_completes_run:
  assumes "find_run rid db = Some run"
    and "list_all (\<lambda>n. en_run n = rid \<longrightarrow> normalize_status (en_status n) \<notin> {''pending'', ''queued''}) (rd_nodes db)"
    and "pr_status run \<notin> {''completed'', ''failed'', ''cancelled'', ''blocked''}"
    and "schedule_next_pending_step now db_now rid db = (ready, db')"
  shows "ready = [] \<and> (\<exists>run'. find_run rid db' = Some run' \<and> pr_status run' = ''completed'')"
proof -
  let ?run = "run\<lparr>pr_status := ''completed'', pr_completed_at := Some now, pr_updated_at := db_now\<rparr>"
  let ?db = "snd (retire_ephemeral_run_agents now ?run [] (put_run ?run db))"
  have "filter (\<lambda>n. normalize_status (en_status n) \<in> {''pending'', ''queued''})
      (list_execution_nodes_for_run rid db) = []"
    using assms(2) by (auto simp: list_execution_nodes_for_run_def filter_empty_conv list_all_iff)
  then have e: "schedule_next_pending_step now db_now rid db = ([], snd (reconcile_run_state now db_now rid ?db))"
    using assms(1,3) by (simp add: schedule_next_pending_step_def Let_def)
  have f: "find_run rid ?db = Some ?run"
    using find_run_put[OF assms(1), of ?run] find_run_id[OF assms(1)] by (simp add: find_run_def)
  obtain r db2 where r: "reconcile_run_state now db_now rid ?db = (Some r, db2)"
    using reconcile_returns_run[OF f] by blast
  obtain run1 tasks nodes where "find_run rid ?db = Some run1" "pr_id r = rid"
    and st: "pr_status r = pr_status (next_run_state now run1 tasks nodes)"
    and db2: "db2 = reconcile_project_state db_now (pr_project r)
        (snd (retire_ephemeral_run_agents now r tasks (put_run r (reconcile_run_tasks db_now rid ?db))))"
    by (rule reconcile_run_state_parts[OF r])
  with f have "run1 = ?run" by simp
  with st have "pr_status r = ''completed''"
    using next_run_state_cases[of ?run now tasks nodes] by (auto simp: normalize_result terminal_results)
  moreover have "find_run rid db2 = Some r"
    using find_run_put[of rid "reconcile_run_tasks db_now rid ?db" run1 r] \<open>find_run rid ?db = Some run1\<close> \<open>pr_id r = rid\<close>
    by (simp add: find_run_def db2)
  ultimately show ?thesis using assms(4) e r by simp
qed

theorem no_pending_node_completes_run_witness:
  "\<exists>ready db'. schedule_next_pending_step 100 101 1 (sample_run_db ''running'' ''running'') = (ready, db')
     \<and> map en_status (rd_nodes db') = [''completed'', ''running'']
     \<and> (\<exists>run'. find_run 1 db' = Some run' \<and> pr_status run' = ''completed'')"
proof -
  let ?db = "sample_run_db ''running'' ''running''"
  obtain ready db' where e: "schedule_next_pending_step 100 101 1 ?db = (ready, db')" by fastforce
  have "normalize_status ''completed'' = ''completed''" "normalize_status ''running'' = ''running''"
    by code_simp+
  then have "list_all (\<lambda>n. en_run n = 1 \<longrightarrow> normalize_status (en_status n) \<notin> {''pending'', ''queued''}) (rd_nodes ?db)"
    by (simp add: sample_run_db_def sample_node_def)
  moreover have "pr_status (sample_run ''running'') \<notin> {''completed'', ''failed'', ''cancelled'', ''blocked''}"
    by (simp add: sample_run_def)
  moreover have "map en_status (rd_nodes (snd (schedule_next_pending_step 100 101 1 ?db))) = [''completed'', ''running'']"
    by code_simp
  ultimately show ?thesis
    using no_pending_node_completes_run[OF sample_find_run _ _ e] e by auto
qed

end
