(* ===== verification/Skill_Deps.thy ===== *)
theory Skill_Deps
  imports Task_Graph
begin

section \<open>Skill dependency resolution (\<open>skill_library/dependency_resolver.py\<close>)\<close>

text \<open>
  Skills are named by strings and every function takes the dictionary from a skill to its
  dependencies; \<open>if name in skills: for dep in skills[name]\<close> is \<open>deps_of\<close>. The nested \<open>visit\<close>
  closures mutate sets and lists of the enclosing call, which are threaded here. The two
  \<open>ValueError\<close>s are kept apart by the value their message shows.
\<close>

type_synonym skill_map = "string depmap"

datatype skill_error =
    CircularDependencyInvolving string
  | CircularDependenciesDetected "string list list"

record skill_graph =
  sg_nodes :: "string set"
  sg_edges :: skill_map

subsection \<open>The operations\<close>

text \<open>\<open>resolve_dependencies\<close>: \<open>visit\<close> raises when it meets a name that is being visited.\<close>

function rd_visits ::
    "skill_map \<Rightarrow> string list \<Rightarrow> string set \<Rightarrow> string set \<Rightarrow> string list
      \<Rightarrow> skill_error + (string set \<times> string list)" where
  "rd_visits g [] visiting visited result = Inr (visited, result)"
| "rd_visits g (name # ns) visiting visited result =
     (if name \<in> visiting then Inl (CircularDependencyInvolving name)
      else if name \<in> visited then rd_visits g ns visiting visited result
      else
        (case rd_visits g (deps_of g name) (insert name visiting) visited result of
           Inl e \<Rightarrow> Inl e
         | Inr (visited', result') \<Rightarrow>
             rd_visits g ns visiting (insert name visited') (result' @ [name])))"
  by pat_completeness auto

termination rd_visits
proof (relation "inv_image (finite_psubset <*lex*> less_than)
    (\<lambda>(g, ns, visiting, visited, result). (set (dict_keys g) - visiting, length ns))", goal_cases)
  case 1
  show ?case by (rule wf_inv_image) (simp add: wf_lex_prod wf_finite_psubset)
next
  case (3 g name ns visiting visited result)
  then show ?case by (cases "name \<in> set (dict_keys g)") (auto simp: finite_psubset_def)
qed auto

definition skill_resolve_dependencies :: "string \<Rightarrow> skill_map \<Rightarrow> skill_error + string list" where
  "skill_resolve_dependencies skill_name all_skills =
     (case rd_visits all_skills [skill_name] {} {} [] of
        Inl e \<Rightarrow> Inl e
      | Inr (visited, result) \<Rightarrow> Inr (remove1 skill_name result))"

definition build_dependency_graph :: "skill_map \<Rightarrow> skill_graph" where
  "build_dependency_graph skills =
     \<lparr>sg_nodes = set (dict_keys skills) \<union> \<Union> (set ` set (dict_values skills)), sg_edges = skills\<rparr>"

text \<open>
  \<open>detect_circular_dependencies\<close>: after a cycle is found \<open>visit\<close> returns without popping
  \<open>rec_stack\<close>, so the stack of a later top-level visit starts with the leftover.
\<close>

definition index_of :: "string \<Rightarrow> string list \<Rightarrow> nat" where
  "index_of x xs = length (takeWhile (\<lambda>y. y \<noteq> x) xs)"

function dcd_deps ::
    "skill_map \<Rightarrow> string list \<Rightarrow> string set \<Rightarrow> string list \<Rightarrow> string list list
      \<Rightarrow> bool \<times> string set \<times> string list \<times> string list list" where
  "dcd_deps g [] visited stack cycles = (False, visited, stack, cycles)"
| "dcd_deps g (dep # ds) visited stack cycles =
     (if dep \<notin> visited then
        (case dcd_deps g (deps_of g dep) (insert dep visited) (stack @ [dep]) cycles of
           (found, visited', stack', cycles') \<Rightarrow>
             if found then (True, visited', stack', cycles')
             else dcd_deps g ds visited' (butlast stack') cycles')
      else if dep \<in> set stack then
        (True, visited, stack, cycles @ [drop (index_of dep stack) stack @ [dep]])
      else dcd_deps g ds visited stack cycles)"
  by pat_completeness auto

lemma dcd_deps_vis_mono_dom:
  "dcd_deps_dom (g, ds, visited, stack, cycles) \<Longrightarrow>
   visited \<subseteq> fst (snd (dcd_deps g ds visited stack cycles))"
proof (induction rule: dcd_deps.pinduct)
  case (1 g visited stack cycles)
  then show ?case by (simp add: dcd_deps.psimps)
next
  case (2 g d ds visited stack cycles)
  show ?case
  proof (cases "d \<in> visited")
    case True
    with 2 show ?thesis by (simp add: dcd_deps.psimps)
  next
    case False
    obtain f v s c where e: "dcd_deps g (deps_of g d) (insert d visited) (stack @ [d]) cycles = (f, v, s, c)"
      by (metis prod_cases4)
    from "2.IH"(1)[OF False] e have "insert d visited \<subseteq> v" by simp
    moreover have "v \<subseteq> fst (snd (dcd_deps g ds v (butlast s) c))" if "\<not> f"
      using "2.IH"(2)[OF False e[symmetric] refl refl that] .
    ultimately have "visited \<subseteq> (if f then v else fst (snd (dcd_deps g ds v (butlast s) c)))" by auto
    then show ?thesis using False e "2.hyps" by (cases f) (simp_all add: dcd_deps.psimps)
  qed
qed

termination dcd_deps
proof (relation "inv_image (finite_psubset <*lex*> less_than)
    (\<lambda>(g, ds, visited, stack, cycles). (set (dict_keys g) - visited, length ds))", goal_cases)
  case 1
  show ?case by (rule wf_inv_image) (simp add: wf_lex_prod wf_finite_psubset)
next
  case (2 g d ds visited stack cycles)
  then show ?case by (cases "d \<in> set (dict_keys g)") (auto simp: finite_psubset_def)
next
  case (3 g d ds visited stack cycles f p v q s c)
  then have e: "dcd_deps g (deps_of g d) (insert d visited) (stack @ [d]) cycles = (f, v, s, c)" by simp
  have "visited \<subseteq> v"
    using dcd_deps_vis_mono_dom[of g "deps_of g d" "insert d visited" "stack @ [d]" cycles] 3 e by auto
  then show ?case by (auto simp: finite_psubset_def)
next
  case (4 g d ds visited stack cycles)
  then show ?case by simp
qed

definition dcd_visit ::
    "skill_map \<Rightarrow> string \<Rightarrow> string set \<Rightarrow> string list \<Rightarrow> string list list
      \<Rightarrow> bool \<times> string set \<times> string list \<times> string list list" where
  "dcd_visit g name visited stack cycles =
     (case dcd_deps g (deps_of g name) (insert name visited) (stack @ [name]) cycles of
        (found, visited', stack', cycles') \<Rightarrow>
          if found then (True, visited', stack', cycles') else (False, visited', butlast stack', cycles'))"

fun dcd_all ::
    "skill_map \<Rightarrow> string list \<Rightarrow> string set \<Rightarrow> string list \<Rightarrow> string list list \<Rightarrow> string list list" where
  "dcd_all g [] visited stack cycles = cycles"
| "dcd_all g (k # ks) visited stack cycles =
     (if k \<notin> visited then
        (case dcd_visit g k visited stack cycles of
           (found, visited', stack', cycles') \<Rightarrow> dcd_all g ks visited' stack' cycles')
      else dcd_all g ks visited stack cycles)"

definition detect_circular_dependencies :: "skill_map \<Rightarrow> string list list" where
  "detect_circular_dependencies skills = dcd_all skills (dict_keys skills) {} [] []"

text \<open>\<open>get_load_order\<close>: a plain post-order traversal after the cycle check.\<close>

function lo_visits :: "skill_map \<Rightarrow> string list \<Rightarrow> string set \<Rightarrow> string list \<Rightarrow> string set \<times> string list" where
  "lo_visits g [] visited result = (visited, result)"
| "lo_visits g (name # ns) visited result =
     (if name \<in> visited then lo_visits g ns visited result
      else
        (case lo_visits g (deps_of g name) (insert name visited) result of
           (visited', result') \<Rightarrow> lo_visits g ns visited' (result' @ [name])))"
  by pat_completeness auto

lemma lo_visits_mono_dom:
  "lo_visits_dom (g, ns, visited, result) \<Longrightarrow> visited \<subseteq> fst (lo_visits g ns visited result)"
proof (induction rule: lo_visits.pinduct)
  case (1 g visited result)
  then show ?case by (simp add: lo_visits.psimps)
next
  case (2 g n ns visited result)
  show ?case
  proof (cases "n \<in> visited")
    case True
    with 2 show ?thesis by (simp add: lo_visits.psimps)
  next
    case False
    obtain v r where e: "lo_visits g (deps_of g n) (insert n visited) result = (v, r)" by fastforce
    from "2.IH"(2)[OF False] e have "insert n visited \<subseteq> v" by simp
    moreover have "v \<subseteq> fst (lo_visits g ns v (r @ [n]))"
      using "2.IH"(3)[OF False e[symmetric]] by simp
    ultimately show ?thesis using False e 2 by (auto simp: lo_visits.psimps)
  qed
qed

termination lo_visits
proof (relation "inv_image (finite_psubset <*lex*> less_than)
    (\<lambda>(g, ns, visited, result). (set (dict_keys g) - visited, length ns))", goal_cases)
  case 1
  show ?case by (rule wf_inv_image) (simp add: wf_lex_prod wf_finite_psubset)
next
  case (3 g n ns visited result)
  then show ?case by (cases "n \<in> set (dict_keys g)") (auto simp: finite_psubset_def)
next
  case (4 g n ns visited result v r)
  then have "visited \<subseteq> v"
    using lo_visits_mono_dom[of g "deps_of g n" "insert n visited" result] by (metis fst_conv insert_subset)
  then show ?case by (auto simp: finite_psubset_def)
qed auto

definition get_load_order :: "skill_map \<Rightarrow> skill_error + string list" where
  "get_load_order skills =
     (let cycles = detect_circular_dependencies skills
      in if cycles \<noteq> [] then Inl (CircularDependenciesDetected cycles)
         else Inr (snd (lo_visits skills (dict_keys skills) {} [])))"

subsection \<open>Resolving one skill\<close>

abbreviation skill_order :: "skill_map \<Rightarrow> string list \<Rightarrow> bool" where
  "skill_order g \<equiv> in_dep_order (\<lambda>n. set (deps_of g n))"

lemma rd_visits_error:
  assumes "rd_visits g ns visiting visited result = Inl e"
    and "\<forall>s \<in> visiting. \<forall>n \<in> set ns. (s, n) \<in> (dep_edges g)\<^sup>+"
  shows "\<exists>n \<in> set ns. \<exists>x. (n, x) \<in> (dep_edges g)\<^sup>* \<and> (x, x) \<in> (dep_edges g)\<^sup>+"
  using assms
proof (induction g ns visiting visited result rule: rd_visits.induct)
  case (1 g visiting visited result)
  then show ?case by simp
next
  case (2 g n ns visiting visited result)
  show ?case
  proof (cases "n \<in> visiting")
    case True
    with "2.prems"(2) have "(n, n) \<in> (dep_edges g)\<^sup>+" by auto
    then show ?thesis by auto
  next
    case nv: False
    show ?thesis
    proof (cases "n \<in> visited")
      case True
      with 2 nv show ?thesis by simp
    next
      case False
      show ?thesis
      proof (cases "rd_visits g (deps_of g n) (insert n visiting) visited result")
        case (Inl e')
        have "\<forall>s \<in> insert n visiting. \<forall>m \<in> set (deps_of g n). (s, m) \<in> (dep_edges g)\<^sup>+"
          using "2.prems"(2) by (auto intro: trancl_into_trancl)
        with "2.IH"(2)[OF nv False] Inl "2.prems"(1) nv False
        obtain m x where "m \<in> set (deps_of g n)" "(m, x) \<in> (dep_edges g)\<^sup>*" "(x, x) \<in> (dep_edges g)\<^sup>+"
          by auto
        moreover from this have "(n, x) \<in> (dep_edges g)\<^sup>*"
          by (meson converse_rtrancl_into_rtrancl dep_edges_iff)
        ultimately show ?thesis by auto
      next
        case (Inr p)
        with 2 nv False show ?thesis by (cases p) auto
      qed
    qed
  qed
qed

lemma deps_reach: "(dep_edges g)\<^sup>* `` set (deps_of g n) \<subseteq> (dep_edges g)\<^sup>* `` set (n # ns)"
proof -
  have "(n, x) \<in> (dep_edges g)\<^sup>*" if "a \<in> set (deps_of g n)" "(a, x) \<in> (dep_edges g)\<^sup>*" for a x
    using that by (meson converse_rtrancl_into_rtrancl dep_edges_iff)
  then show ?thesis by auto
qed

lemma rd_visits_ok:
  assumes "rd_visits g ns visiting visited result = Inr (visited', result')"
    and "set result = visited" and "distinct result" and "skill_order g result"
    and "visited \<inter> visiting = {}"
  shows "set result' = visited' \<and> distinct result' \<and> skill_order g result'
    \<and> visited' \<inter> visiting = {} \<and> visited \<subseteq> visited' \<and> set ns \<subseteq> visited'
    \<and> visited' \<subseteq> visited \<union> (dep_edges g)\<^sup>* `` set ns"
  using assms
proof (induction g ns visiting visited result arbitrary: visited' result' rule: rd_visits.induct)
  case (1 g visiting visited result)
  then show ?case by simp
next
  case (2 g n ns visiting visited result)
  from "2.prems"(1) have nv: "n \<notin> visiting" by auto
  show ?case
  proof (cases "n \<in> visited")
    case True
    with 2 nv show ?thesis by auto
  next
    case False
    with "2.prems"(1) nv obtain v r
      where e: "rd_visits g (deps_of g n) (insert n visiting) visited result = Inr (v, r)"
      by (auto split: sum.splits)
    have "visited \<inter> insert n visiting = {}" using "2.prems"(5) False by auto
    with "2.IH"(2)[OF nv False e] "2.prems"
    have i: "set r = v" "distinct r" "skill_order g r" "v \<inter> insert n visiting = {}" "visited \<subseteq> v"
      "set (deps_of g n) \<subseteq> v" "v \<subseteq> visited \<union> (dep_edges g)\<^sup>* `` set (deps_of g n)"
      by auto
    have "(dep_edges g)\<^sup>* `` set (deps_of g n) \<subseteq> (dep_edges g)\<^sup>* `` set (n # ns)"
      by (rule deps_reach)
    moreover have "insert n ((dep_edges g)\<^sup>* `` set ns) \<subseteq> (dep_edges g)\<^sup>* `` set (n # ns)" by auto
    ultimately have reach: "insert n v \<union> (dep_edges g)\<^sup>* `` set ns
        \<subseteq> visited \<union> (dep_edges g)\<^sup>* `` set (n # ns)"
      using i(7) by blast
    have "rd_visits g ns visiting (insert n v) (r @ [n]) = Inr (visited', result')"
      using "2.prems"(1) nv False e by simp
    moreover have "set (r @ [n]) = insert n v" "distinct (r @ [n])" "skill_order g (r @ [n])"
      "insert n v \<inter> visiting = {}"
      using i nv by (auto simp: in_dep_order_snoc)
    ultimately show ?thesis
      using "2.IH"(3)[OF nv False e refl, of visited' result'] i(5) reach by auto
  qed
qed

lemma skill_order_closed: "skill_order g xs \<Longrightarrow> dep_edges g `` set xs \<subseteq> set xs"
  using in_dep_order_finished by (auto simp: finished_def)

subsection \<open>Cycle detection\<close>

fun is_path :: "skill_map \<Rightarrow> string list \<Rightarrow> bool" where
  "is_path g [] = True"
| "is_path g [x] = True"
| "is_path g (x # y # xs) = (y \<in> set (deps_of g x) \<and> is_path g (y # xs))"

definition is_cycle_chain :: "skill_map \<Rightarrow> string list \<Rightarrow> bool" where
  "is_cycle_chain g c \<longleftrightarrow> 2 \<le> length c \<and> hd c = last c \<and> is_path g c"

lemma is_path_snoc: "is_path g (xs @ [x]) \<longleftrightarrow> is_path g xs \<and> (xs \<noteq> [] \<longrightarrow> x \<in> set (deps_of g (last xs)))"
  by (induction g xs rule: is_path.induct) auto

lemma is_path_drop: "is_path g xs \<Longrightarrow> is_path g (drop n xs)"
proof (induction n arbitrary: xs)
  case (Suc n)
  then show ?case by (cases "(g, xs)" rule: is_path.cases) auto
qed simp

lemma drop_index_of: "x \<in> set xs \<Longrightarrow> \<exists>ys. drop (index_of x xs) xs = x # ys"
  unfolding index_of_def by (induction xs) auto

lemma back_edge_chain:
  assumes "is_path g stack" and "x \<in> set stack" and "x \<in> set (deps_of g (last stack))"
  shows "is_cycle_chain g (drop (index_of x stack) stack @ [x])"
proof -
  obtain ys where ys: "drop (index_of x stack) stack = x # ys" using drop_index_of[OF assms(2)] ..
  then have "last (x # ys) = last stack" by (metis last_drop drop_all linorder_not_less list.distinct(1))
  moreover have "is_path g (x # ys)" using is_path_drop[OF assms(1)] ys by metis
  ultimately have "is_path g ((x # ys) @ [x])" using assms(3) by (simp add: is_path_snoc del: append_Cons)
  then show ?thesis by (simp add: is_cycle_chain_def ys)
qed

lemma dcd_deps_mono: "dcd_deps g ds visited stack cycles = (f, v, s, c) \<Longrightarrow> visited \<subseteq> v"
proof (induction g ds visited stack cycles arbitrary: f v s c rule: dcd_deps.induct)
  case (2 g d ds visited stack cycles)
  then show ?case by (fastforce split: prod.splits if_splits)
qed simp

lemma dcd_deps_sim:
  assumes "dcd_deps g ds visited stack cycles = (f, v, s, c)"
    and "set stack \<subseteq> visited" and "distinct stack" and "is_path g stack" and "stack \<noteq> []"
    and "set ds \<subseteq> set (deps_of g (last stack))"
  shows "\<exists>r. hc_deps g ds visited (set stack) = (f, v, r)
    \<and> (if f then \<exists>ch. c = cycles @ [ch] \<and> is_cycle_chain g ch else s = stack \<and> c = cycles \<and> r = set stack)"
  using assms
proof (induction g ds visited stack cycles arbitrary: f v s c rule: dcd_deps.induct)
  case (1 g visited stack cycles)
  then show ?case by simp
next
  case (2 g d ds visited stack cycles)
  show ?case
  proof (cases "d \<in> visited")
    case True
    show ?thesis
    proof (cases "d \<in> set stack")
      case in_stack: True
      then show ?thesis using 2 True by (auto intro!: back_edge_chain)
    next
      case False
      with 2 True show ?thesis by auto
    qed
  next
    case False
    then have ns: "d \<notin> set stack" using "2.prems"(2) by auto
    obtain f1 v1 s1 c1
      where e: "dcd_deps g (deps_of g d) (insert d visited) (stack @ [d]) cycles = (f1, v1, s1, c1)"
      by (metis prod_cases4)
    have "set (stack @ [d]) \<subseteq> insert d visited" "distinct (stack @ [d])" "is_path g (stack @ [d])"
      "set (deps_of g d) \<subseteq> set (deps_of g (last (stack @ [d])))"
      using "2.prems" ns by (auto simp: is_path_snoc)
    from "2.IH"(1)[OF False e this(1-3) _ this(4)] obtain r1
      where h: "hc_deps g (deps_of g d) (insert d visited) (insert d (set stack)) = (f1, v1, r1)"
        and c1: "if f1 then \<exists>ch. c1 = cycles @ [ch] \<and> is_cycle_chain g ch
          else s1 = stack @ [d] \<and> c1 = cycles \<and> r1 = insert d (set stack)"
      by auto
    show ?thesis
    proof (cases f1)
      case True
      with 2 False e h c1 show ?thesis by auto
    next
      case nf: False
      with c1 have s1: "s1 = stack @ [d]" "c1 = cycles" "r1 - {d} = set stack" using ns by auto
      have "insert d visited \<subseteq> v1" using e by (rule dcd_deps_mono)
      then have "set stack \<subseteq> v1" using "2.prems"(2) by auto
      moreover have "dcd_deps g ds v1 (butlast s1) c1 = (f, v, s, c)"
        using "2.prems"(1) False e nf by simp
      ultimately show ?thesis
        using "2.IH"(2)[OF False e[symmetric] refl refl nf, of f v s c] "2.prems" s1 False h nf by auto
    qed
  qed
qed

lemma dcd_deps_grow: "dcd_deps g ds visited stack cycles = (f, v, s, c) \<Longrightarrow> \<exists>cs. c = cycles @ cs"
proof (induction g ds visited stack cycles arbitrary: f v s c rule: dcd_deps.induct)
  case (2 g d ds visited stack cycles)
  then show ?case by (fastforce split: prod.splits if_splits)
qed simp

lemma dcd_all_grow: "\<exists>cs. dcd_all g ks visited stack cycles = cycles @ cs"
proof (induction ks arbitrary: visited stack cycles)
  case (Cons k ks)
  obtain f v s c where e: "dcd_visit g k visited stack cycles = (f, v, s, c)" by (metis prod_cases4)
  then obtain cs where "c = cycles @ cs"
    by (auto simp: dcd_visit_def split: prod.splits if_splits dest!: dcd_deps_grow)
  with Cons.IH[of v s c] Cons.IH[of visited stack cycles] e show ?case by auto
qed simp

lemma dcd_visit_sim:
  assumes "dcd_visit g k visited [] cycles = (f, v, s, c)"
  shows "\<exists>r. hc_visit g k visited {} = (f, v, r)
    \<and> (if f then \<exists>ch. c = cycles @ [ch] \<and> is_cycle_chain g ch else s = [] \<and> c = cycles \<and> r = {})"
proof -
  obtain f1 v1 s1 c1 where e: "dcd_deps g (deps_of g k) (insert k visited) [k] cycles = (f1, v1, s1, c1)"
    by (metis prod_cases4)
  obtain r1 where "hc_deps g (deps_of g k) (insert k visited) {k} = (f1, v1, r1)"
    and "if f1 then \<exists>ch. c1 = cycles @ [ch] \<and> is_cycle_chain g ch else s1 = [k] \<and> c1 = cycles \<and> r1 = {k}"
    using dcd_deps_sim[OF e] by auto
  with e assms show ?thesis
    by (cases f1) (auto simp: dcd_visit_def hc_visit_def)
qed

lemma dcd_all_spec:
  "if hc_tasks g ks visited {}
   then \<exists>ch rest. dcd_all g ks visited [] [] = ch # rest \<and> is_cycle_chain g ch
   else dcd_all g ks visited [] [] = []"
proof (induction ks arbitrary: visited)
  case (Cons k ks)
  show ?case
  proof (cases "k \<in> visited")
    case True
    with Cons[of visited] show ?thesis by (auto split: if_splits)
  next
    case False
    obtain f v s c where e: "dcd_visit g k visited [] [] = (f, v, s, c)" by (metis prod_cases4)
    obtain r where h: "hc_visit g k visited {} = (f, v, r)"
      and c: "if f then \<exists>ch. c = [] @ [ch] \<and> is_cycle_chain g ch else s = [] \<and> c = [] \<and> r = {}"
      using dcd_visit_sim[OF e] by blast
    show ?thesis
    proof (cases f)
      case True
      with c obtain ch where ch: "c = [ch]" "is_cycle_chain g ch" by auto
      with dcd_all_grow[of g ks v s c] e h True False show ?thesis by auto
    next
      case nf: False
      with Cons.IH[of v] c e h False show ?thesis by (auto split: if_splits)
    qed
  qed
qed simp

lemma reach_edges_keys: "reach_edges (dep_edges g) (set (dict_keys g)) = dep_edges g"
proof
  show "dep_edges g \<subseteq> reach_edges (dep_edges g) (set (dict_keys g))"
    unfolding reach_edges_def using dep_edges_key[of _ g] by fastforce
qed (rule reach_edges_subset)

lemma detect_circular_iff: "detect_circular_dependencies g \<noteq> [] \<longleftrightarrow> \<not> acyclic (dep_edges g)"
proof -
  have "hc_tasks g (dict_keys g) {} {} \<longleftrightarrow> \<not> acyclic (dep_edges g)"
    using hc_tasks_iff[of g "dict_keys g"] reach_edges_keys by metis
  with dcd_all_spec[of g "dict_keys g" "{}"] show ?thesis
    by (auto simp: detect_circular_dependencies_def split: if_splits)
qed

interpretation skill_check: cycle_check dep_edges "\<lambda>g :: skill_map. detect_circular_dependencies g \<noteq> []"
  by unfold_locales (simp_all add: detect_circular_iff)

subsection \<open>Load order\<close>

lemma lo_visits_ok:
  assumes "acyclic (dep_edges g)" and "lo_visits g ns visited result = (visited', result')"
    and "set result \<subseteq> visited" and "distinct result" and "skill_order g result"
    and "\<forall>p \<in> visited - set result. \<forall>n \<in> set ns. (p, n) \<in> (dep_edges g)\<^sup>+"
  shows "set result' \<subseteq> visited' \<and> distinct result' \<and> skill_order g result'
    \<and> visited' - set result' = visited - set result \<and> set result \<subseteq> set result'
    \<and> set ns \<subseteq> set result' \<and> set result' \<subseteq> set result \<union> (dep_edges g)\<^sup>* `` set ns"
  using assms
proof (induction g ns visited result arbitrary: visited' result' rule: lo_visits.induct)
  case (1 g visited result)
  then show ?case by simp
next
  case (2 g n ns visited result)
  show ?case
  proof (cases "n \<in> visited")
    case True
    moreover have "n \<in> set result"
    proof (rule ccontr)
      assume "n \<notin> set result"
      with True "2.prems"(6) have "(n, n) \<in> (dep_edges g)\<^sup>+" by simp
      with "2.prems"(1) show False by (simp add: acyclic_def)
    qed
    ultimately show ?thesis using 2 by auto
  next
    case False
    obtain v r where e: "lo_visits g (deps_of g n) (insert n visited) result = (v, r)" by fastforce
    have "\<forall>p \<in> insert n visited - set result. \<forall>m \<in> set (deps_of g n). (p, m) \<in> (dep_edges g)\<^sup>+"
      using "2.prems"(6) by (auto intro: trancl_into_trancl)
    moreover have "set result \<subseteq> insert n visited" using "2.prems"(3) by auto
    ultimately have i: "set r \<subseteq> v" "distinct r" "skill_order g r"
      "v - set r = insert n visited - set result" "set result \<subseteq> set r" "set (deps_of g n) \<subseteq> set r"
      "set r \<subseteq> set result \<union> (dep_edges g)\<^sup>* `` set (deps_of g n)"
      using "2.IH"(2)[OF False "2.prems"(1) e] "2.prems"(4,5) by blast+
    have n: "n \<notin> set r" "n \<in> v" using i(4) False "2.prems"(3) by auto
    have rest: "v - set (r @ [n]) = visited - set result" using i(4) n False by auto
    have "insert n ((dep_edges g)\<^sup>* `` set ns) \<subseteq> (dep_edges g)\<^sup>* `` set (n # ns)" by auto
    then have reach: "insert n (set r) \<union> (dep_edges g)\<^sup>* `` set ns
        \<subseteq> set result \<union> (dep_edges g)\<^sup>* `` set (n # ns)"
      using i(7) deps_reach[of g n ns] by blast
    have "lo_visits g ns v (r @ [n]) = (visited', result')"
      using "2.prems"(2) False e by simp
    moreover have "set (r @ [n]) \<subseteq> v" "distinct (r @ [n])" "skill_order g (r @ [n])"
      "\<forall>p \<in> v - set (r @ [n]). \<forall>m \<in> set ns. (p, m) \<in> (dep_edges g)\<^sup>+"
      using i n rest "2.prems"(6) by (auto simp: in_dep_order_snoc)
    ultimately show ?thesis
      using "2.IH"(3)[OF False e[symmetric] "2.prems"(1), of visited' result'] i(5) rest reach by auto
  qed
qed

subsection \<open>Properties\<close>

text \<open>C11: \<open>resolve_dependencies\<close> raises exactly when the skill can reach a dependency cycle;
  otherwise it returns, once each, exactly the skills the given one transitively depends on,
  every one after its own dependencies, and the skill itself could be loaded after them.\<close>

theorem skill_resolution_exact:
  "(case skill_resolve_dependencies s g of
      Inl e \<Rightarrow> \<exists>x. (s, x) \<in> (dep_edges g)\<^sup>* \<and> (x, x) \<in> (dep_edges g)\<^sup>+
    | Inr ds \<Rightarrow> \<not> (\<exists>x. (s, x) \<in> (dep_edges g)\<^sup>* \<and> (x, x) \<in> (dep_edges g)\<^sup>+)
        \<and> distinct ds \<and> set ds = (dep_edges g)\<^sup>* `` {s} - {s} \<and> skill_order g (ds @ [s]))"
proof (cases "rd_visits g [s] {} {} []")
  case (Inl e)
  with rd_visits_error[OF Inl] show ?thesis by (auto simp: skill_resolve_dependencies_def)
next
  case (Inr p)
  obtain visited result where p: "p = (visited, result)" by force
  have ok: "set result = visited" "distinct result" "skill_order g result" "s \<in> visited"
    "visited \<subseteq> (dep_edges g)\<^sup>* `` {s}"
    using rd_visits_ok[OF Inr[unfolded p]] by auto
  have fin: "finished (dep_edges g) visited" using in_dep_order_finished[OF ok(3)] ok(1) by simp
  then have eq: "visited = (dep_edges g)\<^sup>* `` {s}"
    using ok(4,5) by (auto simp: finished_def dest: closed_rtrancl)
  obtain v r where e: "rd_visits g (deps_of g s) {s} {} [] = Inr (v, r)" "result = r @ [s]"
    using Inr p by (auto split: sum.splits)
  then have "remove1 s result = r" using ok(2) by (simp add: remove1_append)
  with e Inr p ok eq fin show ?thesis
    by (auto simp: skill_resolve_dependencies_def dest: finished_no_cycle)
qed

lemma rtrancl_Image_subset: "E\<^sup>* `` A \<subseteq> A \<union> E `` UNIV"
proof
  fix y assume "y \<in> E\<^sup>* `` A"
  then obtain x where "x \<in> A" "(x, y) \<in> E\<^sup>*" by auto
  from this(2,1) show "y \<in> A \<union> E `` UNIV" by (cases rule: rtranclE) auto
qed

text \<open>C10: \<open>get_load_order\<close> raises exactly on a cyclic skill graph, and the first chain it then
  reports is a genuine cycle; otherwise its order lists every node of the graph once, each
  skill after all its dependencies.\<close>

theorem load_order_exact:
  assumes "dict_wf g"
  shows "case get_load_order g of
      Inl e \<Rightarrow> \<not> acyclic (dep_edges g)
        \<and> (\<exists>c cs. e = CircularDependenciesDetected (c # cs) \<and> is_cycle_chain g c)
    | Inr order \<Rightarrow> acyclic (dep_edges g) \<and> distinct order
        \<and> set order = sg_nodes (build_dependency_graph g) \<and> skill_order g order"
proof (cases "detect_circular_dependencies g = []")
  case False
  then have "hc_tasks g (dict_keys g) {} {}"
    using dcd_all_spec[of g "dict_keys g" "{}"]
    by (auto simp: detect_circular_dependencies_def split: if_splits)
  with dcd_all_spec[of g "dict_keys g" "{}"] obtain c cs
    where "detect_circular_dependencies g = c # cs" "is_cycle_chain g c"
    by (auto simp: detect_circular_dependencies_def)
  with skill_check.cyclic_iff[of g] show ?thesis by (simp add: get_load_order_def)
next
  case True
  then have ac: "acyclic (dep_edges g)" using skill_check.cyclic_iff[of g] by simp
  obtain v r where e: "lo_visits g (dict_keys g) {} [] = (v, r)" by fastforce
  have ok: "distinct r" "skill_order g r" "set (dict_keys g) \<subseteq> set r"
    "set r \<subseteq> (dep_edges g)\<^sup>* `` set (dict_keys g)"
    using lo_visits_ok[OF ac e] by auto
  have nodes: "sg_nodes (build_dependency_graph g) = set (dict_keys g) \<union> dep_edges g `` UNIV"
  proof -
    have "deps_of g n = ds" if "(n, ds) \<in> set g" for n ds
      using that dict_mem_get[OF assms, of n ds] by (simp add: deps_of_def)
    then have "set ds \<subseteq> dep_edges g `` UNIV" if "(n, ds) \<in> set g" for n ds
      using that by (auto simp: dep_edges_def)
    moreover have "\<exists>p \<in> set g. d \<in> set (snd p)" if "d \<in> set (deps_of g n)" for d n
    proof -
      from that obtain ds where "dict_get g n = Some ds" "d \<in> set ds"
        by (cases "dict_get g n") (simp_all add: deps_of_def)
      then show ?thesis using dict_get_mem[of g n ds] by force
    qed
    ultimately have "\<Union> (set ` set (dict_values g)) = dep_edges g `` UNIV"
      by (fastforce simp: dep_edges_def)
    then show ?thesis by (simp add: build_dependency_graph_def)
  qed
  have "set r \<subseteq> set (dict_keys g) \<union> dep_edges g `` UNIV"
    using ok(4) rtrancl_Image_subset by (rule order_trans)
  moreover have "dep_edges g `` UNIV \<subseteq> set r"
  proof
    fix d assume "d \<in> dep_edges g `` UNIV"
    then obtain n where nd: "d \<in> set (deps_of g n)" by auto
    then have "n \<in> set r" using ok(3) dep_edges_key[of d g n] by blast
    with nd have "d \<in> dep_edges g `` set r" by (auto simp: dep_edges_def)
    with skill_order_closed[OF ok(2)] show "d \<in> set r" by blast
  qed
  ultimately have "set r = sg_nodes (build_dependency_graph g)" using nodes ok(3) by auto
  with ac ok True e show ?thesis by (simp add: get_load_order_def)
qed

theorem load_order_exact_witness:
  "\<exists>order. get_load_order [(''a'', [''b'']), (''c'', [''a'', ''b''])] = Inr order
     \<and> set order = {''a'', ''b'', ''c''}"
proof -
  let ?g = "[(''a'', [''b'']), (''c'', [''a'', ''b''])]"
  have "dict_wf ?g" by (simp add: dict_wf_def)
  moreover have "detect_circular_dependencies ?g = []" by code_simp
  then obtain order where "get_load_order ?g = Inr order" by (simp add: get_load_order_def)
  moreover have "sg_nodes (build_dependency_graph ?g) = {''a'', ''b'', ''c''}"
    by (auto simp: build_dependency_graph_def)
  ultimately show ?thesis using load_order_exact[of ?g] by auto
qed

text \<open>
  Only the first chain is trustworthy: \<open>rec_stack\<close> is not unwound after a cycle, so a later
  skill that merely depends on a cyclic one is reported in a chain that is no cycle.
\<close>

lemma later_chain_bogus:
  "detect_circular_dependencies [(''a'', [''b'']), (''b'', [''a'']), (''c'', [''a''])]
     = [[''a'', ''b'', ''a''], [''a'', ''b'', ''c'', ''a'']]"
  "\<not> is_cycle_chain [(''a'', [''b'']), (''b'', [''a'']), (''c'', [''a''])] [''a'', ''b'', ''c'', ''a'']"
  by code_simp+

end
