(* ===== verification/State_Machine.thy ===== *)
theory State_Machine
  imports LinX_Prelude
begin

section \<open>Runs of a component and their invariants\<close>

text \<open>
  Most components are objects whose methods are called in any order by concurrent clients. Such
  a component is a step relation between states, labelled by the call (and, where the code
  leaves a choice to its environment, by the choice). A run is a list of labels; the contract
  \<open>invariant_machine\<close> is what a component proves once per method so that its invariant holds in
  every state a client can observe. \<open>monotone_machine\<close> adds a quantity that no call decreases.
\<close>

inductive run_of :: "('s \<Rightarrow> 'e \<Rightarrow> 's \<Rightarrow> bool) \<Rightarrow> 's \<Rightarrow> 'e list \<Rightarrow> 's \<Rightarrow> bool"
  for step :: "'s \<Rightarrow> 'e \<Rightarrow> 's \<Rightarrow> bool" where
  run_nil: "run_of step s [] s"
| run_snoc: "run_of step s es s' \<Longrightarrow> step s' e s'' \<Longrightarrow> run_of step s (es @ [e]) s''"

inductive_cases run_of_nilE: "run_of step s [] s'"
inductive_cases run_of_snocE: "run_of step s (es @ [e]) s'"

lemma run_of_Nil [simp]: "run_of step s [] s' \<longleftrightarrow> s' = s"
  by (auto elim: run_of_nilE intro: run_nil)

lemma run_of_snoc: "run_of step s (es @ [e]) s'' \<longleftrightarrow> (\<exists>s'. run_of step s es s' \<and> step s' e s'')"
  by (auto elim: run_of_snocE intro: run_snoc)

lemma run_of_append:
  "run_of step s (es @ fs) s'' \<longleftrightarrow> (\<exists>s'. run_of step s es s' \<and> run_of step s' fs s'')"
proof (induction fs arbitrary: s'' rule: rev_induct)
  case (snoc f fs)
  have "run_of step s (es @ fs @ [f]) s'' \<longleftrightarrow> (\<exists>t. run_of step s (es @ fs) t \<and> step t f s'')"
    using run_of_snoc[of step s "es @ fs" f s''] by simp
  with snoc.IH show ?case by (auto simp: run_of_snoc)
qed simp

lemma run_of_single [simp]: "run_of step s [e] s' \<longleftrightarrow> step s e s'"
  using run_of_snoc[of step s "[]" e s'] by simp

lemma run_of_Cons: "run_of step s (e # es) s'' \<longleftrightarrow> (\<exists>s'. step s e s' \<and> run_of step s' es s'')"
  using run_of_append[of step s "[e]" es s''] by simp

lemma run_ConsI: "step s e s' \<Longrightarrow> run_of step s' es s'' \<Longrightarrow> run_of step s (e # es) s''"
  by (auto simp: run_of_Cons)

text \<open>A component whose calls are functions is a special case.\<close>

definition fun_step :: "('e \<Rightarrow> 's \<Rightarrow> 's) \<Rightarrow> 's \<Rightarrow> 'e \<Rightarrow> 's \<Rightarrow> bool" where
  "fun_step f s e s' \<longleftrightarrow> s' = f e s"

lemma run_of_fun_step: "run_of (fun_step f) s es s' \<longleftrightarrow> s' = fold f es s"
  by (induction es arbitrary: s' rule: rev_induct) (auto simp: run_of_snoc fun_step_def)

locale invariant_machine =
  fixes step :: "'s \<Rightarrow> 'e \<Rightarrow> 's \<Rightarrow> bool"
    and inv :: "'s \<Rightarrow> bool"
  assumes step_inv: "inv s \<Longrightarrow> step s e s' \<Longrightarrow> inv s'"
begin

lemma run_inv: "run_of step s es s' \<Longrightarrow> inv s \<Longrightarrow> inv s'"
  by (induction rule: run_of.induct) (auto intro: step_inv)

lemma run_inv_between: "run_of step s (es @ fs) s'' \<Longrightarrow> inv s \<Longrightarrow> \<exists>s'. run_of step s es s' \<and> inv s'"
  by (auto simp: run_of_append intro: run_inv)

end

locale monotone_machine = invariant_machine step inv
  for step :: "'s \<Rightarrow> 'e \<Rightarrow> 's \<Rightarrow> bool" and inv :: "'s \<Rightarrow> bool" +
  fixes measure_of :: "'s \<Rightarrow> 'm::preorder"
  assumes step_mono: "inv s \<Longrightarrow> step s e s' \<Longrightarrow> measure_of s \<le> measure_of s'"
begin

lemma run_mono: "run_of step s es s' \<Longrightarrow> inv s \<Longrightarrow> measure_of s \<le> measure_of s'"
proof (induction rule: run_of.induct)
  case (run_nil s)
  then show ?case by simp
next
  case (run_snoc s es s' e s'')
  then have "inv s'" by (blast intro: run_inv)
  with run_snoc show ?case by (blast intro: order_trans step_mono)
qed

end

end
