(* ===== verification/Task_Queue.thy ===== *)
theory Task_Queue
  imports State_Machine Py_Values
begin

section \<open>The task queue (\<open>task_manager/task_queue.py\<close>)\<close>

text \<open>
  \<open>TaskQueue\<close> is used from one event loop, so each method body up to its first suspension is
  atomic; \<open>enqueue\<close> puts only after testing \<open>full()\<close>, so its \<open>await\<close> never suspends.
  The \<open>asyncio.PriorityQueue\<close> is the list of its entries in insertion order: \<open>get\<close> removes a
  least entry, and which one of several equal entries the binary heap yields is left open by
  \<open>dequeue_step\<close>; \<open>dequeue\<close> is the executable instance that takes the first. A blocking \<open>get\<close> on
  an empty queue is no step.
\<close>

datatype task_priority = LOW | NORMAL | HIGH | CRITICAL

fun priority_value :: "task_priority \<Rightarrow> int" where
  "priority_value LOW = 0"
| "priority_value NORMAL = 5"
| "priority_value HIGH = 10"
| "priority_value CRITICAL = 15"

instantiation task_priority :: linorder
begin

definition less_eq_task_priority :: "task_priority \<Rightarrow> task_priority \<Rightarrow> bool" where
  "less_eq_task_priority a b \<longleftrightarrow> priority_value a \<le> priority_value b"

definition less_task_priority :: "task_priority \<Rightarrow> task_priority \<Rightarrow> bool" where
  "less_task_priority a b \<longleftrightarrow> priority_value a < priority_value b"

instance
proof
  fix x y :: task_priority
  show "x \<le> y \<Longrightarrow> y \<le> x \<Longrightarrow> x = y"
    by (cases x; cases y) (simp_all add: less_eq_task_priority_def)
qed (auto simp: less_eq_task_priority_def less_task_priority_def)

end

record queued_task =
  qt_id :: uuid
  qt_priority :: int
  qt_queued_at :: timestamp
  qt_dependencies :: "uuid list"
  qt_metadata :: pyval

text \<open>\<open>QueuedTask.__lt__\<close>: higher priority first, then the earlier task.\<close>

definition qt_less :: "queued_task \<Rightarrow> queued_task \<Rightarrow> bool" where
  "qt_less a b =
     (if qt_priority a \<noteq> qt_priority b then qt_priority a > qt_priority b
      else qt_queued_at a < qt_queued_at b)"

text \<open>The heap compares the entries \<open>(priority, task)\<close> as tuples: the first components decide
  unless they are equal.\<close>

definition entry_less :: "int \<times> queued_task \<Rightarrow> int \<times> queued_task \<Rightarrow> bool" where
  "entry_less a b = (if fst a \<noteq> fst b then fst a < fst b else qt_less (snd a) (snd b))"

record task_queue =
  tq_max_size :: int
  tq_queue :: "(int \<times> queued_task) list"
  tq_pending :: "(uuid, queued_task) dict"
  tq_completed :: "uuid set"
  tq_failed :: "uuid set"

definition new_task_queue :: "int \<Rightarrow> task_queue" where
  "new_task_queue max_size =
     \<lparr>tq_max_size = max_size, tq_queue = [], tq_pending = [], tq_completed = {}, tq_failed = {}\<rparr>"

text \<open>\<open>Queue.full()\<close>: a \<open>maxsize\<close> of zero or less means unbounded.\<close>

definition pq_full :: "task_queue \<Rightarrow> bool" where
  "pq_full s = (if tq_max_size s \<le> 0 then False else int (length (tq_queue s)) \<ge> tq_max_size s)"

definition are_dependencies_met :: "task_queue \<Rightarrow> queued_task \<Rightarrow> bool" where
  "are_dependencies_met s t = list_all (\<lambda>d. d \<in> tq_completed s) (qt_dependencies t)"

definition pq_put :: "queued_task \<Rightarrow> task_queue \<Rightarrow> task_queue" where
  "pq_put t s = s\<lparr>tq_queue := tq_queue s @ [(qt_priority t, t)]\<rparr>"

definition enqueue ::
    "uuid \<Rightarrow> int \<Rightarrow> uuid list \<Rightarrow> pyval \<Rightarrow> timestamp \<Rightarrow> task_queue \<Rightarrow> bool \<times> task_queue" where
  "enqueue task_id priority dependencies metadata now s =
     (if task_id \<in> set (dict_keys (tq_pending s)) then (False, s)
      else if pq_full s then (False, s)
      else
        let t = \<lparr>qt_id = task_id, qt_priority = priority, qt_queued_at = now,
                 qt_dependencies = dependencies, qt_metadata = metadata\<rparr>;
            s' = s\<lparr>tq_pending := dict_set task_id t (tq_pending s)\<rparr>
        in (True, if are_dependencies_met s' t then pq_put t s' else s'))"

definition least_entry :: "task_queue \<Rightarrow> int \<times> queued_task \<Rightarrow> bool" where
  "least_entry s e \<longleftrightarrow> e \<in> set (tq_queue s) \<and> list_all (\<lambda>e'. \<not> entry_less e' e) (tq_queue s)"

definition remove_entry :: "int \<times> queued_task \<Rightarrow> task_queue \<Rightarrow> task_queue" where
  "remove_entry e s = s\<lparr>tq_queue := remove1 e (tq_queue s)\<rparr>"

definition dequeue :: "task_queue \<Rightarrow> (queued_task \<times> task_queue) option" where
  "dequeue s =
     (case find (least_entry s) (tq_queue s) of
        None \<Rightarrow> None
      | Some e \<Rightarrow> Some (snd e, remove_entry e s))"

fun put_ready :: "queued_task list \<Rightarrow> task_queue \<Rightarrow> task_queue" where
  "put_ready [] s = s"
| "put_ready (t # ts) s = put_ready ts (if \<not> pq_full s then pq_put t s else s)"

definition check_pending_tasks :: "task_queue \<Rightarrow> task_queue" where
  "check_pending_tasks s = put_ready (filter (are_dependencies_met s) (dict_values (tq_pending s))) s"

definition tq_mark_completed :: "uuid \<Rightarrow> task_queue \<Rightarrow> task_queue" where
  "tq_mark_completed task_id s =
     check_pending_tasks
       (s\<lparr>tq_completed := insert task_id (tq_completed s),
          tq_pending := dict_del task_id (tq_pending s)\<rparr>)"

definition tq_mark_failed :: "uuid \<Rightarrow> task_queue \<Rightarrow> task_queue" where
  "tq_mark_failed task_id s =
     s\<lparr>tq_failed := insert task_id (tq_failed s), tq_pending := dict_del task_id (tq_pending s)\<rparr>"

definition tq_clear :: "task_queue \<Rightarrow> task_queue" where
  "tq_clear s = s\<lparr>tq_queue := [], tq_pending := [], tq_completed := {}, tq_failed := {}\<rparr>"

record queue_stats =
  qs_queue_size :: nat
  qs_pending_count :: nat
  qs_completed_count :: nat
  qs_failed_count :: nat
  qs_max_size :: int

definition tq_get_stats :: "task_queue \<Rightarrow> queue_stats" where
  "tq_get_stats s =
     \<lparr>qs_queue_size = length (tq_queue s), qs_pending_count = length (tq_pending s),
      qs_completed_count = card (tq_completed s), qs_failed_count = card (tq_failed s),
      qs_max_size = tq_max_size s\<rparr>"

subsection \<open>Calls as steps\<close>

datatype tq_call =
    CallEnqueue uuid int "uuid list" pyval timestamp
  | CallDequeue queued_task
  | CallCompleted uuid
  | CallFailed uuid
  | CallClear

inductive tq_step :: "task_queue \<Rightarrow> tq_call \<Rightarrow> task_queue \<Rightarrow> bool" where
  enqueue_step: "enqueue i p ds m now s = (b, s') \<Longrightarrow> tq_step s (CallEnqueue i p ds m now) s'"
| dequeue_step: "least_entry s e \<Longrightarrow> tq_step s (CallDequeue (snd e)) (remove_entry e s)"
| completed_step: "tq_step s (CallCompleted i) (tq_mark_completed i s)"
| failed_step: "tq_step s (CallFailed i) (tq_mark_failed i s)"
| clear_step: "tq_step s CallClear (tq_clear s)"

inductive_cases tq_stepE: "tq_step s c s'"
inductive_simps tq_step_dequeue: "tq_step s (CallDequeue t) s'"

subsection \<open>The invariant\<close>

definition entry_ok :: "task_queue \<Rightarrow> int \<times> queued_task \<Rightarrow> bool" where
  "entry_ok s e \<longleftrightarrow> fst e = qt_priority (snd e) \<and> set (qt_dependencies (snd e)) \<subseteq> tq_completed s"

definition tq_inv :: "task_queue \<Rightarrow> bool" where
  "tq_inv s \<longleftrightarrow> dict_wf (tq_pending s) \<and> list_all (entry_ok s) (tq_queue s)
     \<and> list_all (\<lambda>(k, t). qt_id t = k) (tq_pending s)
     \<and> (0 < tq_max_size s \<longrightarrow> int (length (tq_queue s)) \<le> tq_max_size s)"

lemma tq_inv_new [simp]: "tq_inv (new_task_queue n)"
  by (simp add: tq_inv_def new_task_queue_def)

lemma are_dependencies_met_iff: "are_dependencies_met s t \<longleftrightarrow> set (qt_dependencies t) \<subseteq> tq_completed s"
  by (auto simp: are_dependencies_met_def list_all_iff)

lemma pq_put_simps [simp]:
  "tq_pending (pq_put t s) = tq_pending s" "tq_completed (pq_put t s) = tq_completed s"
  "tq_failed (pq_put t s) = tq_failed s" "tq_max_size (pq_put t s) = tq_max_size s"
  "tq_queue (pq_put t s) = tq_queue s @ [(qt_priority t, t)]"
  by (simp_all add: pq_put_def)

lemma entry_ok_pq_put [simp]: "entry_ok (pq_put t s) = entry_ok s"
  by (simp add: entry_ok_def fun_eq_iff)

lemma tq_inv_put:
  "tq_inv s \<Longrightarrow> \<not> pq_full s \<Longrightarrow> are_dependencies_met s t \<Longrightarrow> tq_inv (pq_put t s)"
  by (auto simp: tq_inv_def pq_full_def are_dependencies_met_iff entry_ok_def split: if_splits)

lemma put_ready_fields [simp]:
  "tq_pending (put_ready ts s) = tq_pending s" "tq_completed (put_ready ts s) = tq_completed s"
  "tq_failed (put_ready ts s) = tq_failed s" "tq_max_size (put_ready ts s) = tq_max_size s"
  by (induction ts arbitrary: s) auto

lemma tq_inv_put_ready:
  "tq_inv s \<Longrightarrow> \<forall>t \<in> set ts. are_dependencies_met s t \<Longrightarrow> tq_inv (put_ready ts s)"
proof (induction ts arbitrary: s)
  case (Cons t ts)
  have "are_dependencies_met (pq_put t s) u = are_dependencies_met s u" for u
    by (simp add: are_dependencies_met_iff)
  with Cons show ?case by (auto intro: tq_inv_put)
qed simp

lemma dict_set_entries:
  "list_all (\<lambda>(k, t). P k t) d \<Longrightarrow> P k v \<Longrightarrow> list_all (\<lambda>(k, t). P k t) (dict_set k v d)"
  by (induction d) (auto simp: dict_set_def)

lemma dict_del_entries:
  "list_all (\<lambda>(k, t). P k t) d \<Longrightarrow> list_all (\<lambda>(k, t). P k t) (dict_del k d)"
  by (induction d) (auto simp: dict_del_def)

lemma tq_inv_enqueue:
  assumes "tq_inv s" and "enqueue i p ds m now s = (b, s')"
  shows "tq_inv s'"
proof (cases "b")
  case False
  with assms show ?thesis by (auto simp: enqueue_def Let_def split: if_splits)
next
  case True
  let ?t = "\<lparr>qt_id = i, qt_priority = p, qt_queued_at = now, qt_dependencies = ds, qt_metadata = m\<rparr>"
  let ?s = "s\<lparr>tq_pending := dict_set i ?t (tq_pending s)\<rparr>"
  have nf: "\<not> pq_full s" and s': "s' = (if are_dependencies_met ?s ?t then pq_put ?t ?s else ?s)"
    using assms(2) True by (auto simp: enqueue_def Let_def split: if_splits)
  have "list_all (\<lambda>(k, t). qt_id t = k) (dict_set i ?t (tq_pending s))"
    using assms(1) by (intro dict_set_entries) (auto simp: tq_inv_def)
  moreover have "entry_ok ?s = entry_ok s" by (simp add: entry_ok_def fun_eq_iff)
  ultimately have "tq_inv ?s" using assms(1) by (simp add: tq_inv_def)
  moreover have "\<not> pq_full ?s" using nf by (auto simp: pq_full_def split: if_splits)
  ultimately show ?thesis using s' tq_inv_put by auto
qed

lemma tq_inv_completed: "tq_inv s \<Longrightarrow> tq_inv (tq_mark_completed i s)"
  unfolding tq_mark_completed_def check_pending_tasks_def
  by (rule tq_inv_put_ready)
    (auto simp: tq_inv_def list_all_iff entry_ok_def dest: dict_del_entries[unfolded list_all_iff])

lemma tq_inv_dequeue:
  assumes "tq_inv s" and "least_entry s e"
  shows "tq_inv (remove_entry e s)"
proof -
  have "length (remove1 e (tq_queue s)) \<le> length (tq_queue s)"
    by (simp add: length_remove1)
  then show ?thesis
    using assms(1) by (auto simp: tq_inv_def remove_entry_def list_all_iff entry_ok_def dest: notin_set_remove1)
qed

interpretation tq: invariant_machine tq_step tq_inv
proof unfold_locales
  fix s c s'
  assume inv: "tq_inv s" and "tq_step s c s'"
  from this(2) show "tq_inv s'"
  proof (cases rule: tq_step.cases)
    case (enqueue_step i p ds m now b)
    with inv show ?thesis using tq_inv_enqueue by blast
  next
    case (dequeue_step e)
    with inv show ?thesis using tq_inv_dequeue by blast
  next
    case (completed_step i)
    with inv show ?thesis using tq_inv_completed by blast
  next
    case (failed_step i)
    with inv show ?thesis
      by (auto simp: tq_inv_def tq_mark_failed_def entry_ok_def[abs_def] intro: dict_del_entries)
  next
    case clear_step
    with inv show ?thesis by (simp add: tq_inv_def tq_clear_def)
  qed
qed

subsection \<open>What the trace says about the state\<close>

lemma enqueue_fields:
  "enqueue i p ds m now s = (b, s') \<Longrightarrow> tq_completed s' = tq_completed s \<and> tq_max_size s' = tq_max_size s"
  by (auto simp: enqueue_def Let_def split: if_splits)

lemma tq_mark_completed_fields:
  "tq_completed (tq_mark_completed i s) = insert i (tq_completed s)"
  "tq_max_size (tq_mark_completed i s) = tq_max_size s"
  "tq_pending (tq_mark_completed i s) = dict_del i (tq_pending s)"
  by (simp_all add: tq_mark_completed_def check_pending_tasks_def)

lemma tq_step_fields:
  "tq_step s c s' \<Longrightarrow> tq_max_size s' = tq_max_size s
     \<and> tq_completed s' \<subseteq> tq_completed s \<union> {i. c = CallCompleted i}"
  by (erule tq_stepE)
    (auto simp: tq_mark_completed_fields remove_entry_def tq_mark_failed_def tq_clear_def dest: enqueue_fields)

lemma run_completed:
  "run_of tq_step s es s' \<Longrightarrow> tq_max_size s' = tq_max_size s
     \<and> tq_completed s' \<subseteq> tq_completed s \<union> {i. CallCompleted i \<in> set es}"
proof (induction rule: run_of.induct)
  case (run_snoc s es s' e s'')
  with tq_step_fields[OF run_snoc.hyps(2)] show ?case by auto
qed simp

lemma least_entry_dequeue:
  "tq_step s (CallDequeue t) s' \<Longrightarrow> \<exists>e. least_entry s e \<and> t = snd e \<and> s' = remove_entry e s"
  by (auto simp: tq_step_dequeue)

text \<open>The executable \<open>dequeue\<close> makes one of the allowed choices.\<close>

lemma entry_less_irrefl: "\<not> entry_less a a"
  by (simp add: entry_less_def qt_less_def)

lemma entry_less_trans: "entry_less a b \<Longrightarrow> entry_less b c \<Longrightarrow> entry_less a c"
  by (auto simp: entry_less_def qt_less_def split: if_splits)

lemma entry_min_exists:
  "xs \<noteq> [] \<Longrightarrow> \<exists>e \<in> set xs. \<forall>e' \<in> set xs. \<not> entry_less e' e"
proof (induction xs)
  case (Cons x xs)
  show ?case
  proof (cases "xs = []")
    case True
    then show ?thesis by (simp add: entry_less_irrefl)
  next
    case False
    with Cons.IH obtain e where e: "e \<in> set xs" "\<forall>e' \<in> set xs. \<not> entry_less e' e" by blast
    show ?thesis
    proof (cases "entry_less x e")
      case True
      with e(2) have "\<forall>e' \<in> set (x # xs). \<not> entry_less e' x"
        using entry_less_irrefl entry_less_trans by (metis set_ConsD)
      then show ?thesis by (intro bexI[of _ x]) auto
    next
      case False
      with e show ?thesis by auto
    qed
  qed
qed simp

lemma find_Some_sat: "find P xs = Some x \<Longrightarrow> P x"
  by (auto simp: find_Some_iff)

lemma dequeue_is_step: "dequeue s = Some (t, s') \<Longrightarrow> tq_step s (CallDequeue t) s'"
  by (auto simp: dequeue_def split: option.splits dest!: find_Some_sat intro: dequeue_step)

text \<open>Concrete runs, for the witnesses.\<close>

definition sample_queued :: "uuid \<Rightarrow> int \<Rightarrow> uuid list \<Rightarrow> timestamp \<Rightarrow> queued_task" where
  "sample_queued i p ds now =
     \<lparr>qt_id = i, qt_priority = p, qt_queued_at = now, qt_dependencies = ds, qt_metadata = PNone\<rparr>"

lemma tq_step_enqueueI:
  "s' = snd (enqueue i p ds m now s) \<Longrightarrow> tq_step s (CallEnqueue i p ds m now) s'"
  by (metis enqueue_step prod.collapse)

lemma tq_step_dequeueI:
  "dequeue s = Some (t, s') \<Longrightarrow> tq_step s (CallDequeue t) s'"
  by (rule dequeue_is_step)

lemmas tq_run_simps = run_of_Cons enqueue_def dequeue_def least_entry_def entry_less_def qt_less_def
  are_dependencies_met_def pq_full_def pq_put_def remove_entry_def new_task_queue_def dict_set_def
  sample_queued_def tq_mark_completed_def check_pending_tasks_def dict_del_def Let_def

lemma put_ready_queue:
  "tq_queue (put_ready ts s) = tq_queue s @
     (let es = map (\<lambda>t. (qt_priority t, t)) ts
      in if tq_max_size s \<le> 0 then es else take (nat (tq_max_size s - int (length (tq_queue s)))) es)"
proof (induction ts arbitrary: s)
  case (Cons t ts)
  show ?case
  proof (cases "pq_full s")
    case True
    then show ?thesis using Cons.IH[of s] by (auto simp: pq_full_def split: if_splits)
  next
    case False
    then have "tq_max_size s \<le> 0 \<or>
        nat (tq_max_size s - int (length (tq_queue s))) = Suc (nat (tq_max_size s - (1 + int (length (tq_queue s)))))"
      by (auto simp: pq_full_def split: if_splits)
    with False Cons.IH[of "pq_put t s"] show ?thesis by (auto simp: Let_def add.commute)
  qed
qed simp

subsection \<open>Properties\<close>

text \<open>C9: A task is handed out only after \<open>mark_completed\<close> was called for every task it depends
  on: in any run of a new queue, of any size and under any interleaving of the calls.\<close>

theorem dequeued_dependencies_completed:
  assumes "run_of tq_step (new_task_queue n) (es @ [CallDequeue t]) s"
  shows "set (qt_dependencies t) \<subseteq> {i. CallCompleted i \<in> set es}"
proof -
  obtain s' where run: "run_of tq_step (new_task_queue n) es s'" and "tq_step s' (CallDequeue t) s"
    using assms by (auto simp: run_of_snoc)
  then obtain e where "least_entry s' e" "t = snd e" using least_entry_dequeue by blast
  moreover have "tq_inv s'" using tq.run_inv[OF run] by simp
  ultimately have "set (qt_dependencies t) \<subseteq> tq_completed s'"
    by (auto simp: tq_inv_def least_entry_def list_all_iff entry_ok_def)
  moreover have "tq_completed s' \<subseteq> {i. CallCompleted i \<in> set es}"
    using run_completed[OF run] by (simp add: new_task_queue_def)
  ultimately show ?thesis by blast
qed

text \<open>The queue never holds more than \<open>max_size\<close> entries when \<open>max_size\<close> is positive, and every
  entry in it is ready to run.\<close>

theorem queue_bounded:
  assumes "run_of tq_step (new_task_queue n) es s" and "0 < n"
  shows "int (qs_queue_size (tq_get_stats s)) \<le> n
     \<and> list_all (\<lambda>(p, t). p = qt_priority t \<and> are_dependencies_met s t) (tq_queue s)"
proof -
  have "tq_inv s" using tq.run_inv[OF assms(1)] by simp
  moreover have "tq_max_size s = n" using run_completed[OF assms(1)] by (simp add: new_task_queue_def)
  ultimately show ?thesis
    using assms(2)
    by (fastforce simp: tq_inv_def tq_get_stats_def list_all_iff entry_ok_def are_dependencies_met_iff)
qed

text \<open>What \<open>dequeue\<close> returns has the numerically least priority in the queue and, among
  those, the earliest \<open>queued_at\<close>: a \<open>LOW\<close> task always leaves before a \<open>CRITICAL\<close> one, the
  opposite of what \<open>dequeue\<close> documents and \<open>__lt__\<close> intends. A non-empty queue yields a task.\<close>

theorem dequeue_least_priority:
  assumes "run_of tq_step (new_task_queue n) es s" and "tq_queue s \<noteq> []"
  shows "\<exists>t s'. dequeue s = Some (t, s') \<and> tq_step s (CallDequeue t) s'
     \<and> list_all (\<lambda>(p, u). qt_priority t < p \<or> (qt_priority t = p \<and> qt_queued_at t \<le> qt_queued_at u))
         (tq_queue s)"
proof -
  have "tq_inv s" using tq.run_inv[OF assms(1)] by simp
  obtain e where "find (least_entry s) (tq_queue s) = Some e"
    using entry_min_exists[OF assms(2)]
    by (cases "find (least_entry s) (tq_queue s)") (auto simp: find_None_iff least_entry_def list_all_iff)
  then have d: "dequeue s = Some (snd e, remove_entry e s)" and "least_entry s e"
    by (simp_all add: dequeue_def find_Some_sat)
  have "qt_priority (snd e) < p \<or> (qt_priority (snd e) = p \<and> qt_queued_at (snd e) \<le> qt_queued_at u)"
    if "(p, u) \<in> set (tq_queue s)" for p u
  proof -
    have "\<not> entry_less (p, u) e" and "p = qt_priority u" and "fst e = qt_priority (snd e)"
      using that \<open>least_entry s e\<close> \<open>tq_inv s\<close>
      by (auto simp: tq_inv_def least_entry_def list_all_iff entry_ok_def dest!: bspec)
    then show ?thesis by (auto simp: entry_less_def qt_less_def split: if_splits)
  qed
  then have "list_all (\<lambda>(p, u). qt_priority (snd e) < p
      \<or> (qt_priority (snd e) = p \<and> qt_queued_at (snd e) \<le> qt_queued_at u)) (tq_queue s)"
    by (auto simp: list_all_iff)
  with d dequeue_is_step[OF d] show ?thesis by blast
qed

text \<open>\<open>mark_completed\<close> wakes every pending task whose dependencies are now met: it appends
  all of them, in the order they became pending, as far as the size bound allows, and nothing
  else. It does not look whether such a task is queued already or was handed out before, so a
  ready task stays eligible, and is queued once more, until it is itself marked.\<close>

theorem mark_completed_requeues:
  "tq_queue (tq_mark_completed i s) =
     tq_queue s @
       (let ready = map (\<lambda>t. (qt_priority t, t))
              (filter (\<lambda>t. set (qt_dependencies t) \<subseteq> insert i (tq_completed s))
                (dict_values (dict_del i (tq_pending s))))
        in if tq_max_size s \<le> 0 then ready
           else take (nat (tq_max_size s - int (length (tq_queue s)))) ready)"
  unfolding tq_mark_completed_def check_pending_tasks_def
  by (simp add: put_ready_queue are_dependencies_met_iff[abs_def] Let_def)

text \<open>A task with no other event of its own is handed out twice.\<close>

lemma task_dequeued_twice:
  "\<exists>s. run_of tq_step (new_task_queue 5)
     [CallEnqueue 1 5 [] PNone 0, CallEnqueue 2 5 [] PNone 1, CallDequeue (sample_queued 1 5 [] 0),
      CallDequeue (sample_queued 2 5 [] 1), CallCompleted 1, CallDequeue (sample_queued 2 5 [] 1)] s"
proof -
  let ?s1 = "snd (enqueue 1 5 [] PNone 0 (new_task_queue 5))"
  let ?s2 = "snd (enqueue 2 5 [] PNone 1 ?s1)"
  have steps: "tq_step (new_task_queue 5) (CallEnqueue 1 5 [] PNone 0) ?s1"
    "tq_step ?s1 (CallEnqueue 2 5 [] PNone 1) ?s2"
    by (rule tq_step_enqueueI, rule refl)+
  obtain s3 where d3: "dequeue ?s2 = Some (sample_queued 1 5 [] 0, s3)"
    and s3: "s3 = remove_entry (5, sample_queued 1 5 [] 0) ?s2"
    by (simp add: tq_run_simps)
  obtain s4 where d4: "dequeue s3 = Some (sample_queued 2 5 [] 1, s4)"
    and s4: "s4 = remove_entry (5, sample_queued 2 5 [] 1) s3"
    unfolding s3 by (simp add: tq_run_simps)
  obtain s6 where d6: "dequeue (tq_mark_completed 1 s4) = Some (sample_queued 2 5 [] 1, s6)"
    unfolding s4 s3 by (simp add: tq_run_simps)
  show ?thesis
    by (rule exI[of _ s6], rule run_ConsI, rule steps(1), rule run_ConsI, rule steps(2),
        rule run_ConsI, rule tq_step_dequeueI[OF d3], rule run_ConsI, rule tq_step_dequeueI[OF d4],
        rule run_ConsI, rule completed_step, rule run_ConsI, rule tq_step_dequeueI[OF d6], rule run_nil)
qed

theorem dequeued_dependencies_completed_witness:
  "\<exists>s. run_of tq_step (new_task_queue 5)
      ([CallEnqueue 1 5 [] PNone 0, CallEnqueue 2 5 [1] PNone 1,
        CallDequeue (sample_queued 1 5 [] 0), CallCompleted 1] @ [CallDequeue (sample_queued 2 5 [1] 1)]) s
     \<and> set (qt_dependencies (sample_queued 2 5 [1] 1)) \<subseteq>
         {i. CallCompleted i \<in> set [CallEnqueue 1 5 [] PNone 0, CallEnqueue 2 5 [1] PNone 1,
              CallDequeue (sample_queued 1 5 [] 0), CallCompleted 1]}"
proof -
  let ?es = "[CallEnqueue 1 5 [] PNone 0, CallEnqueue 2 5 [1] PNone 1,
        CallDequeue (sample_queued 1 5 [] 0), CallCompleted 1]"
  let ?s1 = "snd (enqueue 1 5 [] PNone 0 (new_task_queue 5))"
  let ?s2 = "snd (enqueue 2 5 [1] PNone 1 ?s1)"
  obtain s3 where d3: "dequeue ?s2 = Some (sample_queued 1 5 [] 0, s3)"
    and s3: "s3 = remove_entry (5, sample_queued 1 5 [] 0) ?s2"
    by (simp add: tq_run_simps)
  obtain s5 where d5: "dequeue (tq_mark_completed 1 s3) = Some (sample_queued 2 5 [1] 1, s5)"
    unfolding s3 by (simp add: tq_run_simps)
  have "tq_step (new_task_queue 5) (CallEnqueue 1 5 [] PNone 0) ?s1"
    "tq_step ?s1 (CallEnqueue 2 5 [1] PNone 1) ?s2"
    by (rule tq_step_enqueueI, rule refl)+
  with tq_step_dequeueI[OF d3] tq_step_dequeueI[OF d5] completed_step[of s3 1]
  have run: "run_of tq_step (new_task_queue 5) (?es @ [CallDequeue (sample_queued 2 5 [1] 1)]) s5"
    by (auto simp: run_of_Cons)
  from dequeued_dependencies_completed[OF run] run show ?thesis by blast
qed

theorem queue_bounded_witness:
  "\<exists>s. run_of tq_step (new_task_queue 1) [CallEnqueue 1 5 [] PNone 0, CallEnqueue 2 5 [] PNone 1] s
     \<and> qs_queue_size (tq_get_stats s) = 1 \<and> int (qs_queue_size (tq_get_stats s)) \<le> 1"
proof -
  let ?s1 = "snd (enqueue 1 5 [] PNone 0 (new_task_queue 1))"
  let ?s2 = "snd (enqueue 2 5 [] PNone 1 ?s1)"
  have "tq_step (new_task_queue 1) (CallEnqueue 1 5 [] PNone 0) ?s1"
    "tq_step ?s1 (CallEnqueue 2 5 [] PNone 1) ?s2"
    by (rule tq_step_enqueueI, rule refl)+
  then have run: "run_of tq_step (new_task_queue 1)
      [CallEnqueue 1 5 [] PNone 0, CallEnqueue 2 5 [] PNone 1] ?s2"
    by (auto simp: run_of_Cons)
  moreover have "qs_queue_size (tq_get_stats ?s2) = 1" by (simp add: tq_run_simps tq_get_stats_def)
  ultimately show ?thesis using queue_bounded[OF run] by auto
qed

theorem dequeue_least_priority_witness:
  "\<exists>s t s'. run_of tq_step (new_task_queue 5)
       [CallEnqueue 1 (priority_value CRITICAL) [] PNone 0, CallEnqueue 2 (priority_value LOW) [] PNone 1] s
     \<and> dequeue s = Some (t, s') \<and> qt_priority t = priority_value LOW"
proof -
  let ?s1 = "snd (enqueue 1 (priority_value CRITICAL) [] PNone 0 (new_task_queue 5))"
  let ?s2 = "snd (enqueue 2 (priority_value LOW) [] PNone 1 ?s1)"
  have "tq_step (new_task_queue 5) (CallEnqueue 1 (priority_value CRITICAL) [] PNone 0) ?s1"
    "tq_step ?s1 (CallEnqueue 2 (priority_value LOW) [] PNone 1) ?s2"
    by (rule tq_step_enqueueI, rule refl)+
  then have run: "run_of tq_step (new_task_queue 5)
      [CallEnqueue 1 (priority_value CRITICAL) [] PNone 0, CallEnqueue 2 (priority_value LOW) [] PNone 1] ?s2"
    by (auto simp: run_of_Cons)
  moreover have q: "tq_queue ?s2 = [(15, sample_queued 1 15 [] 0), (0, sample_queued 2 0 [] 1)]"
    by (simp add: tq_run_simps)
  ultimately obtain t s' where "dequeue ?s2 = Some (t, s')" "qt_priority t \<le> 0"
    and "tq_step ?s2 (CallDequeue t) s'"
    using dequeue_least_priority[OF run] by auto
  moreover from this(3) q have "qt_priority t \<in> {15, 0}"
    by (auto dest!: least_entry_dequeue simp: least_entry_def sample_queued_def)
  ultimately show ?thesis using run by auto
qed

end
