(* ===== verification/Circuit_Breaker.thy ===== *)
theory Circuit_Breaker
  imports State_Machine
begin

section \<open>The circuit breaker (\<open>production/circuit_breaker.py\<close>)\<close>

text \<open>
  \<open>CircuitBreaker.call\<close> suspends while it awaits the protected function, so calls overlap. It is
  split at that point: \<open>cb_admit\<close> is everything before the function runs, \<open>on_success\<close> and
  \<open>on_failure\<close> what happens when it returns or raises an \<open>Exception\<close> (a timeout is one). A
  cancelled call (\<open>CancelledError\<close> is no \<open>Exception\<close>) runs neither. The step relation keeps the
  number of admitted, unfinished calls and how many were cancelled beside the breaker; any
  admitted call may finish in any later state. \<open>now\<close> is \<open>datetime.now()\<close> at the event.
\<close>

datatype circuit_state = CLOSED | OPEN | HALF_OPEN

fun circuit_state_value :: "circuit_state \<Rightarrow> string" where
  "circuit_state_value CLOSED = ''closed''"
| "circuit_state_value OPEN = ''open''"
| "circuit_state_value HALF_OPEN = ''half_open''"

record breaker_config =
  bc_failure_threshold :: int
  bc_success_threshold :: int
  bc_timeout_seconds :: int
  bc_call_timeout_seconds :: int

definition default_breaker_config :: breaker_config where
  "default_breaker_config =
     \<lparr>bc_failure_threshold = 5, bc_success_threshold = 2, bc_timeout_seconds = 60,
      bc_call_timeout_seconds = 10\<rparr>"

record breaker_stats =
  bs_total_calls :: int
  bs_successful_calls :: int
  bs_failed_calls :: int
  bs_rejected_calls :: int
  bs_last_failure_time :: "timestamp option"
  bs_last_success_time :: "timestamp option"

record breaker =
  cb_name :: string
  cb_config :: breaker_config
  cb_state :: circuit_state
  cb_stats :: breaker_stats
  cb_failure_count :: int
  cb_success_count :: int
  cb_opened_at :: "timestamp option"

definition new_breaker :: "string \<Rightarrow> breaker_config option \<Rightarrow> breaker" where
  "new_breaker name config =
     \<lparr>cb_name = name,
      cb_config = (case config of None \<Rightarrow> default_breaker_config | Some c \<Rightarrow> c),
      cb_state = CLOSED,
      cb_stats = \<lparr>bs_total_calls = 0, bs_successful_calls = 0, bs_failed_calls = 0,
        bs_rejected_calls = 0, bs_last_failure_time = None, bs_last_success_time = None\<rparr>,
      cb_failure_count = 0, cb_success_count = 0, cb_opened_at = None\<rparr>"

definition should_attempt_reset :: "timestamp \<Rightarrow> breaker \<Rightarrow> bool" where
  "should_attempt_reset now b =
     (case cb_opened_at b of
        None \<Rightarrow> False
      | Some t \<Rightarrow> now - t \<ge> usec (bc_timeout_seconds (cb_config b)))"

definition transition_to_open :: "timestamp \<Rightarrow> breaker \<Rightarrow> breaker" where
  "transition_to_open now b = b\<lparr>cb_state := OPEN, cb_opened_at := Some now\<rparr>"

definition transition_to_half_open :: "breaker \<Rightarrow> breaker" where
  "transition_to_half_open b = b\<lparr>cb_state := HALF_OPEN, cb_success_count := 0\<rparr>"

definition transition_to_closed :: "breaker \<Rightarrow> breaker" where
  "transition_to_closed b =
     b\<lparr>cb_state := CLOSED, cb_failure_count := 0, cb_success_count := 0, cb_opened_at := None\<rparr>"

definition cb_count_total :: "breaker \<Rightarrow> breaker" where
  "cb_count_total b = b\<lparr>cb_stats := (cb_stats b)\<lparr>bs_total_calls := bs_total_calls (cb_stats b) + 1\<rparr>\<rparr>"

definition cb_count_rejected :: "breaker \<Rightarrow> breaker" where
  "cb_count_rejected b =
     b\<lparr>cb_stats := (cb_stats b)\<lparr>bs_rejected_calls := bs_rejected_calls (cb_stats b) + 1\<rparr>\<rparr>"

text \<open>The part of \<open>call\<close> before the function: is it admitted, and the state then.\<close>

definition cb_admit :: "timestamp \<Rightarrow> breaker \<Rightarrow> bool \<times> breaker" where
  "cb_admit now b0 =
     (let b = cb_count_total b0
      in if cb_state b = OPEN then
           (if should_attempt_reset now b then (True, transition_to_half_open b)
            else (False, cb_count_rejected b))
         else (True, b))"

definition on_success :: "timestamp \<Rightarrow> breaker \<Rightarrow> breaker" where
  "on_success now b0 =
     (let b = b0\<lparr>cb_stats := (cb_stats b0)\<lparr>bs_successful_calls := bs_successful_calls (cb_stats b0) + 1,
                                          bs_last_success_time := Some now\<rparr>,
                cb_failure_count := 0\<rparr>
      in if cb_state b = HALF_OPEN then
           (let b' = b\<lparr>cb_success_count := cb_success_count b + 1\<rparr>
            in if cb_success_count b' \<ge> bc_success_threshold (cb_config b')
               then transition_to_closed b' else b')
         else b)"

definition on_failure :: "timestamp \<Rightarrow> breaker \<Rightarrow> breaker" where
  "on_failure now b0 =
     (let b = b0\<lparr>cb_stats := (cb_stats b0)\<lparr>bs_failed_calls := bs_failed_calls (cb_stats b0) + 1,
                                          bs_last_failure_time := Some now\<rparr>,
                cb_success_count := 0\<rparr>
      in case cb_state b of
           CLOSED \<Rightarrow>
             (let b' = b\<lparr>cb_failure_count := cb_failure_count b + 1\<rparr>
              in if cb_failure_count b' \<ge> bc_failure_threshold (cb_config b')
                 then transition_to_open now b' else b')
         | HALF_OPEN \<Rightarrow> transition_to_open now b
         | OPEN \<Rightarrow> b)"

definition cb_reset :: "breaker \<Rightarrow> breaker" where
  "cb_reset b = transition_to_closed b"

record breaker_report =
  br_name :: string
  br_state :: string
  br_total_calls :: int
  br_successful_calls :: int
  br_failed_calls :: int
  br_rejected_calls :: int
  br_failure_rate :: real
  br_last_failure_time :: "timestamp option"
  br_last_success_time :: "timestamp option"

definition cb_get_stats :: "breaker \<Rightarrow> breaker_report" where
  "cb_get_stats b =
     (let s = cb_stats b
      in \<lparr>br_name = cb_name b, br_state = circuit_state_value (cb_state b),
          br_total_calls = bs_total_calls s, br_successful_calls = bs_successful_calls s,
          br_failed_calls = bs_failed_calls s, br_rejected_calls = bs_rejected_calls s,
          br_failure_rate = (if bs_total_calls s > 0
             then of_int (bs_failed_calls s) / of_int (bs_total_calls s) else 0),
          br_last_failure_time = bs_last_failure_time s,
          br_last_success_time = bs_last_success_time s\<rparr>)"

text \<open>\<open>CircuitBreakerManager\<close>: a dictionary of breakers by name.\<close>

type_synonym breaker_manager = "(string, breaker) dict"

definition get_breaker :: "string \<Rightarrow> breaker_config option \<Rightarrow> breaker_manager \<Rightarrow> breaker \<times> breaker_manager" where
  "get_breaker name config m =
     (case dict_get m name of
        None \<Rightarrow> (let b = new_breaker name config in (b, dict_set name b m))
      | Some b \<Rightarrow> (b, m))"

definition get_all_stats :: "breaker_manager \<Rightarrow> (string, breaker_report) dict" where
  "get_all_stats m = map (\<lambda>(n, b). (n, cb_get_stats b)) m"

definition reset_all_breakers :: "breaker_manager \<Rightarrow> breaker_manager" where
  "reset_all_breakers m = map (\<lambda>(n, b). (n, cb_reset b)) m"

subsection \<open>Overlapping calls\<close>

record breaker_run =
  run_breaker :: breaker
  run_in_flight :: nat
  run_cancelled :: nat

datatype breaker_event =
    CallArrives timestamp
  | CallSucceeds timestamp
  | CallRaises timestamp
  | CallCancelled
  | ManualReset

definition start_run :: "breaker \<Rightarrow> breaker_run" where
  "start_run b = \<lparr>run_breaker = b, run_in_flight = 0, run_cancelled = 0\<rparr>"

inductive cb_step :: "breaker_run \<Rightarrow> breaker_event \<Rightarrow> breaker_run \<Rightarrow> bool" where
  cb_admitted: "cb_admit now (run_breaker s) = (True, b) \<Longrightarrow>
     cb_step s (CallArrives now) (s\<lparr>run_breaker := b, run_in_flight := run_in_flight s + 1\<rparr>)"
| cb_rejected: "cb_admit now (run_breaker s) = (False, b) \<Longrightarrow>
     cb_step s (CallArrives now) (s\<lparr>run_breaker := b\<rparr>)"
| cb_succeeded: "run_in_flight s = Suc n \<Longrightarrow>
     cb_step s (CallSucceeds now)
       (s\<lparr>run_breaker := on_success now (run_breaker s), run_in_flight := n\<rparr>)"
| cb_raised: "run_in_flight s = Suc n \<Longrightarrow>
     cb_step s (CallRaises now)
       (s\<lparr>run_breaker := on_failure now (run_breaker s), run_in_flight := n\<rparr>)"
| cb_cancelled: "run_in_flight s = Suc n \<Longrightarrow>
     cb_step s CallCancelled (s\<lparr>run_in_flight := n, run_cancelled := run_cancelled s + 1\<rparr>)"
| cb_was_reset: "cb_step s ManualReset (s\<lparr>run_breaker := cb_reset (run_breaker s)\<rparr>)"

inductive_cases cb_stepE: "cb_step s e s'"

lemmas cb_defs = cb_admit_def cb_count_total_def cb_count_rejected_def on_success_def on_failure_def
  cb_reset_def transition_to_open_def transition_to_half_open_def transition_to_closed_def

definition breaker_inv :: "breaker_run \<Rightarrow> bool" where
  "breaker_inv s \<longleftrightarrow>
     (let b = run_breaker s; st = cb_stats b; c = cb_config b
      in (cb_state b = CLOSED \<longrightarrow> cb_failure_count b < max 1 (bc_failure_threshold c))
       \<and> (cb_state b = HALF_OPEN \<longrightarrow> cb_success_count b < max 1 (bc_success_threshold c))
       \<and> (cb_state b = CLOSED \<longleftrightarrow> cb_opened_at b = None)
       \<and> 0 \<le> cb_failure_count b \<and> 0 \<le> cb_success_count b
       \<and> 0 \<le> bs_successful_calls st \<and> 0 \<le> bs_failed_calls st \<and> 0 \<le> bs_rejected_calls st
       \<and> bs_total_calls st = bs_successful_calls st + bs_failed_calls st + bs_rejected_calls st
           + int (run_in_flight s) + int (run_cancelled s))"

lemma breaker_inv_start [simp]: "breaker_inv (start_run (new_breaker name config))"
  by (simp add: breaker_inv_def start_run_def new_breaker_def Let_def)

interpretation cbm: invariant_machine cb_step breaker_inv
proof unfold_locales
  fix s e s'
  assume inv: "breaker_inv s" and "cb_step s e s'"
  from this(2) show "breaker_inv s'"
  proof (cases rule: cb_step.cases)
    case (cb_admitted now b)
    with inv show ?thesis
      by (auto simp: breaker_inv_def cb_defs Let_def split: if_splits circuit_state.splits)
  next
    case (cb_rejected now b)
    with inv show ?thesis
      by (auto simp: breaker_inv_def cb_defs Let_def split: if_splits)
  next
    case (cb_succeeded n now)
    with inv show ?thesis
      by (auto simp: breaker_inv_def cb_defs Let_def)
  next
    case (cb_raised n now)
    with inv show ?thesis
      by (auto simp: breaker_inv_def cb_defs Let_def split: circuit_state.splits)
  next
    case (cb_cancelled n)
    with inv show ?thesis by (auto simp: breaker_inv_def Let_def)
  next
    case cb_was_reset
    with inv show ?thesis by (auto simp: breaker_inv_def cb_defs Let_def)
  qed
qed

subsection \<open>Consecutive outcomes\<close>

lemma on_failure_open: "cb_state b = OPEN \<Longrightarrow>
   cb_state (on_failure now b) = OPEN \<and> cb_opened_at (on_failure now b) = cb_opened_at b
   \<and> cb_config (on_failure now b) = cb_config b"
  by (simp add: on_failure_def Let_def)

lemma on_success_open: "cb_state b = OPEN \<Longrightarrow>
   cb_state (on_success now b) = OPEN \<and> cb_opened_at (on_success now b) = cb_opened_at b
   \<and> cb_config (on_success now b) = cb_config b"
  by (simp add: on_success_def Let_def)

lemma fold_failures_open: "cb_state b = OPEN \<Longrightarrow> cb_state (fold on_failure ts b) = OPEN"
  by (induction ts arbitrary: b) (auto simp: on_failure_open)

lemma fold_failures:
  "cb_state b = CLOSED \<Longrightarrow> ts \<noteq> [] \<Longrightarrow>
   cb_state (fold on_failure ts b) =
     (if cb_failure_count b + int (length ts) \<ge> bc_failure_threshold (cb_config b) then OPEN else CLOSED)"
proof (induction ts arbitrary: b)
  case (Cons t ts)
  show ?case
  proof (cases "cb_failure_count b + 1 \<ge> bc_failure_threshold (cb_config b)")
    case True
    then have "cb_state (on_failure t b) = OPEN"
      using Cons.prems(1) by (simp add: on_failure_def transition_to_open_def Let_def)
    with True show ?thesis by (simp add: fold_failures_open)
  next
    case False
    then have "cb_state (on_failure t b) = CLOSED" "cb_config (on_failure t b) = cb_config b"
      "cb_failure_count (on_failure t b) = cb_failure_count b + 1"
      using Cons.prems(1) by (simp_all add: on_failure_def Let_def)
    with False Cons.IH[of "on_failure t b"] show ?thesis by (cases "ts = []") auto
  qed
qed simp

lemma fold_successes_closed: "cb_state b = CLOSED \<Longrightarrow> cb_state (fold on_success ts b) = CLOSED"
  by (induction ts arbitrary: b) (auto simp: on_success_def Let_def)

lemma fold_successes:
  "cb_state b = HALF_OPEN \<Longrightarrow> ts \<noteq> [] \<Longrightarrow>
   cb_state (fold on_success ts b) =
     (if cb_success_count b + int (length ts) \<ge> bc_success_threshold (cb_config b) then CLOSED else HALF_OPEN)"
proof (induction ts arbitrary: b)
  case (Cons t ts)
  show ?case
  proof (cases "cb_success_count b + 1 \<ge> bc_success_threshold (cb_config b)")
    case True
    then have "cb_state (on_success t b) = CLOSED"
      using Cons.prems(1) by (simp add: on_success_def transition_to_closed_def Let_def)
    with True show ?thesis by (simp add: fold_successes_closed)
  next
    case False
    then have "cb_state (on_success t b) = HALF_OPEN" "cb_config (on_success t b) = cb_config b"
      "cb_success_count (on_success t b) = cb_success_count b + 1"
      using Cons.prems(1) by (simp_all add: on_success_def Let_def)
    with False Cons.IH[of "on_success t b"] show ?thesis by (cases "ts = []") auto
  qed
qed simp

subsection \<open>Properties\<close>

text \<open>C7: In every state of every interleaving of overlapping calls of a new breaker: a closed
  breaker has counted fewer failures than its threshold, a half-open one fewer successes; it
  remembers when it opened exactly when it is not closed; every call is accounted for as
  successful, failed, rejected, running or cancelled; the reported failure rate is in [0, 1].\<close>

theorem breaker_invariant:
  assumes "run_of cb_step (start_run (new_breaker name config)) es s"
  shows "breaker_inv s
     \<and> 0 \<le> br_failure_rate (cb_get_stats (run_breaker s))
     \<and> br_failure_rate (cb_get_stats (run_breaker s)) \<le> 1"
proof -
  have inv: "breaker_inv s" using cbm.run_inv[OF assms] by simp
  then have "0 \<le> bs_failed_calls (cb_stats (run_breaker s))"
    "bs_failed_calls (cb_stats (run_breaker s)) \<le> bs_total_calls (cb_stats (run_breaker s))"
    by (auto simp: breaker_inv_def Let_def)
  with inv show ?thesis by (auto simp: cb_get_stats_def Let_def divide_le_eq)
qed

theorem breaker_invariant_witness:
  "\<exists>s. run_of cb_step (start_run (new_breaker ''db'' None)) [CallArrives 0, CallArrives 1, CallRaises 2] s
     \<and> breaker_inv s"
proof -
  let ?b = "new_breaker ''db'' None"
  let ?b1 = "snd (cb_admit 0 ?b)" and ?b2 = "snd (cb_admit 1 (snd (cb_admit 0 ?b)))"
  have "cb_admit 0 ?b = (True, ?b1)" "cb_admit 1 ?b1 = (True, ?b2)"
    by (simp_all add: cb_defs new_breaker_def Let_def)
  then have "cb_step (start_run ?b) (CallArrives 0) \<lparr>run_breaker = ?b1, run_in_flight = 1, run_cancelled = 0\<rparr>"
    and "cb_step \<lparr>run_breaker = ?b1, run_in_flight = 1, run_cancelled = 0\<rparr> (CallArrives 1)
      \<lparr>run_breaker = ?b2, run_in_flight = 2, run_cancelled = 0\<rparr>"
    using cb_admitted[of 0 "start_run ?b" ?b1]
      cb_admitted[of 1 "\<lparr>run_breaker = ?b1, run_in_flight = 1, run_cancelled = 0\<rparr>" ?b2]
    by (simp_all add: start_run_def numeral_2_eq_2)
  moreover have "cb_step \<lparr>run_breaker = ?b2, run_in_flight = 2, run_cancelled = 0\<rparr> (CallRaises 2)
      \<lparr>run_breaker = on_failure 2 ?b2, run_in_flight = 1, run_cancelled = 0\<rparr>"
    using cb_raised[of "\<lparr>run_breaker = ?b2, run_in_flight = 2, run_cancelled = 0\<rparr>" 1 2] by simp
  ultimately have run: "run_of cb_step (start_run ?b) [CallArrives 0, CallArrives 1, CallRaises 2]
      \<lparr>run_breaker = on_failure 2 ?b2, run_in_flight = 1, run_cancelled = 0\<rparr>"
    by (meson run_ConsI run_nil)
  from breaker_invariant[OF run] run show ?thesis by blast
qed

text \<open>While a breaker is open and its timeout has not elapsed, and nobody resets it by hand,
  every arriving call is rejected without running the function, whatever unfinished calls
  return in between, and the breaker stays open with the same opening time.\<close>

theorem open_rejects_until_timeout:
  assumes "run_of cb_step s es s'"
    and "cb_state (run_breaker s) = OPEN" and "cb_opened_at (run_breaker s) = Some t"
    and "list_all (\<lambda>e. case e of
           CallArrives now \<Rightarrow> now < t + usec (bc_timeout_seconds (cb_config (run_breaker s)))
         | ManualReset \<Rightarrow> False | _ \<Rightarrow> True) es"
  shows "cb_state (run_breaker s') = OPEN \<and> cb_opened_at (run_breaker s') = Some t
     \<and> cb_config (run_breaker s') = cb_config (run_breaker s)
     \<and> run_in_flight s' \<le> run_in_flight s
     \<and> bs_rejected_calls (cb_stats (run_breaker s')) = bs_rejected_calls (cb_stats (run_breaker s))
         + int (length (filter (\<lambda>e. case e of CallArrives _ \<Rightarrow> True | _ \<Rightarrow> False) es))"
  using assms
proof (induction rule: run_of.induct)
  case (run_nil s)
  then show ?case by simp
next
  case (run_snoc s es s1 e s2)
  then have ih: "cb_state (run_breaker s1) = OPEN" "cb_opened_at (run_breaker s1) = Some t"
    "cb_config (run_breaker s1) = cb_config (run_breaker s)" "run_in_flight s1 \<le> run_in_flight s"
    "bs_rejected_calls (cb_stats (run_breaker s1)) = bs_rejected_calls (cb_stats (run_breaker s))
         + int (length (filter (\<lambda>e. case e of CallArrives _ \<Rightarrow> True | _ \<Rightarrow> False) es))"
    by auto
  from run_snoc.hyps(2) show ?case
  proof (cases rule: cb_step.cases)
    case (cb_admitted now b)
    with ih run_snoc.prems(3) show ?thesis
      by (auto simp: cb_admit_def cb_count_total_def should_attempt_reset_def Let_def split: if_splits)
  next
    case (cb_rejected now b)
    with ih show ?thesis
      by (auto simp: cb_admit_def cb_count_total_def cb_count_rejected_def Let_def split: if_splits)
  next
    case (cb_succeeded n now)
    with ih show ?thesis by (auto simp: on_success_def Let_def)
  next
    case (cb_raised n now)
    with ih show ?thesis by (auto simp: on_failure_def Let_def)
  next
    case (cb_cancelled n)
    with ih show ?thesis by auto
  next
    case cb_was_reset
    with run_snoc.prems(3) show ?thesis by simp
  qed
qed

text \<open>An open breaker for the witnesses.\<close>

definition tripped_breaker :: breaker where
  "tripped_breaker = fold on_failure [10, 11, 12, 13, 14] (new_breaker ''db'' None)"

lemma tripped_breaker_simps:
  "cb_state tripped_breaker = OPEN" "cb_opened_at tripped_breaker = Some 14"
  "cb_config tripped_breaker = default_breaker_config"
  by (simp_all add: tripped_breaker_def new_breaker_def default_breaker_config_def on_failure_def
      transition_to_open_def Let_def)

theorem open_rejects_until_timeout_witness:
  "\<exists>s'. run_of cb_step (start_run tripped_breaker) [CallArrives 20] s'
     \<and> bs_rejected_calls (cb_stats (run_breaker s'))
         = bs_rejected_calls (cb_stats tripped_breaker) + 1"
proof -
  let ?b = "snd (cb_admit 20 tripped_breaker)"
  have "cb_admit 20 tripped_breaker = (False, ?b)"
    by (simp add: cb_admit_def cb_count_total_def should_attempt_reset_def tripped_breaker_simps
        default_breaker_config_def usec_def Let_def)
  then have "cb_step (start_run tripped_breaker) (CallArrives 20) ((start_run tripped_breaker)\<lparr>run_breaker := ?b\<rparr>)"
    using cb_rejected[of 20 "start_run tripped_breaker" ?b] by (simp add: start_run_def)
  then have run: "run_of cb_step (start_run tripped_breaker) [CallArrives 20]
      ((start_run tripped_breaker)\<lparr>run_breaker := ?b\<rparr>)"
    by simp
  show ?thesis
    using open_rejects_until_timeout[OF run, of 14] run
    by (simp add: start_run_def tripped_breaker_simps default_breaker_config_def usec_def)
      (metis breaker_run.select_convs(1))
qed

text \<open>A closed breaker trips exactly when the failures in a row reach the threshold: after
  any non-empty series of failing calls it is open if the count reached it, else still closed;
  one success in between starts the count anew.\<close>

theorem closed_trips_at_threshold:
  assumes "cb_state b = CLOSED" and "ts \<noteq> []"
  shows "cb_state (fold on_failure ts b) =
      (if cb_failure_count b + int (length ts) \<ge> bc_failure_threshold (cb_config b) then OPEN else CLOSED)
     \<and> cb_state (on_success t b) = CLOSED \<and> cb_failure_count (on_success t b) = 0"
  using fold_failures[OF assms] assms(1) by (simp add: on_success_def Let_def)

theorem closed_trips_at_threshold_witness:
  "cb_state (fold on_failure [1, 2, 3, 4, 5] (new_breaker ''db'' None)) = OPEN
   \<and> cb_state (fold on_failure [1, 2, 3, 4] (new_breaker ''db'' None)) = CLOSED"
proof -
  have "cb_state (new_breaker ''db'' None) = CLOSED" by (simp add: new_breaker_def)
  note trips = closed_trips_at_threshold[OF this]
  show ?thesis
    using trips[of "[1, 2, 3, 4, 5]"] trips[of "[1, 2, 3, 4]"]
    by (simp add: new_breaker_def default_breaker_config_def del: fold_simps)
qed

text \<open>Recovery. Once the timeout has elapsed the next call of an open breaker is admitted and
  makes it half-open; from there a series of successes closes it exactly when it is as long as
  the success threshold, and a failure opens it again with a fresh timeout.\<close>

theorem half_open_recovery:
  assumes "cb_state b = OPEN" and "cb_opened_at b = Some t"
    and "t + usec (bc_timeout_seconds (cb_config b)) \<le> now"
  shows "\<exists>b'. cb_admit now b = (True, b') \<and> cb_state b' = HALF_OPEN
     \<and> (\<forall>u us. cb_state (fold on_success (u # us) b') =
          (if int (Suc (length us)) \<ge> bc_success_threshold (cb_config b) then CLOSED else HALF_OPEN))
     \<and> (\<forall>u. cb_state (on_failure u b') = OPEN \<and> cb_opened_at (on_failure u b') = Some u)"
proof -
  let ?b' = "transition_to_half_open (cb_count_total b)"
  have b': "cb_state ?b' = HALF_OPEN" "cb_success_count ?b' = 0" "cb_config ?b' = cb_config b"
    by (simp_all add: transition_to_half_open_def cb_count_total_def)
  have "cb_admit now b = (True, ?b')"
    using assms by (simp add: cb_admit_def should_attempt_reset_def cb_count_total_def Let_def)
  moreover have "\<forall>u us. cb_state (fold on_success (u # us) ?b') =
          (if int (Suc (length us)) \<ge> bc_success_threshold (cb_config b) then CLOSED else HALF_OPEN)"
  proof (intro allI)
    fix u us
    show "cb_state (fold on_success (u # us) ?b') =
        (if int (Suc (length us)) \<ge> bc_success_threshold (cb_config b) then CLOSED else HALF_OPEN)"
      using fold_successes[OF b'(1), of "u # us"] b'(2,3) by (simp del: fold.simps fold_simps)
  qed
  moreover have "\<forall>u. cb_state (on_failure u ?b') = OPEN \<and> cb_opened_at (on_failure u ?b') = Some u"
    using b'(1) by (simp add: on_failure_def transition_to_open_def Let_def)
  ultimately show ?thesis using b'(1) by blast
qed

theorem half_open_recovery_witness:
  "\<exists>b'. cb_admit (14 + usec 60) tripped_breaker = (True, b')
     \<and> cb_state (fold on_success [1, 2] b') = CLOSED"
proof -
  have "14 + usec (bc_timeout_seconds (cb_config tripped_breaker)) \<le> 14 + usec 60"
    by (simp add: tripped_breaker_simps default_breaker_config_def)
  from half_open_recovery[OF tripped_breaker_simps(1,2) this] obtain b'
    where "cb_admit (14 + usec 60) tripped_breaker = (True, b')"
      and "\<forall>u us. cb_state (fold on_success (u # us) b') =
        (if int (Suc (length us)) \<ge> bc_success_threshold (cb_config tripped_breaker) then CLOSED else HALF_OPEN)"
    by blast
  moreover from this(2)[rule_format, of 1 "[2]"] have "cb_state (fold on_success [1, 2] b') = CLOSED"
    by (simp add: tripped_breaker_simps(3) default_breaker_config_def del: fold.simps fold_simps)
  ultimately show ?thesis by blast
qed

end
