(* ===== verification/Rate_Limiter.thy ===== *)
theory Rate_Limiter
  imports LinX_Prelude
begin

section \<open>Sliding-window rate limiting (\<open>production/rate_limiter.py\<close>)\<close>

text \<open>
  \<open>RateLimiter\<close> keeps three \<open>deque(maxlen=limit)\<close>s of the times of allowed requests, for the
  last second, minute and hour. \<open>time.time()\<close> is a real argument; \<open>check_rate_limit\<close> has no
  suspension point, so each call is atomic. A \<open>deque\<close> is a list, oldest entry first; appending
  to a full one drops the oldest, and a negative \<open>maxlen\<close> raises \<open>ValueError\<close>.
\<close>

record rate_config =
  rc_requests_per_second :: int
  rc_requests_per_minute :: int
  rc_requests_per_hour :: int
  rc_burst_size :: int

definition default_rate_config :: rate_config where
  "default_rate_config =
     \<lparr>rc_requests_per_second = 10, rc_requests_per_minute = 100, rc_requests_per_hour = 1000,
      rc_burst_size = 20\<rparr>"

record rate_result =
  rr_allowed :: bool
  rr_limit :: int
  rr_remaining :: int
  rr_reset_at :: real
  rr_retry_after_seconds :: "int option"

record rate_limiter =
  rl_identifier :: string
  rl_config :: rate_config
  rl_second_bucket :: "real list"
  rl_minute_bucket :: "real list"
  rl_hour_bucket :: "real list"

definition new_rate_limiter :: "string \<Rightarrow> rate_config \<Rightarrow> py_error + rate_limiter" where
  "new_rate_limiter identifier c =
     (if rc_requests_per_second c < 0 \<or> rc_requests_per_minute c < 0 \<or> rc_requests_per_hour c < 0
      then Inl (ValueError ''maxlen must be non-negative'')
      else Inr \<lparr>rl_identifier = identifier, rl_config = c, rl_second_bucket = [],
                rl_minute_bucket = [], rl_hour_bucket = []\<rparr>)"

definition deque_append :: "int \<Rightarrow> 'a \<Rightarrow> 'a list \<Rightarrow> 'a list" where
  "deque_append maxlen x xs = (let ys = xs @ [x] in drop (length ys - nat maxlen) ys)"

definition clean_bucket :: "real \<Rightarrow> real \<Rightarrow> real list \<Rightarrow> real list" where
  "clean_bucket now window bucket = dropWhile (\<lambda>ts. ts < now - window) bucket"

definition clean_buckets :: "real \<Rightarrow> rate_limiter \<Rightarrow> rate_limiter" where
  "clean_buckets now l =
     l\<lparr>rl_second_bucket := clean_bucket now 1 (rl_second_bucket l),
       rl_minute_bucket := clean_bucket now 60 (rl_minute_bucket l),
       rl_hour_bucket := clean_bucket now 3600 (rl_hour_bucket l)\<rparr>"

definition check_window :: "real list \<Rightarrow> int \<Rightarrow> real \<Rightarrow> real \<Rightarrow> bool \<times> int \<times> int \<times> real" where
  "check_window bucket limit now window =
     (let window_start = now - window;
          requests_in_window = int (length (filter (\<lambda>ts. ts > window_start) bucket));
          allowed = requests_in_window < limit;
          remaining = max 0 (limit - requests_in_window - (if allowed then 0 else 1))
      in (allowed, limit, remaining, now + window))"

text \<open>Python's \<open>int\<close> of a float truncates towards zero.\<close>

definition py_trunc :: "real \<Rightarrow> int" where
  "py_trunc x = (if x \<ge> 0 then \<lfloor>x\<rfloor> else \<lceil>x\<rceil>)"

definition check_rate_limit :: "real \<Rightarrow> rate_limiter \<Rightarrow> rate_result \<times> rate_limiter" where
  "check_rate_limit now l0 =
     (let l = clean_buckets now l0;
          c = rl_config l;
          second_check = check_window (rl_second_bucket l) (rc_requests_per_second c) now 1;
          minute_check = check_window (rl_minute_bucket l) (rc_requests_per_minute c) now 60;
          hour_check = check_window (rl_hour_bucket l) (rc_requests_per_hour c) now 3600;
          allowed = fst second_check \<and> fst minute_check \<and> fst hour_check;
          l' = (if allowed
                then l\<lparr>rl_second_bucket := deque_append (rc_requests_per_second c) now (rl_second_bucket l),
                       rl_minute_bucket := deque_append (rc_requests_per_minute c) now (rl_minute_bucket l),
                       rl_hour_bucket := deque_append (rc_requests_per_hour c) now (rl_hour_bucket l)\<rparr>
                else l);
          chosen = (if \<not> fst second_check then second_check
                    else if \<not> fst minute_check then minute_check
                    else if \<not> fst hour_check then hour_check
                    else minute_check);
          reset_at = snd (snd (snd chosen));
          retry_after = (if \<not> fst second_check then Some 1
                         else if \<not> fst minute_check \<or> \<not> fst hour_check then Some (py_trunc (reset_at - now))
                         else None)
      in (\<lparr>rr_allowed = allowed, rr_limit = fst (snd chosen), rr_remaining = fst (snd (snd chosen)),
           rr_reset_at = reset_at, rr_retry_after_seconds = retry_after\<rparr>, l'))"

definition rl_reset :: "rate_limiter \<Rightarrow> rate_limiter" where
  "rl_reset l = l\<lparr>rl_second_bucket := [], rl_minute_bucket := [], rl_hour_bucket := []\<rparr>"

subsection \<open>The manager\<close>

record rate_manager =
  rm_default_config :: rate_config
  rm_limiters :: "(string, rate_limiter) dict"

definition get_limiter ::
    "string \<Rightarrow> rate_config option \<Rightarrow> rate_manager \<Rightarrow> py_error + rate_limiter \<times> rate_manager" where
  "get_limiter identifier config m =
     (case dict_get (rm_limiters m) identifier of
        Some l \<Rightarrow> Inr (l, m)
      | None \<Rightarrow>
          (case new_rate_limiter identifier (case config of None \<Rightarrow> rm_default_config m | Some c \<Rightarrow> c) of
             Inl e \<Rightarrow> Inl e
           | Inr l \<Rightarrow> Inr (l, m\<lparr>rm_limiters := dict_set identifier l (rm_limiters m)\<rparr>)))"

definition manager_check_rate_limit ::
    "real \<Rightarrow> string \<Rightarrow> rate_config option \<Rightarrow> rate_manager \<Rightarrow> py_error + rate_result \<times> rate_manager" where
  "manager_check_rate_limit now identifier config m =
     (case get_limiter identifier config m of
        Inl e \<Rightarrow> Inl e
      | Inr (l, m') \<Rightarrow>
          (case check_rate_limit now l of
             (r, l') \<Rightarrow> Inr (r, m'\<lparr>rm_limiters := dict_set identifier l' (rm_limiters m')\<rparr>)))"

definition reset_limiter :: "string \<Rightarrow> rate_manager \<Rightarrow> rate_manager" where
  "reset_limiter identifier m =
     (case dict_get (rm_limiters m) identifier of
        None \<Rightarrow> m
      | Some l \<Rightarrow> m\<lparr>rm_limiters := dict_set identifier (rl_reset l) (rm_limiters m)\<rparr>)"

definition reset_all_limiters :: "rate_manager \<Rightarrow> rate_manager" where
  "reset_all_limiters m = m\<lparr>rm_limiters := map (\<lambda>(i, l). (i, rl_reset l)) (rm_limiters m)\<rparr>"

definition limiter_inactive :: "real \<Rightarrow> int \<Rightarrow> rate_limiter \<Rightarrow> bool" where
  "limiter_inactive now inactive_seconds l =
     (if rl_hour_bucket l \<noteq> [] then now - last (rl_hour_bucket l) > of_int inactive_seconds else True)"

definition cleanup_inactive :: "real \<Rightarrow> int \<Rightarrow> rate_manager \<Rightarrow> rate_manager" where
  "cleanup_inactive now inactive_seconds m =
     (let to_remove = map fst (filter (\<lambda>(i, l). limiter_inactive now inactive_seconds l) (rm_limiters m))
      in m\<lparr>rm_limiters := dict_del_all to_remove (rm_limiters m)\<rparr>)"

subsection \<open>The reference: decide on the whole history\<close>

text \<open>
  What the limiter should do, stated without buckets: a request is allowed when in each window
  that ends now the number of requests allowed so far is below the limit.
\<close>

definition window_ok :: "int \<Rightarrow> real \<Rightarrow> real list \<Rightarrow> real \<Rightarrow> bool" where
  "window_ok limit window hist now \<longleftrightarrow> int (length (filter (\<lambda>t. now - window < t) hist)) < limit"

definition reference_allows :: "rate_config \<Rightarrow> real list \<Rightarrow> real \<Rightarrow> bool" where
  "reference_allows c hist now \<longleftrightarrow>
     window_ok (rc_requests_per_second c) 1 hist now \<and> window_ok (rc_requests_per_minute c) 60 hist now
     \<and> window_ok (rc_requests_per_hour c) 3600 hist now"

fun reference_run :: "rate_config \<Rightarrow> real list \<Rightarrow> real list \<Rightarrow> real list" where
  "reference_run c hist [] = []"
| "reference_run c hist (t # ts) =
     (if reference_allows c hist t then t # reference_run c (hist @ [t]) ts else reference_run c hist ts)"

text \<open>The times a limiter allows, given the times of the requests.\<close>

fun allowed_times :: "rate_limiter \<Rightarrow> real list \<Rightarrow> real list" where
  "allowed_times l [] = []"
| "allowed_times l (t # ts) =
     (case check_rate_limit t l of
        (r, l') \<Rightarrow> if rr_allowed r then t # allowed_times l' ts else allowed_times l' ts)"

text \<open>A bucket holds the end of the history; what it lacks is outside the window for good.\<close>

definition bucket_inv :: "real \<Rightarrow> int \<Rightarrow> real \<Rightarrow> real list \<Rightarrow> real list \<Rightarrow> bool" where
  "bucket_inv window limit now hist bucket \<longleftrightarrow>
     (\<exists>old. hist = old @ bucket \<and> (\<forall>t \<in> set old. t \<le> now - window)) \<and> int (length bucket) \<le> limit"

lemma bucket_inv_count:
  "bucket_inv w k now hist b \<Longrightarrow> filter (\<lambda>t. now - w < t) b = filter (\<lambda>t. now - w < t) hist"
  by (fastforce simp: bucket_inv_def filter_empty_conv)

lemma bucket_inv_later:
  "bucket_inv w k now hist b \<Longrightarrow> now \<le> now' \<Longrightarrow> bucket_inv w k now' hist b"
  unfolding bucket_inv_def by fastforce

lemma bucket_inv_clean:
  assumes "bucket_inv w k now hist b"
  shows "bucket_inv w k now hist (clean_bucket now w b)"
proof -
  from assms obtain old where old: "hist = old @ b" "\<forall>t \<in> set old. t \<le> now - w" "int (length b) \<le> k"
    by (auto simp: bucket_inv_def)
  let ?p = "\<lambda>ts. ts < now - w"
  have "hist = (old @ takeWhile ?p b) @ clean_bucket now w b"
    using old(1) by (simp add: clean_bucket_def)
  moreover have "\<forall>t \<in> set (old @ takeWhile ?p b). t \<le> now - w"
    using old(2) by (auto dest: set_takeWhileD)
  moreover have "int (length (clean_bucket now w b)) \<le> k"
    using old(3) length_dropWhile_le[of ?p b] unfolding clean_bucket_def by linarith
  ultimately show ?thesis unfolding bucket_inv_def by blast
qed

lemma bucket_inv_append:
  assumes "bucket_inv w k now hist b" and "sorted hist" and "window_ok k w hist now"
  shows "bucket_inv w k now (hist @ [now]) (deque_append k now b)"
proof -
  from assms(1) obtain old where old: "hist = old @ b" "\<forall>t \<in> set old. t \<le> now - w" "int (length b) \<le> k"
    by (auto simp: bucket_inv_def)
  show ?thesis
  proof (cases "int (length b) < k")
    case True
    then have "deque_append k now b = b @ [now]"
      by (simp add: deque_append_def Let_def)
    with True old show ?thesis by (auto simp: bucket_inv_def)
  next
    case False
    with old(3) have len: "int (length b) = k" by simp
    have lt: "length (filter (\<lambda>t. now - w < t) b) < length b"
      using assms(3) bucket_inv_count[OF assms(1)] len by (simp add: window_ok_def)
    then obtain x b' where b: "b = x # b'" by (cases b) auto
    have "x \<le> now - w"
    proof (rule ccontr)
      assume "\<not> x \<le> now - w"
      moreover have "sorted b" using assms(2) old(1) by (simp add: sorted_append)
      ultimately have "filter (\<lambda>t. now - w < t) b = b" using b by (auto intro!: filter_True)
      with lt show False by simp
    qed
    moreover have "deque_append k now b = b' @ [now]"
    proof -
      have "length (b @ [now]) - nat k = 1" using len b by simp
      then show ?thesis unfolding deque_append_def Let_def using b by simp
    qed
    ultimately show ?thesis
      using old len b unfolding bucket_inv_def
      by (intro conjI exI[of _ "old @ [x]"]) auto
  qed
qed

definition limiter_inv :: "real \<Rightarrow> real list \<Rightarrow> rate_limiter \<Rightarrow> bool" where
  "limiter_inv now hist l \<longleftrightarrow> sorted hist \<and> (\<forall>t \<in> set hist. t \<le> now)
     \<and> bucket_inv 1 (rc_requests_per_second (rl_config l)) now hist (rl_second_bucket l)
     \<and> bucket_inv 60 (rc_requests_per_minute (rl_config l)) now hist (rl_minute_bucket l)
     \<and> bucket_inv 3600 (rc_requests_per_hour (rl_config l)) now hist (rl_hour_bucket l)"

lemma limiter_inv_new:
  "new_rate_limiter i c = Inr l \<Longrightarrow> limiter_inv now [] l \<and> rl_config l = c"
  by (auto simp: new_rate_limiter_def limiter_inv_def bucket_inv_def split: if_splits)

lemma limiter_inv_later: "limiter_inv now hist l \<Longrightarrow> now \<le> now' \<Longrightarrow> limiter_inv now' hist l"
  by (force simp: limiter_inv_def intro: bucket_inv_later)

lemma check_window_allowed:
  "bucket_inv w k now hist b \<Longrightarrow> fst (check_window b k now w) = window_ok k w hist now"
  by (simp add: check_window_def window_ok_def Let_def bucket_inv_count)

lemma limiter_inv_clean: "limiter_inv now hist l \<Longrightarrow> limiter_inv now hist (clean_buckets now l)"
  by (simp add: limiter_inv_def clean_buckets_def bucket_inv_clean)

lemma check_rate_limit_refines:
  assumes "limiter_inv now hist l" and "check_rate_limit now l = (r, l')"
  shows "rr_allowed r = reference_allows (rl_config l) hist now \<and> rl_config l' = rl_config l
     \<and> limiter_inv now (if rr_allowed r then hist @ [now] else hist) l'"
proof -
  let ?l = "clean_buckets now l"
  have inv: "limiter_inv now hist ?l" using limiter_inv_clean[OF assms(1)] .
  have cfg: "rl_config ?l = rl_config l" by (simp add: clean_buckets_def)
  have r: "rr_allowed r = reference_allows (rl_config l) hist now"
    using assms(2) inv cfg
    by (auto simp: check_rate_limit_def Let_def reference_allows_def limiter_inv_def check_window_allowed)
  show ?thesis
  proof (cases "rr_allowed r")
    case True
    then have "window_ok (rc_requests_per_second (rl_config l)) 1 hist now"
      "window_ok (rc_requests_per_minute (rl_config l)) 60 hist now"
      "window_ok (rc_requests_per_hour (rl_config l)) 3600 hist now"
      using r by (simp_all add: reference_allows_def)
    with True r assms(2) inv cfg show ?thesis
      by (auto simp: check_rate_limit_def Let_def limiter_inv_def sorted_append bucket_inv_append)
  next
    case False
    with r assms(2) inv cfg show ?thesis
      by (auto simp: check_rate_limit_def Let_def)
  qed
qed

lemma allowed_times_reference:
  "limiter_inv now hist l \<Longrightarrow> sorted (now # ts) \<Longrightarrow>
   allowed_times l ts = reference_run (rl_config l) hist ts"
proof (induction ts arbitrary: now hist l)
  case (Cons t ts)
  then have inv: "limiter_inv t hist l" using limiter_inv_later by auto
  obtain r l' where e: "check_rate_limit t l = (r, l')" by fastforce
  note step = check_rate_limit_refines[OF inv e]
  with Cons.IH[of t "if rr_allowed r then hist @ [t] else hist" l'] Cons.prems(2) e
  show ?case by auto
qed simp

subsection \<open>The bound of the reference\<close>

definition window_count :: "real \<Rightarrow> real \<Rightarrow> real list \<Rightarrow> int" where
  "window_count window a ts = int (length (filter (\<lambda>t. a < t \<and> t \<le> a + window) ts))"

lemma window_count_snoc:
  assumes "\<forall>a. window_count w a hist \<le> k" and "window_ok k w hist now" and "\<forall>t \<in> set hist. t \<le> now"
  shows "window_count w a (hist @ [now]) \<le> k"
proof (cases "a < now \<and> now \<le> a + w")
  case True
  have "length (filter (\<lambda>t. a < t \<and> t \<le> a + w) hist) \<le> length (filter (\<lambda>t. now - w < t) hist)"
  proof -
    have "filter (\<lambda>t. a < t \<and> t \<le> a + w) hist = filter (\<lambda>t. a < t \<and> t \<le> a + w) (filter (\<lambda>t. now - w < t) hist)"
      using True by (auto simp: filter_filter intro!: filter_cong)
    then show ?thesis by (metis length_filter_le)
  qed
  with assms(2) True show ?thesis by (simp add: window_count_def window_ok_def)
next
  case False
  with assms(1) show ?thesis by (auto simp: window_count_def)
qed

lemma reference_run_bound:
  assumes "\<And>t hist. reference_allows c hist t \<Longrightarrow> window_ok k w hist t"
  shows "\<forall>a. window_count w a hist \<le> k \<Longrightarrow> sorted (hist @ ts) \<Longrightarrow>
    window_count w a (hist @ reference_run c hist ts) \<le> k"
proof (induction ts arbitrary: hist)
  case (Cons t ts)
  show ?case
  proof (cases "reference_allows c hist t")
    case True
    have "\<forall>x \<in> set hist. x \<le> t" using Cons.prems(2) by (auto simp: sorted_append)
    then have "\<forall>a. window_count w a (hist @ [t]) \<le> k"
      using window_count_snoc[OF Cons.prems(1) assms[OF True]] by blast
    from Cons.IH[OF this] Cons.prems(2) True show ?thesis by simp
  next
    case False
    with Cons show ?thesis by (auto simp: sorted_append)
  qed
qed simp

lemma window_count_Nil [simp]: "window_count w a [] = 0"
  by (simp add: window_count_def)

lemma new_limiter_allowed:
  assumes "new_rate_limiter i c = Inr l" and "sorted ts"
  shows "allowed_times l ts = reference_run c [] ts"
proof (cases ts)
  case Nil
  then show ?thesis by simp
next
  case (Cons t us)
  with assms(2) have "sorted (t # ts)" by auto
  then show ?thesis
    using allowed_times_reference[of t "[]" l ts] limiter_inv_new[OF assms(1)] by auto
qed

text \<open>Old history does not matter to later requests.\<close>

lemma reference_run_old:
  assumes "\<forall>t \<in> set old. t \<le> now - 3600" and "sorted (now # ts)"
  shows "reference_run c (old @ hist) ts = reference_run c hist ts"
  using assms(2)
proof (induction ts arbitrary: hist)
  case (Cons t ts)
  then have "now \<le> t" by simp
  then have "filter (\<lambda>x. t - w < x) old = []" if "w \<le> 3600" for w
    using assms(1) that by (fastforce simp: filter_empty_conv)
  then have "reference_allows c (old @ hist) t = reference_allows c hist t"
    by (simp add: reference_allows_def window_ok_def)
  with Cons.IH[of hist] Cons.IH[of "hist @ [t]"] Cons.prems show ?case by auto
qed simp

definition after_requests :: "real list \<Rightarrow> rate_limiter \<Rightarrow> rate_limiter" where
  "after_requests ts l = fold (\<lambda>t l. snd (check_rate_limit t l)) ts l"

lemma after_requests_inv:
  assumes "new_rate_limiter i c = Inr l" and "sorted ts" and "\<forall>t \<in> set ts. t \<le> now"
  shows "\<exists>hist. limiter_inv now hist (after_requests ts l) \<and> rl_config (after_requests ts l) = c"
  using assms(2,3)
proof (induction ts arbitrary: now rule: rev_induct)
  case Nil
  then show ?case using limiter_inv_new[OF assms(1)] by (auto simp: after_requests_def)
next
  case (snoc t ts)
  then have "sorted ts" "\<forall>x \<in> set ts. x \<le> t" by (auto simp: sorted_append)
  with snoc.IH obtain hist where h: "limiter_inv t hist (after_requests ts l)"
    "rl_config (after_requests ts l) = c" by blast
  obtain r l' where e: "check_rate_limit t (after_requests ts l) = (r, l')" by fastforce
  from check_rate_limit_refines[OF h(1) e] h(2)
  obtain hist' where "limiter_inv t hist' l'" "rl_config l' = c" by blast
  moreover have "after_requests (ts @ [t]) l = l'" using e by (simp add: after_requests_def)
  moreover have "t \<le> now" using snoc.prems(2) by simp
  ultimately show ?case using limiter_inv_later by metis
qed

lemma sorted_le_last: "sorted xs \<Longrightarrow> x \<in> set xs \<Longrightarrow> x \<le> last xs"
  by (cases xs rule: rev_cases) (auto simp: sorted_append)

subsection \<open>Properties\<close>

text \<open>C3: Refinement: on requests with non-decreasing times a new limiter, with its three bounded
  and pruned buckets, allows exactly the requests that the reference allows by counting the
  whole history.\<close>

theorem rate_limit_reference:
  assumes "new_rate_limiter identifier c = Inr l" and "sorted ts"
  shows "allowed_times l ts = reference_run c [] ts"
  using assms by (rule new_limiter_allowed)

theorem rate_limit_reference_witness:
  "\<exists>l. new_rate_limiter ''u'' default_rate_config = Inr l
     \<and> allowed_times l [0, 1 / 2, 2] = reference_run default_rate_config [] [0, 1 / 2, 2]"
proof -
  obtain l where l: "new_rate_limiter ''u'' default_rate_config = Inr l"
    by (simp add: new_rate_limiter_def default_rate_config_def)
  have "sorted [0 :: real, 1 / 2, 2]" by simp
  from rate_limit_reference[OF l this] l show ?thesis by blast
qed

text \<open>C35: The limits hold for every window, not only those that end at a request: no interval of
  one second, one minute or one hour contains more allowed requests than its limit.\<close>

theorem rate_limit_window_bound:
  assumes "new_rate_limiter identifier c = Inr l" and "sorted ts"
  shows "window_count 1 a (allowed_times l ts) \<le> rc_requests_per_second c
     \<and> window_count 60 a (allowed_times l ts) \<le> rc_requests_per_minute c
     \<and> window_count 3600 a (allowed_times l ts) \<le> rc_requests_per_hour c"
proof -
  have "0 \<le> rc_requests_per_second c" "0 \<le> rc_requests_per_minute c" "0 \<le> rc_requests_per_hour c"
    using assms(1) by (auto simp: new_rate_limiter_def split: if_splits)
  then show ?thesis
    using reference_run_bound[of c "rc_requests_per_second c" 1 "[]" ts a]
      reference_run_bound[of c "rc_requests_per_minute c" 60 "[]" ts a]
      reference_run_bound[of c "rc_requests_per_hour c" 3600 "[]" ts a] assms(2)
    by (simp add: new_limiter_allowed[OF assms] reference_allows_def)
qed

theorem rate_limit_window_bound_witness:
  "\<exists>l. new_rate_limiter ''u'' default_rate_config = Inr l
     \<and> window_count 1 0 (allowed_times l [0, 1 / 2, 2]) \<le> 10"
proof -
  obtain l where l: "new_rate_limiter ''u'' default_rate_config = Inr l"
    by (simp add: new_rate_limiter_def default_rate_config_def)
  have "sorted [0 :: real, 1 / 2, 2]" by simp
  from rate_limit_window_bound[OF l this, of 0] l show ?thesis by (auto simp: default_rate_config_def)
qed

text \<open>The manager keeps identifiers apart: a check of one identifier decides with its own
  limiter and leaves every other limiter as it was.\<close>

theorem manager_check_isolated:
  assumes "manager_check_rate_limit now i config m = Inr (r, m')"
  shows "\<exists>l. get_limiter i config m = Inr (l, m\<lparr>rm_limiters := (case dict_get (rm_limiters m) i of
             None \<Rightarrow> dict_set i l (rm_limiters m) | Some _ \<Rightarrow> rm_limiters m)\<rparr>)
     \<and> r = fst (check_rate_limit now l)
     \<and> dict_get (rm_limiters m') i = Some (snd (check_rate_limit now l))
     \<and> (\<forall>j. j \<noteq> i \<longrightarrow> dict_get (rm_limiters m') j = dict_get (rm_limiters m) j)"
  using assms
  by (auto simp: manager_check_rate_limit_def get_limiter_def
      split: sum.splits prod.splits option.splits)

theorem manager_check_isolated_witness:
  "\<exists>r m'. manager_check_rate_limit 5 ''a'' None
        \<lparr>rm_default_config = default_rate_config, rm_limiters = []\<rparr> = Inr (r, m')
     \<and> dict_get (rm_limiters m') ''b'' = None"
proof -
  let ?m = "\<lparr>rm_default_config = default_rate_config, rm_limiters = []\<rparr>"
  obtain l where "new_rate_limiter ''a'' default_rate_config = Inr l"
    by (simp add: new_rate_limiter_def default_rate_config_def)
  then obtain r m' where c: "manager_check_rate_limit 5 ''a'' None ?m = Inr (r, m')"
    by (cases "check_rate_limit 5 l") (simp add: manager_check_rate_limit_def get_limiter_def)
  from manager_check_isolated[OF c] c show ?thesis by auto
qed

text \<open>Dropping inactive limiters is invisible when the inactivity bound is an hour or more: a
  limiter that \<open>cleanup_inactive\<close> would remove decides every later request like a new one.\<close>

theorem cleanup_unobservable:
  assumes "new_rate_limiter i c = Inr l" and "sorted (before @ now # ts)"
    and "limiter_inactive now inactive_seconds (after_requests before l)"
    and "3600 \<le> inactive_seconds"
  shows "allowed_times (after_requests before l) ts = allowed_times l ts"
proof -
  let ?l = "after_requests before l"
  have sorted: "sorted before" "\<forall>t \<in> set before. t \<le> now" "sorted (now # ts)"
    using assms(2) by (auto simp: sorted_append)
  obtain hist where inv: "limiter_inv now hist ?l" and cfg: "rl_config ?l = c"
    using after_requests_inv[OF assms(1) sorted(1,2)] by blast
  have "\<forall>t \<in> set hist. t \<le> now - 3600"
  proof (cases "rl_hour_bucket ?l = []")
    case True
    with inv show ?thesis by (auto simp: limiter_inv_def bucket_inv_def)
  next
    case False
    then have recent: "last (rl_hour_bucket ?l) < now - 3600"
      using assms(3,4) by (simp add: limiter_inactive_def)
    obtain old where old: "hist = old @ rl_hour_bucket ?l" "\<forall>t \<in> set old. t \<le> now - 3600"
      using inv by (auto simp: limiter_inv_def bucket_inv_def)
    have "sorted (rl_hour_bucket ?l)" using inv old(1) by (simp add: limiter_inv_def sorted_append)
    then have "\<forall>t \<in> set (rl_hour_bucket ?l). t < now - 3600"
      using recent sorted_le_last by force
    with old show ?thesis by auto
  qed
  from reference_run_old[OF this sorted(3), of c "[]"]
  show ?thesis
    using allowed_times_reference[OF inv sorted(3)] cfg new_limiter_allowed[OF assms(1)] sorted(3)
    by simp
qed

theorem cleanup_unobservable_witness:
  "\<exists>l. new_rate_limiter ''u'' default_rate_config = Inr l
     \<and> limiter_inactive 5000 3600 (after_requests [1] l)
     \<and> allowed_times (after_requests [1] l) [5000] = allowed_times l [5000]"
proof -
  obtain l where l: "new_rate_limiter ''u'' default_rate_config = Inr l"
    by (simp add: new_rate_limiter_def default_rate_config_def)
  then have "rl_hour_bucket (after_requests [1] l) = [1]"
    by (auto simp: new_rate_limiter_def default_rate_config_def after_requests_def check_rate_limit_def
        clean_buckets_def clean_bucket_def check_window_def deque_append_def Let_def)
  then have i: "limiter_inactive 5000 3600 (after_requests [1] l)" by (simp add: limiter_inactive_def)
  have "sorted ([1 :: real] @ 5000 # [5000])" by simp
  from cleanup_unobservable[OF l this i] l i show ?thesis by auto
qed

end
