(* ===== verification/Py_Compare.thy ===== *)
theory Py_Compare
  imports Py_Values "HOL-Library.Char_ord" "HOL-Library.List_Lexorder"
begin

section \<open>Comparing Python values\<close>

text \<open>
  The operators \<open>==\<close>, \<open><\<close>, \<open><=\<close>, \<open>>\<close>, \<open>>=\<close> and \<open>in\<close> on dynamically typed values, \<open>hash\<close> and
  \<open>str\<close>. Booleans, integers and floats compare by value across types, strings and lists
  lexicographically, dictionaries only for equality; an ordering of other types raises
  \<open>TypeError\<close>, which is \<open>None\<close> here. NaN is no value of the model. The text of floats and
  containers is an argument of \<open>py_text\<close>.
\<close>

fun py_num :: "pyval \<Rightarrow> real option" where
  "py_num (PBool b) = Some (if b then 1 else 0)"
| "py_num (PInt i) = Some (real_of_int i)"
| "py_num (PFloat x) = Some x"
| "py_num _ = None"

fun py_eq :: "pyval \<Rightarrow> pyval \<Rightarrow> bool"
  and py_eq_list :: "pyval list \<Rightarrow> pyval list \<Rightarrow> bool"
  and py_eq_items :: "(string \<times> pyval) list \<Rightarrow> (string \<times> pyval) list \<Rightarrow> bool" where
  "py_eq PNone b = (b = PNone)"
| "py_eq (PBool x) b = (py_num b = Some (if x then 1 else 0))"
| "py_eq (PInt i) b = (py_num b = Some (real_of_int i))"
| "py_eq (PFloat x) b = (py_num b = Some x)"
| "py_eq (PStr s) b = (b = PStr s)"
| "py_eq (PList xs) b = (case b of PList ys \<Rightarrow> py_eq_list xs ys | _ \<Rightarrow> False)"
| "py_eq (PDict d) b = (case b of PDict e \<Rightarrow> length d = length e \<and> py_eq_items d e | _ \<Rightarrow> False)"
| "py_eq_list [] ys = (ys = [])"
| "py_eq_list (x # xs) ys = (case ys of [] \<Rightarrow> False | y # ys' \<Rightarrow> py_eq x y \<and> py_eq_list xs ys')"
| "py_eq_items [] e = True"
| "py_eq_items ((k, v) # d) e =
     ((case map_of e k of None \<Rightarrow> False | Some v' \<Rightarrow> py_eq v v') \<and> py_eq_items d e)"

datatype order_op = OpLT | OpLE | OpGT | OpGE

fun ord_rel :: "order_op \<Rightarrow> 'a::linorder \<Rightarrow> 'a \<Rightarrow> bool" where
  "ord_rel OpLT x y = (x < y)"
| "ord_rel OpLE x y = (x \<le> y)"
| "ord_rel OpGT x y = (x > y)"
| "ord_rel OpGE x y = (x \<ge> y)"

fun py_order :: "order_op \<Rightarrow> pyval \<Rightarrow> pyval \<Rightarrow> bool option"
  and py_order_list :: "order_op \<Rightarrow> pyval list \<Rightarrow> pyval list \<Rightarrow> bool option" where
  "py_order op (PBool x) b = map_option (ord_rel op (if x then 1 else 0)) (py_num b)"
| "py_order op (PInt i) b = map_option (ord_rel op (real_of_int i)) (py_num b)"
| "py_order op (PFloat x) b = map_option (ord_rel op x) (py_num b)"
| "py_order op (PStr s) b = (case b of PStr t \<Rightarrow> Some (ord_rel op s t) | _ \<Rightarrow> None)"
| "py_order op (PList xs) b = (case b of PList ys \<Rightarrow> py_order_list op xs ys | _ \<Rightarrow> None)"
| "py_order op PNone b = None"
| "py_order op (PDict d) b = None"
| "py_order_list op [] ys = Some (ord_rel op 0 (length ys))"
| "py_order_list op (x # xs) ys =
     (case ys of
        [] \<Rightarrow> Some (ord_rel op (Suc (length xs)) 0)
      | y # ys' \<Rightarrow> if py_eq x y then py_order_list op xs ys' else py_order op x y)"

definition hashable :: "pyval \<Rightarrow> bool" where
  "hashable v = (case v of PList _ \<Rightarrow> False | PDict _ \<Rightarrow> False | _ \<Rightarrow> True)"

text \<open>\<open>a in b\<close>: a substring, an element of a list, a key of a dictionary.\<close>

definition py_in :: "pyval \<Rightarrow> pyval \<Rightarrow> bool option" where
  "py_in a b =
     (case b of
        PStr t \<Rightarrow> (case a of PStr s \<Rightarrow> Some (py_substr s t) | _ \<Rightarrow> None)
      | PList ys \<Rightarrow> Some (list_ex (py_eq a) ys)
      | PDict d \<Rightarrow> if hashable a then Some (a \<in> PStr ` set (map fst d)) else None
      | _ \<Rightarrow> None)"

definition int_str :: "int \<Rightarrow> string" where
  "int_str i = (if i < 0 then CHR ''-'' # nat_str (nat (- i)) else nat_str (nat i))"

fun py_text :: "(pyval \<Rightarrow> string) \<Rightarrow> pyval \<Rightarrow> string" where
  "py_text other PNone = ''None''"
| "py_text other (PBool b) = (if b then ''True'' else ''False'')"
| "py_text other (PInt i) = int_str i"
| "py_text other (PStr s) = s"
| "py_text other v = other v"

text \<open>\<open>s.startswith(p)\<close>, \<open>s.endswith(p)\<close>, \<open>s.split(c)\<close>, \<open>c.join(ss)\<close>.\<close>

definition py_startswith :: "string \<Rightarrow> string \<Rightarrow> bool" where
  "py_startswith s p \<longleftrightarrow> take (length p) s = p"

definition py_endswith :: "string \<Rightarrow> string \<Rightarrow> bool" where
  "py_endswith s p \<longleftrightarrow> py_startswith (rev s) (rev p)"

fun py_split :: "char \<Rightarrow> string \<Rightarrow> string list" where
  "py_split sep [] = [[]]"
| "py_split sep (c # cs) =
     (if c = sep then [] # py_split sep cs
      else (case py_split sep cs of w # ws \<Rightarrow> (c # w) # ws | [] \<Rightarrow> [[c]]))"

fun py_join :: "string \<Rightarrow> string list \<Rightarrow> string" where
  "py_join sep [] = []"
| "py_join sep [s] = s"
| "py_join sep (s # ss) = s @ sep @ py_join sep ss"

text \<open>
  \<open>s.title()\<close>: a letter after a non-letter is upper-cased, the others are lower-cased. The three
  characters below 256 whose capital lies outside that range (or is two letters) stay as they are.
\<close>

definition char_upper :: "char \<Rightarrow> char" where
  "char_upper c =
     (let n = (of_char c :: nat)
      in if (97 \<le> n \<and> n \<le> 122) \<or> (224 \<le> n \<and> n \<le> 254 \<and> n \<noteq> 247) then char_of (n - 32) else c)"

definition is_cased :: "char \<Rightarrow> bool" where
  "is_cased c \<longleftrightarrow> char_upper c \<noteq> c \<or> char_lower c \<noteq> c \<or> (of_char c :: nat) \<in> {170, 181, 186, 223, 255}"

fun title_from :: "bool \<Rightarrow> string \<Rightarrow> string" where
  "title_from after_letter [] = []"
| "title_from after_letter (c # cs) =
     (if after_letter then char_lower c else char_upper c) # title_from (is_cased c) cs"

definition py_title :: "string \<Rightarrow> string" where
  "py_title s = title_from False s"

lemma py_split_nonempty [simp]: "py_split sep s \<noteq> []"
  by (induction s) (auto split: list.splits)

lemma py_join_split: "py_join [sep] (py_split sep s) = s"
proof (induction s)
  case (Cons c s)
  obtain w ws where "py_split sep s = w # ws" by (cases "py_split sep s") auto
  with Cons show ?case by (cases ws) auto
qed simp

end
