(* ===== verification/Stores.thy ===== *)
theory Stores
  imports Py_Compare State_Machine
begin

section \<open>Caches and request deduplication\<close>

text \<open>
  Three objects that remember values under keys for a limited time:
  \<open>production/request_deduplication.py\<close>, \<open>performance/cache_manager.py\<close> and
  \<open>skill_library/skill_cache.py\<close>. \<open>time.time()\<close> is a real argument, read twice where the code
  reads it twice. \<open>hashlib\<close> and \<open>json.dumps\<close> are the argument \<open>digest\<close>, \<open>re\<close> the argument
  \<open>matches\<close>. The contract \<open>keyed_store\<close> is what a client of a cache relies on: it may forget, but
  what it answers is what was last written under that key. The three objects interpret it.
\<close>

subsection \<open>The contract\<close>

text \<open>A write carries options of its own, such as a life time.\<close>

datatype ('k, 'o, 'v) store_op = OpGet real 'k | OpPut real 'k 'o 'v | OpDelete 'k

fun apply_op ::
    "(real \<Rightarrow> 'k \<Rightarrow> 's \<Rightarrow> 's) \<Rightarrow> (real \<Rightarrow> 'k \<Rightarrow> 'o \<Rightarrow> 'v \<Rightarrow> 's \<Rightarrow> 's) \<Rightarrow> ('k \<Rightarrow> 's \<Rightarrow> 's) \<Rightarrow> ('k, 'o, 'v) store_op \<Rightarrow> 's \<Rightarrow> 's" where
  "apply_op get put del (OpGet t k) s = get t k s"
| "apply_op get put del (OpPut t k options v) s = put t k options v s"
| "apply_op get put del (OpDelete k) s = del k s"

text \<open>What the last operation on a key left there.\<close>

fun last_written :: "'k \<Rightarrow> ('k, 'o, 'v) store_op list \<Rightarrow> 'v option \<Rightarrow> 'v option" where
  "last_written k [] before = before"
| "last_written k (OpGet t k' # ops) before = last_written k ops before"
| "last_written k (OpPut t k' options v # ops) before = last_written k ops (if k' = k then Some v else before)"
| "last_written k (OpDelete k' # ops) before = last_written k ops (if k' = k then None else before)"

locale keyed_store =
  fixes seen :: "real \<Rightarrow> 'k \<Rightarrow> 's \<Rightarrow> 'v option"
    and get :: "real \<Rightarrow> 'k \<Rightarrow> 's \<Rightarrow> 's"
    and put :: "real \<Rightarrow> 'k \<Rightarrow> 'o \<Rightarrow> 'v \<Rightarrow> 's \<Rightarrow> 's"
    and del :: "'k \<Rightarrow> 's \<Rightarrow> 's"
  assumes put_same: "seen t k (put t0 k options v s) \<in> {Some v, None}"
    and put_other: "k' \<noteq> k \<Longrightarrow> seen t k' (put t0 k options v s) \<in> {seen t k' s, None}"
    and get_any: "seen t k' (get t0 k s) \<in> {seen t k' s, None}"
    and del_same: "seen t k (del k s) = None"
    and del_other: "k' \<noteq> k \<Longrightarrow> seen t k' (del k s) = seen t k' s"
begin

lemma op_answers:
  "seen t k s \<in> {x, None} \<Longrightarrow> seen t k (apply_op get put del op s) \<in> {last_written k [op] x, None}"
proof (cases op)
  case (OpGet t0 k')
  then show "seen t k s \<in> {x, None} \<Longrightarrow> ?thesis" using get_any[of t k t0 k' s] by auto
next
  case (OpPut t0 k' options v)
  then show "seen t k s \<in> {x, None} \<Longrightarrow> ?thesis"
    using put_same[of t k t0 options v s] put_other[of k k' t t0 options v s] by (cases "k' = k") auto
next
  case (OpDelete k')
  then show "seen t k s \<in> {x, None} \<Longrightarrow> ?thesis"
    using del_same[of t k s] del_other[of k k' t s] by (cases "k' = k") auto
qed

lemma last_written_step: "last_written k (op # ops) x = last_written k ops (last_written k [op] x)"
  by (cases op) auto

lemma answers_last_written:
  "seen t k s \<in> {x, None} \<Longrightarrow>
   seen t k (fold (apply_op get put del) ops s) \<in> {last_written k ops x, None}"
proof (induction ops arbitrary: s x)
  case (Cons op ops)
  show ?case
    using Cons.IH[OF op_answers[OF Cons.prems, of op]] by (simp add: last_written_step[of k op ops])
qed simp

end

subsection \<open>The cache manager\<close>

record cache_stats =
  cs_hits :: int
  cs_misses :: int
  cs_sets :: int
  cs_deletes :: int
  cs_evictions :: int

record cache_manager =
  cm_default_ttl :: int
  cm_cache :: "(string, pyval \<times> real option) dict"
  cm_stats :: cache_stats

definition hit_rate :: "cache_stats \<Rightarrow> real" where
  "hit_rate st =
     (let total = cs_hits st + cs_misses st
      in if total > 0 then real_of_int (cs_hits st) / real_of_int total * 100 else 0)"

definition new_cache_manager :: "int \<Rightarrow> cache_manager" where
  "new_cache_manager default_ttl =
     \<lparr>cm_default_ttl = default_ttl, cm_cache = [],
      cm_stats = \<lparr>cs_hits = 0, cs_misses = 0, cs_sets = 0, cs_deletes = 0, cs_evictions = 0\<rparr>\<rparr>"

text \<open>\<open>expiry and time.time() > expiry\<close>: an absent or zero expiry never passes.\<close>

definition entry_expired :: "real \<Rightarrow> real option \<Rightarrow> bool" where
  "entry_expired now expiry = (case expiry of None \<Rightarrow> False | Some x \<Rightarrow> x \<noteq> 0 \<and> now > x)"

definition cache_get :: "real \<Rightarrow> string \<Rightarrow> cache_manager \<Rightarrow> pyval \<times> cache_manager" where
  "cache_get now key c =
     (let st = cm_stats c
      in case dict_get (cm_cache c) key of
           None \<Rightarrow> (PNone, c\<lparr>cm_stats := st\<lparr>cs_misses := cs_misses st + 1\<rparr>\<rparr>)
         | Some (v, expiry) \<Rightarrow>
             if entry_expired now expiry
             then (PNone, c\<lparr>cm_cache := dict_del key (cm_cache c),
                            cm_stats := st\<lparr>cs_misses := cs_misses st + 1,
                                           cs_evictions := cs_evictions st + 1\<rparr>\<rparr>)
             else (v, c\<lparr>cm_stats := st\<lparr>cs_hits := cs_hits st + 1\<rparr>\<rparr>))"

definition cache_set :: "real \<Rightarrow> string \<Rightarrow> pyval \<Rightarrow> int option \<Rightarrow> cache_manager \<Rightarrow> cache_manager" where
  "cache_set now key v ttl c =
     (let t = (case ttl of Some t \<Rightarrow> t | None \<Rightarrow> cm_default_ttl c);
          expiry = (if t > 0 then Some (now + real_of_int t) else None);
          st = cm_stats c
      in c\<lparr>cm_cache := dict_set key (v, expiry) (cm_cache c),
           cm_stats := st\<lparr>cs_sets := cs_sets st + 1\<rparr>\<rparr>)"

definition cache_delete :: "string \<Rightarrow> cache_manager \<Rightarrow> bool \<times> cache_manager" where
  "cache_delete key c =
     (case dict_get (cm_cache c) key of
        None \<Rightarrow> (False, c)
      | Some _ \<Rightarrow>
          (let st = cm_stats c
           in (True, c\<lparr>cm_cache := dict_del key (cm_cache c),
                       cm_stats := st\<lparr>cs_deletes := cs_deletes st + 1\<rparr>\<rparr>)))"

definition cache_exists :: "real \<Rightarrow> string \<Rightarrow> cache_manager \<Rightarrow> bool \<times> cache_manager" where
  "cache_exists now key c =
     (case dict_get (cm_cache c) key of
        None \<Rightarrow> (False, c)
      | Some (v, expiry) \<Rightarrow>
          if entry_expired now expiry then (False, c\<lparr>cm_cache := dict_del key (cm_cache c)\<rparr>)
          else (True, c))"

definition cache_clear :: "cache_manager \<Rightarrow> cache_manager" where
  "cache_clear c = c\<lparr>cm_cache := []\<rparr>"

definition cache_get_or_set ::
    "real \<Rightarrow> real \<Rightarrow> string \<Rightarrow> pyval \<Rightarrow> int option \<Rightarrow> cache_manager \<Rightarrow> pyval \<times> cache_manager" where
  "cache_get_or_set now now' key factory_value ttl c =
     (case cache_get now key c of
        (v, c') \<Rightarrow>
          if v = PNone then (factory_value, cache_set now' key factory_value ttl c') else (v, c'))"

record cache_report =
  cr_hits :: int
  cr_misses :: int
  cr_sets :: int
  cr_deletes :: int
  cr_evictions :: int
  cr_hit_rate :: real
  cr_total_keys :: nat

definition cache_get_stats :: "cache_manager \<Rightarrow> cache_report" where
  "cache_get_stats c =
     (let st = cm_stats c
      in \<lparr>cr_hits = cs_hits st, cr_misses = cs_misses st, cr_sets = cs_sets st,
          cr_deletes = cs_deletes st, cr_evictions = cs_evictions st,
          cr_hit_rate = hit_rate st, cr_total_keys = length (cm_cache c)\<rparr>)"

definition replace_stars :: "string \<Rightarrow> string" where
  "replace_stars pattern = concat (map (\<lambda>c. if c = CHR ''*'' then ''.*'' else [c]) pattern)"

definition invalidate_pattern ::
    "(string \<Rightarrow> string \<Rightarrow> bool) \<Rightarrow> string \<Rightarrow> cache_manager \<Rightarrow> cache_manager" where
  "invalidate_pattern matches pattern c =
     (let regex = ''^'' @ replace_stars pattern @ ''$'';
          keys = filter (matches regex) (dict_keys (cm_cache c))
      in fold (\<lambda>k c'. snd (cache_delete k c')) keys c)"

definition cache_user_session :: "real \<Rightarrow> string \<Rightarrow> pyval \<Rightarrow> cache_manager \<Rightarrow> cache_manager" where
  "cache_user_session now user_id session_data c =
     cache_set now (''session:'' @ user_id) session_data (Some 1800) c"

definition get_user_session :: "real \<Rightarrow> string \<Rightarrow> cache_manager \<Rightarrow> pyval \<times> cache_manager" where
  "get_user_session now user_id c = cache_get now (''session:'' @ user_id) c"

definition cache_agent_config :: "real \<Rightarrow> string \<Rightarrow> pyval \<Rightarrow> cache_manager \<Rightarrow> cache_manager" where
  "cache_agent_config now agent_id config c =
     cache_set now (''agent:config:'' @ agent_id) config (Some 3600) c"

definition get_agent_config :: "real \<Rightarrow> string \<Rightarrow> cache_manager \<Rightarrow> pyval \<times> cache_manager" where
  "get_agent_config now agent_id c = cache_get now (''agent:config:'' @ agent_id) c"

definition api_key :: "(pyval \<Rightarrow> string) \<Rightarrow> string \<Rightarrow> pyval \<Rightarrow> string" where
  "api_key digest endpoint params = ''api:'' @ endpoint @ '':'' @ take 8 (digest params)"

definition cache_api_response ::
    "(pyval \<Rightarrow> string) \<Rightarrow> real \<Rightarrow> string \<Rightarrow> pyval \<Rightarrow> pyval \<Rightarrow> cache_manager \<Rightarrow> cache_manager" where
  "cache_api_response digest now endpoint params response c =
     cache_set now (api_key digest endpoint params) response (Some 300) c"

definition get_api_response ::
    "(pyval \<Rightarrow> string) \<Rightarrow> real \<Rightarrow> string \<Rightarrow> pyval \<Rightarrow> cache_manager \<Rightarrow> pyval \<times> cache_manager" where
  "get_api_response digest now endpoint params c = cache_get now (api_key digest endpoint params) c"

text \<open>What a lookup answers; \<open>None\<close> is Python's \<open>None\<close>, cached or not.\<close>

definition cache_seen :: "real \<Rightarrow> string \<Rightarrow> cache_manager \<Rightarrow> pyval option" where
  "cache_seen now key c = (let v = fst (cache_get now key c) in if v = PNone then None else Some v)"

lemma cache_seen_entry:
  "cache_seen now key c =
     (case dict_get (cm_cache c) key of
        None \<Rightarrow> None
      | Some (v, expiry) \<Rightarrow> if entry_expired now expiry \<or> v = PNone then None else Some v)"
  by (auto simp: cache_seen_def cache_get_def Let_def split: option.splits)

lemma cache_get_entries:
  "cm_cache (snd (cache_get now key c)) = cm_cache c
   \<or> cm_cache (snd (cache_get now key c)) = dict_del key (cm_cache c)"
  by (auto simp: cache_get_def Let_def split: option.splits)

interpretation cache: keyed_store cache_seen "\<lambda>t k s. snd (cache_get t k s)"
  "\<lambda>t k ttl v s. cache_set t k v ttl s" "\<lambda>k s. snd (cache_delete k s)"
proof
  fix t t0 :: real and k k' ttl v s
  show "cache_seen t k (cache_set t0 k v ttl s) \<in> {Some v, None}"
    by (simp add: cache_seen_entry cache_set_def Let_def)
  show "k' \<noteq> k \<Longrightarrow> cache_seen t k' (cache_set t0 k v ttl s) \<in> {cache_seen t k' s, None}"
    by (simp add: cache_seen_entry cache_set_def Let_def)
  show "cache_seen t k' (snd (cache_get t0 k s)) \<in> {cache_seen t k' s, None}"
    using cache_get_entries[of t0 k s] by (auto simp: cache_seen_entry split: if_splits)
  show "cache_seen t k (snd (cache_delete k s)) = None"
    by (auto simp: cache_seen_entry cache_delete_def Let_def split: option.splits)
  show "k' \<noteq> k \<Longrightarrow> cache_seen t k' (snd (cache_delete k s)) = cache_seen t k' s"
    by (auto simp: cache_seen_entry cache_delete_def Let_def split: option.splits)
qed


text \<open>
  Histories of a cache. Every write has a life time of its own, or the default one. An entry stays until its expiry,
  if it has one, whatever else is done.
\<close>

type_synonym cache_op = "(string, int option, pyval) store_op"

definition cache_run :: "cache_op list \<Rightarrow> cache_manager \<Rightarrow> cache_manager" where
  "cache_run = fold (apply_op (\<lambda>t k s. snd (cache_get t k s)) (\<lambda>t k ttl v s. cache_set t k v ttl s)
     (\<lambda>k s. snd (cache_delete k s)))"

definition holds_entry :: "string \<Rightarrow> pyval \<Rightarrow> real option \<Rightarrow> cache_manager \<Rightarrow> bool" where
  "holds_entry key v expiry c \<longleftrightarrow> dict_get (cm_cache c) key = Some (v, expiry)"

fun spares :: "string \<Rightarrow> real option \<Rightarrow> cache_op \<Rightarrow> bool" where
  "spares key expiry (OpGet t k) = (k = key \<longrightarrow> \<not> entry_expired t expiry)"
| "spares key expiry (OpPut t k ttl v) = (k \<noteq> key)"
| "spares key expiry (OpDelete k) = (k \<noteq> key)"

lemma holds_entry_op:
  "holds_entry key v expiry c \<Longrightarrow> spares key expiry op \<Longrightarrow>
   holds_entry key v expiry (apply_op (\<lambda>t k s. snd (cache_get t k s)) (\<lambda>t k ttl v s. cache_set t k v ttl s)
     (\<lambda>k s. snd (cache_delete k s)) op c)"
  by (cases op) (auto simp: holds_entry_def cache_get_def cache_set_def cache_delete_def Let_def split: option.splits)

lemma holds_entry_ops:
  "holds_entry key v expiry c \<Longrightarrow> list_all (spares key expiry) ops \<Longrightarrow> holds_entry key v expiry (cache_run ops c)"
  unfolding cache_run_def by (induction ops arbitrary: c) (auto intro: holds_entry_op)

text \<open>When a value written at \<open>t0\<close> expires.\<close>

definition expiry_of :: "real \<Rightarrow> int option \<Rightarrow> cache_manager \<Rightarrow> real option" where
  "expiry_of t0 ttl c =
     (let e = (case ttl of Some e \<Rightarrow> e | None \<Rightarrow> cm_default_ttl c)
      in if e > 0 then Some (t0 + real_of_int e) else None)"

text \<open>C38: A cache hit is never stale: after any lookups, writes and deletions, every write with a life time of its
  own (positive or not) or with the default one, a lookup answers the value written last under the key, or
  nothing. And a value written at an instant that is not negative is answered until its life time has passed and
  not afterwards, and for ever if its life time is not positive, whatever is done with other keys in between.
  Python's \<open>None\<close> is answered as nothing.\<close>

theorem cache_reads_last_write:
  assumes "0 \<le> t0" and "list_all (spares key (expiry_of t0 ttl c)) ops"
  shows "cache_seen t key (cache_run ops' (new_cache_manager d)) \<in> {last_written key ops' None, None}
    \<and> cache_seen t key (cache_run ops (cache_set t0 key v ttl c))
        = (if v \<noteq> PNone \<and> (case expiry_of t0 ttl c of Some x \<Rightarrow> t \<le> x | None \<Rightarrow> True) then Some v else None)"
proof
  have "cache_seen t key (new_cache_manager d) = None"
    by (simp add: cache_seen_entry new_cache_manager_def)
  then show "cache_seen t key (cache_run ops' (new_cache_manager d)) \<in> {last_written key ops' None, None}"
    using cache.answers_last_written[of t key "new_cache_manager d" None] by (simp add: cache_run_def)
  have "holds_entry key v (expiry_of t0 ttl c) (cache_set t0 key v ttl c)"
    by (simp add: holds_entry_def cache_set_def expiry_of_def Let_def)
  then have "holds_entry key v (expiry_of t0 ttl c) (cache_run ops (cache_set t0 key v ttl c))"
    using assms(2) by (rule holds_entry_ops)
  then show "cache_seen t key (cache_run ops (cache_set t0 key v ttl c))
      = (if v \<noteq> PNone \<and> (case expiry_of t0 ttl c of Some x \<Rightarrow> t \<le> x | None \<Rightarrow> True) then Some v else None)"
    using assms(1) by (auto simp: holds_entry_def cache_seen_entry entry_expired_def expiry_of_def Let_def
        split: option.splits if_splits)
qed

theorem cache_reads_last_write_witness:
  "cache_seen 50 ''k'' (cache_run [OpDelete ''x'', OpPut 20 ''y'' (Some 0) (PInt 9), OpGet 30 ''k'']
       (cache_set 10 ''k'' (PInt 1) (Some 60) (new_cache_manager 5))) = Some (PInt 1)
   \<and> cache_seen 50 ''k'' (cache_run [OpPut 10 ''k'' (Some 60) (PInt 1), OpPut 20 ''k'' (Some 0) (PInt 2)]
       (new_cache_manager 5)) \<in> {Some (PInt 2), None}"
proof -
  have "list_all (spares ''k'' (expiry_of 10 (Some 60) (new_cache_manager 5)))
      [OpDelete ''x'', OpPut 20 ''y'' (Some 0) (PInt 9), OpGet 30 ''k'']"
    by (simp add: expiry_of_def entry_expired_def)
  from cache_reads_last_write[OF _ this, where t = 50 and v = "PInt 1" and d = 5
      and ops' = "[OpPut 10 ''k'' (Some 60) (PInt 1), OpPut 20 ''k'' (Some 0) (PInt 2)]"]
  show ?thesis by (simp add: expiry_of_def)
qed

text \<open>A computed \<open>None\<close> is stored but never answered, so its factory runs at every lookup.\<close>

lemma none_is_not_cached:
  "fst (cache_get_or_set now now' key PNone ttl c) = PNone \<Longrightarrow>
   cache_get_or_set now2 now3 key v ttl2 (cache_set now' key PNone ttl c)
     = (v, cache_set now3 key v ttl2 (snd (cache_get now2 key (cache_set now' key PNone ttl c))))"
  by (auto simp: cache_get_or_set_def cache_get_def cache_set_def Let_def entry_expired_def
      split: prod.splits option.splits)

subsection \<open>The skill cache\<close>

record cached_skill =
  sk_skill_id :: uuid
  sk_name :: string
  sk_description :: string
  sk_code :: string
  sk_interface_definition :: pyval
  sk_dependencies :: "string list"
  sk_usage_count :: int
  sk_last_used :: real
  sk_created_at :: real

record skill_cache =
  sc_max_size :: int
  sc_ttl :: int
  sc_cache :: "(string, cached_skill) dict"

definition new_skill_cache :: "int \<Rightarrow> int \<Rightarrow> skill_cache" where
  "new_skill_cache max_size ttl = \<lparr>sc_max_size = max_size, sc_ttl = ttl, sc_cache = []\<rparr>"

definition generate_cache_key :: "(string \<Rightarrow> string) \<Rightarrow> string \<Rightarrow> string" where
  "generate_cache_key digest description = digest (py_strip (py_lower description))"

definition skill_get ::
    "(string \<Rightarrow> string) \<Rightarrow> real \<Rightarrow> real \<Rightarrow> string \<Rightarrow> skill_cache \<Rightarrow> cached_skill option \<times> skill_cache" where
  "skill_get digest now now' description c =
     (let key = generate_cache_key digest description
      in case dict_get (sc_cache c) key of
           None \<Rightarrow> (None, c)
         | Some s \<Rightarrow>
             if now - sk_created_at s > real_of_int (sc_ttl c)
             then (None, c\<lparr>sc_cache := dict_del key (sc_cache c)\<rparr>)
             else (let s' = s\<lparr>sk_usage_count := sk_usage_count s + 1, sk_last_used := now'\<rparr>
                   in (Some s', c\<lparr>sc_cache := dict_set key s' (sc_cache c)\<rparr>)))"

definition evict_lru :: "skill_cache \<Rightarrow> skill_cache" where
  "evict_lru c =
     (case min_by (\<lambda>(k, s). sk_last_used s) (sc_cache c) of
        None \<Rightarrow> c
      | Some (k, _) \<Rightarrow> c\<lparr>sc_cache := dict_del k (sc_cache c)\<rparr>)"

definition skill_put ::
    "(string \<Rightarrow> string) \<Rightarrow> real \<Rightarrow> real \<Rightarrow> string \<Rightarrow> uuid \<Rightarrow> string \<Rightarrow> string \<Rightarrow> pyval \<Rightarrow> string list
     \<Rightarrow> skill_cache \<Rightarrow> skill_cache" where
  "skill_put digest now now' description skill_id name code interface_definition dependencies c =
     (let key = generate_cache_key digest description;
          c' = (if int (length (sc_cache c)) \<ge> sc_max_size c then evict_lru c else c);
          s = \<lparr>sk_skill_id = skill_id, sk_name = name, sk_description = description, sk_code = code,
               sk_interface_definition = interface_definition, sk_dependencies = dependencies,
               sk_usage_count = 1, sk_last_used = now, sk_created_at = now'\<rparr>
      in c'\<lparr>sc_cache := dict_set key s (sc_cache c')\<rparr>)"

definition skill_invalidate :: "(string \<Rightarrow> string) \<Rightarrow> string \<Rightarrow> skill_cache \<Rightarrow> bool \<times> skill_cache" where
  "skill_invalidate digest description c =
     (let key = generate_cache_key digest description
      in case dict_get (sc_cache c) key of
           Some _ \<Rightarrow> (True, c\<lparr>sc_cache := dict_del key (sc_cache c)\<rparr>)
         | None \<Rightarrow> (False, c))"

definition skill_cache_clear :: "skill_cache \<Rightarrow> skill_cache" where
  "skill_cache_clear c = c\<lparr>sc_cache := []\<rparr>"

record skill_cache_report =
  kr_size :: nat
  kr_max_size :: int
  kr_total_usage :: int
  kr_ttl :: int

definition skill_cache_stats :: "skill_cache \<Rightarrow> skill_cache_report" where
  "skill_cache_stats c =
     \<lparr>kr_size = length (sc_cache c), kr_max_size = sc_max_size c,
      kr_total_usage = sum_list (map sk_usage_count (dict_values (sc_cache c))), kr_ttl = sc_ttl c\<rparr>"

definition get_top_skills :: "nat \<Rightarrow> skill_cache \<Rightarrow> cached_skill list" where
  "get_top_skills limit c = take limit (sort_desc sk_usage_count (dict_values (sc_cache c)))"

text \<open>What a client put there: the part of an entry that later uses do not change.\<close>

type_synonym skill_payload = "uuid \<times> string \<times> string \<times> string \<times> pyval \<times> string list"

definition payload_of :: "cached_skill \<Rightarrow> skill_payload" where
  "payload_of s = (sk_skill_id s, sk_name s, sk_description s, sk_code s,
     sk_interface_definition s, sk_dependencies s)"

definition skill_seen :: "real \<Rightarrow> string \<Rightarrow> skill_cache \<Rightarrow> skill_payload option" where
  "skill_seen now key c = map_option payload_of (fst (skill_get (\<lambda>_. key) now now [] c))"

text \<open>The operations addressed by key, as the contract does.\<close>

definition skill_store :: "real \<Rightarrow> string \<Rightarrow> skill_payload \<Rightarrow> skill_cache \<Rightarrow> skill_cache" where
  "skill_store now key p c =
     (case p of (i, n, d, code, interface, deps) \<Rightarrow>
        skill_put (\<lambda>_. key) now now d i n code interface deps c)"

lemma skill_seen_entry:
  "skill_seen now key c =
     (case dict_get (sc_cache c) key of
        None \<Rightarrow> None
      | Some s \<Rightarrow> if now - sk_created_at s > real_of_int (sc_ttl c) then None else Some (payload_of s))"
  by (auto simp: skill_seen_def skill_get_def generate_cache_key_def payload_of_def Let_def
      split: option.splits)

lemma skill_seen_get:
  "map_option payload_of (fst (skill_get digest now now' d c)) = skill_seen now (generate_cache_key digest d) c"
  by (auto simp: skill_seen_entry skill_get_def payload_of_def Let_def split: option.splits)

lemma skill_seen_cong:
  "dict_get (sc_cache c') k = dict_get (sc_cache c) k \<Longrightarrow> sc_ttl c' = sc_ttl c \<Longrightarrow>
   skill_seen t k c' = skill_seen t k c"
  by (simp add: skill_seen_entry split: option.splits)

lemma evict_seen: "skill_seen t k (evict_lru c) \<in> {skill_seen t k c, None}"
  by (auto simp: skill_seen_entry evict_lru_def split: option.splits if_splits)

lemma evict_config [simp]: "sc_ttl (evict_lru c) = sc_ttl c" "sc_max_size (evict_lru c) = sc_max_size c"
  by (auto simp: evict_lru_def split: option.splits)

interpretation skills: keyed_store skill_seen "\<lambda>t k s. snd (skill_get (\<lambda>_. k) t t [] s)"
  "\<lambda>t k (_ :: unit) v s. skill_store t k v s" "\<lambda>k s. snd (skill_invalidate (\<lambda>_. k) [] s)"
proof
  fix t t0 :: real and k k' v s
  show "skill_seen t k (skill_store t0 k v s) \<in> {Some v, None}"
    by (cases v) (auto simp: skill_seen_entry skill_store_def skill_put_def generate_cache_key_def
        payload_of_def Let_def)
  show "k' \<noteq> k \<Longrightarrow> skill_seen t k' (skill_store t0 k v s) \<in> {skill_seen t k' s, None}"
    using evict_seen[of t k' s] skill_seen_cong[of "skill_store t0 k v s" k' s t]
      skill_seen_cong[of "skill_store t0 k v s" k' "evict_lru s" t]
    by (cases v) (auto simp: skill_store_def skill_put_def generate_cache_key_def Let_def)
  show "skill_seen t k' (snd (skill_get (\<lambda>_. k) t0 t0 [] s)) \<in> {skill_seen t k' s, None}"
    by (auto simp: skill_seen_entry skill_get_def generate_cache_key_def payload_of_def Let_def
        split: option.splits if_splits)
  show "skill_seen t k (snd (skill_invalidate (\<lambda>_. k) [] s)) = None"
    by (auto simp: skill_seen_entry skill_invalidate_def generate_cache_key_def split: option.splits)
  show "k' \<noteq> k \<Longrightarrow> skill_seen t k' (snd (skill_invalidate (\<lambda>_. k) [] s)) = skill_seen t k' s"
    by (auto simp: skill_seen_entry skill_invalidate_def generate_cache_key_def split: option.splits)
qed

lemma evict_size:
  assumes "dict_wf (sc_cache c)" and "sc_cache c \<noteq> []"
  shows "Suc (length (sc_cache (evict_lru c))) = length (sc_cache c)"
proof -
  obtain k s where m: "min_by (\<lambda>(k, s). sk_last_used s) (sc_cache c) = Some (k, s)"
    using assms(2) by (metis min_by_None not_None_eq surj_pair)
  then have "k \<in> set (dict_keys (sc_cache c))" by (force dest: min_by_in)
  with m assms(1) show ?thesis by (simp add: evict_lru_def length_dict_del)
qed

lemma evict_wf: "dict_wf (sc_cache c) \<Longrightarrow> dict_wf (sc_cache (evict_lru c))"
  by (auto simp: evict_lru_def split: option.splits)

definition skill_cache_inv :: "skill_cache \<Rightarrow> bool" where
  "skill_cache_inv c \<longleftrightarrow>
     dict_wf (sc_cache c) \<and> int (length (sc_cache c)) \<le> max 1 (sc_max_size c)"

lemma skill_put_inv:
  assumes "skill_cache_inv c"
  shows "skill_cache_inv (skill_put digest now now' d i n code interface deps c)"
proof -
  let ?c = "if int (length (sc_cache c)) \<ge> sc_max_size c then evict_lru c else c"
  have wf: "dict_wf (sc_cache ?c)" using assms by (auto simp: skill_cache_inv_def intro: evict_wf)
  have "int (length (sc_cache ?c)) < max 1 (sc_max_size c)"
    using assms evict_size[of c] evict_wf
    by (cases "sc_cache c = []") (auto simp: skill_cache_inv_def evict_lru_def)
  then show ?thesis
    using wf by (auto simp: skill_cache_inv_def skill_put_def Let_def length_dict_set)
qed

lemma skill_other_inv:
  "skill_cache_inv c \<Longrightarrow> skill_cache_inv (snd (skill_get digest now now' d c))"
  "skill_cache_inv c \<Longrightarrow> skill_cache_inv (snd (skill_invalidate digest d c))"
  using length_dict_del_le[of "generate_cache_key digest d" "sc_cache c"]
  by (auto simp: skill_cache_inv_def skill_get_def skill_invalidate_def Let_def length_dict_set
      split: option.splits dest: dict_get_key)


definition skill_call :: "(string, unit, skill_payload) store_op \<Rightarrow> skill_cache \<Rightarrow> skill_cache" where
  "skill_call = apply_op (\<lambda>t k s. snd (skill_get (\<lambda>_. k) t t [] s)) (\<lambda>t k _ v s. skill_store t k v s)
     (\<lambda>k s. snd (skill_invalidate (\<lambda>_. k) [] s))"

interpretation skill_machine: invariant_machine "fun_step skill_call" skill_cache_inv
proof
  fix s e s'
  assume "skill_cache_inv s" and "fun_step skill_call s e s'"
  then show "skill_cache_inv s'"
    by (cases e) (auto simp: fun_step_def skill_call_def skill_store_def
        intro: skill_other_inv skill_put_inv split: prod.splits)
qed

lemma skill_call_config: "sc_max_size (skill_call op c) = sc_max_size c"
  by (cases op) (auto simp: skill_call_def skill_get_def skill_store_def skill_put_def
      skill_invalidate_def Let_def split: prod.splits option.splits)

lemma evict_lru_least:
  assumes "sc_cache c \<noteq> []"
  shows "\<exists>k s. (k, s) \<in> set (sc_cache c) \<and> (\<forall>(k', s') \<in> set (sc_cache c). sk_last_used s \<le> sk_last_used s')
    \<and> sc_cache (evict_lru c) = dict_del k (sc_cache c)"
proof -
  obtain k s where m: "min_by (\<lambda>(k, s). sk_last_used s) (sc_cache c) = Some (k, s)"
    using assms by (metis min_by_None not_None_eq surj_pair)
  then show ?thesis
    using min_by_in[OF m] min_by_le[OF m] by (fastforce simp: evict_lru_def)
qed

text \<open>The skill cache is bounded: after any operations it holds at most its maximum number of
  skills (at least one, even if the maximum is smaller), and a skill put into a full cache makes
  room by removing one that was used least recently, and no other.\<close>

theorem skill_cache_bounded:
  "int (length (sc_cache (fold skill_call ops (new_skill_cache max_size ttl)))) \<le> max 1 max_size
   \<and> (sc_cache c \<noteq> [] \<and> int (length (sc_cache c)) \<ge> sc_max_size c \<longrightarrow>
       (\<exists>k s s'. (k, s) \<in> set (sc_cache c)
          \<and> (\<forall>(k', s') \<in> set (sc_cache c). sk_last_used s \<le> sk_last_used s')
          \<and> sc_cache (skill_put digest now now' d i n code interface deps c)
              = dict_set (generate_cache_key digest d) s' (dict_del k (sc_cache c))))"
proof -
  have "skill_cache_inv (new_skill_cache max_size ttl)"
    by (simp add: skill_cache_inv_def new_skill_cache_def)
  then have "skill_cache_inv (fold skill_call ops (new_skill_cache max_size ttl))"
    using skill_machine.run_inv[of "new_skill_cache max_size ttl" ops] by (simp add: run_of_fun_step)
  moreover have "sc_max_size (fold skill_call ops c) = sc_max_size c" for c
    by (induction ops arbitrary: c) (simp_all add: skill_call_config)
  then have "sc_max_size (fold skill_call ops (new_skill_cache max_size ttl)) = max_size"
    by (simp add: new_skill_cache_def)
  ultimately have "int (length (sc_cache (fold skill_call ops (new_skill_cache max_size ttl)))) \<le> max 1 max_size"
    by (simp add: skill_cache_inv_def)
  moreover have "\<exists>k s s'. (k, s) \<in> set (sc_cache c)
          \<and> (\<forall>(k', s') \<in> set (sc_cache c). sk_last_used s \<le> sk_last_used s')
          \<and> sc_cache (skill_put digest now now' d i n code interface deps c)
              = dict_set (generate_cache_key digest d) s' (dict_del k (sc_cache c))"
    if ne: "sc_cache c \<noteq> []" and full: "int (length (sc_cache c)) \<ge> sc_max_size c"
  proof -
    obtain k s where "(k, s) \<in> set (sc_cache c)"
      "\<forall>(k', s') \<in> set (sc_cache c). sk_last_used s \<le> sk_last_used s'"
      "sc_cache (evict_lru c) = dict_del k (sc_cache c)"
      using evict_lru_least[OF ne] by blast
    then show ?thesis
      using full by (intro exI[of _ k] exI[of _ s] exI) (simp add: skill_put_def Let_def)
  qed
  ultimately show ?thesis by blast
qed

definition one_skill :: skill_cache where
  "one_skill = skill_put (\<lambda>s. s) 0 0 ''a'' 1 ''A'' [] PNone [] (new_skill_cache 1 60)"

theorem skill_cache_bounded_witness:
  "\<exists>s. sc_cache (skill_put (\<lambda>s. s) 5 5 ''b'' 2 ''B'' [] PNone [] one_skill)
     = dict_set (generate_cache_key (\<lambda>s. s) ''b'') s []"
proof -
  obtain k s where c: "sc_cache one_skill = [(k, s)]" and "sc_max_size one_skill = 1"
    by (simp add: one_skill_def skill_put_def new_skill_cache_def evict_lru_def dict_set_def Let_def)
  then have "\<exists>k' s' s''. (k', s') \<in> set (sc_cache one_skill)
      \<and> (\<forall>(k', s'') \<in> set (sc_cache one_skill). sk_last_used s' \<le> sk_last_used s'')
      \<and> sc_cache (skill_put (\<lambda>s. s) 5 5 ''b'' 2 ''B'' [] PNone [] one_skill)
        = dict_set (generate_cache_key (\<lambda>s. s) ''b'') s'' (dict_del k' (sc_cache one_skill))"
    using skill_cache_bounded[where c = one_skill and digest = "\<lambda>s. s" and now = 5 and now' = 5
        and d = "''b''" and i = 2 and n = "''B''" and code = "[]" and interface = PNone and deps = "[]"
        and ops = "[]" and max_size = 1 and ttl = 60]
    by simp
  then show ?thesis by (auto simp: c dict_del_def)
qed

subsection \<open>Request deduplication\<close>

datatype request_status = RequestPending | RequestCompleted | RequestFailed

record request_record =
  rq_request_id :: string
  rq_request_hash :: string
  rq_timestamp :: real
  rq_response :: pyval
  rq_status :: request_status

record deduplicator =
  dd_ttl_seconds :: int
  dd_requests :: "(string, request_record) dict"

definition new_deduplicator :: "int \<Rightarrow> deduplicator" where
  "new_deduplicator ttl = \<lparr>dd_ttl_seconds = ttl, dd_requests = []\<rparr>"

definition generate_request_hash ::
    "(pyval \<Rightarrow> string) \<Rightarrow> string \<Rightarrow> string \<Rightarrow> pyval \<Rightarrow> string option \<Rightarrow> string" where
  "generate_request_hash digest method path body user_id =
     digest (PDict [(''method'', PStr method), (''path'', PStr path),
       (''body'', if py_truthy body then body else PDict []),
       (''user_id'', case user_id of Some u \<Rightarrow> PStr u | None \<Rightarrow> PNone)])"

definition cleanup_old_records :: "real \<Rightarrow> deduplicator \<Rightarrow> deduplicator" where
  "cleanup_old_records now d =
     (let expired = map fst (filter (\<lambda>(h, r). now - rq_timestamp r \<ge> real_of_int (dd_ttl_seconds d))
                               (dd_requests d))
      in d\<lparr>dd_requests := dict_del_all expired (dd_requests d)\<rparr>)"

definition check_duplicate ::
    "real \<Rightarrow> real \<Rightarrow> string \<Rightarrow> deduplicator \<Rightarrow> request_record option \<times> deduplicator" where
  "check_duplicate now now' h d0 =
     (let d = cleanup_old_records now d0
      in case dict_get (dd_requests d) h of
           None \<Rightarrow> (None, d)
         | Some r \<Rightarrow>
             if now' - rq_timestamp r < real_of_int (dd_ttl_seconds d) then (Some r, d)
             else (None, d\<lparr>dd_requests := dict_del h (dd_requests d)\<rparr>))"

definition register_request ::
    "real \<Rightarrow> string \<Rightarrow> string \<Rightarrow> deduplicator \<Rightarrow> deduplicator" where
  "register_request now h request_id d =
     d\<lparr>dd_requests := dict_set h
        \<lparr>rq_request_id = request_id, rq_request_hash = h, rq_timestamp = now, rq_response = PNone,
         rq_status = RequestPending\<rparr> (dd_requests d)\<rparr>"

definition complete_request :: "string \<Rightarrow> pyval \<Rightarrow> bool \<Rightarrow> deduplicator \<Rightarrow> deduplicator" where
  "complete_request h response success d =
     (case dict_get (dd_requests d) h of
        None \<Rightarrow> d
      | Some r \<Rightarrow>
          d\<lparr>dd_requests := dict_set h
             (r\<lparr>rq_status := (if success then RequestCompleted else RequestFailed),
                rq_response := response\<rparr>) (dd_requests d)\<rparr>)"

definition get_cached_response ::
    "real \<Rightarrow> real \<Rightarrow> string \<Rightarrow> deduplicator \<Rightarrow> pyval \<times> deduplicator" where
  "get_cached_response now now' h d =
     (case check_duplicate now now' h d of
        (Some r, d') \<Rightarrow> (if rq_status r = RequestCompleted then rq_response r else PNone, d')
      | (None, d') \<Rightarrow> (PNone, d'))"

record dedup_report =
  dp_total_records :: nat
  dp_pending :: nat
  dp_completed :: nat
  dp_failed :: nat
  dp_average_age_seconds :: real
  dp_ttl_seconds :: int

definition dedup_get_stats :: "real \<Rightarrow> deduplicator \<Rightarrow> dedup_report" where
  "dedup_get_stats now d =
     (let rs = dict_values (dd_requests d);
          count = (\<lambda>st. length (filter (\<lambda>r. rq_status r = st) rs));
          ages = map (\<lambda>r. now - rq_timestamp r) rs
      in \<lparr>dp_total_records = length rs, dp_pending = count RequestPending,
          dp_completed = count RequestCompleted, dp_failed = count RequestFailed,
          dp_average_age_seconds = (if ages = [] then 0 else sum_list ages / real (length ages)),
          dp_ttl_seconds = dd_ttl_seconds d\<rparr>)"

definition dedup_clear :: "deduplicator \<Rightarrow> deduplicator" where
  "dedup_clear d = d\<lparr>dd_requests := []\<rparr>"

text \<open>What \<open>check_duplicate\<close> finds: the record of the hash, while it is younger than the life time.\<close>

definition live_record :: "real \<Rightarrow> string \<Rightarrow> deduplicator \<Rightarrow> request_record option" where
  "live_record now h d =
     (case dict_get (dd_requests d) h of
        None \<Rightarrow> None
      | Some r \<Rightarrow> if now - rq_timestamp r < real_of_int (dd_ttl_seconds d) then Some r else None)"

definition dedup_wf :: "deduplicator \<Rightarrow> bool" where
  "dedup_wf d \<longleftrightarrow> dict_wf (dd_requests d)"

lemma cleanup_get:
  assumes "dedup_wf d"
  shows "dict_get (dd_requests (cleanup_old_records now d)) h = live_record now h d"
proof -
  have "h \<in> fst ` {(h, r) \<in> set (dd_requests d). now - rq_timestamp r \<ge> real_of_int (dd_ttl_seconds d)}
      \<longleftrightarrow> (\<exists>r. dict_get (dd_requests d) h = Some r \<and> now - rq_timestamp r \<ge> real_of_int (dd_ttl_seconds d))"
    using assms by (force simp: dedup_wf_def dict_mem_get)
  then show ?thesis
    by (auto simp: cleanup_old_records_def Let_def dict_get_del_all live_record_def
        case_prod_unfold split: option.splits)
qed

lemma cleanup_config [simp]: "dd_ttl_seconds (cleanup_old_records now d) = dd_ttl_seconds d"
  by (simp add: cleanup_old_records_def Let_def)

lemma cleanup_wf: "dedup_wf d \<Longrightarrow> dedup_wf (cleanup_old_records now d)"
  by (simp add: dedup_wf_def cleanup_old_records_def Let_def)

lemma check_duplicate_fst:
  "dedup_wf d \<Longrightarrow> now \<le> now' \<Longrightarrow> fst (check_duplicate now now' h d) = live_record now' h d"
  by (auto simp: check_duplicate_def Let_def cleanup_get) (auto simp: live_record_def split: option.splits if_splits)

lemma check_duplicate_snd:
  "dedup_wf d \<Longrightarrow> dict_get (dd_requests (snd (check_duplicate now now' h d))) h' \<in> {dict_get (dd_requests d) h', None}"
  by (auto simp: check_duplicate_def Let_def cleanup_get live_record_def split: option.splits if_splits)


subsection \<open>The deduplicating decorator\<close>

text \<open>
  Calls of a decorated coroutine overlap: a call suspends while the wrapped function runs or, as
  a duplicate of a pending call, for a tenth of a second. Between two suspensions the code runs at
  one instant. \<open>du_running\<close> holds the calls whose function is running, with the hash and the
  instant of their registration, \<open>du_waiting\<close> the suspended duplicates, \<open>du_answers\<close> what the calls
  returned. \<open>asyncio.sleep\<close> may take longer than asked.
\<close>

record dedup_run =
  du_dedup :: deduplicator
  du_running :: "(nat \<times> string \<times> real) list"
  du_waiting :: "(nat \<times> string) list"
  du_answers :: "(nat \<times> pyval) list"

definition start_dedup :: "int \<Rightarrow> dedup_run" where
  "start_dedup ttl =
     \<lparr>du_dedup = new_deduplicator ttl, du_running = [], du_waiting = [], du_answers = []\<rparr>"

datatype dedup_event =
    DupArrives nat string real
  | DupWakes nat real
  | DupReturns nat pyval real
  | DupRaises nat real

fun dedup_time :: "dedup_event \<Rightarrow> real" where
  "dedup_time (DupArrives c h t) = t"
| "dedup_time (DupWakes c t) = t"
| "dedup_time (DupReturns c v t) = t"
| "dedup_time (DupRaises c t) = t"

definition request_id_at :: "real \<Rightarrow> string" where
  "request_id_at now = ''req_'' @ int_str (if now \<ge> 0 then \<lfloor>now * 1000\<rfloor> else \<lceil>now * 1000\<rceil>)"

inductive dedup_step :: "dedup_run \<Rightarrow> dedup_event \<Rightarrow> dedup_run \<Rightarrow> bool" where
  dup_cached:
    "get_cached_response t t h (du_dedup s) = (v, d) \<Longrightarrow> v \<noteq> PNone \<Longrightarrow>
     dedup_step s (DupArrives c h t) (s\<lparr>du_dedup := d, du_answers := du_answers s @ [(c, v)]\<rparr>)"
| dup_waits:
    "get_cached_response t t h (du_dedup s) = (PNone, d) \<Longrightarrow>
     check_duplicate t t h d = (Some r, d') \<Longrightarrow> rq_status r = RequestPending \<Longrightarrow>
     dedup_step s (DupArrives c h t) (s\<lparr>du_dedup := d', du_waiting := du_waiting s @ [(c, h)]\<rparr>)"
| dup_runs:
    "get_cached_response t t h (du_dedup s) = (PNone, d) \<Longrightarrow>
     check_duplicate t t h d = (found, d') \<Longrightarrow>
     (case found of None \<Rightarrow> True | Some r \<Rightarrow> rq_status r \<noteq> RequestPending) \<Longrightarrow>
     dedup_step s (DupArrives c h t)
       (s\<lparr>du_dedup := register_request t h (request_id_at t) d',
          du_running := du_running s @ [(c, h, t)]\<rparr>)"
| dup_wakes:
    "(c, h) \<in> set (du_waiting s) \<Longrightarrow> get_cached_response t t h (du_dedup s) = (v, d) \<Longrightarrow>
     dedup_step s (DupWakes c t)
       (s\<lparr>du_dedup := d, du_waiting := remove1 (c, h) (du_waiting s),
          du_answers := du_answers s @ [(c, v)]\<rparr>)"
| dup_returns:
    "(c, h, t0) \<in> set (du_running s) \<Longrightarrow>
     dedup_step s (DupReturns c v t)
       (s\<lparr>du_dedup := complete_request h v True (du_dedup s),
          du_running := remove1 (c, h, t0) (du_running s), du_answers := du_answers s @ [(c, v)]\<rparr>)"
| dup_raises:
    "(c, h, t0) \<in> set (du_running s) \<Longrightarrow>
     dedup_step s (DupRaises c t)
       (s\<lparr>du_dedup := complete_request h PNone False (du_dedup s),
          du_running := remove1 (c, h, t0) (du_running s)\<rparr>)"

text \<open>A run in which no call is still running when the life time of its record has passed.\<close>

definition timely_step :: "dedup_run \<Rightarrow> dedup_event \<Rightarrow> dedup_run \<Rightarrow> bool" where
  "timely_step s e s' \<longleftrightarrow> dedup_step s e s'
     \<and> (\<forall>(c, h, t0) \<in> set (du_running s). dedup_time e < t0 + real_of_int (dd_ttl_seconds (du_dedup s)))"

definition dedup_inv :: "dedup_run \<Rightarrow> bool" where
  "dedup_inv s \<longleftrightarrow> dedup_wf (du_dedup s) \<and> distinct (map (fst \<circ> snd) (du_running s))
     \<and> (\<forall>(c, h, t0) \<in> set (du_running s). \<exists>r. dict_get (dd_requests (du_dedup s)) h = Some r
          \<and> rq_timestamp r = t0 \<and> rq_status r = RequestPending)"

lemma check_duplicate_wf: "dedup_wf d \<Longrightarrow> dedup_wf (snd (check_duplicate now now' h d))"
  using cleanup_wf[of d now] by (auto simp: check_duplicate_def Let_def dedup_wf_def split: option.splits)

lemma check_duplicate_ttl [simp]: "dd_ttl_seconds (snd (check_duplicate now now' h d)) = dd_ttl_seconds d"
  by (auto simp: check_duplicate_def Let_def split: option.splits)

lemma check_keeps_live:
  assumes "dedup_wf d" and "dict_get (dd_requests d) h' = Some r"
    and "t - rq_timestamp r < real_of_int (dd_ttl_seconds d)"
  shows "dict_get (dd_requests (snd (check_duplicate t t h d))) h' = Some r"
  using assms by (auto simp: check_duplicate_def Let_def cleanup_get live_record_def split: option.splits)

lemma get_cached_snd: "snd (get_cached_response now now' h d) = snd (check_duplicate now now' h d)"
  by (auto simp: get_cached_response_def split: prod.splits option.splits)

lemma live_running:
  assumes "dedup_inv s" and "timely_step s e s'" and "(c, h, t0) \<in> set (du_running s)"
  shows "\<exists>r. dict_get (dd_requests (du_dedup s)) h = Some r \<and> rq_timestamp r = t0
    \<and> rq_status r = RequestPending \<and> dedup_time e - rq_timestamp r < real_of_int (dd_ttl_seconds (du_dedup s))"
  using assms by (fastforce simp: dedup_inv_def timely_step_def)

lemma checked_inv:
  assumes inv: "dedup_inv s" and step: "timely_step s e s'" and t: "dedup_time e = t"
  shows "dedup_inv (s\<lparr>du_dedup := snd (check_duplicate t t h (du_dedup s))\<rparr>)"
proof -
  have "\<exists>r. dict_get (dd_requests (snd (check_duplicate t t h (du_dedup s)))) h' = Some r
      \<and> rq_timestamp r = t0 \<and> rq_status r = RequestPending" if "(c, h', t0) \<in> set (du_running s)" for c h' t0
    using live_running[OF inv step that] check_keeps_live[of "du_dedup s" h' _ t h] inv t
    by (auto simp: dedup_inv_def)
  then show ?thesis using inv by (auto simp: dedup_inv_def check_duplicate_wf)
qed

lemma complete_request_get:
  "h' \<noteq> h \<Longrightarrow> dict_get (dd_requests (complete_request h v ok d)) h' = dict_get (dd_requests d) h'"
  by (simp add: complete_request_def split: option.splits)

lemma complete_request_wf: "dedup_wf d \<Longrightarrow> dedup_wf (complete_request h v ok d)"
  by (simp add: complete_request_def dedup_wf_def split: option.splits)

lemma finish_inv:
  assumes inv: "dedup_inv s" and c: "(c, h, t0) \<in> set (du_running s)"
  shows "dedup_inv (s\<lparr>du_dedup := complete_request h v ok (du_dedup s),
           du_running := remove1 (c, h, t0) (du_running s)\<rparr>)"
proof -
  let ?rest = "remove1 (c, h, t0) (du_running s)"
  have "inj_on (fst \<circ> snd) (set (du_running s))" and d: "distinct (du_running s)"
    using inv unfolding dedup_inv_def distinct_map by blast+
  then have other: "h' \<noteq> h" if "(c', h', t') \<in> set ?rest" for c' h' t'
    using that c inj_onD[of "fst \<circ> snd" "set (du_running s)" "(c', h', t')" "(c, h, t0)"] by auto
  have "distinct (map (fst \<circ> snd) ?rest)"
    using \<open>inj_on (fst \<circ> snd) (set (du_running s))\<close> d
    by (auto simp: distinct_map intro: inj_on_subset)
  moreover have "\<exists>r. dict_get (dd_requests (complete_request h v ok (du_dedup s))) h' = Some r
      \<and> rq_timestamp r = t' \<and> rq_status r = RequestPending" if "(c', h', t') \<in> set ?rest" for c' h' t'
  proof -
    have "(c', h', t') \<in> set (du_running s)" using that d by simp
    then show ?thesis
      using inv complete_request_get[OF other[OF that]] unfolding dedup_inv_def by fastforce
  qed
  ultimately show ?thesis
    using inv complete_request_wf[of "du_dedup s"] unfolding dedup_inv_def by auto
qed

lemma dedup_inv_frame [simp]:
  "dedup_inv (s\<lparr>du_answers := a\<rparr>) = dedup_inv s" "dedup_inv (s\<lparr>du_waiting := w\<rparr>) = dedup_inv s"
  by (simp_all add: dedup_inv_def)

lemma dedup_inv_cong:
  "dedup_inv s \<Longrightarrow> du_dedup s' = du_dedup s \<Longrightarrow> du_running s' = du_running s \<Longrightarrow> dedup_inv s'"
  by (simp add: dedup_inv_def)

lemma checked_twice_inv:
  assumes inv: "dedup_inv s" and step: "timely_step s e s'" and t: "dedup_time e = t"
  shows "dedup_inv (s\<lparr>du_dedup := snd (check_duplicate t t h (snd (check_duplicate t t h (du_dedup s))))\<rparr>)"
proof -
  let ?s = "s\<lparr>du_dedup := snd (check_duplicate t t h (du_dedup s))\<rparr>"
  have 1: "dedup_inv ?s" using checked_inv[OF inv step t] .
  have "\<forall>(c, h, t0) \<in> set (du_running ?s). dedup_time e < t0 + real_of_int (dd_ttl_seconds (du_dedup ?s))"
    using step by (simp add: timely_step_def)
  then have live: "dict_get (dd_requests (snd (check_duplicate t t h (du_dedup ?s)))) h' = Some r"
    if "(c, h', t0) \<in> set (du_running s)" "dict_get (dd_requests (du_dedup ?s)) h' = Some r"
      "rq_timestamp r = t0" for c h' t0 r
    using that 1 t check_keeps_live[of "du_dedup ?s" h' r t h] by (fastforce simp: dedup_inv_def)
  then show ?thesis
    using 1 check_duplicate_wf[of "du_dedup ?s" t t h] unfolding dedup_inv_def by fastforce
qed


lemma running_is_found:
  assumes inv: "dedup_inv s" and step: "timely_step s e s'" and t: "dedup_time e = t"
    and c: "(c, h, t0) \<in> set (du_running s)"
  shows "\<exists>r. fst (check_duplicate t t h (snd (check_duplicate t t h (du_dedup s)))) = Some r
    \<and> rq_status r = RequestPending"
proof -
  let ?d = "snd (check_duplicate t t h (du_dedup s))"
  obtain r where r: "dict_get (dd_requests (du_dedup s)) h = Some r" "rq_status r = RequestPending"
    "t - rq_timestamp r < real_of_int (dd_ttl_seconds (du_dedup s))"
    using live_running[OF inv step c] t by auto
  have wf: "dedup_wf (du_dedup s)" using inv by (simp add: dedup_inv_def)
  have "dict_get (dd_requests ?d) h = Some r" using check_keeps_live[OF wf r(1,3)] .
  then have "live_record t h ?d = Some r" using r(3) by (simp add: live_record_def)
  then show ?thesis using check_duplicate_fst[OF check_duplicate_wf[OF wf]] r(2) by simp
qed

lemma register_inv:
  assumes "dedup_inv s" and "\<And>c t0. (c, h, t0) \<notin> set (du_running s)"
  shows "dedup_inv (s\<lparr>du_dedup := register_request t h i (du_dedup s),
            du_running := du_running s @ [(c, h, t)]\<rparr>)"
  using assms by (fastforce simp: dedup_inv_def dedup_wf_def register_request_def image_iff)

lemma timely_step_inv:
  assumes inv: "dedup_inv s" and step: "timely_step s e s'"
  shows "dedup_inv s'"
proof -
  have "dedup_step s e s'" using step by (simp add: timely_step_def)
  then show ?thesis
  proof cases
    case (dup_cached t h v d c)
    then show ?thesis
      using checked_inv[OF inv step, of t h] get_cached_snd[of t t h "du_dedup s"]
      by (auto intro: dedup_inv_cong)
  next
    case (dup_waits t h d r d' c)
    then show ?thesis
      using checked_twice_inv[OF inv step, of t h] get_cached_snd[of t t h "du_dedup s"]
      by (auto intro: dedup_inv_cong)
  next
    case (dup_runs t h d found d' c)
    have d: "d = snd (check_duplicate t t h (du_dedup s))"
      using dup_runs(3) get_cached_snd[of t t h "du_dedup s"] by simp
    have "(c', h, t0) \<notin> set (du_running s)" for c' t0
      using running_is_found[OF inv step, of t c' h t0] dup_runs(1,4,5) d by auto
    then show ?thesis
      using register_inv[OF checked_twice_inv[OF inv step, of t h], of h] dup_runs d by simp
  next
    case (dup_wakes c h t v d)
    then show ?thesis
      using checked_inv[OF inv step, of t h] get_cached_snd[of t t h "du_dedup s"]
      by (auto intro: dedup_inv_cong)
  next
    case (dup_returns c h t0 v t)
    then show ?thesis
      using finish_inv[OF inv dup_returns(3), of v True] by (auto intro: dedup_inv_cong)
  next
    case (dup_raises c h t0 t)
    then show ?thesis using finish_inv[OF inv dup_raises(3), of PNone False] by simp
  qed
qed

interpretation dedup: invariant_machine timely_step dedup_inv
  using timely_step_inv by unfold_locales

lemma start_dedup_inv [simp]: "dedup_inv (start_dedup ttl)"
  by (simp add: start_dedup_def new_deduplicator_def dedup_inv_def dedup_wf_def)

text \<open>C36: Duplicate requests run once. As long as no call outlives the life time of its record, two
  calls of the decorated function whose arguments hash alike are never running at the same time,
  in any interleaving of arriving, waking, returning and raising calls.\<close>

theorem dedup_single_flight:
  assumes "run_of timely_step (start_dedup ttl) es s"
    and "(c, h, t) \<in> set (du_running s)" and "(c', h, t') \<in> set (du_running s)"
  shows "c = c' \<and> t = t'"
proof -
  have "inj_on (fst \<circ> snd) (set (du_running s))"
    using dedup.run_inv[OF assms(1) start_dedup_inv] by (simp add: dedup_inv_def distinct_map)
  from inj_onD[OF this _ assms(2,3)] show ?thesis by simp
qed

text \<open>The witness: a call starts, a duplicate waits for it, the call returns, the duplicate is answered.\<close>

definition first_running :: "deduplicator" where
  "first_running = register_request 0 ''h'' (request_id_at 0) (new_deduplicator 300)"

definition run_1 :: dedup_run where
  "run_1 = (start_dedup 300)\<lparr>du_dedup := first_running, du_running := [(1, ''h'', 0)]\<rparr>"

definition run_2 :: dedup_run where
  "run_2 = run_1\<lparr>du_waiting := [(2, ''h'')]\<rparr>"

lemma first_running_check:
  "0 \<le> t \<Longrightarrow> t < 300 \<Longrightarrow> check_duplicate t t ''h'' first_running
     = (Some \<lparr>rq_request_id = request_id_at 0, rq_request_hash = ''h'', rq_timestamp = 0,
              rq_response = PNone, rq_status = RequestPending\<rparr>, first_running)"
  by (simp add: first_running_def check_duplicate_def cleanup_old_records_def Let_def
      register_request_def new_deduplicator_def dict_set_def dict_get_def dict_del_all_def)

lemma step_1: "dedup_step (start_dedup 300) (DupArrives 1 ''h'' 0) run_1"
proof -
  have c: "check_duplicate 0 0 ''h'' (du_dedup (start_dedup 300)) = (None, du_dedup (start_dedup 300))"
    by (simp add: start_dedup_def check_duplicate_def cleanup_old_records_def new_deduplicator_def
        dict_del_all_def Let_def)
  then have "get_cached_response 0 0 ''h'' (du_dedup (start_dedup 300)) = (PNone, du_dedup (start_dedup 300))"
    by (simp add: get_cached_response_def)
  from dup_runs[OF this c, of 1] show ?thesis
    by (simp add: run_1_def first_running_def start_dedup_def)
qed

lemma step_2: "dedup_step run_1 (DupArrives 2 ''h'' 1) run_2"
proof -
  have "get_cached_response 1 1 ''h'' (du_dedup run_1) = (PNone, first_running)"
    by (simp add: get_cached_response_def run_1_def first_running_check)
  then show ?thesis
    using dup_waits[of 1 "''h''" run_1 first_running _ first_running 2] first_running_check[of 1]
    by (simp add: run_2_def run_1_def start_dedup_def)
qed

theorem dedup_single_flight_witness:
  "\<exists>s. run_of timely_step (start_dedup 300) [DupArrives 1 ''h'' 0, DupArrives 2 ''h'' 1] s
     \<and> (\<forall>c t. (c, ''h'', t) \<in> set (du_running s) \<longrightarrow> c = 1 \<and> t = 0)"
proof -
  have "timely_step (start_dedup 300) (DupArrives 1 ''h'' 0) run_1"
    using step_1 by (simp add: timely_step_def start_dedup_def)
  moreover have "timely_step run_1 (DupArrives 2 ''h'' 1) run_2"
    using step_2 by (simp add: timely_step_def run_1_def first_running_def register_request_def
        new_deduplicator_def)
  ultimately have run: "run_of timely_step (start_dedup 300) [DupArrives 1 ''h'' 0, DupArrives 2 ''h'' 1] run_2"
    by (auto simp: run_of_Cons)
  have mem: "(1, ''h'', 0) \<in> set (du_running run_2)" by (simp add: run_2_def run_1_def)
  show ?thesis using dedup_single_flight[OF run mem] run by blast
qed

text \<open>
  A duplicate does not wait for the call it duplicates: if that call is still running after the
  tenth of a second, the duplicate returns \<open>None\<close> to its caller.
\<close>

lemma duplicate_answered_none:
  "\<exists>s. run_of dedup_step (start_dedup 300)
       [DupArrives 1 ''h'' 0, DupArrives 2 ''h'' 1, DupWakes 2 2] s
     \<and> du_answers s = [(2, PNone)] \<and> (1, ''h'', 0) \<in> set (du_running s)"
proof -
  have "get_cached_response 2 2 ''h'' (du_dedup run_2) = (PNone, first_running)"
    by (simp add: get_cached_response_def run_2_def run_1_def first_running_check)
  then have "dedup_step run_2 (DupWakes 2 2)
      (run_2\<lparr>du_dedup := first_running, du_waiting := [], du_answers := [(2, PNone)]\<rparr>)"
    using dup_wakes[of 2 "''h''" run_2 2 PNone first_running]
    by (simp add: run_2_def run_1_def start_dedup_def)
  then show ?thesis
    using step_1 step_2
    by (intro exI[of _ "run_2\<lparr>du_dedup := first_running, du_waiting := [], du_answers := [(2, PNone)]\<rparr>"])
      (auto simp: run_of_Cons run_2_def run_1_def)
qed

text \<open>
  \<open>complete_request\<close> finds its record by hash alone: a call that ends late settles the record of
  another call, which is still running.
\<close>

lemma late_call_settles_other_record:
  assumes "dict_get (dd_requests d) h = Some r" and "rq_status r = RequestPending"
  shows "\<exists>r'. dict_get (dd_requests (complete_request h v ok d)) h = Some r'
     \<and> rq_request_id r' = rq_request_id r \<and> rq_status r' \<noteq> RequestPending"
  using assms by (simp add: complete_request_def)

end
