(* ===== verification/Rbac.thy ===== *)
theory Rbac
  imports Py_Compare
begin

section \<open>Role based access control\<close>

text \<open>
  \<open>access_control/rbac.py\<close>, \<open>access_control/permissions.py\<close> and
  \<open>access_control/memory_filter.py\<close>: the four roles with their permission sets, inheritance along
  the role hierarchy, the decision functions that endpoints and services call, and the guards that
  turn a decision into an HTTP error. A permission is compared without its description, as
  \<open>Permission.__eq__\<close> does, so a Python set of permissions is a list without two equal ones.
  Identifiers of users and owners are strings. Logging is left out.

  The contract \<open>permission_source\<close> states what a decision function promises its clients: a
  permission without scope covers every scope and \<open>MANAGE\<close> covers every action. It is interpreted
  on \<open>check_permission\<close> and on \<open>CurrentUser.has_permission\<close>.
\<close>

subsection \<open>Roles, resources, actions and permissions\<close>

datatype role = ADMIN | MANAGER | USER | VIEWER

datatype resource_type = AGENTS | TASKS | KNOWLEDGE | MEMORY | USERS | SYSTEM

datatype action = CREATE | READ | UPDATE | DELETE | EXECUTE | MANAGE

fun role_value :: "role \<Rightarrow> string" where
  "role_value ADMIN = ''admin''"
| "role_value MANAGER = ''manager''"
| "role_value USER = ''user''"
| "role_value VIEWER = ''viewer''"

fun resource_type_value :: "resource_type \<Rightarrow> string" where
  "resource_type_value AGENTS = ''agents''"
| "resource_type_value TASKS = ''tasks''"
| "resource_type_value KNOWLEDGE = ''knowledge''"
| "resource_type_value MEMORY = ''memory''"
| "resource_type_value USERS = ''users''"
| "resource_type_value SYSTEM = ''system''"

fun action_value :: "action \<Rightarrow> string" where
  "action_value CREATE = ''create''"
| "action_value READ = ''read''"
| "action_value UPDATE = ''update''"
| "action_value DELETE = ''delete''"
| "action_value EXECUTE = ''execute''"
| "action_value MANAGE = ''manage''"

record permission =
  perm_resource_type :: resource_type
  perm_action :: action
  perm_scope :: "string option"
  perm_description :: string

definition Permission :: "resource_type \<Rightarrow> action \<Rightarrow> string option \<Rightarrow> string \<Rightarrow> permission" where
  "Permission t a s d =
     \<lparr>perm_resource_type = t, perm_action = a, perm_scope = s, perm_description = d\<rparr>"

definition permission_str :: "permission \<Rightarrow> string" where
  "permission_str p =
     resource_type_value (perm_resource_type p) @ '':'' @ action_value (perm_action p)
       @ (case perm_scope p of Some (c # cs) \<Rightarrow> '':'' @ c # cs | _ \<Rightarrow> [])"

definition permission_eq :: "permission \<Rightarrow> permission \<Rightarrow> bool" where
  "permission_eq p q \<longleftrightarrow>
     perm_resource_type p = perm_resource_type q \<and> perm_action p = perm_action q
     \<and> perm_scope p = perm_scope q"

text \<open>Python sets of permissions.\<close>

definition perm_in :: "permission \<Rightarrow> permission list \<Rightarrow> bool" where
  "perm_in p ps \<longleftrightarrow> list_ex (permission_eq p) ps"

definition perm_add :: "permission list \<Rightarrow> permission \<Rightarrow> permission list" where
  "perm_add ps p = (if perm_in p ps then ps else ps @ [p])"

definition perm_update :: "permission list \<Rightarrow> permission list \<Rightarrow> permission list" where
  "perm_update ps qs = foldl perm_add ps qs"

record role_definition =
  rd_name :: role
  rd_display_name :: string
  rd_description :: string
  rd_permissions :: "permission list"
  rd_inherits_from :: "role option"

text \<open>The four membership tests, on the permissions of one role or on those with the inherited.\<close>

definition grants :: "permission list \<Rightarrow> resource_type \<Rightarrow> action \<Rightarrow> string option \<Rightarrow> bool" where
  "grants ps t a s =
     (if perm_in (Permission t a s []) ps then True
      else if perm_in (Permission t a None []) ps then True
      else if perm_in (Permission t MANAGE s []) ps then True
      else if perm_in (Permission t MANAGE None []) ps then True
      else False)"

definition rd_has_permission ::
    "role_definition \<Rightarrow> resource_type \<Rightarrow> action \<Rightarrow> string option \<Rightarrow> bool" where
  "rd_has_permission d t a s = grants (rd_permissions d) t a s"

definition VIEWER_PERMISSIONS :: "permission list" where
  "VIEWER_PERMISSIONS = perm_update []
     [Permission AGENTS READ (Some ''permitted'') ''View agents user has permission to see'',
      Permission TASKS READ (Some ''permitted'') ''View tasks user has permission to see'',
      Permission KNOWLEDGE READ (Some ''permitted'')
        ''View knowledge base items user has permission to see'',
      Permission MEMORY READ (Some ''permitted'') ''View memory user has permission to see'',
      Permission USERS READ (Some ''own'') ''View own user profile'']"

definition USER_PERMISSIONS :: "permission list" where
  "USER_PERMISSIONS = perm_update []
     [Permission AGENTS CREATE None ''Create new agents'',
      Permission AGENTS READ (Some ''own'') ''View own agents'',
      Permission AGENTS UPDATE (Some ''own'') ''Update own agents'',
      Permission AGENTS DELETE (Some ''own'') ''Delete own agents'',
      Permission AGENTS EXECUTE (Some ''own'') ''Execute own agents'',
      Permission TASKS CREATE None ''Create new tasks'',
      Permission TASKS READ (Some ''own'') ''View own tasks'',
      Permission TASKS UPDATE (Some ''own'') ''Update own tasks'',
      Permission TASKS DELETE (Some ''own'') ''Delete own tasks'',
      Permission TASKS EXECUTE (Some ''own'') ''Execute own tasks'',
      Permission KNOWLEDGE CREATE None ''Upload knowledge base items'',
      Permission KNOWLEDGE READ (Some ''own'') ''View own knowledge base items'',
      Permission KNOWLEDGE UPDATE (Some ''own'') ''Update own knowledge base items'',
      Permission KNOWLEDGE DELETE (Some ''own'') ''Delete own knowledge base items'',
      Permission MEMORY READ (Some ''own'') ''View own user memory and skill candidates'',
      Permission MEMORY CREATE (Some ''own'') ''Create memory entries'',
      Permission MEMORY DELETE (Some ''own'') ''Delete own memory entries'',
      Permission USERS READ (Some ''own'') ''View own user profile'',
      Permission USERS UPDATE (Some ''own'') ''Update own user profile'']"

definition MANAGER_PERMISSIONS :: "permission list" where
  "MANAGER_PERMISSIONS = perm_update []
     [Permission AGENTS CREATE None ''Create agents for any user'',
      Permission AGENTS READ None ''View all agents'',
      Permission AGENTS UPDATE None ''Update any agent'',
      Permission AGENTS DELETE None ''Delete any agent'',
      Permission AGENTS EXECUTE None ''Execute any agent'',
      Permission TASKS CREATE None ''Create tasks for any user'',
      Permission TASKS READ None ''View all tasks'',
      Permission TASKS UPDATE None ''Update any task'',
      Permission TASKS DELETE None ''Delete any task'',
      Permission KNOWLEDGE READ None ''View all knowledge base items'',
      Permission KNOWLEDGE UPDATE None ''Update any knowledge base item'',
      Permission MEMORY READ None ''View all memory'',
      Permission USERS READ None ''View all users'',
      Permission USERS CREATE None ''Create new users'',
      Permission USERS UPDATE (Some ''non-admin'') ''Update non-admin users'']"

definition ADMIN_PERMISSIONS :: "permission list" where
  "ADMIN_PERMISSIONS = perm_update []
     [Permission AGENTS MANAGE None ''Full control over all agents'',
      Permission TASKS MANAGE None ''Full control over all tasks'',
      Permission KNOWLEDGE MANAGE None ''Full control over knowledge base'',
      Permission MEMORY MANAGE None ''Full control over memory system'',
      Permission USERS MANAGE None ''Full control over users'',
      Permission SYSTEM MANAGE None ''Full control over system configuration'']"

definition ROLE_DEFINITIONS :: "(role, role_definition) dict" where
  "ROLE_DEFINITIONS =
     [(VIEWER, \<lparr>rd_name = VIEWER, rd_display_name = ''Viewer'',
         rd_description = ''Read-only access to permitted resources'',
         rd_permissions = VIEWER_PERMISSIONS, rd_inherits_from = None\<rparr>),
      (USER, \<lparr>rd_name = USER, rd_display_name = ''User'',
         rd_description = ''Standard user access (create/manage own agents, tasks, knowledge)'',
         rd_permissions = USER_PERMISSIONS, rd_inherits_from = Some VIEWER\<rparr>),
      (MANAGER, \<lparr>rd_name = MANAGER, rd_display_name = ''Manager'',
         rd_description = ''Manage users and agents, view all data'',
         rd_permissions = MANAGER_PERMISSIONS, rd_inherits_from = Some USER\<rparr>),
      (ADMIN, \<lparr>rd_name = ADMIN, rd_display_name = ''Administrator'',
         rd_description = ''Full system access (all permissions)'',
         rd_permissions = ADMIN_PERMISSIONS, rd_inherits_from = Some MANAGER\<rparr>)]"

definition get_role_definition :: "role \<Rightarrow> role_definition option" where
  "get_role_definition r = dict_get ROLE_DEFINITIONS r"

definition get_role_hierarchy :: "(role, nat) dict" where
  "get_role_hierarchy = [(VIEWER, 1), (USER, 2), (MANAGER, 3), (ADMIN, 4)]"

definition role_level :: "role \<Rightarrow> nat" where
  "role_level r = (case dict_get get_role_hierarchy r of Some n \<Rightarrow> n | None \<Rightarrow> 0)"

definition is_role_higher_or_equal :: "role \<Rightarrow> role \<Rightarrow> bool" where
  "is_role_higher_or_equal r1 r2 \<longleftrightarrow> role_level r1 \<ge> role_level r2"

text \<open>\<open>get_all_permissions\<close> follows \<open>inherits_from\<close>; every parent is a lower role.\<close>

lemma inherits_lower:
  "dict_get ROLE_DEFINITIONS r = Some d \<Longrightarrow> rd_inherits_from d = Some r' \<Longrightarrow> role_level r' < role_level r"
  by (cases r) (auto simp: dict_get_def ROLE_DEFINITIONS_def role_level_def get_role_hierarchy_def)

function get_all_permissions :: "role_definition \<Rightarrow> permission list" where
  "get_all_permissions d =
     (case rd_inherits_from d of
        None \<Rightarrow> rd_permissions d
      | Some r \<Rightarrow>
          (case dict_get ROLE_DEFINITIONS r of
             None \<Rightarrow> rd_permissions d
           | Some p \<Rightarrow> perm_update (rd_permissions d) (get_all_permissions p)))"
  by pat_completeness auto
termination get_all_permissions
  by (relation "measure (\<lambda>d. case rd_inherits_from d of None \<Rightarrow> 0 | Some r \<Rightarrow> Suc (role_level r))")
    (auto dest: inherits_lower split: option.splits)

declare get_all_permissions.simps [simp del]

fun role_of_value :: "string \<Rightarrow> role option" where
  "role_of_value s =
     (if s = ''admin'' then Some ADMIN else if s = ''manager'' then Some MANAGER
      else if s = ''user'' then Some USER else if s = ''viewer'' then Some VIEWER else None)"

declare role_of_value.simps [simp del]

definition validate_role :: "string \<Rightarrow> bool" where
  "validate_role s = (case role_of_value s of Some _ \<Rightarrow> True | None \<Rightarrow> False)"

definition get_all_roles :: "role list" where
  "get_all_roles = [ADMIN, MANAGER, USER, VIEWER]"

definition check_permission :: "role \<Rightarrow> resource_type \<Rightarrow> action \<Rightarrow> string option \<Rightarrow> bool" where
  "check_permission r t a s =
     (case get_role_definition r of
        None \<Rightarrow> False
      | Some d \<Rightarrow> grants (get_all_permissions d) t a s)"

definition get_role_permissions :: "role \<Rightarrow> bool \<Rightarrow> permission list" where
  "get_role_permissions r include_inherited =
     (case get_role_definition r of
        None \<Rightarrow> []
      | Some d \<Rightarrow> if include_inherited then get_all_permissions d else rd_permissions d)"

record role_summary =
  rs_display_name :: string
  rs_description :: string
  rs_inherits_from :: "string option"
  rs_direct_permissions :: nat
  rs_total_permissions :: nat
  rs_permissions :: "string list"

definition get_role_summary :: "(string, role_summary) dict" where
  "get_role_summary =
     fold (\<lambda>r summary.
        (case get_role_definition r of
           None \<Rightarrow> summary
         | Some d \<Rightarrow>
             (let all_perms = get_all_permissions d
              in dict_set (role_value r)
                   \<lparr>rs_display_name = rd_display_name d, rs_description = rd_description d,
                    rs_inherits_from = map_option role_value (rd_inherits_from d),
                    rs_direct_permissions = length (rd_permissions d),
                    rs_total_permissions = length all_perms,
                    rs_permissions = sort (map permission_str all_perms)\<rparr> summary)))
       get_all_roles []"

subsection \<open>Inheritance\<close>

lemma permission_eq_refl [simp]: "permission_eq p p"
  by (simp add: permission_eq_def)

lemma permission_eq_cong: "permission_eq p q \<Longrightarrow> permission_eq p r \<longleftrightarrow> permission_eq q r"
  by (auto simp: permission_eq_def)

lemma perm_in_cong: "permission_eq p q \<Longrightarrow> perm_in p ps \<longleftrightarrow> perm_in q ps"
  unfolding perm_in_def list_ex_iff using permission_eq_cong by blast

lemma perm_in_add [simp]: "perm_in p (perm_add ps q) \<longleftrightarrow> perm_in p ps \<or> permission_eq p q"
  using perm_in_cong[of p q ps] by (auto simp: perm_add_def perm_in_def)

lemma perm_in_Nil [simp]: "\<not> perm_in p []"
  by (simp add: perm_in_def)

lemma perm_in_Cons [simp]: "perm_in p (q # qs) \<longleftrightarrow> permission_eq p q \<or> perm_in p qs"
  by (simp add: perm_in_def)

lemma perm_update_simps [simp]:
  "perm_update ps [] = ps" "perm_update ps (q # qs) = perm_update (perm_add ps q) qs"
  by (simp_all add: perm_update_def)

lemma perm_in_update [simp]: "perm_in p (perm_update ps qs) \<longleftrightarrow> perm_in p ps \<or> perm_in p qs"
  by (induction qs arbitrary: ps) auto

instantiation role :: linorder
begin

definition less_eq_role :: "role \<Rightarrow> role \<Rightarrow> bool" where
  "r1 \<le> r2 \<longleftrightarrow> is_role_higher_or_equal r2 r1"

definition less_role :: "role \<Rightarrow> role \<Rightarrow> bool" where
  "r1 < r2 \<longleftrightarrow> is_role_higher_or_equal r2 r1 \<and> \<not> is_role_higher_or_equal r1 r2"

instance
proof
  fix r1 r2 :: role
  show "r1 \<le> r2 \<Longrightarrow> r2 \<le> r1 \<Longrightarrow> r1 = r2"
    by (cases r1; cases r2)
      (simp_all add: less_eq_role_def is_role_higher_or_equal_def role_level_def
        get_role_hierarchy_def dict_get_def)
qed (auto simp: less_eq_role_def less_role_def is_role_higher_or_equal_def)

end

definition direct_permissions :: "role \<Rightarrow> permission list" where
  "direct_permissions r = get_role_permissions r False"

lemma role_le [simp]:
  "VIEWER \<le> r" "r \<le> ADMIN" "USER \<le> r \<longleftrightarrow> r \<noteq> VIEWER" "MANAGER \<le> r \<longleftrightarrow> r = MANAGER \<or> r = ADMIN"
  "r \<le> VIEWER \<longleftrightarrow> r = VIEWER" "r \<le> USER \<longleftrightarrow> r = USER \<or> r = VIEWER" "r \<le> MANAGER \<longleftrightarrow> r \<noteq> ADMIN"
  "ADMIN \<le> r \<longleftrightarrow> r = ADMIN"
  by (cases r; simp add: less_eq_role_def is_role_higher_or_equal_def role_level_def
      get_role_hierarchy_def dict_get_def)+

lemma role_def_simps:
  "get_role_definition r = Some d \<Longrightarrow> direct_permissions r = rd_permissions d"
  by (simp add: direct_permissions_def get_role_permissions_def)

lemma ex_role: "(\<exists>r'. P r') \<longleftrightarrow> P ADMIN \<or> P MANAGER \<or> P USER \<or> P VIEWER"
  by (metis role.exhaust)

lemma perm_in_all:
  "perm_in p (get_role_permissions r True) \<longleftrightarrow> (\<exists>r' \<le> r. perm_in p (direct_permissions r'))"
proof -
  have step: "get_role_permissions r True
      = (case r of
           VIEWER \<Rightarrow> direct_permissions VIEWER
         | USER \<Rightarrow> perm_update (direct_permissions USER) (get_role_permissions VIEWER True)
         | MANAGER \<Rightarrow> perm_update (direct_permissions MANAGER) (get_role_permissions USER True)
         | ADMIN \<Rightarrow> perm_update (direct_permissions ADMIN) (get_role_permissions MANAGER True))" for r
    by (cases r)
      (simp_all add: get_role_permissions_def direct_permissions_def get_role_definition_def
        ROLE_DEFINITIONS_def dict_get_def get_all_permissions.simps)
  show ?thesis
    by (cases r) (auto simp: ex_role step[of ADMIN] step[of MANAGER] step[of USER] step[of VIEWER])
qed

lemma grants_iff:
  "grants ps t a s \<longleftrightarrow>
     (\<exists>b \<in> {a, MANAGE}. \<exists>z \<in> {s, None}. perm_in (Permission t b z []) ps)"
  by (auto simp: grants_def)

lemma check_permission_grants:
  "check_permission r t a s \<longleftrightarrow> grants (get_role_permissions r True) t a s"
  by (cases r) (simp_all add: check_permission_def get_role_permissions_def get_role_definition_def
      ROLE_DEFINITIONS_def dict_get_def)

lemma check_permission_direct:
  "check_permission r t a s \<longleftrightarrow> (\<exists>r' \<le> r. grants (direct_permissions r') t a s)"
  unfolding check_permission_grants grants_iff perm_in_all by blast


lemmas perm_set_defs =
  direct_permissions_def get_role_permissions_def get_role_definition_def ROLE_DEFINITIONS_def
  dict_get_def VIEWER_PERMISSIONS_def USER_PERMISSIONS_def MANAGER_PERMISSIONS_def
  ADMIN_PERMISSIONS_def

declare perm_update_simps [simp del]

lemma permission_eq_Permission [simp]:
  "permission_eq (Permission t a s d) (Permission t' a' s' d') \<longleftrightarrow> t = t' \<and> a = a' \<and> s = s'"
  by (simp add: permission_eq_def Permission_def)

lemma viewer_grants:
  "grants (direct_permissions VIEWER) t a s \<longleftrightarrow>
     a = READ \<and> (t = USERS \<and> s = Some ''own'' \<or> t \<in> {AGENTS, TASKS, KNOWLEDGE, MEMORY} \<and> s = Some ''permitted'')"
  by (cases t; cases a) (auto simp: grants_def perm_set_defs)

lemma user_grants:
  "grants (direct_permissions USER) t a s \<longleftrightarrow>
     a = CREATE \<and> t \<in> {AGENTS, TASKS, KNOWLEDGE}
     \<or> s = Some ''own''
       \<and> (t \<in> {AGENTS, TASKS} \<and> a \<in> {READ, UPDATE, DELETE, EXECUTE}
          \<or> t = KNOWLEDGE \<and> a \<in> {READ, UPDATE, DELETE}
          \<or> t = MEMORY \<and> a \<in> {READ, CREATE, DELETE} \<or> t = USERS \<and> a \<in> {READ, UPDATE})"
  by (cases t; cases a) (auto simp: grants_def perm_set_defs)

lemma manager_grants:
  "grants (direct_permissions MANAGER) t a s \<longleftrightarrow>
     t = AGENTS \<and> a \<noteq> MANAGE \<or> t = TASKS \<and> a \<in> {CREATE, READ, UPDATE, DELETE}
     \<or> t = KNOWLEDGE \<and> a \<in> {READ, UPDATE} \<or> t = MEMORY \<and> a = READ
     \<or> t = USERS \<and> (a \<in> {READ, CREATE} \<or> a = UPDATE \<and> s = Some ''non-admin'')"
  by (cases t; cases a) (auto simp: grants_def perm_set_defs)

lemma admin_grants: "grants (direct_permissions ADMIN) t a s"
  by (cases t) (auto simp: grants_def perm_set_defs)

lemmas role_grants = viewer_grants user_grants manager_grants admin_grants

lemma check_VIEWER: "check_permission VIEWER t a s \<longleftrightarrow> grants (direct_permissions VIEWER) t a s"
  and check_USER: "check_permission USER t a s \<longleftrightarrow>
    grants (direct_permissions USER) t a s \<or> grants (direct_permissions VIEWER) t a s"
  and check_MANAGER: "check_permission MANAGER t a s \<longleftrightarrow>
    grants (direct_permissions MANAGER) t a s \<or> grants (direct_permissions USER) t a s
    \<or> grants (direct_permissions VIEWER) t a s"
  and check_ADMIN: "check_permission ADMIN t a s"
  by (auto simp: check_permission_direct ex_role admin_grants)

lemmas check_role = check_VIEWER check_USER check_MANAGER check_ADMIN

text \<open>C8: A role is granted a request exactly when it or a role below it in the hierarchy has the
  permission in its own set. So privileges grow along \<open>admin > manager > user > viewer\<close>, the
  administrator may do everything, and a viewer may only read: what is permitted to it, and its
  own profile.\<close>

theorem check_permission_hierarchy:
  "(check_permission r t a s
      \<longleftrightarrow> (\<exists>r' d. is_role_higher_or_equal r r' \<and> get_role_definition r' = Some d
               \<and> rd_has_permission d t a s))
   \<and> (is_role_higher_or_equal r r0 \<and> check_permission r0 t a s \<longrightarrow> check_permission r t a s)
   \<and> check_permission ADMIN t a s
   \<and> (check_permission VIEWER t a s \<longleftrightarrow>
        a = READ \<and> (t = USERS \<and> s = Some ''own''
                    \<or> t \<in> {AGENTS, TASKS, KNOWLEDGE, MEMORY} \<and> s = Some ''permitted''))"
proof -
  have d: "\<exists>d. get_role_definition r' = Some d" for r'
    by (cases r') (simp_all add: get_role_definition_def ROLE_DEFINITIONS_def dict_get_def)
  have "check_permission r t a s
      \<longleftrightarrow> (\<exists>r' d. is_role_higher_or_equal r r' \<and> get_role_definition r' = Some d
               \<and> rd_has_permission d t a s)"
    using d role_def_simps
    by (fastforce simp: check_permission_direct less_eq_role_def rd_has_permission_def)
  moreover have "check_permission r t a s"
    if "is_role_higher_or_equal r r0" "check_permission r0 t a s"
    using that unfolding check_permission_direct less_eq_role_def[symmetric]
    by (blast intro: order_trans)
  ultimately show ?thesis by (simp add: check_role viewer_grants)
qed

theorem check_permission_hierarchy_witness:
  "check_permission MANAGER KNOWLEDGE DELETE (Some ''own'')"
proof -
  have "is_role_higher_or_equal MANAGER USER"
    by (simp add: is_role_higher_or_equal_def role_level_def get_role_hierarchy_def dict_get_def)
  moreover have "check_permission USER KNOWLEDGE DELETE (Some ''own'')"
    by (simp add: check_USER user_grants)
  ultimately show ?thesis
    using check_permission_hierarchy[of MANAGER KNOWLEDGE DELETE "Some ''own''" USER] by blast
qed

subsection \<open>What a decision function promises\<close>

locale permission_source =
  fixes holds :: "'u \<Rightarrow> resource_type \<Rightarrow> action \<Rightarrow> string option \<Rightarrow> bool"
  assumes any_scope: "holds u t a None \<Longrightarrow> holds u t a s"
    and any_action: "holds u t MANAGE s \<Longrightarrow> holds u t a s"
begin

lemma manage_everything: "holds u t MANAGE None \<Longrightarrow> holds u t a s"
  by (blast intro: any_scope any_action)

lemma unrestricted_if_not_scoped: "\<not> holds u t a (Some s) \<Longrightarrow> \<not> holds u t a None"
  using any_scope by blast

end

interpretation role_perms: permission_source check_permission
  by unfold_locales (auto simp: check_permission_grants grants_iff)

subsection \<open>The current user\<close>

record current_user =
  cu_user_id :: string
  cu_username :: string
  cu_role :: string
  cu_token_jti :: "string option"
  cu_session_id :: "string option"

definition CurrentUser :: "string \<Rightarrow> string \<Rightarrow> string \<Rightarrow> string option \<Rightarrow> string option \<Rightarrow> current_user" where
  "CurrentUser user_id username role token_jti session_id =
     \<lparr>cu_user_id = user_id, cu_username = username, cu_role = role, cu_token_jti = token_jti,
      cu_session_id = str_or session_id token_jti\<rparr>"

definition has_permission :: "current_user \<Rightarrow> resource_type \<Rightarrow> action \<Rightarrow> string option \<Rightarrow> bool" where
  "has_permission u t a s =
     (case role_of_value (cu_role u) of None \<Rightarrow> False | Some r \<Rightarrow> check_permission r t a s)"

text \<open>An optional string counts as present when it is not empty.\<close>

definition str_present :: "string option \<Rightarrow> bool" where
  "str_present v = (case v of Some (c # cs) \<Rightarrow> True | _ \<Rightarrow> False)"

lemma str_present_Some [simp]: "str_present (Some s) \<longleftrightarrow> s \<noteq> []" "\<not> str_present None"
  by (simp_all add: str_present_def split: list.splits)

definition can_access_resource ::
    "current_user \<Rightarrow> resource_type \<Rightarrow> action \<Rightarrow> string option \<Rightarrow> bool" where
  "can_access_resource u t a owner =
     (if has_permission u t a None then True
      else if str_present owner \<and> has_permission u t a (Some ''own'')
        then Some (cu_user_id u) = owner
      else if has_permission u t a (Some ''permitted'') then True
      else False)"

definition user_to_dict :: "current_user \<Rightarrow> (string, string) dict" where
  "user_to_dict u =
     [(''user_id'', cu_user_id u), (''username'', cu_username u), (''role'', cu_role u)]"

text \<open>A denied request ends in an HTTP error with its status and detail.\<close>

datatype http_error = HTTPException nat string

definition forbidden :: "action \<Rightarrow> string \<Rightarrow> resource_type \<Rightarrow> http_error" where
  "forbidden a this t =
     HTTPException 403 (''Insufficient permissions to '' @ action_value a @ this @ resource_type_value t)"

text \<open>
  The wrapper that \<open>require_permission\<close> puts around an endpoint: \<open>get_owner\<close> is \<open>Some\<close> of what the
  given \<open>get_resource_owner\<close> returns (or raises) for this request, \<open>endpoint\<close> what the wrapped
  function returns.
\<close>

definition require_permission ::
    "resource_type \<Rightarrow> action \<Rightarrow> string option \<Rightarrow> (http_error + string option) option
     \<Rightarrow> current_user option \<Rightarrow> http_error + 'r \<Rightarrow> http_error + 'r" where
  "require_permission t a scope get_owner user endpoint =
     (case user of
        None \<Rightarrow> Inl (HTTPException 401 ''Authentication required'')
      | Some u \<Rightarrow>
          (case (get_owner, scope = Some ''own'') of
             (Some owner, True) \<Rightarrow>
               (case owner of
                  Inl e \<Rightarrow> Inl e
                | Inr owner_id \<Rightarrow>
                    if \<not> can_access_resource u t a owner_id then Inl (forbidden a '' '' t)
                    else endpoint)
           | _ \<Rightarrow> if \<not> has_permission u t a scope then Inl (forbidden a '' '' t) else endpoint))"

definition require_role ::
    "role list \<Rightarrow> current_user option \<Rightarrow> http_error + 'r \<Rightarrow> http_error + 'r" where
  "require_role required user endpoint =
     (case user of
        None \<Rightarrow> Inl (HTTPException 401 ''Authentication required'')
      | Some u \<Rightarrow>
          (case role_of_value (cu_role u) of
             None \<Rightarrow> Inl (HTTPException 403 ''Invalid user role'')
           | Some r \<Rightarrow>
               if r \<notin> set required
               then Inl (HTTPException 403
                      (''Requires one of roles: '' @ py_join '', '' (map role_value required)))
               else endpoint))"

definition check_resource_ownership :: "string \<Rightarrow> string \<Rightarrow> bool" where
  "check_resource_ownership user_id owner_id \<longleftrightarrow> user_id = owner_id"

definition check_user_permission ::
    "string \<Rightarrow> resource_type \<Rightarrow> action \<Rightarrow> string option \<Rightarrow> string option \<Rightarrow> string option \<Rightarrow> bool" where
  "check_user_permission user_role t a scope owner_id user_id =
     (case role_of_value user_role of
        None \<Rightarrow> False
      | Some r \<Rightarrow>
          if \<not> check_permission r t a scope then False
          else if scope = Some ''own'' \<and> str_present owner_id \<and> str_present user_id
            then check_resource_ownership (the user_id) (the owner_id)
          else True)"

text \<open>
  A listed item is a dictionary; \<open>other_text\<close> is what Python's \<open>str\<close> gives for floats and
  containers in its owner field.
\<close>

definition owner_text :: "(pyval \<Rightarrow> string) \<Rightarrow> string \<Rightarrow> (string, pyval) dict \<Rightarrow> string" where
  "owner_text other_text fld item =
     py_text other_text (case dict_get item fld of None \<Rightarrow> PNone | Some v \<Rightarrow> v)"

definition filter_by_permission ::
    "(pyval \<Rightarrow> string) \<Rightarrow> (string, pyval) dict list \<Rightarrow> current_user \<Rightarrow> resource_type \<Rightarrow> action
     \<Rightarrow> string \<Rightarrow> (string, pyval) dict list" where
  "filter_by_permission other_text items u t a fld =
     (if has_permission u t a None then items
      else if has_permission u t a (Some ''own'')
        then filter (\<lambda>item. owner_text other_text fld item = cu_user_id u) items
      else if has_permission u t a (Some ''permitted'')
        then filter (\<lambda>item. owner_text other_text fld item = cu_user_id u) items
      else [])"

definition get_permission_scope :: "current_user \<Rightarrow> resource_type \<Rightarrow> action \<Rightarrow> string option" where
  "get_permission_scope u t a =
     (if has_permission u t a None then None
      else if has_permission u t a (Some ''own'') then Some ''own''
      else if has_permission u t a (Some ''permitted'') then Some ''permitted''
      else Some ''none'')"

definition verify_resource_access ::
    "current_user \<Rightarrow> resource_type \<Rightarrow> action \<Rightarrow> string option \<Rightarrow> bool \<Rightarrow> http_error + bool" where
  "verify_resource_access u t a owner raise_on_deny =
     (let has_access = can_access_resource u t a owner
      in if \<not> has_access \<and> raise_on_deny then Inl (forbidden a '' this '' t) else Inr has_access)"

subsection \<open>Skill-learning data\<close>

definition coerce_role :: "current_user \<Rightarrow> role option" where
  "coerce_role u = role_of_value (cu_role u)"

definition can_access_skill_learning :: "current_user \<Rightarrow> string \<Rightarrow> action \<Rightarrow> bool" where
  "can_access_skill_learning u agent_owner_id a =
     (case coerce_role u of
        None \<Rightarrow> False
      | Some r \<Rightarrow>
          if check_permission r MEMORY a None then True
          else if agent_owner_id = cu_user_id u \<and> check_permission r MEMORY a (Some ''own'') then True
          else False)"

definition check_skill_learning_write_permission :: "current_user \<Rightarrow> string option \<Rightarrow> bool" where
  "check_skill_learning_write_permission u agent_owner_id =
     (case coerce_role u of
        None \<Rightarrow> False
      | Some r \<Rightarrow>
          if check_permission r MEMORY CREATE None then True
          else str_present agent_owner_id \<and> agent_owner_id = Some (cu_user_id u)
               \<and> check_permission r MEMORY CREATE (Some ''own''))"

definition check_skill_learning_delete_permission :: "current_user \<Rightarrow> string option \<Rightarrow> bool" where
  "check_skill_learning_delete_permission u agent_owner_id =
     (case coerce_role u of
        None \<Rightarrow> False
      | Some r \<Rightarrow>
          if check_permission r MEMORY DELETE None then True
          else str_present agent_owner_id \<and> agent_owner_id = Some (cu_user_id u)
               \<and> check_permission r MEMORY DELETE (Some ''own''))"

subsection \<open>Decisions on resources\<close>

interpretation user_perms: permission_source has_permission
  by unfold_locales
    (auto simp: has_permission_def split: option.splits
      intro: role_perms.any_scope role_perms.any_action)

lemma has_permission_role:
  "role_of_value (cu_role u) = Some r \<Longrightarrow> has_permission u t a s \<longleftrightarrow> check_permission r t a s"
  by (simp add: has_permission_def )

lemma can_access_own:
  "can_access_resource u t a owner \<Longrightarrow> str_present owner \<Longrightarrow> has_permission u t a (Some ''own'') \<Longrightarrow>
   \<not> has_permission u t a None \<Longrightarrow> owner = Some (cu_user_id u)"
  by (auto simp: can_access_resource_def)

text \<open>C12: What \<open>can_access_resource\<close> decides on a resource that belongs to somebody else, for every
  role, resource type and action. An administrator may do everything, a manager what its own
  permissions without scope allow, a user may only create. But a viewer may read every agent,
  task, knowledge item and memory, which a user, whose role inherits the viewer's permissions,
  may not.\<close>

theorem access_to_foreign_resource:
  assumes r: "role_of_value (cu_role u) = Some r" and o: "owner \<noteq> []" "owner \<noteq> cu_user_id u"
  shows "can_access_resource u t a (Some owner) \<longleftrightarrow>
    r = ADMIN
    \<or> r = MANAGER
      \<and> (t = AGENTS \<and> a \<noteq> MANAGE \<or> t = TASKS \<and> a \<in> {CREATE, READ, UPDATE, DELETE}
         \<or> t = KNOWLEDGE \<and> a \<in> {CREATE, READ, UPDATE} \<or> t = MEMORY \<and> a = READ
         \<or> t = USERS \<and> a \<in> {CREATE, READ})
    \<or> r = USER \<and> a = CREATE \<and> t \<in> {AGENTS, TASKS, KNOWLEDGE}
    \<or> r = VIEWER \<and> a = READ \<and> t \<in> {AGENTS, TASKS, KNOWLEDGE, MEMORY}"
  using o unfolding can_access_resource_def has_permission_role[OF r]
  by (cases r; cases t; cases a; simp add: check_role role_grants)

theorem access_to_foreign_resource_witness:
  "can_access_resource (CurrentUser ''u1'' ''ann'' ''viewer'' None None) TASKS READ (Some ''u2'')
   \<and> \<not> can_access_resource (CurrentUser ''u1'' ''ann'' ''user'' None None) TASKS READ (Some ''u2'')"
  using access_to_foreign_resource[of "CurrentUser ''u1'' ''ann'' ''viewer'' None None" VIEWER "''u2''" TASKS READ]
    access_to_foreign_resource[of "CurrentUser ''u1'' ''ann'' ''user'' None None" USER "''u2''" TASKS READ]
  by (simp add: CurrentUser_def role_of_value.simps)

text \<open>Lists and single requests agree. An item with an owner that \<open>filter_by_permission\<close> keeps
  is one that \<open>can_access_resource\<close> grants, and as long as the widest scope of the user is not
  \<open>permitted\<close> the list holds exactly the items that would be granted one by one.\<close>

theorem filter_agrees_with_access:
  assumes "\<And>item. item \<in> set items \<Longrightarrow> \<exists>s. dict_get item fld = Some (PStr s) \<and> s \<noteq> []"
  shows "set (filter_by_permission txt items u t a fld)
      \<subseteq> {item \<in> set items. can_access_resource u t a (Some (owner_text txt fld item))}
    \<and> (get_permission_scope u t a \<noteq> Some ''permitted'' \<longrightarrow>
         filter_by_permission txt items u t a fld
           = filter (\<lambda>item. can_access_resource u t a (Some (owner_text txt fld item))) items)"
proof -
  have ne: "owner_text txt fld item \<noteq> []" if "item \<in> set items" for item
    using assms[OF that] by (auto simp: owner_text_def)
  have "item \<in> set items \<and> can_access_resource u t a (Some (owner_text txt fld item))"
    if "item \<in> set (filter_by_permission txt items u t a fld)" for item
    using that ne
    by (auto simp: filter_by_permission_def can_access_resource_def split: if_splits)
  moreover have "filter_by_permission txt items u t a fld
           = filter (\<lambda>item. can_access_resource u t a (Some (owner_text txt fld item))) items"
    if "get_permission_scope u t a \<noteq> Some ''permitted''"
    using that ne
    by (auto simp: get_permission_scope_def filter_by_permission_def can_access_resource_def
        intro!: filter_cong split: if_splits)
  ultimately show ?thesis by blast
qed

theorem filter_agrees_with_access_witness:
  "let items = [[(''owner_user_id'', PStr ''u1'')], [(''owner_user_id'', PStr ''u2'')]];
       u = CurrentUser ''u1'' ''ann'' ''user'' None None
   in filter_by_permission (\<lambda>v. []) items u TASKS UPDATE ''owner_user_id''
        = filter (\<lambda>item. can_access_resource u TASKS UPDATE
            (Some (owner_text (\<lambda>v. []) ''owner_user_id'' item))) items"
proof -
  let ?items = "[[(''owner_user_id'', PStr ''u1'')], [(''owner_user_id'', PStr ''u2'')]]"
  let ?u = "CurrentUser ''u1'' ''ann'' ''user'' None None"
  have "\<exists>s. dict_get item ''owner_user_id'' = Some (PStr s) \<and> s \<noteq> []" if "item \<in> set ?items" for item
    using that by (auto simp: dict_get_def)
  moreover have "get_permission_scope ?u TASKS UPDATE = Some ''own''"
    by (simp add: get_permission_scope_def CurrentUser_def has_permission_def check_role role_grants
        role_of_value.simps)
  ultimately show ?thesis
    using filter_agrees_with_access[of ?items "''owner_user_id''" "\<lambda>v. []" ?u TASKS UPDATE] by simp
qed

lemma not_permitted_unless_read:
  "a \<noteq> READ \<Longrightarrow> check_permission r t a (Some ''permitted'') \<Longrightarrow> check_permission r t a None"
  by (cases r) (auto simp: check_role role_grants)

text \<open>An endpoint that changes a resource, guarded with scope \<open>own\<close> and told the owner, runs
  exactly for a user with a valid role who has the permission without scope, or has it for own
  resources and is the owner. Nobody else gets anything but an error.\<close>

theorem guarded_endpoint_runs:
  assumes "a \<noteq> READ" and "owner \<noteq> []"
  shows "require_permission t a (Some ''own'') (Some (Inr (Some owner))) user endpoint = Inr x \<longleftrightarrow>
    endpoint = Inr x
    \<and> (\<exists>u r. user = Some u \<and> role_of_value (cu_role u) = Some r
         \<and> (check_permission r t a None
            \<or> check_permission r t a (Some ''own'') \<and> owner = cu_user_id u))"
  using assms not_permitted_unless_read[OF assms(1)]
  by (auto simp: require_permission_def can_access_resource_def has_permission_def
      split: option.splits)

theorem guarded_endpoint_runs_witness:
  "require_permission TASKS DELETE (Some ''own'') (Some (Inr (Some ''u1'')))
     (Some (CurrentUser ''u1'' ''ann'' ''user'' None None)) (Inr (1 :: nat)) = Inr 1
   \<and> require_permission TASKS DELETE (Some ''own'') (Some (Inr (Some ''u2'')))
       (Some (CurrentUser ''u1'' ''ann'' ''user'' None None)) (Inr (1 :: nat)) \<noteq> Inr 1"
  using guarded_endpoint_runs[of DELETE "''u1''" TASKS "Some (CurrentUser ''u1'' ''ann'' ''user'' None None)" "Inr (1 :: nat)" 1]
    guarded_endpoint_runs[of DELETE "''u2''" TASKS "Some (CurrentUser ''u1'' ''ann'' ''user'' None None)" "Inr (1 :: nat)" 1]
  by (simp add: CurrentUser_def check_role role_grants role_of_value.simps)

lemma require_role_exact:
  "require_role required (Some u) endpoint = Inr x \<longleftrightarrow>
     (\<exists>r \<in> set required. role_of_value (cu_role u) = Some r) \<and> endpoint = Inr x"
  by (auto simp: require_role_def split: option.splits)

lemma verify_agrees:
  "verify_resource_access u t a owner False = Inr (can_access_resource u t a owner)"
  "verify_resource_access u t a owner True = Inr b \<longleftrightarrow> b \<and> can_access_resource u t a owner"
  by (auto simp: verify_resource_access_def Let_def)

text \<open>
  The programmatic check decides an \<open>own\<close> request like the user object when both identifiers
  are given, and grants it on the permission alone when one is missing.
\<close>

lemma check_user_permission_own:
  assumes "role_of_value (cu_role u) = Some r" and "\<not> check_permission r t a None"
    and "check_permission r t a (Some ''own'')" and "str_present owner" and "cu_user_id u \<noteq> []"
  shows "check_user_permission (cu_role u) t a (Some ''own'') owner (Some (cu_user_id u))
       = can_access_resource u t a owner"
    and "check_user_permission (cu_role u) t a (Some ''own'') None (Some (cu_user_id u))"
proof -
  obtain owner_id where "owner = Some owner_id" "owner_id \<noteq> []"
    using assms(4) by (cases owner) auto
  then show "check_user_permission (cu_role u) t a (Some ''own'') owner (Some (cu_user_id u))
      = can_access_resource u t a owner"
    using assms
    by (simp add: check_user_permission_def can_access_resource_def has_permission_role
        check_resource_ownership_def)
  show "check_user_permission (cu_role u) t a (Some ''own'') None (Some (cu_user_id u))"
    using assms(1,3) by (simp add: check_user_permission_def)
qed

text \<open>Skill-learning access is ownership based for every role, a viewer's included.\<close>

lemma skill_learning_agrees:
  assumes "role_of_value (cu_role u) = Some r" and "r \<noteq> VIEWER" and "owner \<noteq> []"
  shows "can_access_skill_learning u owner a = can_access_resource u MEMORY a (Some owner)"
  using assms(2,3) unfolding can_access_resource_def has_permission_role[OF assms(1)]
    can_access_skill_learning_def coerce_role_def assms(1)
  by (cases r) (auto simp: check_role role_grants)

end
