(* ===== verification/Jwt_Auth.thy ===== *)
theory Jwt_Auth
  imports Rbac State_Machine
begin

section \<open>Tokens, sessions and authentication\<close>

text \<open>
  \<open>access_control/jwt_auth.py\<close> and the authentication part of \<open>access_control/permissions.py\<close>:
  issuing access and refresh tokens, decoding and refreshing them, the in-memory blacklists of
  tokens and sessions, the persistent list of revoked sessions, and \<open>get_current_user\<close>.

  The library \<open>jose\<close> is a parameter: \<open>enc key alg payload\<close> is \<open>jwt.encode\<close>, \<open>dec key alg now token\<close>
  is \<open>jwt.decode\<close> at the instant \<open>now\<close>; a token is a value of any type, since the code only hands
  it on. What is assumed of the library is the predicate \<open>jose_ok\<close>: it reads back what it signed
  under the same key, with the instants of \<open>exp\<close> and \<open>iat\<close> as whole seconds, and raises
  \<open>ExpiredSignatureError\<close> once the clock is past \<open>exp\<close>. The claims of a decoded token are those
  the service writes, each present or missing; other JSON types in them are not modelled.
  \<open>uuid4()\<close> and the successive values of \<open>utcnow()\<close> are arguments.
\<close>

subsection \<open>Tokens\<close>

record jwt_payload =
  jp_user_id :: string
  jp_username :: string
  jp_role :: string
  jp_token_type :: string
  jp_exp :: timestamp
  jp_iat :: timestamp
  jp_jti :: string
  jp_session_id :: string

record jwt_claims =
  jc_user_id :: "string option"
  jc_username :: "string option"
  jc_role :: "string option"
  jc_token_type :: "string option"
  jc_exp :: "int option"
  jc_iat :: "int option"
  jc_jti :: "string option"
  jc_session_id :: "string option"

datatype jose_error = ExpiredSignatureError | OtherJWTError string

type_synonym 'tok jwt_encode = "string \<Rightarrow> string \<Rightarrow> jwt_payload \<Rightarrow> 'tok"
type_synonym 'tok jwt_decode = "string \<Rightarrow> string \<Rightarrow> timestamp \<Rightarrow> 'tok \<Rightarrow> jose_error + jwt_claims"

definition epoch_seconds :: "timestamp \<Rightarrow> int" where
  "epoch_seconds t = t div 1000000"

definition claims_of :: "jwt_payload \<Rightarrow> jwt_claims" where
  "claims_of p =
     \<lparr>jc_user_id = Some (jp_user_id p), jc_username = Some (jp_username p),
      jc_role = Some (jp_role p), jc_token_type = Some (jp_token_type p),
      jc_exp = Some (epoch_seconds (jp_exp p)), jc_iat = Some (epoch_seconds (jp_iat p)),
      jc_jti = Some (jp_jti p), jc_session_id = Some (jp_session_id p)\<rparr>"

definition jose_ok :: "'tok jwt_encode \<Rightarrow> 'tok jwt_decode \<Rightarrow> bool" where
  "jose_ok enc dec \<longleftrightarrow>
     (\<forall>key alg now p. dec key alg now (enc key alg p)
        = (if jp_exp p div 1000000 < now div 1000000 then Inl ExpiredSignatureError
           else Inr (claims_of p)))"

record token_data =
  td_user_id :: string
  td_username :: string
  td_role :: string
  td_token_type :: string
  td_exp :: "int option"
  td_iat :: "int option"
  td_jti :: "string option"
  td_session_id :: "string option"

record 'tok token_pair =
  tp_access_token :: 'tok
  tp_refresh_token :: 'tok
  tp_token_type :: string
  tp_expires_in :: int

datatype jwt_error =
    JWTTokenExpiredError
  | JWTTokenInvalidError string
  | OtherException py_error

text \<open>The module's two blacklists.\<close>

record blacklists =
  bl_tokens :: "string set"
  bl_sessions :: "string set"

definition empty_blacklists :: blacklists where
  "empty_blacklists = \<lparr>bl_tokens = {}, bl_sessions = {}\<rparr>"

record jwt_settings =
  js_secret_key :: "string option"
  js_algorithm :: "string option"
  js_expiration_hours :: "int option"
  js_refresh_expiration_days :: "int option"

record jwt_config =
  jw_secret_key :: string
  jw_algorithm :: string
  jw_access_token_expire_hours :: int
  jw_refresh_token_expire_days :: int

definition get_jwt_config :: "jwt_settings \<Rightarrow> jwt_config" where
  "get_jwt_config s =
     (let get = (\<lambda>v d. case v of Some x \<Rightarrow> x | None \<Rightarrow> d)
      in \<lparr>jw_secret_key = (case js_secret_key s of Some k \<Rightarrow> k
             | None \<Rightarrow> ''dev-secret-key-change-in-production''),
          jw_algorithm = (case js_algorithm s of Some a \<Rightarrow> a | None \<Rightarrow> ''HS256''),
          jw_access_token_expire_hours = get (js_expiration_hours s) 24,
          jw_refresh_token_expire_days = get (js_refresh_expiration_days s) 7\<rparr>)"

text \<open>\<open>expires_delta\<close> in microseconds; a zero \<open>timedelta\<close> counts as absent.\<close>

definition expiry :: "timestamp \<Rightarrow> int option \<Rightarrow> int \<Rightarrow> timestamp" where
  "expiry now delta default_delta =
     (case delta of Some d \<Rightarrow> if d \<noteq> 0 then now + d else now + default_delta
      | None \<Rightarrow> now + default_delta)"

text \<open>The two readings of the clock and the fresh token id of one call.\<close>

record token_inputs =
  ti_expire_now :: timestamp
  ti_issued_at :: timestamp
  ti_token_id :: uuid

definition create_access_token ::
    "'tok jwt_encode \<Rightarrow> jwt_config \<Rightarrow> token_inputs \<Rightarrow> uuid \<Rightarrow> string \<Rightarrow> string \<Rightarrow> int option
     \<Rightarrow> string option \<Rightarrow> 'tok" where
  "create_access_token enc config inp user_id username role expires_delta session_id =
     (let expire = expiry (ti_expire_now inp) expires_delta
                     (usec (jw_access_token_expire_hours config * 3600));
          token_id = uuid_str (ti_token_id inp);
          resolved = (case str_or session_id (Some token_id) of Some s \<Rightarrow> s | None \<Rightarrow> token_id)
      in enc (jw_secret_key config) (jw_algorithm config)
           \<lparr>jp_user_id = uuid_str user_id, jp_username = username, jp_role = role,
            jp_token_type = ''access'', jp_exp = expire, jp_iat = ti_issued_at inp,
            jp_jti = token_id, jp_session_id = resolved\<rparr>)"

definition create_refresh_token ::
    "'tok jwt_encode \<Rightarrow> jwt_config \<Rightarrow> token_inputs \<Rightarrow> uuid \<Rightarrow> string \<Rightarrow> string \<Rightarrow> int option
     \<Rightarrow> string option \<Rightarrow> 'tok" where
  "create_refresh_token enc config inp user_id username role expires_delta session_id =
     (let expire = expiry (ti_expire_now inp) expires_delta
                     (usec (jw_refresh_token_expire_days config * 86400));
          token_id = uuid_str (ti_token_id inp);
          resolved = (case str_or session_id (Some token_id) of Some s \<Rightarrow> s | None \<Rightarrow> token_id)
      in enc (jw_secret_key config) (jw_algorithm config)
           \<lparr>jp_user_id = uuid_str user_id, jp_username = username, jp_role = role,
            jp_token_type = ''refresh'', jp_exp = expire, jp_iat = ti_issued_at inp,
            jp_jti = token_id, jp_session_id = resolved\<rparr>)"

definition create_token_pair ::
    "'tok jwt_encode \<Rightarrow> jwt_config \<Rightarrow> uuid \<Rightarrow> token_inputs \<Rightarrow> token_inputs \<Rightarrow> uuid \<Rightarrow> string \<Rightarrow> string
     \<Rightarrow> 'tok token_pair" where
  "create_token_pair enc config session inp_access inp_refresh user_id username role =
     (let session_id = uuid_str session
      in \<lparr>tp_access_token = create_access_token enc config inp_access user_id username role None
             (Some session_id),
          tp_refresh_token = create_refresh_token enc config inp_refresh user_id username role None
             (Some session_id),
          tp_token_type = ''bearer'',
          tp_expires_in = jw_access_token_expire_hours config * 3600\<rparr>)"

text \<open>\<open>TokenData(...)\<close>: the three identity claims must be strings.\<close>

definition token_data_of :: "jwt_claims \<Rightarrow> string option \<Rightarrow> jwt_error + token_data" where
  "token_data_of c session_id =
     (case (jc_user_id c, jc_username c, jc_role c) of
        (Some u, Some n, Some r) \<Rightarrow>
          Inr \<lparr>td_user_id = u, td_username = n, td_role = r,
               td_token_type = (case jc_token_type c of Some t \<Rightarrow> t | None \<Rightarrow> ''access''),
               td_exp = jc_exp c, td_iat = jc_iat c, td_jti = jc_jti c, td_session_id = session_id\<rparr>
      | _ \<Rightarrow> Inl (OtherException (ValueError ''TokenData'')))"

definition str_in :: "string option \<Rightarrow> string set \<Rightarrow> bool" where
  "str_in v A \<longleftrightarrow> str_present v \<and> the v \<in> A"

definition decode_token ::
    "'tok jwt_decode \<Rightarrow> jwt_config \<Rightarrow> blacklists \<Rightarrow> timestamp \<Rightarrow> 'tok \<Rightarrow> jwt_error + token_data" where
  "decode_token dec config bl now tok =
     (case dec (jw_secret_key config) (jw_algorithm config) now tok of
        Inl ExpiredSignatureError \<Rightarrow> Inl JWTTokenExpiredError
      | Inl (OtherJWTError e) \<Rightarrow> Inl (JWTTokenInvalidError (''Invalid token: '' @ e))
      | Inr c \<Rightarrow>
          (let token_id = jc_jti c; session_id = str_or (jc_session_id c) token_id
           in if str_in token_id (bl_tokens bl)
                then Inl (JWTTokenInvalidError ''Token has been revoked'')
              else if str_in session_id (bl_sessions bl)
                then Inl (JWTTokenInvalidError ''Session has been revoked'')
              else token_data_of c session_id))"

definition quoted :: "string \<Rightarrow> string" where
  "quoted s = CHR 0x27 # s @ [CHR 0x27]"

definition verify_token ::
    "'tok jwt_decode \<Rightarrow> jwt_config \<Rightarrow> blacklists \<Rightarrow> timestamp \<Rightarrow> 'tok \<Rightarrow> string \<Rightarrow> jwt_error + token_data" where
  "verify_token dec config bl now tok expected =
     (case decode_token dec config bl now tok of
        Inl e \<Rightarrow> Inl e
      | Inr d \<Rightarrow>
          if td_token_type d \<noteq> expected
            then Inl (JWTTokenInvalidError (''Invalid token type. Expected '' @ quoted expected
                    @ '', got '' @ quoted (td_token_type d)))
          else Inr d)"

definition refresh_access_token ::
    "'tok jwt_encode \<Rightarrow> 'tok jwt_decode \<Rightarrow> jwt_config \<Rightarrow> blacklists \<Rightarrow> timestamp \<Rightarrow> token_inputs \<Rightarrow> 'tok
     \<Rightarrow> jwt_error + 'tok" where
  "refresh_access_token enc dec config bl now inp tok =
     (case verify_token dec config bl now tok ''refresh'' of
        Inl e \<Rightarrow> Inl e
      | Inr d \<Rightarrow>
          (case parse_uuid (td_user_id d) of
             None \<Rightarrow> Inl (OtherException (ValueError ''badly formed hexadecimal UUID string''))
           | Some u \<Rightarrow>
               Inr (create_access_token enc config inp u (td_username d) (td_role d) None
                      (td_session_id d))))"

definition blacklist_token ::
    "'tok jwt_decode \<Rightarrow> jwt_config \<Rightarrow> timestamp \<Rightarrow> 'tok \<Rightarrow> blacklists \<Rightarrow> jwt_error + blacklists" where
  "blacklist_token dec config now tok bl =
     (case decode_token dec config bl now tok of
        Inl JWTTokenExpiredError \<Rightarrow> Inr bl
      | Inl e \<Rightarrow> Inl e
      | Inr d \<Rightarrow>
          (case td_jti d of
             None \<Rightarrow> Inr bl
           | Some j \<Rightarrow> if j = [] then Inr bl else Inr (bl\<lparr>bl_tokens := insert j (bl_tokens bl)\<rparr>)))"

definition blacklist_token_jti :: "string \<Rightarrow> blacklists \<Rightarrow> blacklists" where
  "blacklist_token_jti j bl =
     (if j = [] then bl else bl\<lparr>bl_tokens := insert j (bl_tokens bl)\<rparr>)"

definition blacklist_session_id :: "string \<Rightarrow> blacklists \<Rightarrow> blacklists" where
  "blacklist_session_id s bl =
     (if s = [] then bl else bl\<lparr>bl_sessions := insert s (bl_sessions bl)\<rparr>)"

definition is_token_blacklisted ::
    "'tok jwt_decode \<Rightarrow> jwt_config \<Rightarrow> blacklists \<Rightarrow> timestamp \<Rightarrow> 'tok \<Rightarrow> bool" where
  "is_token_blacklisted dec config bl now tok =
     (case dec (jw_secret_key config) (jw_algorithm config) now tok of
        Inl _ \<Rightarrow> False
      | Inr c \<Rightarrow> str_in (jc_jti c) (bl_tokens bl)
                 \<or> str_in (str_or (jc_session_id c) (jc_jti c)) (bl_sessions bl))"

definition clear_blacklist :: "blacklists \<Rightarrow> blacklists" where
  "clear_blacklist bl = bl\<lparr>bl_tokens := {}, bl_sessions := {}\<rparr>"

definition get_token_expiration ::
    "'tok jwt_decode \<Rightarrow> jwt_config \<Rightarrow> blacklists \<Rightarrow> timestamp \<Rightarrow> 'tok \<Rightarrow> py_error + timestamp option" where
  "get_token_expiration dec config bl now tok =
     (case decode_token dec config bl now tok of
        Inl (OtherException e) \<Rightarrow> Inl e
      | Inl _ \<Rightarrow> Inr None
      | Inr d \<Rightarrow>
          (case td_exp d of
             None \<Rightarrow> Inr None
           | Some x \<Rightarrow> if x \<noteq> 0 then Inr (Some (usec x)) else Inr None))"

definition get_token_remaining_time ::
    "'tok jwt_decode \<Rightarrow> jwt_config \<Rightarrow> blacklists \<Rightarrow> timestamp \<Rightarrow> timestamp \<Rightarrow> 'tok \<Rightarrow> py_error + int option" where
  "get_token_remaining_time dec config bl now later tok =
     (case get_token_expiration dec config bl now tok of
        Inl e \<Rightarrow> Inl e
      | Inr None \<Rightarrow> Inr None
      | Inr (Some x) \<Rightarrow> Inr (if x - later > 0 then Some (x - later) else None))"

subsection \<open>Authentication of a request\<close>

text \<open>
  \<open>db\<close> is the user table as the authentication reads it: the lookup fails (\<open>Inl\<close>), finds no user,
  or finds the user's \<open>attributes\<close> column.
\<close>

type_synonym user_db = "string \<Rightarrow> py_error + pyval option"

definition get_user_security_attributes ::
    "user_db \<Rightarrow> string \<Rightarrow> jwt_error + (string, pyval) dict" where
  "get_user_security_attributes db user_id =
     (case db user_id of
        Inl e \<Rightarrow> Inl (OtherException e)
      | Inr None \<Rightarrow> Inl (JWTTokenInvalidError ''User not found'')
      | Inr (Some attributes) \<Rightarrow> Inr (case attributes of PDict d \<Rightarrow> d | _ \<Rightarrow> []))"

text \<open>\<open>set(value)\<close>: \<open>TypeError\<close> unless the value can be iterated and its elements hashed.\<close>

definition py_set :: "pyval \<Rightarrow> py_error + pyval set" where
  "py_set v =
     (case v of
        PList xs \<Rightarrow> if list_all hashable xs then Inr (set xs) else Inl TypeError
      | PStr s \<Rightarrow> Inr (set (map (\<lambda>c. PStr [c]) s))
      | PDict d \<Rightarrow> Inr (set (map (\<lambda>(k, _). PStr k) d))
      | _ \<Rightarrow> Inl TypeError)"

definition ensure_session_not_revoked ::
    "user_db \<Rightarrow> string \<Rightarrow> string option \<Rightarrow> jwt_error + unit" where
  "ensure_session_not_revoked db user_id session_id =
     (if \<not> str_present session_id then Inr ()
      else case get_user_security_attributes db user_id of
             Inl (JWTTokenInvalidError e) \<Rightarrow> Inl (JWTTokenInvalidError e)
           | Inl _ \<Rightarrow> Inl (JWTTokenInvalidError ''Unable to validate session state'')
           | Inr attributes \<Rightarrow>
               (case py_set (case dict_get attributes ''revoked_session_ids'' of
                               Some v \<Rightarrow> v | None \<Rightarrow> PList []) of
                  Inl e \<Rightarrow> Inl (OtherException e)
                | Inr revoked \<Rightarrow>
                    if PStr (the session_id) \<in> revoked
                      then Inl (JWTTokenInvalidError ''Session has been revoked'')
                    else Inr ()))"

text \<open>Exceptions that are no authentication error leave the dependency as they are.\<close>

datatype auth_failure = AuthHTTP http_error | AuthUncaught py_error

definition get_current_user ::
    "'tok jwt_decode \<Rightarrow> jwt_config \<Rightarrow> blacklists \<Rightarrow> user_db \<Rightarrow> timestamp \<Rightarrow> 'tok \<Rightarrow> auth_failure + current_user" where
  "get_current_user dec config bl db now credentials =
     (let outcome =
            (case decode_token dec config bl now credentials of
               Inl e \<Rightarrow> Inl e
             | Inr d \<Rightarrow>
                 (case ensure_session_not_revoked db (td_user_id d) (td_session_id d) of
                    Inl e \<Rightarrow> Inl e
                  | Inr _ \<Rightarrow> Inr (CurrentUser (td_user_id d) (td_username d) (td_role d) (td_jti d)
                                    (td_session_id d))))
      in case outcome of
           Inr u \<Rightarrow> Inr u
         | Inl JWTTokenExpiredError \<Rightarrow> Inl (AuthHTTP (HTTPException 401 ''Token has expired''))
         | Inl (JWTTokenInvalidError _) \<Rightarrow>
             Inl (AuthHTTP (HTTPException 401 ''Invalid authentication credentials''))
         | Inl (OtherException e) \<Rightarrow> Inl (AuthUncaught e))"

subsection \<open>Blacklists only grow\<close>

datatype 'tok token_call =
    BlacklistToken timestamp 'tok
  | BlacklistJti string
  | BlacklistSession string

text \<open>One call that changes the blacklists; a call that raises leaves them as they are.\<close>

fun blacklist_call :: "'tok jwt_decode \<Rightarrow> jwt_config \<Rightarrow> 'tok token_call \<Rightarrow> blacklists \<Rightarrow> blacklists" where
  "blacklist_call dec config (BlacklistToken now tok) bl =
     (case blacklist_token dec config now tok bl of Inl _ \<Rightarrow> bl | Inr bl' \<Rightarrow> bl')"
| "blacklist_call dec config (BlacklistJti j) bl = blacklist_token_jti j bl"
| "blacklist_call dec config (BlacklistSession s) bl = blacklist_session_id s bl"

definition blacklist_inv :: "blacklists \<Rightarrow> bool" where
  "blacklist_inv bl \<longleftrightarrow> [] \<notin> bl_tokens bl \<and> [] \<notin> bl_sessions bl"

definition revoked :: "blacklists \<Rightarrow> (string + string) set" where
  "revoked bl = bl_tokens bl <+> bl_sessions bl"

lemma blacklist_call_sets:
  "bl_tokens bl \<subseteq> bl_tokens (blacklist_call dec config c bl)"
  "bl_sessions bl \<subseteq> bl_sessions (blacklist_call dec config c bl)"
  by (cases c; auto simp: blacklist_token_def blacklist_token_jti_def blacklist_session_id_def
      split: sum.splits option.splits jwt_error.splits)+

lemma blacklist_call_inv: "blacklist_inv bl \<Longrightarrow> blacklist_inv (blacklist_call dec config c bl)"
  by (cases c) (auto simp: blacklist_inv_def blacklist_token_def blacklist_token_jti_def
      blacklist_session_id_def split: sum.splits option.splits jwt_error.splits)

interpretation blm: monotone_machine "fun_step (blacklist_call dec config)" blacklist_inv revoked
  using blacklist_call_sets blacklist_call_inv
  by unfold_locales (fastforce simp: fun_step_def revoked_def)+

lemma revoked_forever:
  assumes "blacklist_inv bl" and "run_of (fun_step (blacklist_call dec config)) bl es bl'"
  shows "bl_tokens bl \<subseteq> bl_tokens bl' \<and> bl_sessions bl \<subseteq> bl_sessions bl'"
  using blm.run_mono[OF assms(2,1)] by (auto simp: revoked_def)


subsection \<open>Tokens the service issued\<close>

lemma uuid_str_nonempty [simp]: "uuid_str u \<noteq> []" "[] \<noteq> uuid_str u"
  by (simp_all add: uuid_str_def Let_def)

lemma str_or_Some [simp]: "s \<noteq> [] \<Longrightarrow> str_or (Some s) b = Some s"
  by (cases s) (simp_all add: str_or_def)

definition data_of :: "jwt_payload \<Rightarrow> token_data" where
  "data_of p =
     \<lparr>td_user_id = jp_user_id p, td_username = jp_username p, td_role = jp_role p,
      td_token_type = jp_token_type p, td_exp = Some (epoch_seconds (jp_exp p)),
      td_iat = Some (epoch_seconds (jp_iat p)), td_jti = Some (jp_jti p),
      td_session_id = Some (jp_session_id p)\<rparr>"

lemma decode_issued:
  assumes "jose_ok enc dec" and "jp_jti p \<noteq> []" and "jp_session_id p \<noteq> []"
  shows "decode_token dec config bl now (enc (jw_secret_key config) (jw_algorithm config) p) =
    (if epoch_seconds (jp_exp p) < epoch_seconds now then Inl JWTTokenExpiredError
     else if jp_jti p \<in> bl_tokens bl then Inl (JWTTokenInvalidError ''Token has been revoked'')
     else if jp_session_id p \<in> bl_sessions bl
       then Inl (JWTTokenInvalidError ''Session has been revoked'')
     else Inr (data_of p))"
  using assms(2,3) assms(1)[unfolded jose_ok_def]
  by (simp add: decode_token_def claims_of_def token_data_of_def data_of_def str_in_def
      epoch_seconds_def)

text \<open>The payload of a token that belongs to a given session.\<close>

definition payload_in ::
    "jwt_config \<Rightarrow> token_inputs \<Rightarrow> uuid \<Rightarrow> string \<Rightarrow> string \<Rightarrow> string \<Rightarrow> string \<Rightarrow> jwt_payload" where
  "payload_in config inp user_id username role session kind =
     \<lparr>jp_user_id = uuid_str user_id, jp_username = username, jp_role = role, jp_token_type = kind,
      jp_exp = ti_expire_now inp + usec
        (if kind = ''access'' then jw_access_token_expire_hours config * 3600
         else jw_refresh_token_expire_days config * 86400),
      jp_iat = ti_issued_at inp, jp_jti = uuid_str (ti_token_id inp), jp_session_id = session\<rparr>"

lemma create_access_payload:
  "s \<noteq> [] \<Longrightarrow> create_access_token enc config inp u name r None (Some s)
     = enc (jw_secret_key config) (jw_algorithm config) (payload_in config inp u name r s ''access'')"
  by (simp add: create_access_token_def payload_in_def expiry_def)

lemma pair_payloads:
  "tp_access_token (create_token_pair enc config session ia ir u name r)
     = enc (jw_secret_key config) (jw_algorithm config)
         (payload_in config ia u name r (uuid_str session) ''access'')"
  "tp_refresh_token (create_token_pair enc config session ia ir u name r)
     = enc (jw_secret_key config) (jw_algorithm config)
         (payload_in config ir u name r (uuid_str session) ''refresh'')"
  by (simp_all add: create_token_pair_def create_access_token_def create_refresh_token_def
      payload_in_def expiry_def Let_def)

lemma payload_in_simps [simp]:
  "jp_jti (payload_in config inp u name r s kind) = uuid_str (ti_token_id inp)"
  "jp_session_id (payload_in config inp u name r s kind) = s"
  "jp_token_type (payload_in config inp u name r s kind) = kind"
  "jp_user_id (payload_in config inp u name r s kind) = uuid_str u"
  "jp_username (payload_in config inp u name r s kind) = name"
  "jp_role (payload_in config inp u name r s kind) = r"
  by (simp_all add: payload_in_def)

lemma refreshed_token:
  assumes "jose_ok enc dec" and "s \<noteq> []"
    and "refresh_access_token enc dec config bl now inp
       (enc (jw_secret_key config) (jw_algorithm config) (payload_in config ir u name r s ''refresh''))
       = Inr tok"
  shows "\<exists>u'. tok = enc (jw_secret_key config) (jw_algorithm config)
      (payload_in config inp u' name r s ''access'')"
  using assms
  by (auto simp: refresh_access_token_def verify_token_def decode_issued data_of_def
      create_access_payload split: if_splits option.splits)

lemma decode_refused:
  assumes "isl (decode_token dec config bl now tok)"
  shows "isl (get_current_user dec config bl db now tok)"
    and "isl (refresh_access_token enc dec config bl now inp tok)"
  using assms
  by (auto simp: get_current_user_def refresh_access_token_def verify_token_def Let_def isl_def
      split: sum.splits jwt_error.splits option.splits)

text \<open>C4: Logging out ends the session for good. Once its id has been put on the session blacklist,
  whatever is revoked later, the access token and the refresh token of the pair and every token
  ever obtained from that refresh token are refused: they are not decoded, authenticate nobody
  and cannot be refreshed.\<close>

theorem revoked_session_is_dead:
  assumes lib: "jose_ok enc dec" and inv: "blacklist_inv bl"
    and run: "run_of (fun_step (blacklist_call dec config))
                (blacklist_session_id (uuid_str session) bl) es bl'"
    and pair: "pair = create_token_pair enc config session ia ir u name r"
    and tok: "tok = tp_access_token pair \<or> tok = tp_refresh_token pair
      \<or> (\<exists>bl0 now0 inp0. refresh_access_token enc dec config bl0 now0 inp0 (tp_refresh_token pair) = Inr tok)"
  shows "isl (decode_token dec config bl' now tok) \<and> isl (get_current_user dec config bl' db now tok)
    \<and> isl (refresh_access_token enc dec config bl' now inp tok)"
proof -
  have "blacklist_inv (blacklist_session_id (uuid_str session) bl)"
    using inv by (simp add: blacklist_inv_def blacklist_session_id_def)
  then have dead: "uuid_str session \<in> bl_sessions bl'"
    using revoked_forever[OF _ run] by (auto simp: blacklist_session_id_def)
  obtain p where "tok = enc (jw_secret_key config) (jw_algorithm config) p"
    and "jp_jti p \<noteq> []" and "jp_session_id p = uuid_str session"
    using tok refreshed_token[OF lib, of "uuid_str session"] unfolding pair pair_payloads
    by (metis payload_in_simps(1,2) uuid_str_nonempty(1))
  then have "isl (decode_token dec config bl' now tok)"
    using lib dead by (simp add: decode_issued)
  then show ?thesis by (simp add: decode_refused)
qed

text \<open>An instance of the library for concrete runs: the token is the signed payload itself.\<close>

type_synonym clear_token = "string \<times> string \<times> jwt_payload"

definition clear_encode :: "clear_token jwt_encode" where
  "clear_encode key alg p = (key, alg, p)"

definition clear_decode :: "clear_token jwt_decode" where
  "clear_decode key alg now tok =
     (case tok of (key', alg', p) \<Rightarrow>
        if key \<noteq> key' \<or> alg \<noteq> alg' then Inl (OtherJWTError ''Signature verification failed.'')
        else if jp_exp p div 1000000 < now div 1000000 then Inl ExpiredSignatureError
        else Inr (claims_of p))"

lemma clear_jose_ok: "jose_ok clear_encode clear_decode"
  by (simp add: jose_ok_def clear_encode_def clear_decode_def)

definition sample_config :: jwt_config where
  "sample_config = get_jwt_config \<lparr>js_secret_key = None, js_algorithm = None,
     js_expiration_hours = None, js_refresh_expiration_days = None\<rparr>"

definition sample_inputs :: "uuid \<Rightarrow> token_inputs" where
  "sample_inputs j = \<lparr>ti_expire_now = 0, ti_issued_at = 5, ti_token_id = j\<rparr>"

definition sample_pair :: "clear_token token_pair" where
  "sample_pair = create_token_pair clear_encode sample_config 7 (sample_inputs 1) (sample_inputs 2)
     3 ''ann'' ''user''"

theorem revoked_session_is_dead_witness:
  "isl (get_current_user clear_decode sample_config
     (blacklist_call clear_decode sample_config (BlacklistJti ''x'')
        (blacklist_session_id (uuid_str 7) empty_blacklists))
     (\<lambda>_. Inr None) 10 (tp_refresh_token sample_pair))"
proof -
  have "blacklist_inv empty_blacklists" by (simp add: blacklist_inv_def empty_blacklists_def)
  moreover have "run_of (fun_step (blacklist_call clear_decode sample_config))
      (blacklist_session_id (uuid_str 7) empty_blacklists) [BlacklistJti ''x'']
      (blacklist_call clear_decode sample_config (BlacklistJti ''x'')
        (blacklist_session_id (uuid_str 7) empty_blacklists))"
    by (simp add: fun_step_def)
  ultimately show ?thesis
    using revoked_session_is_dead[OF clear_jose_ok, of empty_blacklists sample_config 7
        "[BlacklistJti ''x'']" _ sample_pair "sample_inputs 1" "sample_inputs 2" 3 "''ann''" "''user''"
        "tp_refresh_token sample_pair"]
    unfolding sample_pair_def by blast
qed

text \<open>Refreshing keeps the identity: before it expires and as long as neither it nor its session
  is revoked, the refresh token of a pair yields an access token which, within its own life time,
  verifies as an access token of the same user, with the same name, role and session. An access
  token is never accepted for refreshing.\<close>

theorem refresh_keeps_identity:
  assumes lib: "jose_ok enc dec" and u: "u < 2 ^ 128"
    and pair: "pair = create_token_pair enc config session ia ir u name r"
    and alive: "epoch_seconds now \<le> epoch_seconds (ti_expire_now ir + usec (jw_refresh_token_expire_days config * 86400))"
      "uuid_str (ti_token_id ir) \<notin> bl_tokens bl" "uuid_str session \<notin> bl_sessions bl"
    and later: "epoch_seconds now' \<le> epoch_seconds (ti_expire_now inp + usec (jw_access_token_expire_hours config * 3600))"
      "uuid_str (ti_token_id inp) \<notin> bl_tokens bl"
  shows "\<exists>tok d. refresh_access_token enc dec config bl now inp (tp_refresh_token pair) = Inr tok
      \<and> verify_token dec config bl now' tok ''access'' = Inr d
      \<and> td_user_id d = uuid_str u \<and> td_username d = name \<and> td_role d = r
      \<and> td_session_id d = Some (uuid_str session)
      \<and> isl (refresh_access_token enc dec config bl now' inp tok)"
proof -
  let ?acc = "payload_in config inp u name r (uuid_str session) ''access''"
  let ?tok = "enc (jw_secret_key config) (jw_algorithm config) ?acc"
  have "\<not> epoch_seconds (jp_exp (payload_in config ir u name r (uuid_str session) ''refresh'')) < epoch_seconds now"
    "\<not> epoch_seconds (jp_exp ?acc) < epoch_seconds now'"
    using alive(1) later(1) by (simp_all add: payload_in_def)
  then have "refresh_access_token enc dec config bl now inp (tp_refresh_token pair) = Inr ?tok"
    and "decode_token dec config bl now' ?tok = Inr (data_of ?acc)"
    using lib alive later parse_uuid_str[OF u]
    by (simp_all add: pair pair_payloads refresh_access_token_def verify_token_def decode_issued
        data_of_def create_access_payload)
  then show ?thesis
    by (simp add: verify_token_def refresh_access_token_def data_of_def)
qed

theorem refresh_keeps_identity_witness:
  "\<exists>tok d. refresh_access_token clear_encode clear_decode sample_config empty_blacklists 90000000000
        (sample_inputs 4) (tp_refresh_token sample_pair) = Inr tok
      \<and> verify_token clear_decode sample_config empty_blacklists 10 tok ''access'' = Inr d
      \<and> td_user_id d = uuid_str 3"
  using refresh_keeps_identity[OF clear_jose_ok, of 3 sample_pair sample_config 7 "sample_inputs 1"
      "sample_inputs 2" "''ann''" "''user''" 90000000000 empty_blacklists 10 "sample_inputs 4"]
  by (auto simp: sample_pair_def sample_inputs_def sample_config_def get_jwt_config_def
      empty_blacklists_def usec_def epoch_seconds_def)

lemma payload_authenticates:
  assumes lib: "jose_ok enc dec"
    and p: "p = payload_in config inp u name r (uuid_str session) kind"
    and alive: "epoch_seconds now \<le> epoch_seconds (jp_exp p)"
      "uuid_str (ti_token_id inp) \<notin> bl_tokens bl" "uuid_str session \<notin> bl_sessions bl"
    and db: "db (uuid_str u) = Inr (Some (PDict attributes))"
      "dict_get attributes ''revoked_session_ids'' = Some (PList (map PStr ids))"
  shows "get_current_user dec config bl db now (enc (jw_secret_key config) (jw_algorithm config) p)
    = (if uuid_str session \<in> set ids
       then Inl (AuthHTTP (HTTPException 401 ''Invalid authentication credentials''))
       else Inr \<lparr>cu_user_id = uuid_str u, cu_username = name, cu_role = r,
                 cu_token_jti = Some (uuid_str (ti_token_id inp)),
                 cu_session_id = Some (uuid_str session)\<rparr>)"
proof -
  have "list_all hashable (map PStr ids)" by (simp add: list_all_iff hashable_def)
  then have "ensure_session_not_revoked db (uuid_str u) (Some (uuid_str session))
     = (if uuid_str session \<in> set ids then Inl (JWTTokenInvalidError ''Session has been revoked'')
        else Inr ())"
    using db by (auto simp: ensure_session_not_revoked_def get_user_security_attributes_def py_set_def)
  then show ?thesis
    using lib alive by (simp add: get_current_user_def p decode_issued data_of_def CurrentUser_def)
qed

text \<open>A request is authenticated by any token of a pair that has not expired and whose id and
  session are not revoked, in memory or in the database: it acts as the user of the pair. The
  type of the token is not looked at, so the refresh token, which lives for days, authenticates
  requests like the access token does.\<close>

theorem any_token_authenticates:
  assumes lib: "jose_ok enc dec"
    and pair: "pair = create_token_pair enc config session ia ir u name r"
    and tok: "(tok, inp, life) = (tp_access_token pair, ia, jw_access_token_expire_hours config * 3600)
      \<or> (tok, inp, life) = (tp_refresh_token pair, ir, jw_refresh_token_expire_days config * 86400)"
    and alive: "epoch_seconds now \<le> epoch_seconds (ti_expire_now inp + usec life)"
      "uuid_str (ti_token_id inp) \<notin> bl_tokens bl" "uuid_str session \<notin> bl_sessions bl"
    and db: "db (uuid_str u) = Inr (Some (PDict attributes))"
      "dict_get attributes ''revoked_session_ids'' = Some (PList (map PStr ids))"
  shows "get_current_user dec config bl db now tok
    = (if uuid_str session \<in> set ids
       then Inl (AuthHTTP (HTTPException 401 ''Invalid authentication credentials''))
       else Inr \<lparr>cu_user_id = uuid_str u, cu_username = name, cu_role = r,
                 cu_token_jti = Some (uuid_str (ti_token_id inp)),
                 cu_session_id = Some (uuid_str session)\<rparr>)"
proof -
  obtain kind where "tok = enc (jw_secret_key config) (jw_algorithm config)
      (payload_in config inp u name r (uuid_str session) kind)"
    and "jp_exp (payload_in config inp u name r (uuid_str session) kind) = ti_expire_now inp + usec life"
  proof (cases "tok = tp_access_token pair \<and> inp = ia \<and> life = jw_access_token_expire_hours config * 3600")
    case True
    then show ?thesis by (intro that[of "''access''"]) (simp_all add: pair pair_payloads payload_in_def)
  next
    case False
    then show ?thesis
      using tok by (intro that[of "''refresh''"]) (auto simp: pair pair_payloads payload_in_def)
  qed
  then show ?thesis
    using payload_authenticates[where dec = dec and db = db and ids = ids, OF lib refl _ alive(2,3) db] alive(1) by simp
qed

theorem any_token_authenticates_witness:
  "\<exists>x. get_current_user clear_decode sample_config empty_blacklists
      (\<lambda>_. Inr (Some (PDict [(''revoked_session_ids'', PList [])]))) 90000000000
      (tp_refresh_token sample_pair) = Inr x \<and> cu_user_id x = uuid_str 3"
  using any_token_authenticates[OF clear_jose_ok sample_pair_def, of "tp_refresh_token sample_pair"
      "sample_inputs 2" "7 * 86400" 90000000000 empty_blacklists
      "\<lambda>_. Inr (Some (PDict [(''revoked_session_ids'', PList [])]))"
      "[(''revoked_session_ids'', PList [])]" "[]"]
  by (simp add: sample_inputs_def sample_config_def
      get_jwt_config_def empty_blacklists_def usec_def epoch_seconds_def dict_get_def)

end
