(* ===== verification/Abac.thy ===== *)
theory Abac
  imports Py_Compare
begin

section \<open>Attribute based access control\<close>

text \<open>
  \<open>access_control/abac.py\<close>: conditions on the attributes of user, resource and environment, groups
  of conditions, policies with their effect, the engine that holds the policies and decides, and
  the ready-made policies. A context is a dictionary of values (\<open>pyval\<close>); a comparison that raises
  in Python is \<open>False\<close>, as the code's handlers make it. \<open>txt\<close> is what \<open>str\<close> gives for floats and
  containers, used by the prefix and suffix tests only. Instants count microseconds since 1970.
\<close>

subsection \<open>Conditions\<close>

datatype policy_effect = ALLOW | DENY

datatype condition_operator =
    EQUALS | NOT_EQUALS | GREATER_THAN | GREATER_THAN_OR_EQUAL | LESS_THAN | LESS_THAN_OR_EQUAL
  | IN | NOT_IN | CONTAINS | STARTS_WITH | ENDS_WITH

datatype logical_operator = L_AND | L_OR | L_NOT

record condition =
  cd_attribute :: string
  cd_operator :: condition_operator
  cd_value :: pyval

fun walk_attribute :: "string list \<Rightarrow> pyval \<Rightarrow> pyval option" where
  "walk_attribute [] current = Some current"
| "walk_attribute (part # parts) current =
     (case current of
        PDict d \<Rightarrow>
          (case dict_get d part of
             None \<Rightarrow> None
           | Some v \<Rightarrow> if v = PNone then None else walk_attribute parts v)
      | _ \<Rightarrow> None)"

definition get_attribute_value :: "pyval \<Rightarrow> string \<Rightarrow> pyval option" where
  "get_attribute_value context attribute_path = walk_attribute (py_split CHR ''.'' attribute_path) context"

definition or_false :: "bool option \<Rightarrow> bool" where
  "or_false r = (case r of Some b \<Rightarrow> b | None \<Rightarrow> False)"

fun compare_values :: "(pyval \<Rightarrow> string) \<Rightarrow> pyval \<Rightarrow> condition_operator \<Rightarrow> pyval \<Rightarrow> bool" where
  "compare_values txt a EQUALS v = py_eq a v"
| "compare_values txt a NOT_EQUALS v = (\<not> py_eq a v)"
| "compare_values txt a GREATER_THAN v = or_false (py_order OpGT a v)"
| "compare_values txt a GREATER_THAN_OR_EQUAL v = or_false (py_order OpGE a v)"
| "compare_values txt a LESS_THAN v = or_false (py_order OpLT a v)"
| "compare_values txt a LESS_THAN_OR_EQUAL v = or_false (py_order OpLE a v)"
| "compare_values txt a IN v = or_false (py_in a v)"
| "compare_values txt a NOT_IN v = or_false (map_option Not (py_in a v))"
| "compare_values txt a CONTAINS v = or_false (py_in v a)"
| "compare_values txt a STARTS_WITH v = py_startswith (py_text txt a) (py_text txt v)"
| "compare_values txt a ENDS_WITH v = py_endswith (py_text txt a) (py_text txt v)"

definition condition_evaluate :: "(pyval \<Rightarrow> string) \<Rightarrow> pyval \<Rightarrow> condition \<Rightarrow> bool" where
  "condition_evaluate txt context c =
     (case get_attribute_value context (cd_attribute c) of
        None \<Rightarrow> False
      | Some a \<Rightarrow> compare_values txt a (cd_operator c) (cd_value c))"

text \<open>A group holds conditions and groups; \<open>NOT\<close> looks at its first member only.\<close>

datatype condition_group = Single condition | Group logical_operator "condition_group list"

fun group_evaluate :: "(pyval \<Rightarrow> string) \<Rightarrow> pyval \<Rightarrow> condition_group \<Rightarrow> bool" where
  "group_evaluate txt context (Single c) = condition_evaluate txt context c"
| "group_evaluate txt context (Group op conditions) =
     (if conditions = [] then True
      else let results = map (group_evaluate txt context) conditions
           in case op of
                L_AND \<Rightarrow> list_all id results
              | L_OR \<Rightarrow> list_ex id results
              | L_NOT \<Rightarrow> \<not> hd results)"

subsection \<open>Policies\<close>

record abac_policy =
  ap_policy_id :: string
  ap_name :: string
  ap_description :: string
  ap_effect :: policy_effect
  ap_resource_type :: string
  ap_actions :: "string list"
  ap_conditions :: condition_group
  ap_priority :: int
  ap_enabled :: bool
  ap_created_at :: timestamp
  ap_updated_at :: timestamp

text \<open>The constructor with its defaults; the two instants are the \<open>utcnow()\<close> of \<open>__post_init__\<close>.\<close>

definition ABACPolicy ::
    "timestamp \<Rightarrow> timestamp \<Rightarrow> string \<Rightarrow> string \<Rightarrow> string \<Rightarrow> policy_effect \<Rightarrow> string \<Rightarrow> string list
     \<Rightarrow> condition_group \<Rightarrow> int \<Rightarrow> abac_policy" where
  "ABACPolicy created updated policy_id name description effect resource_type actions conditions priority =
     \<lparr>ap_policy_id = policy_id, ap_name = name, ap_description = description, ap_effect = effect,
      ap_resource_type = resource_type, ap_actions = actions, ap_conditions = conditions,
      ap_priority = priority, ap_enabled = True, ap_created_at = created, ap_updated_at = updated\<rparr>"

definition policy_evaluate ::
    "(pyval \<Rightarrow> string) \<Rightarrow> pyval \<Rightarrow> pyval \<Rightarrow> pyval \<Rightarrow> string \<Rightarrow> abac_policy \<Rightarrow> policy_effect option" where
  "policy_evaluate txt user_attributes resource_attributes environment_attributes action p =
     (if \<not> ap_enabled p then None
      else if action \<notin> set (ap_actions p) \<and> ''*'' \<notin> set (ap_actions p) then None
      else let context = PDict [(''user'', user_attributes), (''resource'', resource_attributes),
                                (''environment'', environment_attributes)]
           in if group_evaluate txt context (ap_conditions p) then Some (ap_effect p) else None)"

fun effect_value :: "policy_effect \<Rightarrow> string" where
  "effect_value ALLOW = ''allow''"
| "effect_value DENY = ''deny''"

definition policy_to_dict :: "(timestamp \<Rightarrow> string) \<Rightarrow> abac_policy \<Rightarrow> (string, pyval) dict" where
  "policy_to_dict isoformat p =
     [(''policy_id'', PStr (ap_policy_id p)), (''name'', PStr (ap_name p)),
      (''description'', PStr (ap_description p)), (''effect'', PStr (effect_value (ap_effect p))),
      (''resource_type'', PStr (ap_resource_type p)), (''actions'', PList (map PStr (ap_actions p))),
      (''priority'', PInt (ap_priority p)), (''enabled'', PBool (ap_enabled p)),
      (''created_at'', PStr (isoformat (ap_created_at p))),
      (''updated_at'', PStr (isoformat (ap_updated_at p)))]"

subsection \<open>The engine\<close>

type_synonym abac_engine = "(string, abac_policy) dict"

definition new_engine :: abac_engine where
  "new_engine = []"

definition add_policy :: "abac_policy \<Rightarrow> abac_engine \<Rightarrow> abac_engine" where
  "add_policy p e = dict_set (ap_policy_id p) p e"

definition remove_policy :: "string \<Rightarrow> abac_engine \<Rightarrow> bool \<times> abac_engine" where
  "remove_policy i e = (if dict_get e i \<noteq> None then (True, dict_del i e) else (False, e))"

definition get_policy :: "string \<Rightarrow> abac_engine \<Rightarrow> abac_policy option" where
  "get_policy i e = dict_get e i"

definition list_policies :: "string option \<Rightarrow> bool \<Rightarrow> abac_engine \<Rightarrow> abac_policy list" where
  "list_policies resource_type enabled_only e =
     (let policies = dict_values e;
          typed = (case resource_type of
                     Some (c # cs) \<Rightarrow> filter (\<lambda>p. ap_resource_type p = c # cs) policies
                   | _ \<Rightarrow> policies);
          active = (if enabled_only then filter ap_enabled typed else typed)
      in sort_desc ap_priority active)"

definition default_environment :: "(timestamp \<Rightarrow> string) \<Rightarrow> timestamp \<Rightarrow> pyval" where
  "default_environment isoformat now =
     PDict [(''time'', PDict
       [(''hour'', PInt (now div usec 3600 mod 24)),
        (''day_of_week'', PInt ((now div usec 86400 + 3) mod 7)),
        (''timestamp'', PStr (isoformat now))])]"

fun decide :: "(abac_policy \<Rightarrow> policy_effect option) \<Rightarrow> abac_policy list \<Rightarrow> bool \<Rightarrow> bool" where
  "decide effect_of [] allow_matched = (if allow_matched then True else False)"
| "decide effect_of (p # ps) allow_matched =
     (case effect_of p of
        Some DENY \<Rightarrow> False
      | Some ALLOW \<Rightarrow> decide effect_of ps True
      | None \<Rightarrow> decide effect_of ps allow_matched)"

definition engine_evaluate ::
    "(pyval \<Rightarrow> string) \<Rightarrow> (timestamp \<Rightarrow> string) \<Rightarrow> timestamp \<Rightarrow> pyval \<Rightarrow> string \<Rightarrow> pyval \<Rightarrow> string
     \<Rightarrow> pyval option \<Rightarrow> abac_engine \<Rightarrow> bool" where
  "engine_evaluate txt isoformat now user_attributes resource_type resource_attributes action
       environment_attributes e =
     (let env = (case environment_attributes of
                   None \<Rightarrow> default_environment isoformat now | Some v \<Rightarrow> v);
          applicable = list_policies (Some resource_type) True e
      in if applicable = [] then False
         else decide (policy_evaluate txt user_attributes resource_attributes env action)
                applicable False)"

definition clear_policies :: "abac_engine \<Rightarrow> abac_engine" where
  "clear_policies e = []"

subsection \<open>Ready-made policies\<close>

definition create_department_access_policy ::
    "timestamp \<Rightarrow> timestamp \<Rightarrow> string \<Rightarrow> string \<Rightarrow> string \<Rightarrow> string list \<Rightarrow> int \<Rightarrow> abac_policy" where
  "create_department_access_policy created updated policy_id department resource_type actions priority =
     ABACPolicy created updated policy_id (py_title department @ '' Department Access'')
       (''Allow '' @ department @ '' department to '' @ py_join '', '' actions @ '' '' @ resource_type)
       ALLOW resource_type actions
       (Group L_AND
          [Single \<lparr>cd_attribute = ''user.department'', cd_operator = EQUALS, cd_value = PStr department\<rparr>,
           Single \<lparr>cd_attribute = ''resource.classification'', cd_operator = IN,
             cd_value = PList [PStr ''public'', PStr ''internal'']\<rparr>])
       priority"

definition create_clearance_level_policy ::
    "timestamp \<Rightarrow> timestamp \<Rightarrow> string \<Rightarrow> int \<Rightarrow> string \<Rightarrow> string list \<Rightarrow> int \<Rightarrow> abac_policy" where
  "create_clearance_level_policy created updated policy_id required resource_type actions priority =
     ABACPolicy created updated policy_id (''Clearance Level '' @ int_str required @ ''+ Access'')
       (''Allow users with clearance level '' @ int_str required @ ''+ to '' @ py_join '', '' actions
          @ '' '' @ resource_type)
       ALLOW resource_type actions
       (Group L_AND
          [Single \<lparr>cd_attribute = ''user.clearance_level'', cd_operator = GREATER_THAN_OR_EQUAL,
             cd_value = PInt required\<rparr>,
           Single \<lparr>cd_attribute = ''resource.required_clearance'', cd_operator = LESS_THAN_OR_EQUAL,
             cd_value = PInt required\<rparr>])
       priority"

record department_row =
  dp_department_id :: uuid
  dp_code :: string
  dp_name :: string

definition build_user_attributes ::
    "(string, pyval) dict option \<Rightarrow> department_row option \<Rightarrow> (string, pyval) dict" where
  "build_user_attributes attributes department =
     (let attrs = (case attributes of Some d \<Rightarrow> d | None \<Rightarrow> [])
      in case department of
           None \<Rightarrow> attrs
         | Some d \<Rightarrow>
             dict_set ''department_name'' (PStr (dp_name d))
               (dict_set ''department_id'' (PStr (uuid_str (dp_department_id d)))
                 (dict_set ''department'' (PStr (dp_code d)) attrs)))"

definition create_business_hours_policy ::
    "timestamp \<Rightarrow> timestamp \<Rightarrow> string \<Rightarrow> string \<Rightarrow> string list \<Rightarrow> int \<Rightarrow> int \<Rightarrow> int \<Rightarrow> abac_policy" where
  "create_business_hours_policy created updated policy_id resource_type actions start_hour end_hour priority =
     ABACPolicy created updated policy_id ''Business Hours Only''
       (''Deny access to '' @ resource_type @ '' outside business hours ('' @ int_str start_hour
          @ '':00-'' @ int_str end_hour @ '':00)'')
       DENY resource_type actions
       (Group L_OR
          [Single \<lparr>cd_attribute = ''environment.time.hour'', cd_operator = LESS_THAN,
             cd_value = PInt start_hour\<rparr>,
           Single \<lparr>cd_attribute = ''environment.time.hour'', cd_operator = GREATER_THAN_OR_EQUAL,
             cd_value = PInt end_hour\<rparr>])
       priority"


subsection \<open>The decision\<close>

definition request_env :: "(timestamp \<Rightarrow> string) \<Rightarrow> timestamp \<Rightarrow> pyval option \<Rightarrow> pyval" where
  "request_env isoformat now env = (case env of None \<Rightarrow> default_environment isoformat now | Some v \<Rightarrow> v)"

definition request_context :: "pyval \<Rightarrow> pyval \<Rightarrow> pyval \<Rightarrow> pyval" where
  "request_context user res env = PDict [(''user'', user), (''resource'', res), (''environment'', env)]"

text \<open>When a policy takes part in a decision: the reference the engine is compared with.\<close>

definition policy_applies ::
    "(pyval \<Rightarrow> string) \<Rightarrow> pyval \<Rightarrow> string \<Rightarrow> string \<Rightarrow> abac_policy \<Rightarrow> bool" where
  "policy_applies txt context resource_type action p \<longleftrightarrow>
     ap_enabled p \<and> (resource_type = [] \<or> ap_resource_type p = resource_type)
     \<and> (action \<in> set (ap_actions p) \<or> ''*'' \<in> set (ap_actions p))
     \<and> group_evaluate txt context (ap_conditions p)"

lemma decide_iff:
  "decide f ps m \<longleftrightarrow> (\<forall>p \<in> set ps. f p \<noteq> Some DENY) \<and> (m \<or> (\<exists>p \<in> set ps. f p = Some ALLOW))"
  by (induction ps arbitrary: m) (auto split: option.splits policy_effect.splits)

lemma set_list_policies:
  "set (list_policies (Some t) True e)
     = {p \<in> set (dict_values e). ap_enabled p \<and> (t = [] \<or> ap_resource_type p = t)}"
  by (cases t) (auto simp: list_policies_def Let_def)

lemma policy_evaluate_iff:
  "policy_evaluate txt user res env action p = Some f \<and> ap_enabled p
     \<and> (t = [] \<or> ap_resource_type p = t)
   \<longleftrightarrow> policy_applies txt (request_context user res env) t action p \<and> ap_effect p = f"
  by (auto simp: policy_evaluate_def policy_applies_def request_context_def Let_def)

lemma engine_evaluate_iff:
  "engine_evaluate txt fmt now user t res action env e \<longleftrightarrow>
     (let ctx = request_context user res (request_env fmt now env)
      in (\<exists>p \<in> set (dict_values e). policy_applies txt ctx t action p \<and> ap_effect p = ALLOW)
       \<and> \<not> (\<exists>p \<in> set (dict_values e). policy_applies txt ctx t action p \<and> ap_effect p = DENY))"
proof -
  let ?ev = "policy_evaluate txt user res (request_env fmt now env) action"
  have "engine_evaluate txt fmt now user t res action env e
      \<longleftrightarrow> decide ?ev (list_policies (Some t) True e) False"
    by (auto simp: engine_evaluate_def request_env_def Let_def)
  also have "\<dots> \<longleftrightarrow>
      (\<exists>p \<in> set (dict_values e). ?ev p = Some ALLOW \<and> ap_enabled p \<and> (t = [] \<or> ap_resource_type p = t))
      \<and> \<not> (\<exists>p \<in> set (dict_values e). ?ev p = Some DENY \<and> ap_enabled p \<and> (t = [] \<or> ap_resource_type p = t))"
    unfolding decide_iff set_list_policies by blast
  finally show ?thesis unfolding policy_evaluate_iff Let_def .
qed

text \<open>C6: Deny overrides and deny is the default: access is allowed exactly when some enabled policy
  of the resource type and action whose conditions hold allows it and none denies it. Neither the
  priorities nor the order in which the policies were added has any influence.\<close>

theorem abac_decision_exact:
  "(engine_evaluate txt fmt now user t res action env e \<longleftrightarrow>
      (let ctx = request_context user res (request_env fmt now env)
       in (\<exists>p \<in> set (dict_values e). policy_applies txt ctx t action p \<and> ap_effect p = ALLOW)
        \<and> \<not> (\<exists>p \<in> set (dict_values e). policy_applies txt ctx t action p \<and> ap_effect p = DENY)))
   \<and> engine_evaluate txt fmt now user t res action env
        (rev (map (\<lambda>(i, p). (i, p\<lparr>ap_priority := f i\<rparr>)) e))
      = engine_evaluate txt fmt now user t res action env e"
proof -
  have vals: "set (dict_values (rev (map (\<lambda>(i, p). (i, p\<lparr>ap_priority := f i\<rparr>)) e)))
      = (\<lambda>(i, p). p\<lparr>ap_priority := f i\<rparr>) ` set e"
    by force
  have "policy_applies txt ctx t action (p\<lparr>ap_priority := n\<rparr>) = policy_applies txt ctx t action p" for ctx p n
    by (simp add: policy_applies_def)
  then show ?thesis
    unfolding engine_evaluate_iff vals by (auto simp: Let_def split_beta)
qed

subsection \<open>Adding and removing policies\<close>

lemma dict_set_fresh: "dict_get e k = None \<Longrightarrow> dict_set k v e = e @ [(k, v)]"
  by (induction e) (auto simp: dict_get_def dict_set_def split: if_splits)

lemma dict_get_append: "dict_get e k = None \<Longrightarrow> dict_get (e @ [(k, v)]) k = Some v"
  by (simp add: dict_get_def map_add_def)

lemma dict_del_fresh: "dict_get e k = None \<Longrightarrow> dict_del k (e @ [(k, v)]) = e"
  by (induction e) (auto simp: dict_get_def dict_del_def AList.delete_eq split: if_splits)

lemma add_policy_evaluate:
  assumes "get_policy (ap_policy_id p) e = None"
  shows "engine_evaluate txt fmt now user t res action env (add_policy p e) =
    (let ctx = request_context user res (request_env fmt now env)
     in if \<not> policy_applies txt ctx t action p
          then engine_evaluate txt fmt now user t res action env e
        else ap_effect p = ALLOW
          \<and> \<not> (\<exists>q \<in> set (dict_values e). policy_applies txt ctx t action q \<and> ap_effect q = DENY))"
proof -
  have "dict_values (add_policy p e) = dict_values e @ [p]"
    using assms by (simp add: add_policy_def get_policy_def dict_set_fresh)
  then show ?thesis
    by (cases "ap_effect p") (auto simp: engine_evaluate_iff Let_def)
qed

text \<open>A new policy only moves decisions its way: where it does not apply nothing changes, a deny
  policy that applies refuses, an allow policy that applies grants unless some policy denies.
  Removing it again restores the engine, and reports that it was there.\<close>

theorem policy_addition:
  assumes "get_policy (ap_policy_id p) e = None"
  shows "engine_evaluate txt fmt now user t res action env (add_policy p e) =
    (let ctx = request_context user res (request_env fmt now env)
     in if \<not> policy_applies txt ctx t action p
          then engine_evaluate txt fmt now user t res action env e
        else ap_effect p = ALLOW
          \<and> \<not> (\<exists>q \<in> set (dict_values e). policy_applies txt ctx t action q \<and> ap_effect q = DENY))
    \<and> get_policy (ap_policy_id p) (add_policy p e) = Some p
    \<and> remove_policy (ap_policy_id p) (add_policy p e) = (True, e)
    \<and> remove_policy (ap_policy_id p) e = (False, e)"
  using assms add_policy_evaluate[OF assms]
  by (simp add: get_policy_def add_policy_def remove_policy_def dict_set_fresh dict_del_fresh
      dict_get_append)

theorem policy_addition_witness:
  "let p = create_department_access_policy 0 0 ''p1'' ''eng'' ''knowledge'' [''read''] 100
   in engine_evaluate (\<lambda>_. []) (\<lambda>_. []) 0 (PDict [(''department'', PStr ''eng'')]) ''knowledge''
        (PDict [(''classification'', PStr ''internal'')]) ''read'' None (add_policy p new_engine)
      \<and> remove_policy ''p1'' (add_policy p new_engine) = (True, new_engine)"
proof -
  let ?p = "create_department_access_policy 0 0 ''p1'' ''eng'' ''knowledge'' [''read''] 100"
  have i: "ap_policy_id ?p = ''p1''"
    by (simp add: create_department_access_policy_def ABACPolicy_def)
  have "policy_applies (\<lambda>_. []) (request_context (PDict [(''department'', PStr ''eng'')])
      (PDict [(''classification'', PStr ''internal'')]) (request_env (\<lambda>_. []) 0 None)) ''knowledge'' ''read'' ?p"
    by (simp add: policy_applies_def create_department_access_policy_def ABACPolicy_def
        condition_evaluate_def get_attribute_value_def request_context_def dict_get_def py_in_def or_false_def)
  moreover have "get_policy (ap_policy_id ?p) new_engine = None" "ap_effect ?p = ALLOW"
    by (simp_all add: get_policy_def new_engine_def create_department_access_policy_def ABACPolicy_def)
  ultimately show ?thesis
    using policy_addition[of ?p new_engine "\<lambda>_. []" "\<lambda>_. []" 0 "PDict [(''department'', PStr ''eng'')]"
        "''knowledge''" "PDict [(''classification'', PStr ''internal'')]" "''read''" None] i
    by (simp add: Let_def new_engine_def)
qed

subsection \<open>Absent attributes and business hours\<close>

lemma absent_attribute:
  "get_attribute_value ctx (cd_attribute c) = None \<Longrightarrow> Single c \<in> set cs \<Longrightarrow>
   \<not> group_evaluate txt ctx (Group L_AND cs)"
  by (auto simp: condition_evaluate_def list_all_iff Let_def intro!: bexI[of _ "Single c"])

text \<open>A condition on an attribute the request does not have, or has as \<open>None\<close>, holds under no
  operator, \<open>!=\<close> and \<open>not_in\<close> included. So a policy that needs it among its conditions has no
  effect on the request: in particular a deny policy of this kind does not deny.\<close>

theorem absent_attribute_disables_policy:
  assumes "get_policy (ap_policy_id p) e = None"
    and "ap_conditions p = Group L_AND cs" and "Single c \<in> set cs"
    and "get_attribute_value (request_context user res (request_env fmt now env)) (cd_attribute c) = None"
  shows "engine_evaluate txt fmt now user t res action env (add_policy p e)
    = engine_evaluate txt fmt now user t res action env e"
proof -
  have "\<not> policy_applies txt (request_context user res (request_env fmt now env)) t action p"
    using absent_attribute[OF assms(4,3)] assms(2) by (simp add: policy_applies_def)
  then show ?thesis using add_policy_evaluate[OF assms(1)] by (simp add: Let_def)
qed

theorem absent_attribute_disables_policy_witness:
  "let p = ABACPolicy 0 0 ''p2'' ''n'' ''d'' DENY ''knowledge'' [''*'']
             (Group L_AND [Single \<lparr>cd_attribute = ''user.department'', cd_operator = NOT_EQUALS,
                cd_value = PStr ''hr''\<rparr>]) 0
   in engine_evaluate (\<lambda>_. []) (\<lambda>_. []) 0 (PDict []) ''knowledge'' (PDict []) ''read'' None (add_policy p new_engine)
        = engine_evaluate (\<lambda>_. []) (\<lambda>_. []) 0 (PDict []) ''knowledge'' (PDict []) ''read'' None new_engine"
  using absent_attribute_disables_policy
    [of "ABACPolicy 0 0 ''p2'' ''n'' ''d'' DENY ''knowledge'' [''*'']
       (Group L_AND [Single \<lparr>cd_attribute = ''user.department'', cd_operator = NOT_EQUALS,
          cd_value = PStr ''hr''\<rparr>]) 0" new_engine _ _ "PDict []" "PDict []" "\<lambda>_. []" 0 None "\<lambda>_. []" "''knowledge''" "''read''",
     OF _ _ list.set_intros(1)]
  by (auto simp: ABACPolicy_def get_policy_def new_engine_def get_attribute_value_def request_context_def dict_get_def)

text \<open>The business hours policy does what it says: added to an engine, it refuses exactly the
  requests of its resource type and actions made before the first or from the last hour on, by
  the clock of the server (UTC), and leaves all other decisions as they were.\<close>

theorem business_hours_exact:
  assumes "get_policy policy_id e = None"
  shows "engine_evaluate txt fmt now user t res action None
      (add_policy (create_business_hours_policy c0 u0 policy_id resource_type actions start_hour end_hour priority) e)
    \<longleftrightarrow> engine_evaluate txt fmt now user t res action None e
      \<and> ((t = [] \<or> t = resource_type) \<and> (action \<in> set actions \<or> ''*'' \<in> set actions)
         \<longrightarrow> start_hour \<le> now div usec 3600 mod 24 \<and> now div usec 3600 mod 24 < end_hour)"
proof -
  let ?p = "create_business_hours_policy c0 u0 policy_id resource_type actions start_hour end_hour priority"
  have "policy_applies txt (request_context user res (request_env fmt now None)) t action ?p
      \<longleftrightarrow> (t = [] \<or> t = resource_type) \<and> (action \<in> set actions \<or> ''*'' \<in> set actions)
        \<and> \<not> (start_hour \<le> now div usec 3600 mod 24 \<and> now div usec 3600 mod 24 < end_hour)"
    by (auto simp: policy_applies_def create_business_hours_policy_def ABACPolicy_def
        condition_evaluate_def get_attribute_value_def request_context_def request_env_def
        default_environment_def dict_get_def or_false_def Let_def)
  moreover have "get_policy (ap_policy_id ?p) e = None" and "ap_effect ?p = DENY"
    using assms by (simp_all add: create_business_hours_policy_def ABACPolicy_def)
  ultimately show ?thesis
    by (auto simp: add_policy_evaluate Let_def)
qed

theorem business_hours_exact_witness:
  "\<not> engine_evaluate (\<lambda>_. []) (\<lambda>_. []) 0 (PDict []) ''tasks'' (PDict []) ''read'' None
      (add_policy (create_business_hours_policy 0 0 ''p3'' ''tasks'' [''*''] 9 17 50) new_engine)"
  using business_hours_exact[of "''p3''" new_engine "\<lambda>_. []" "\<lambda>_. []" 0 "PDict []" "''tasks''" "PDict []"
      "''read''" 0 0 "''tasks''" "[''*'']" 9 17 50]
  by (simp add: get_policy_def new_engine_def usec_def)

end
