(* ===== verification/Agent_Access.thy ===== *)
theory Agent_Access
  imports Rbac
begin

section \<open>Who may see and use an agent\<close>

text \<open>
  \<open>access_control/agent_access.py\<close> over the tables it reads: departments with their parents, users
  with their department, agents with owner, access level and department. An agent is visible to
  its owner, to administrators, to everybody when it is public, and to the members of its
  department and of the departments below it. The module decides this twice: by predicates on a
  loaded agent, and by the conditions it adds to a query. A query is modelled by the rows it
  returns; the collation of the database, which orders agents by name, is the argument \<open>rank\<close>.
\<close>

subsection \<open>Tables\<close>

record department_row =
  dep_id :: uuid
  dep_parent :: "uuid option"

record user_row =
  usr_id :: uuid
  usr_username :: string
  usr_role :: string
  usr_department :: "uuid option"

record agent_row =
  ag_id :: uuid
  ag_name :: string
  ag_owner :: uuid
  ag_capabilities :: pyval
  ag_status :: string
  ag_access_level :: "string option"
  ag_department :: "uuid option"
  ag_retired_at :: "timestamp option"
  ag_created_at :: timestamp

record access_db =
  adb_departments :: "department_row list"
  adb_users :: "user_row list"
  adb_agents :: "agent_row list"

text \<open>Every stored identifier is a UUID.\<close>

definition access_db_ok :: "access_db \<Rightarrow> bool" where
  "access_db_ok db \<longleftrightarrow>
     (\<forall>d \<in> set (adb_departments db). dep_id d < 2 ^ 128 \<and> (\<forall>p. dep_parent d = Some p \<longrightarrow> p < 2 ^ 128))
     \<and> (\<forall>u \<in> set (adb_users db). usr_id u < 2 ^ 128 \<and> (\<forall>d. usr_department u = Some d \<longrightarrow> d < 2 ^ 128))
     \<and> (\<forall>a \<in> set (adb_agents db). ag_owner a < 2 ^ 128 \<and> (\<forall>d. ag_department a = Some d \<longrightarrow> d < 2 ^ 128))"

subsection \<open>Normalisation\<close>

definition normalize_uuid_str :: "string option \<Rightarrow> string option" where
  "normalize_uuid_str v =
     (case v of None \<Rightarrow> None
      | Some s \<Rightarrow> (case parse_uuid s of None \<Rightarrow> None | Some u \<Rightarrow> Some (uuid_str u)))"

text \<open>On a UUID column, whose values the function turns into text first.\<close>

definition normalize_uuid_column :: "uuid option \<Rightarrow> string option" where
  "normalize_uuid_column v = normalize_uuid_str (map_option uuid_str v)"

definition normalize_agent_access_level :: "string option \<Rightarrow> string" where
  "normalize_agent_access_level raw =
     (let normalized = py_lower (py_strip (case str_or raw (Some ''private'') of
                                             Some s \<Rightarrow> s | None \<Rightarrow> ''private''))
      in if normalized = ''team'' then ''department''
         else if normalized \<in> {''private'', ''department'', ''public''} then normalized
         else ''private'')"

subsection \<open>The departments above a department\<close>

definition find_department :: "department_row list \<Rightarrow> uuid \<Rightarrow> department_row option" where
  "find_department ds i = find (\<lambda>d. dep_id d = i) ds"

definition parent_text :: "department_row list \<Rightarrow> string \<Rightarrow> string option" where
  "parent_text ds current =
     (case parse_uuid current of
        None \<Rightarrow> None
      | Some u \<Rightarrow>
          (case find_department ds u of
             None \<Rightarrow> None
           | Some d \<Rightarrow> normalize_uuid_column (dep_parent d)))"

text \<open>
  The loop of \<open>get_department_ancestor_ids\<close>. A name is followed once, and every name but the first
  is the parent of some department, so the parents not yet seen bound the number of rounds,
  whatever cycles they form.
\<close>

definition parent_names :: "department_row list \<Rightarrow> string set" where
  "parent_names ds = {p. Some p \<in> (\<lambda>d. normalize_uuid_column (dep_parent d)) ` set ds}"

lemma finite_parent_names [simp]: "finite (parent_names ds)"
proof -
  have "Some ` parent_names ds \<subseteq> (\<lambda>d. normalize_uuid_column (dep_parent d)) ` set ds"
    by (auto simp: parent_names_def)
  then show ?thesis by (meson List.finite_set finite_imageI finite_imageD finite_subset inj_Some inj_on_subset subset_UNIV)
qed

lemma find_in_set: "find P xs = Some x \<Longrightarrow> x \<in> set xs \<and> P x"
  by (induction xs) (auto split: if_splits)

lemma parent_text_name: "parent_text ds c = Some p \<Longrightarrow> p \<in> parent_names ds"
  by (force simp: parent_text_def parent_names_def find_department_def dest: find_in_set
      split: option.splits)

function ancestor_loop :: "department_row list \<Rightarrow> string \<Rightarrow> string list \<Rightarrow> string list" where
  "ancestor_loop ds current seen =
     (if current = [] \<or> current \<in> set seen then []
      else current #
        (case parent_text ds current of
           None \<Rightarrow> []
         | Some p \<Rightarrow> ancestor_loop ds p (seen @ [current])))"
  by pat_completeness auto
termination ancestor_loop
proof (relation "measure (\<lambda>(ds, c, seen). card ((insert c (parent_names ds)) - set seen))", goal_cases)
  case (2 ds current seen p)
  then have "insert p (parent_names ds) - set (seen @ [current])
      \<subset> insert current (parent_names ds) - set seen"
    using parent_text_name by auto
  then show ?case by (auto intro: psubset_card_mono)
qed simp

declare ancestor_loop.simps [simp del]

definition get_department_ancestor_ids :: "department_row list \<Rightarrow> string option \<Rightarrow> string list" where
  "get_department_ancestor_ids ds department_id =
     (case normalize_uuid_str department_id of
        None \<Rightarrow> []
      | Some c \<Rightarrow> ancestor_loop ds c [])"

subsection \<open>The context of a user and the predicates\<close>

record access_context =
  ac_user_id :: string
  ac_role :: string
  ac_department_id :: "string option"
  ac_department_ancestor_ids :: "string list"

definition is_admin :: "access_context \<Rightarrow> bool" where
  "is_admin ctx \<longleftrightarrow> py_lower (py_strip (ac_role ctx)) = ''admin''"

definition find_user :: "user_row list \<Rightarrow> uuid \<Rightarrow> user_row option" where
  "find_user us i = find (\<lambda>u. usr_id u = i) us"

definition build_agent_access_context_for_user_id ::
    "access_db \<Rightarrow> string \<Rightarrow> string \<Rightarrow> access_context" where
  "build_agent_access_context_for_user_id db user_id role =
     (let user = (case normalize_uuid_str (Some user_id) of
                    None \<Rightarrow> None
                  | Some n \<Rightarrow> (case parse_uuid n of None \<Rightarrow> None | Some u \<Rightarrow> find_user (adb_users db) u));
          department_id = (case user of None \<Rightarrow> None | Some u \<Rightarrow> normalize_uuid_column (usr_department u))
      in \<lparr>ac_user_id = user_id, ac_role = role, ac_department_id = department_id,
          ac_department_ancestor_ids = get_department_ancestor_ids (adb_departments db) department_id\<rparr>)"

definition build_agent_access_context :: "access_db \<Rightarrow> current_user \<Rightarrow> access_context" where
  "build_agent_access_context db u =
     build_agent_access_context_for_user_id db (cu_user_id u) (cu_role u)"

definition resolve_agent_owner_department_id :: "access_db \<Rightarrow> string option \<Rightarrow> string option" where
  "resolve_agent_owner_department_id db owner =
     (case normalize_uuid_str owner of
        None \<Rightarrow> None
      | Some n \<Rightarrow>
          (case parse_uuid n of
             None \<Rightarrow> None
           | Some i \<Rightarrow>
               (case find_user (adb_users db) i of
                  None \<Rightarrow> None
                | Some u \<Rightarrow> normalize_uuid_column (usr_department u))))"

definition agent_owner_id :: "agent_row \<Rightarrow> string option" where
  "agent_owner_id a = normalize_uuid_column (Some (ag_owner a))"

definition agent_department_id :: "agent_row \<Rightarrow> string option" where
  "agent_department_id a = normalize_uuid_column (ag_department a)"

definition can_read_agent :: "agent_row option \<Rightarrow> access_context \<Rightarrow> bool" where
  "can_read_agent agent ctx =
     (case agent of
        None \<Rightarrow> False
      | Some a \<Rightarrow>
          if is_admin ctx then True
          else if agent_owner_id a = Some (ac_user_id ctx) then True
          else let access_level = normalize_agent_access_level (ag_access_level a)
               in if access_level = ''public'' then True
                  else if access_level = ''department''
                    then (case agent_department_id a of
                            None \<Rightarrow> False
                          | Some d \<Rightarrow> d \<noteq> [] \<and> d \<in> set (ac_department_ancestor_ids ctx))
                  else False)"

definition can_execute_agent :: "agent_row option \<Rightarrow> access_context \<Rightarrow> bool" where
  "can_execute_agent agent ctx = can_read_agent agent ctx"

definition can_manage_agent :: "agent_row option \<Rightarrow> access_context \<Rightarrow> bool" where
  "can_manage_agent agent ctx =
     (case agent of
        None \<Rightarrow> False
      | Some a \<Rightarrow> is_admin ctx \<or> agent_owner_id a = Some (ac_user_id ctx))"

subsection \<open>The queries\<close>

datatype access_type = AccessRead | AccessExecute | AccessManage

text \<open>The condition the query gets; a comparison with SQL \<open>NULL\<close> selects nothing.\<close>

definition query_condition :: "access_context \<Rightarrow> access_type \<Rightarrow> agent_row \<Rightarrow> bool" where
  "query_condition ctx access a =
     (if is_admin ctx then True
      else case parse_uuid (ac_user_id ctx) of
             None \<Rightarrow> False
           | Some u \<Rightarrow>
               ag_owner a = u
               \<or> (access \<in> {AccessRead, AccessExecute}
                  \<and> (ag_access_level a = Some ''public''
                     \<or> (ac_department_ancestor_ids ctx \<noteq> []
                        \<and> ag_access_level a \<in> {Some ''department'', Some ''team''}
                        \<and> ag_department a \<in> parse_uuid ` set (ac_department_ancestor_ids ctx) - {None}))))"

definition filter_agent_query :: "access_db \<Rightarrow> current_user \<Rightarrow> access_type \<Rightarrow> agent_row list \<Rightarrow> agent_row list" where
  "filter_agent_query db u access rows =
     filter (query_condition (build_agent_access_context_for_user_id db (cu_user_id u) (cu_role u)) access) rows"

definition list_accessible_agents ::
    "(string \<Rightarrow> int) \<Rightarrow> access_db \<Rightarrow> current_user \<Rightarrow> access_type \<Rightarrow> string list \<Rightarrow> uuid list \<Rightarrow> bool
     \<Rightarrow> agent_row list" where
  "list_accessible_agents rank db u access statuses exclude_agent_ids include_retired =
     (let ctx = build_agent_access_context_for_user_id db (cu_user_id u) (cu_role u);
          q = filter (query_condition ctx access) (adb_agents db);
          q1 = (if \<not> include_retired then filter (\<lambda>a. ag_retired_at a = None) q else q);
          q2 = (if statuses \<noteq> [] then filter (\<lambda>a. ag_status a \<in> set statuses) q1 else q1);
          q3 = (if exclude_agent_ids \<noteq> [] then filter (\<lambda>a. ag_id a \<notin> set exclude_agent_ids) q2 else q2)
      in sort_key (\<lambda>a. rank (ag_name a)) (sort_key ag_created_at q3))"

definition load_accessible_agent_or_raise ::
    "access_db \<Rightarrow> string \<Rightarrow> current_user \<Rightarrow> access_type \<Rightarrow> http_error + agent_row" where
  "load_accessible_agent_or_raise db agent_id u access =
     (case parse_uuid agent_id of
        None \<Rightarrow> Inl (HTTPException 400 (''Invalid agent id: '' @ agent_id))
      | Some i \<Rightarrow>
          (case find (\<lambda>a. ag_id a = i) (adb_agents db) of
             None \<Rightarrow> Inl (HTTPException 404 (''Agent '' @ agent_id @ '' not found''))
           | Some a \<Rightarrow>
               (let ctx = build_agent_access_context_for_user_id db (cu_user_id u) (cu_role u);
                    allowed = (case access of
                                 AccessManage \<Rightarrow> can_manage_agent (Some a) ctx
                               | AccessExecute \<Rightarrow> can_execute_agent (Some a) ctx
                               | AccessRead \<Rightarrow> can_read_agent (Some a) ctx)
                in if \<not> allowed
                   then Inl (HTTPException 403 (''You don'' @ [CHR 0x27] @ ''t have permission to access this agent''))
                   else Inr a)))"


subsection \<open>Identifiers and their text\<close>

lemma int16_digits_less: "int16_digits acc p s = Some v \<Longrightarrow> v < Suc acc * 16 ^ length s"
proof (induction s arbitrary: acc p)
  case Nil
  then show ?case by (simp split: if_splits)
next
  case (Cons c cs)
  show ?case
  proof (cases "of_char c = (95 :: nat)")
    case True
    then have "int16_digits acc False cs = Some v" using Cons.prems by (auto split: if_splits)
    then have "v < Suc acc * 16 ^ length cs" by (rule Cons.IH)
    moreover have "Suc acc * 16 ^ length cs \<le> Suc acc * 16 ^ length (c # cs)" by simp
    ultimately show ?thesis by linarith
  next
    case False
    then obtain d where d: "hex_val c = Some d" and v: "int16_digits (16 * acc + d) True cs = Some v"
      using Cons.prems by (auto split: option.splits)
    have "d < 16" using d by (auto simp: hex_val_def Let_def split: if_splits)
    then have "Suc (16 * acc + d) * 16 ^ length cs \<le> (16 * Suc acc) * 16 ^ length cs"
      by (intro mult_right_mono) auto
    moreover have "(16 * Suc acc) * 16 ^ length cs = Suc acc * 16 ^ length (c # cs)"
      by (simp add: algebra_simps)
    ultimately show ?thesis using Cons.IH[OF v] by linarith
  qed
qed

lemma length_dropWhile_le2: "length (rev (dropWhile P (rev (dropWhile Q s)))) \<le> length s"
proof -
  have "length (dropWhile P (rev (dropWhile Q s))) \<le> length (rev (dropWhile Q s))"
    by (rule length_dropWhile_le)
  also have "\<dots> \<le> length s" by (simp add: length_dropWhile_le)
  finally show ?thesis by simp
qed

lemma py_int16_less: "py_int16 s = Some v \<Longrightarrow> v < 16 ^ length s"
proof -
  assume v: "py_int16 s = Some v"
  define s1 where "s1 = py_strip s"
  define s2 where "s2 = (case s1 of c # cs \<Rightarrow> if c = CHR ''+'' then cs else s1 | [] \<Rightarrow> [])"
  define s3 where "s3 = (if take 2 s2 = ''0x'' \<or> take 2 s2 = ''0X''
      then (case drop 2 s2 of c # cs \<Rightarrow> if of_char c = (95 :: nat) then cs else c # cs | [] \<Rightarrow> []) else s2)"
  have "length s1 \<le> length s" unfolding s1_def py_strip_def by (rule length_dropWhile_le2)
  moreover have "length s2 \<le> length s1" by (auto simp: s2_def split: list.splits)
  moreover have "length s3 \<le> length s2"
    by (auto simp: s3_def split: list.splits) (metis length_Cons length_drop diff_le_self Suc_leD)+
  ultimately have le: "length s3 \<le> length s" by simp
  have "int16_digits 0 False s3 = Some v"
    using v unfolding py_int16_def Let_def s3_def s2_def s1_def .
  then have "v < 16 ^ length s3" using int16_digits_less by fastforce
  also have "(16 :: nat) ^ length s3 \<le> 16 ^ length s" using le by (intro power_increasing) auto
  finally show ?thesis .
qed

lemma parse_uuid_less: "parse_uuid s = Some u \<Longrightarrow> u < 2 ^ 128"
proof -
  assume "parse_uuid s = Some u"
  then obtain h where "length h = 32" "py_int16 h = Some u"
    by (auto simp: parse_uuid_def Let_def split: if_splits)
  then have "u < 16 ^ 32" using py_int16_less by metis
  then show ?thesis by simp
qed

lemma uuid_str_inj: "u < 2 ^ 128 \<Longrightarrow> v < 2 ^ 128 \<Longrightarrow> uuid_str u = uuid_str v \<longleftrightarrow> u = v"
  by (metis option.inject parse_uuid_str)

lemma normalize_uuid_column_Some [simp]: "u < 2 ^ 128 \<Longrightarrow> normalize_uuid_column (Some u) = Some (uuid_str u)"
  by (simp add: normalize_uuid_column_def normalize_uuid_str_def parse_uuid_str)

lemma normalize_uuid_column_None [simp]: "normalize_uuid_column None = None"
  by (simp add: normalize_uuid_column_def normalize_uuid_str_def)

lemma normalize_uuid_idem: "normalize_uuid_str v = Some s \<Longrightarrow> normalize_uuid_str (Some s) = Some s"
  by (cases v) (auto simp: normalize_uuid_str_def parse_uuid_str dest: parse_uuid_less split: option.splits)

lemma uuid_text_nonempty [simp]: "uuid_str u \<noteq> []" "[] \<noteq> uuid_str u"
  by (simp_all add: uuid_str_def Let_def)

subsection \<open>The chain of departments\<close>

definition parent_of :: "department_row list \<Rightarrow> uuid rel" where
  "parent_of ds = {(i, p). \<exists>d. find_department ds i = Some d \<and> dep_parent d = Some p}"

lemma parent_of_less:
  "access_db_ok db \<Longrightarrow> (i, p) \<in> parent_of (adb_departments db) \<Longrightarrow> p < 2 ^ 128"
  by (auto simp: parent_of_def access_db_ok_def find_department_def dest!: find_in_set)

lemma parents_less:
  assumes "access_db_ok db" and "(i, p) \<in> (parent_of (adb_departments db))\<^sup>*" and "i < 2 ^ 128"
  shows "p < 2 ^ 128"
  using assms(2,3) by (induction rule: rtrancl_induct) (auto dest: parent_of_less[OF assms(1)])

lemma parent_text_uuid:
  assumes "access_db_ok db" and "i < 2 ^ 128"
  shows "parent_text (adb_departments db) (uuid_str i) = Some x
    \<longleftrightarrow> (\<exists>p. x = uuid_str p \<and> (i, p) \<in> parent_of (adb_departments db))"
proof -
  have "parent_text (adb_departments db) (uuid_str i)
      = (case find_department (adb_departments db) i of None \<Rightarrow> None
         | Some d \<Rightarrow> normalize_uuid_column (dep_parent d))"
    using assms(2) by (simp add: parent_text_def parse_uuid_str)
  moreover have "normalize_uuid_column (dep_parent d) = map_option uuid_str (dep_parent d)"
    if "find_department (adb_departments db) i = Some d" for d
    using parent_of_less[OF assms(1), of i] that by (cases "dep_parent d") (auto simp: parent_of_def)
  ultimately show ?thesis by (auto simp: parent_of_def split: option.splits)
qed

lemma ancestor_loop_stop: "c = [] \<or> c \<in> set seen \<Longrightarrow> ancestor_loop ds c seen = []"
  by (subst ancestor_loop.simps) simp

lemma ancestor_loop_new:
  "\<not> (c = [] \<or> c \<in> set seen) \<Longrightarrow>
   ancestor_loop ds c seen = c # (case parent_text ds c of None \<Rightarrow> []
      | Some q \<Rightarrow> ancestor_loop ds q (seen @ [c]))"
  by (subst ancestor_loop.simps) (simp only: if_False)

lemma ancestor_loop_distinct:
  "distinct (ancestor_loop ds c seen) \<and> set (ancestor_loop ds c seen) \<inter> set seen = {}"
proof (induction ds c seen rule: ancestor_loop.induct)
  case (1 ds c seen)
  show ?case
  proof (cases "c = [] \<or> c \<in> set seen")
    case True
    then show ?thesis by (simp add: ancestor_loop_stop)
  next
    case new: False
    show ?thesis
    proof (cases "parent_text ds c")
      case None
      then show ?thesis using new by (simp add: ancestor_loop_new)
    next
      case (Some q)
      from 1[OF new Some] new show ?thesis by (auto simp: ancestor_loop_new[OF new] Some)
    qed
  qed
qed

lemma ancestor_loop_sound:
  assumes "access_db_ok db"
  shows "i < 2 ^ 128 \<Longrightarrow> x \<in> set (ancestor_loop (adb_departments db) (uuid_str i) seen) \<Longrightarrow>
    \<exists>e. x = uuid_str e \<and> (i, e) \<in> (parent_of (adb_departments db))\<^sup>*"
proof (induction "adb_departments db" "uuid_str i" seen arbitrary: i rule: ancestor_loop.induct)
  case (1 seen)
  have new: "\<not> (uuid_str i = [] \<or> uuid_str i \<in> set seen)"
    using 1(3) by (auto simp: ancestor_loop_stop)
  show ?case
  proof (cases "x = uuid_str i")
    case False
    then obtain y where y: "parent_text (adb_departments db) (uuid_str i) = Some y"
      and x: "x \<in> set (ancestor_loop (adb_departments db) y (seen @ [uuid_str i]))"
      using 1(3) by (cases "parent_text (adb_departments db) (uuid_str i)") (auto simp: ancestor_loop_new[OF new])
    obtain p where p: "y = uuid_str p" "(i, p) \<in> parent_of (adb_departments db)"
      using parent_text_uuid[OF assms 1(2)] y by blast
    then obtain e where e: "x = uuid_str e" "(p, e) \<in> (parent_of (adb_departments db))\<^sup>*"
      using 1(1)[OF new, of p] y x p parent_of_less[OF assms p(2)] by auto
    show ?thesis using e(1) converse_rtrancl_into_rtrancl[OF p(2) e(2)] by (intro exI[of _ e] conjI)
  qed blast
qed

lemma ancestor_loop_closed:
  assumes "x \<in> set (ancestor_loop ds c seen)" and "parent_text ds x = Some p" and "p \<noteq> []"
  shows "p \<in> set seen \<union> set (ancestor_loop ds c seen)"
  using assms
proof (induction ds c seen rule: ancestor_loop.induct)
  case (1 ds c seen)
  then have new: "\<not> (c = [] \<or> c \<in> set seen)"
    by (auto simp: ancestor_loop_stop)
  note loop = ancestor_loop_new[OF new, of ds]
  show ?case
  proof (cases "x = c")
    case True
    have "p \<in> set (seen @ [c]) \<or> p \<in> set (ancestor_loop ds p (seen @ [c]))"
      using 1(4) by (cases "p \<in> set (seen @ [c])") (auto simp: ancestor_loop_new)
    then show ?thesis using loop 1(3) True by auto
  next
    case False
    then obtain q where q: "parent_text ds c = Some q" "x \<in> set (ancestor_loop ds q (seen @ [c]))"
      using 1(2) loop by (auto split: option.splits)
    then show ?thesis using 1(1)[OF new q(1) q(2) 1(3,4)] loop by auto
  qed
qed

lemma department_ancestors:
  assumes "access_db_ok db" and "d < 2 ^ 128"
  shows "distinct (get_department_ancestor_ids (adb_departments db) (Some (uuid_str d)))
    \<and> set (get_department_ancestor_ids (adb_departments db) (Some (uuid_str d)))
        = uuid_str ` {e. (d, e) \<in> (parent_of (adb_departments db))\<^sup>*}"
proof -
  let ?ds = "adb_departments db"
  have g: "get_department_ancestor_ids ?ds (Some (uuid_str d)) = ancestor_loop ?ds (uuid_str d) []"
    using assms(2) by (simp add: get_department_ancestor_ids_def normalize_uuid_str_def parse_uuid_str)
  have "uuid_str e \<in> set (ancestor_loop ?ds (uuid_str d) [])" if "(d, e) \<in> (parent_of ?ds)\<^sup>*" for e
    using that
  proof (induction rule: rtrancl_induct)
    case base
    show ?case by (simp add: ancestor_loop_new)
  next
    case (step e p)
    then have "e < 2 ^ 128" using parents_less[OF assms(1) _ assms(2)] by blast
    then have "parent_text ?ds (uuid_str e) = Some (uuid_str p)"
      using parent_text_uuid[OF assms(1)] step(2) by blast
    then show ?case using ancestor_loop_closed[OF step(3)] by simp
  qed
  then show ?thesis
    unfolding g using ancestor_loop_distinct ancestor_loop_sound[OF assms] by blast
qed


text \<open>The departments above a department are found for every parent table, cyclic ones
  included: the loop ends, lists each department once, and lists exactly the department itself
  and those reached by following parents.\<close>

theorem department_ancestors_exact:
  assumes "access_db_ok db" and "d < 2 ^ 128"
  shows "distinct (get_department_ancestor_ids (adb_departments db) (Some (uuid_str d)))
    \<and> set (get_department_ancestor_ids (adb_departments db) (Some (uuid_str d)))
        = uuid_str ` {e. (d, e) \<in> (parent_of (adb_departments db))\<^sup>*}"
  using assms by (rule department_ancestors)

theorem department_ancestors_exact_witness:
  "let db = \<lparr>adb_departments = [\<lparr>dep_id = 5, dep_parent = Some 6\<rparr>, \<lparr>dep_id = 6, dep_parent = Some 5\<rparr>],
             adb_users = [], adb_agents = []\<rparr>
   in set (get_department_ancestor_ids (adb_departments db) (Some (uuid_str 5))) = {uuid_str 5, uuid_str 6}"
proof -
  let ?ds = "[\<lparr>dep_id = 5, dep_parent = Some 6\<rparr>, \<lparr>dep_id = 6, dep_parent = Some (5 :: uuid)\<rparr>]"
  let ?db = "\<lparr>adb_departments = ?ds, adb_users = [], adb_agents = []\<rparr>"
  have p: "parent_of ?ds = {(5, 6), (6, 5)}"
    by (auto simp: parent_of_def find_department_def split: if_splits)
  have reach: "(5, e) \<in> {(5 :: uuid, 6 :: uuid), (6, 5)}\<^sup>* \<longleftrightarrow> e = 5 \<or> e = 6" for e
  proof
    show "(5, e) \<in> {(5 :: uuid, 6 :: uuid), (6, 5)}\<^sup>* \<Longrightarrow> e = 5 \<or> e = 6"
      by (induction rule: rtrancl_induct) auto
  qed auto
  have "access_db_ok ?db" by (auto simp: access_db_ok_def)
  then show ?thesis
    using department_ancestors_exact[of ?db 5] by (auto simp: p reach)
qed

subsection \<open>Who sees which agent\<close>

definition own_department :: "access_db \<Rightarrow> uuid \<Rightarrow> uuid option" where
  "own_department db i = (case find_user (adb_users db) i of None \<Rightarrow> None | Some u \<Rightarrow> usr_department u)"

lemma own_department_less:
  "access_db_ok db \<Longrightarrow> own_department db i = Some d \<Longrightarrow> d < 2 ^ 128"
  by (auto simp: own_department_def access_db_ok_def find_user_def dest!: find_in_set split: option.splits)

lemma ancestors_of_user:
  assumes "access_db_ok db" and "i < 2 ^ 128"
  shows "ac_department_ancestor_ids (build_agent_access_context_for_user_id db (uuid_str i) role)
    = (case own_department db i of None \<Rightarrow> []
       | Some d \<Rightarrow> get_department_ancestor_ids (adb_departments db) (Some (uuid_str d)))"
proof (cases "own_department db i")
  case None
  then show ?thesis
    using assms by (auto simp: build_agent_access_context_for_user_id_def own_department_def Let_def
        normalize_uuid_str_def parse_uuid_str get_department_ancestor_ids_def split: option.splits)
next
  case (Some d)
  then have "d < 2 ^ 128" using own_department_less[OF assms(1)] by blast
  with Some assms show ?thesis
    by (auto simp: build_agent_access_context_for_user_id_def own_department_def Let_def
        normalize_uuid_str_def parse_uuid_str split: option.splits)
qed

lemma ancestors_of_user_set:
  assumes "access_db_ok db" and "i < 2 ^ 128"
  shows "set (ac_department_ancestor_ids (build_agent_access_context_for_user_id db (uuid_str i) role))
    = uuid_str ` {e. \<exists>d. own_department db i = Some d \<and> (d, e) \<in> (parent_of (adb_departments db))\<^sup>*}"
proof (cases "own_department db i")
  case None
  then show ?thesis by (simp add: ancestors_of_user[OF assms])
next
  case (Some d)
  then have "d < 2 ^ 128" using own_department_less[OF assms(1)] by blast
  then show ?thesis
    using department_ancestors[OF assms(1)] by (simp add: ancestors_of_user[OF assms] Some)
qed

lemma context_simps [simp]:
  "ac_user_id (build_agent_access_context_for_user_id db i role) = i"
  "ac_role (build_agent_access_context_for_user_id db i role) = role"
  by (simp_all add: build_agent_access_context_for_user_id_def Let_def)

definition shared_level :: "agent_row \<Rightarrow> string" where
  "shared_level a = normalize_agent_access_level (ag_access_level a)"

lemma visibility:
  assumes "access_db_ok db" and "i < 2 ^ 128" and "a \<in> set (adb_agents db)"
  shows "can_read_agent (Some a) (build_agent_access_context_for_user_id db (uuid_str i) role) \<longleftrightarrow>
    py_lower (py_strip role) = ''admin'' \<or> ag_owner a = i \<or> shared_level a = ''public''
    \<or> shared_level a = ''department''
      \<and> (\<exists>d e. own_department db i = Some d \<and> ag_department a = Some e
           \<and> (d, e) \<in> (parent_of (adb_departments db))\<^sup>*)"
proof -
  let ?ctx = "build_agent_access_context_for_user_id db (uuid_str i) role"
  have owner: "agent_owner_id a = Some (uuid_str (ag_owner a))" and "ag_owner a < 2 ^ 128"
    using assms(1,3) by (simp_all add: agent_owner_id_def access_db_ok_def)
  then have own: "agent_owner_id a = Some (uuid_str i) \<longleftrightarrow> ag_owner a = i"
    using uuid_str_inj assms(2) by simp
  have dep: "(case agent_department_id a of None \<Rightarrow> False
       | Some d \<Rightarrow> d \<noteq> [] \<and> d \<in> set (ac_department_ancestor_ids ?ctx))
     \<longleftrightarrow> (\<exists>d e. own_department db i = Some d \<and> ag_department a = Some e
           \<and> (d, e) \<in> (parent_of (adb_departments db))\<^sup>*)"
  proof (cases "ag_department a")
    case None
    then show ?thesis by (simp add: agent_department_id_def)
  next
    case (Some e)
    then have e: "e < 2 ^ 128" using assms(1,3) by (simp add: access_db_ok_def)
    have "uuid_str e \<in> set (ac_department_ancestor_ids ?ctx) \<longleftrightarrow>
        (\<exists>d. own_department db i = Some d \<and> (d, e) \<in> (parent_of (adb_departments db))\<^sup>*)"
      unfolding ancestors_of_user_set[OF assms(1,2)]
      using uuid_str_inj[OF e] parents_less[OF assms(1)] own_department_less[OF assms(1)]
      by (auto simp: image_iff) metis
    then show ?thesis using Some e by (simp add: agent_department_id_def)
  qed
  have levels: "normalize_agent_access_level l \<in> {''private'', ''department'', ''public''}" for l
    by (simp add: normalize_agent_access_level_def Let_def)
  show ?thesis
    using levels[of "ag_access_level a"]
    by (auto simp: can_read_agent_def is_admin_def own dep shared_level_def Let_def)
qed

lemma manageable:
  assumes "access_db_ok db" and "i < 2 ^ 128" and "a \<in> set (adb_agents db)"
  shows "can_manage_agent (Some a) (build_agent_access_context_for_user_id db (uuid_str i) role)
    \<longleftrightarrow> py_lower (py_strip role) = ''admin'' \<or> ag_owner a = i"
proof -
  have "ag_owner a < 2 ^ 128" using assms(1,3) by (simp add: access_db_ok_def)
  then show ?thesis
    using uuid_str_inj[of "ag_owner a" i] assms(2)
    by (simp add: can_manage_agent_def agent_owner_id_def is_admin_def)
qed



definition sample_access_db :: access_db where
  "sample_access_db =
     \<lparr>adb_departments = [\<lparr>dep_id = 5, dep_parent = Some 6\<rparr>, \<lparr>dep_id = 6, dep_parent = None\<rparr>],
      adb_users = [\<lparr>usr_id = 30, usr_username = ''ann'', usr_role = ''user'', usr_department = Some 5\<rparr>],
      adb_agents = [\<lparr>ag_id = 40, ag_name = ''bot'', ag_owner = 31, ag_capabilities = PList [],
        ag_status = ''idle'', ag_access_level = Some ''team'', ag_department = Some 6,
        ag_retired_at = None, ag_created_at = 0\<rparr>]\<rparr>"

lemma sample_access_db_ok: "access_db_ok sample_access_db"
  by (auto simp: access_db_ok_def sample_access_db_def)

lemma sample_parent: "(5, 6) \<in> parent_of (adb_departments sample_access_db)"
  by (simp add: parent_of_def find_department_def sample_access_db_def)

lemma sample_agent:
  "hd (adb_agents sample_access_db) \<in> set (adb_agents sample_access_db)"
  "shared_level (hd (adb_agents sample_access_db)) = ''department''"
  "ag_department (hd (adb_agents sample_access_db)) = Some 6"
  "own_department sample_access_db 30 = Some 5"
     apply (simp add: sample_access_db_def)
    subgoal by (simp add: shared_level_def sample_access_db_def normalize_agent_access_level_def str_or_def) code_simp
   apply (simp add: sample_access_db_def)
  apply (simp add: own_department_def find_user_def sample_access_db_def)
  done


lemma sample_visible:
  "can_read_agent (Some (hd (adb_agents sample_access_db)))
     (build_agent_access_context_for_user_id sample_access_db (uuid_str 30) ''user'')"
  using visibility[OF sample_access_db_ok, of 30 "hd (adb_agents sample_access_db)" "''user''"]
    sample_agent sample_parent by (auto simp: Let_def)

subsection \<open>Predicate and query agree\<close>

text \<open>The stored levels the code itself writes.\<close>

definition level_stored :: "agent_row \<Rightarrow> bool" where
  "level_stored a \<longleftrightarrow>
     ag_access_level a \<in> {None, Some ''private'', Some ''department'', Some ''team'', Some ''public''}"

lemma level_values:
  "normalize_agent_access_level None = ''private''"
  "normalize_agent_access_level (Some ''private'') = ''private''"
  "normalize_agent_access_level (Some ''department'') = ''department''"
  "normalize_agent_access_level (Some ''team'') = ''department''"
  "normalize_agent_access_level (Some ''public'') = ''public''"
  subgoal by code_simp
  subgoal by code_simp
  subgoal by code_simp
  subgoal by code_simp
  subgoal by code_simp
  done

lemma query_agrees:
  assumes "access_db_ok db" and "i < 2 ^ 128" and "a \<in> set (adb_agents db)" and "level_stored a"
  shows "query_condition (build_agent_access_context_for_user_id db (uuid_str i) role) access a
    = (if access = AccessManage
       then can_manage_agent (Some a) (build_agent_access_context_for_user_id db (uuid_str i) role)
       else can_read_agent (Some a) (build_agent_access_context_for_user_id db (uuid_str i) role))"
proof -
  let ?ctx = "build_agent_access_context_for_user_id db (uuid_str i) role"
  define dep where "dep \<longleftrightarrow> (\<exists>d e. own_department db i = Some d \<and> ag_department a = Some e
      \<and> (d, e) \<in> (parent_of (adb_departments db))\<^sup>*)"
  have parsed: "parse_uuid (uuid_str e) = Some e"
    if "own_department db i = Some d" "(d, e) \<in> (parent_of (adb_departments db))\<^sup>*" for d e
    using parse_uuid_str[OF parents_less[OF assms(1) that(2) own_department_less[OF assms(1) that(1)]]] .
  have mem: "ag_department a \<in> parse_uuid ` set (ac_department_ancestor_ids ?ctx) - {None} \<longleftrightarrow> dep"
    unfolding ancestors_of_user_set[OF assms(1,2)] image_image dep_def
    using parsed by (cases "ag_department a") (force simp: image_iff)+
  then have none: "ac_department_ancestor_ids ?ctx = [] \<Longrightarrow> \<not> dep" by auto
  have user: "parse_uuid (ac_user_id ?ctx) = Some i" using assms(2) by (simp add: parse_uuid_str)
  have adm: "is_admin ?ctx \<longleftrightarrow> py_lower (py_strip role) = ''admin''" by (simp add: is_admin_def)
  have query: "query_condition ?ctx access a \<longleftrightarrow> is_admin ?ctx \<or> ag_owner a = i
      \<or> access \<noteq> AccessManage
        \<and> (ag_access_level a = Some ''public'' \<or> ag_access_level a \<in> {Some ''department'', Some ''team''} \<and> dep)"
    unfolding query_condition_def user mem using none by (cases access) auto
  have "shared_level a = ''public'' \<longleftrightarrow> ag_access_level a = Some ''public''"
    "shared_level a = ''department'' \<longleftrightarrow> ag_access_level a \<in> {Some ''department'', Some ''team''}"
    using assms(4) by (auto simp: level_stored_def shared_level_def level_values)
  then show ?thesis
    unfolding query visibility[OF assms(1-3)] manageable[OF assms(1-3)] adm dep_def[symmetric]
    by (cases "access = AccessManage") simp_all
qed

lemma set_list_accessible_agents:
  "set (list_accessible_agents rank db u access statuses exclude_agent_ids include_retired)
   = {a \<in> set (adb_agents db).
        query_condition (build_agent_access_context_for_user_id db (cu_user_id u) (cu_role u)) access a
        \<and> (include_retired \<or> ag_retired_at a = None)
        \<and> (statuses = [] \<or> ag_status a \<in> set statuses)
        \<and> ag_id a \<notin> set exclude_agent_ids}"
  by (auto simp: list_accessible_agents_def Let_def split: if_splits)


lemma accessible_agents:
  assumes "access_db_ok db" and "i < 2 ^ 128" and "cu_user_id u = uuid_str i"
    and "\<forall>a \<in> set (adb_agents db). level_stored a"
  shows "set (list_accessible_agents rank db u access statuses exclude_agent_ids include_retired)
      = {a \<in> set (adb_agents db).
           (if access = AccessManage then can_manage_agent (Some a) (build_agent_access_context db u)
            else can_read_agent (Some a) (build_agent_access_context db u))
           \<and> (include_retired \<or> ag_retired_at a = None)
           \<and> (statuses = [] \<or> ag_status a \<in> set statuses)
           \<and> ag_id a \<notin> set exclude_agent_ids}
    \<and> sorted (map (\<lambda>a. rank (ag_name a))
         (list_accessible_agents rank db u access statuses exclude_agent_ids include_retired))"
proof
  show "set (list_accessible_agents rank db u access statuses exclude_agent_ids include_retired)
      = {a \<in> set (adb_agents db).
           (if access = AccessManage then can_manage_agent (Some a) (build_agent_access_context db u)
            else can_read_agent (Some a) (build_agent_access_context db u))
           \<and> (include_retired \<or> ag_retired_at a = None)
           \<and> (statuses = [] \<or> ag_status a \<in> set statuses)
           \<and> ag_id a \<notin> set exclude_agent_ids}"
    unfolding set_list_accessible_agents build_agent_access_context_def assms(3)
    using query_agrees[OF assms(1,2)] assms(4) by (intro Collect_cong conj_cong) auto
qed (simp add: list_accessible_agents_def Let_def)

text \<open>Listing agents agrees with the predicates on loaded agents: for every user whose token holds a
  canonical identifier and for the access levels the code stores, the query returns exactly the
  agents the predicate of that kind of access allows, less the retired ones, those of another
  status and the excluded ones, and returns them by name.\<close>

theorem accessible_agents_exact:
  assumes "access_db_ok db" and "i < 2 ^ 128" and "cu_user_id u = uuid_str i"
    and "\<forall>a \<in> set (adb_agents db). level_stored a"
  shows "set (list_accessible_agents rank db u access statuses exclude_agent_ids include_retired)
      = {a \<in> set (adb_agents db).
           (if access = AccessManage then can_manage_agent (Some a) (build_agent_access_context db u)
            else can_read_agent (Some a) (build_agent_access_context db u))
           \<and> (include_retired \<or> ag_retired_at a = None)
           \<and> (statuses = [] \<or> ag_status a \<in> set statuses)
           \<and> ag_id a \<notin> set exclude_agent_ids}
    \<and> sorted (map (\<lambda>a. rank (ag_name a))
         (list_accessible_agents rank db u access statuses exclude_agent_ids include_retired))"
  using assms by (rule accessible_agents)

theorem accessible_agents_exact_witness:
  "ag_id ` set (list_accessible_agents (\<lambda>_. 0) sample_access_db
      \<lparr>cu_user_id = uuid_str 30, cu_username = ''ann'', cu_role = ''user'', cu_token_jti = None, cu_session_id = None\<rparr>
      AccessExecute [''idle''] [] False) = {40}"
proof -
  let ?u = "\<lparr>cu_user_id = uuid_str 30, cu_username = ''ann'', cu_role = ''user'',
    cu_token_jti = None, cu_session_id = None\<rparr>"
  let ?a = "hd (adb_agents sample_access_db)"
  have "can_read_agent (Some ?a) (build_agent_access_context sample_access_db ?u)"
    using sample_visible by (simp add: build_agent_access_context_def)
  moreover have "set (adb_agents sample_access_db) = {?a}" "ag_status ?a = ''idle''"
    "ag_retired_at ?a = None" "ag_id ?a = 40"
    by (simp_all add: sample_access_db_def)
  moreover have "level_stored ?a" by (simp add: level_stored_def sample_access_db_def)
  ultimately show ?thesis
    using accessible_agents_exact[OF sample_access_db_ok, of 30 ?u "\<lambda>_. 0" AccessExecute "[''idle'']" "[]" False]
    by auto
qed

end
