(* ===== verification/Assignment.thy ===== *)
theory Assignment
  imports Agent_Access Py_Compare
begin

section \<open>Assigning agents to tasks\<close>

text \<open>
  \<open>task_manager/capability_mapper.py\<close>, \<open>agent_assigner.py\<close> and \<open>load_balancer.py\<close>: capabilities are
  mapped to standard names, agents the user may execute are scored by the share of the required
  capabilities they have, and the first agent of the highest positive score gets the task. The load
  balancer picks the agent of least load among those below their capacity. Scores are reals. The
  order of the list made from a set is the order of insertion here; no caller depends on it. The
  text of a score with two decimals is the argument \<open>fmt2\<close>.
\<close>

subsection \<open>Capabilities\<close>

definition capability_synonyms :: "(string, string list) dict" where
  "capability_synonyms =
     [(''data_analysis'', [''data_analyst'', ''analyst'', ''statistics'', ''data_processing'']),
      (''content_writing'', [''writer'', ''content_writer'', ''copywriter'', ''editor'']),
      (''code_generation'', [''coder'', ''programmer'', ''developer'', ''code_assistant'']),
      (''research'', [''researcher'', ''research_assistant'', ''information_gathering'']),
      (''sql_query'', [''database'', ''sql'', ''data_query''])]"

definition standard_capability :: "string \<Rightarrow> string" where
  "standard_capability req =
     (let req_lower = py_strip (py_lower req)
      in case find (\<lambda>(standard, synonyms). req_lower = standard \<or> req_lower \<in> set synonyms)
              capability_synonyms of
           Some (standard, _) \<Rightarrow> standard
         | None \<Rightarrow> req_lower)"

text \<open>The elements are read from JSON: one that is not a string has no method \<open>lower\<close>.\<close>

fun standardize_all :: "pyval list \<Rightarrow> py_error + string list" where
  "standardize_all [] = Inr []"
| "standardize_all (PStr s # vs) =
     (case standardize_all vs of Inl e \<Rightarrow> Inl e | Inr ss \<Rightarrow> Inr (standard_capability s # ss))"
| "standardize_all (_ # vs) = Inl AttributeError"

definition map_requirements_to_capabilities :: "pyval list \<Rightarrow> py_error + string list" where
  "map_requirements_to_capabilities reqs =
     (case standardize_all reqs of Inl e \<Rightarrow> Inl e | Inr ss \<Rightarrow> Inr (dedup ss))"

text \<open>\<open>for x in value\<close> and \<open>list(value)\<close> on a JSON value.\<close>

definition py_iter :: "pyval \<Rightarrow> py_error + pyval list" where
  "py_iter v =
     (case v of
        PStr s \<Rightarrow> Inr (map (\<lambda>c. PStr [c]) s)
      | PList xs \<Rightarrow> Inr xs
      | PDict d \<Rightarrow> Inr (map PStr (dict_keys d))
      | _ \<Rightarrow> Inl TypeError)"

definition calculate_capability_match_score :: "pyval \<Rightarrow> pyval list \<Rightarrow> py_error + real" where
  "calculate_capability_match_score required available =
     (if \<not> py_truthy required then Inr 1
      else case py_iter required of
             Inl e \<Rightarrow> Inl e
           | Inr reqs \<Rightarrow>
               (case map_requirements_to_capabilities reqs of
                  Inl e \<Rightarrow> Inl e
                | Inr required_set \<Rightarrow>
                    (case map_requirements_to_capabilities available of
                       Inl e \<Rightarrow> Inl e
                     | Inr available_set \<Rightarrow>
                         if set required_set \<union> set available_set = {} then Inr 0
                         else Inr (real (card (set required_set \<inter> set available_set))
                                   / real (card (set required_set))))))"

subsection \<open>Choosing an agent\<close>

record agent_assignment =
  aa_task_id :: uuid
  aa_agent_id :: "uuid option"
  aa_match_score :: real
  aa_reason :: string

definition agent_capability_list :: "pyval \<Rightarrow> py_error + pyval list" where
  "agent_capability_list capabilities =
     (let raw_capabilities = (if py_truthy capabilities then capabilities else PList [])
      in case raw_capabilities of
           PDict d \<Rightarrow>
             (let skills = (case dict_get d ''skills'' of None \<Rightarrow> PList [] | Some v \<Rightarrow> v)
              in py_iter (if py_truthy skills then skills else PList []))
         | PList xs \<Rightarrow> Inr xs
         | _ \<Rightarrow> Inr [])"

definition agent_score :: "pyval \<Rightarrow> agent_row \<Rightarrow> py_error + real" where
  "agent_score required a =
     (case agent_capability_list (ag_capabilities a) of
        Inl e \<Rightarrow> Inl e
      | Inr caps \<Rightarrow> calculate_capability_match_score required caps)"

text \<open>The loop over the agents, with the best agent so far and its score.\<close>

fun best_agent_loop ::
    "pyval \<Rightarrow> agent_row list \<Rightarrow> agent_row option \<Rightarrow> real \<Rightarrow> py_error + agent_row option \<times> real" where
  "best_agent_loop required [] best_agent best_score = Inr (best_agent, best_score)"
| "best_agent_loop required (a # as) best_agent best_score =
     (case agent_score required a of
        Inl e \<Rightarrow> Inl e
      | Inr score \<Rightarrow>
          if score > best_score then best_agent_loop required as (Some a) score
          else best_agent_loop required as best_agent best_score)"

definition user_of_row :: "user_row \<Rightarrow> current_user" where
  "user_of_row u =
     CurrentUser (uuid_str (usr_id u)) (usr_username u)
       (if usr_role u \<noteq> [] then usr_role u else ''user'') None None"

definition assign_agent_to_task ::
    "(string \<Rightarrow> int) \<Rightarrow> (real \<Rightarrow> string) \<Rightarrow> access_db \<Rightarrow> uuid \<Rightarrow> pyval \<Rightarrow> uuid \<Rightarrow> uuid list
     \<Rightarrow> py_error + agent_assignment" where
  "assign_agent_to_task rank fmt2 db task_id required_capabilities user_id exclude_agent_ids =
     (case find_user (adb_users db) user_id of
        None \<Rightarrow> Inr \<lparr>aa_task_id = task_id, aa_agent_id = None, aa_match_score = 0, aa_reason = ''No user found''\<rparr>
      | Some user \<Rightarrow>
          (let agents = list_accessible_agents rank db (user_of_row user) AccessExecute
                          [''idle'', ''active''] exclude_agent_ids False
           in if agents = []
              then Inr \<lparr>aa_task_id = task_id, aa_agent_id = None, aa_match_score = 0,
                        aa_reason = ''No available agents''\<rparr>
              else case best_agent_loop required_capabilities agents None 0 of
                     Inl e \<Rightarrow> Inl e
                   | Inr (Some best_agent, best_score) \<Rightarrow>
                       Inr \<lparr>aa_task_id = task_id, aa_agent_id = Some (ag_id best_agent),
                            aa_match_score = best_score,
                            aa_reason = ''Best match with score '' @ fmt2 best_score\<rparr>
                   | Inr (None, _) \<Rightarrow>
                       Inr \<lparr>aa_task_id = task_id, aa_agent_id = None, aa_match_score = 0,
                            aa_reason = ''No suitable agent found''\<rparr>))"

text \<open>
  Without a user the code asks the agent registry for \<open>find_agents_by_capabilities\<close>, which
  \<open>agent_framework/agent_registry.py\<close> does not have, and goes on with a user id \<open>None\<close> that no row has.
\<close>

definition assign_agent ::
    "(string \<Rightarrow> int) \<Rightarrow> (real \<Rightarrow> string) \<Rightarrow> access_db \<Rightarrow> uuid \<Rightarrow> pyval \<Rightarrow> uuid option
     \<Rightarrow> py_error + agent_row option" where
  "assign_agent rank fmt2 db task_id required_capabilities user_id =
     (case user_id of
        None \<Rightarrow> Inr None
      | Some u \<Rightarrow>
          (case assign_agent_to_task rank fmt2 db task_id required_capabilities u [] of
             Inl e \<Rightarrow> Inl e
           | Inr assignment \<Rightarrow>
               (case aa_agent_id assignment of
                  None \<Rightarrow> Inr None
                | Some i \<Rightarrow> Inr (find (\<lambda>a. ag_id a = i) (adb_agents db)))))"

fun assign_loop ::
    "(string \<Rightarrow> int) \<Rightarrow> (real \<Rightarrow> string) \<Rightarrow> access_db \<Rightarrow> uuid \<Rightarrow> (uuid \<times> pyval list) list
     \<Rightarrow> uuid list \<Rightarrow> (uuid, agent_assignment) dict \<Rightarrow> py_error + (uuid, agent_assignment) dict" where
  "assign_loop rank fmt2 db user_id [] used_agents assignments = Inr assignments"
| "assign_loop rank fmt2 db user_id ((task_id, capabilities) # ts) used_agents assignments =
     (case assign_agent_to_task rank fmt2 db task_id (PList capabilities) user_id used_agents of
        Inl e \<Rightarrow> Inl e
      | Inr a \<Rightarrow>
          assign_loop rank fmt2 db user_id ts
            (case aa_agent_id a of None \<Rightarrow> used_agents | Some i \<Rightarrow> used_agents @ [i])
            (dict_set task_id a assignments))"

definition assign_agents_to_tasks ::
    "(string \<Rightarrow> int) \<Rightarrow> (real \<Rightarrow> string) \<Rightarrow> access_db \<Rightarrow> (uuid, pyval list) dict \<Rightarrow> uuid
     \<Rightarrow> py_error + (uuid, agent_assignment) dict" where
  "assign_agents_to_tasks rank fmt2 db task_requirements user_id =
     assign_loop rank fmt2 db user_id
       (sort_desc (\<lambda>x. int (length (snd x))) task_requirements) [] []"

subsection \<open>The load balancer\<close>

text \<open>The rows of \<open>tasks\<close>, as far as the modules of this package read and write them.\<close>

record task_row =
  tk_id :: uuid
  tk_goal_text :: string
  tk_parent :: "uuid option"
  tk_agent :: "uuid option"
  tk_status :: string
  tk_result :: "(string, pyval) dict option"
  tk_creator :: uuid
  tk_created_at :: timestamp
  tk_completed_at :: "timestamp option"

record agent_load =
  al_agent_id :: uuid
  al_active_tasks :: nat
  al_total_completed :: nat
  al_avg_execution_time :: real
  al_last_task_completed :: "timestamp option"
  al_load_score :: real

record load_balancer =
  lb_max_tasks_per_agent :: int
  lb_agent_loads :: "(uuid, agent_load) dict"

definition new_load_balancer :: "int \<Rightarrow> load_balancer" where
  "new_load_balancer m = \<lparr>lb_max_tasks_per_agent = m, lb_agent_loads = []\<rparr>"

definition total_seconds :: "int \<Rightarrow> real" where
  "total_seconds d = real_of_int d / 1000000"

definition calculate_load_score ::
    "timestamp \<Rightarrow> load_balancer \<Rightarrow> nat \<Rightarrow> real \<Rightarrow> timestamp option \<Rightarrow> py_error + real" where
  "calculate_load_score now lb active_tasks avg_execution_time last_completed =
     (if lb_max_tasks_per_agent lb = 0 then Inl ZeroDivisionError
      else let task_score = min 1 (real active_tasks / real_of_int (lb_max_tasks_per_agent lb));
               time_penalty = (if avg_execution_time > 300
                               then min (3/10) ((avg_execution_time - 300) / 1000) else 0);
               recency_bonus = (case last_completed of
                                  None \<Rightarrow> 0
                                | Some t \<Rightarrow> if total_seconds (now - t) < 300 then - (1/10) else 0);
               score = task_score + time_penalty + recency_bonus
           in Inr (max 0 (min 1 score)))"

definition completed_times :: "task_row list \<Rightarrow> timestamp list" where
  "completed_times ts = List.map_filter tk_completed_at ts"

definition agent_load_of :: "timestamp \<Rightarrow> task_row list \<Rightarrow> load_balancer \<Rightarrow> uuid \<Rightarrow> py_error + agent_load" where
  "agent_load_of now tasks lb agent_id =
     (let active_tasks = length (filter (\<lambda>t. tk_agent t = Some agent_id
                            \<and> tk_status t \<in> {''pending'', ''in_progress''}) tasks);
          completed_tasks = filter (\<lambda>t. tk_agent t = Some agent_id \<and> tk_status t = ''completed'') tasks;
          execution_times = List.map_filter
            (\<lambda>t. map_option (\<lambda>c. total_seconds (c - tk_created_at t)) (tk_completed_at t)) completed_tasks;
          avg_time = (if execution_times \<noteq> [] then sum_list execution_times / real (length execution_times) else 0);
          last_completed = max_by (\<lambda>t. t) (completed_times completed_tasks)
      in case calculate_load_score now lb active_tasks avg_time last_completed of
           Inl e \<Rightarrow> Inl e
         | Inr load_score \<Rightarrow>
             Inr \<lparr>al_agent_id = agent_id, al_active_tasks = active_tasks,
                  al_total_completed = length completed_tasks, al_avg_execution_time = avg_time,
                  al_last_task_completed = last_completed, al_load_score = load_score\<rparr>)"

fun update_agent_loads ::
    "timestamp \<Rightarrow> task_row list \<Rightarrow> load_balancer \<Rightarrow> uuid list \<Rightarrow> py_error option \<times> load_balancer" where
  "update_agent_loads now tasks lb [] = (None, lb)"
| "update_agent_loads now tasks lb (agent_id # ids) =
     (case agent_load_of now tasks lb agent_id of
        Inl e \<Rightarrow> (Some e, lb)
      | Inr l \<Rightarrow>
          update_agent_loads now tasks
            (lb\<lparr>lb_agent_loads := dict_set agent_id l (lb_agent_loads lb)\<rparr>) ids)"

definition no_load :: "uuid \<Rightarrow> agent_load" where
  "no_load agent_id =
     \<lparr>al_agent_id = agent_id, al_active_tasks = 0, al_total_completed = 0, al_avg_execution_time = 0,
      al_last_task_completed = None, al_load_score = 0\<rparr>"

definition load_or_default :: "load_balancer \<Rightarrow> uuid \<Rightarrow> agent_load" where
  "load_or_default lb agent_id =
     (case dict_get (lb_agent_loads lb) agent_id of None \<Rightarrow> no_load agent_id | Some l \<Rightarrow> l)"

definition select_agent ::
    "timestamp \<Rightarrow> task_row list \<Rightarrow> load_balancer \<Rightarrow> uuid list \<Rightarrow> (py_error + uuid option) \<times> load_balancer" where
  "select_agent now tasks lb available_agents =
     (if available_agents = [] then (Inr None, lb)
      else case update_agent_loads now tasks lb available_agents of
             (Some e, lb') \<Rightarrow> (Inl e, lb')
           | (None, lb') \<Rightarrow>
               (let available = filter (\<lambda>a. int (al_active_tasks (load_or_default lb' a))
                                              < lb_max_tasks_per_agent lb') available_agents
                in (Inr (min_by (\<lambda>a. al_load_score (load_or_default lb' a)) available), lb')))"

definition get_agent_load :: "load_balancer \<Rightarrow> uuid \<Rightarrow> agent_load option" where
  "get_agent_load lb agent_id = dict_get (lb_agent_loads lb) agent_id"

definition get_all_loads :: "load_balancer \<Rightarrow> (uuid, agent_load) dict" where
  "get_all_loads lb = lb_agent_loads lb"

text \<open>The slice \<open>xs[:count]\<close>, which counts from the end when \<open>count\<close> is negative.\<close>

definition slice_to :: "int \<Rightarrow> 'a list \<Rightarrow> 'a list" where
  "slice_to count xs = take (nat (if count < 0 then int (length xs) + count else count)) xs"

definition get_least_loaded_agents :: "load_balancer \<Rightarrow> uuid list \<Rightarrow> int \<Rightarrow> uuid list" where
  "get_least_loaded_agents lb agent_ids count =
     slice_to count (sort_key (\<lambda>a. al_load_score (load_or_default lb a)) agent_ids)"

subsection \<open>The score of an agent\<close>

lemma find_capability_nonempty: "set (dedup ss) = {} \<longleftrightarrow> ss = []"
  by simp

lemma standardize_length: "standardize_all vs = Inr ss \<Longrightarrow> length ss = length vs"
  by (induction vs arbitrary: ss rule: standardize_all.induct) (auto split: sum.splits)

lemma standardize_strings [simp]: "standardize_all (map PStr ss) = Inr (map standard_capability ss)"
  by (induction ss) auto

lemma map_requirements_strings [simp]:
  "map_requirements_to_capabilities (map PStr ss) = Inr (dedup (map standard_capability ss))"
  by (simp add: map_requirements_to_capabilities_def)

lemma match_score_share:
  assumes "ss \<noteq> []"
  shows "calculate_capability_match_score (PList (map PStr ss)) (map PStr av)
    = Inr (real (card (standard_capability ` set ss \<inter> standard_capability ` set av))
           / real (card (standard_capability ` set ss)))"
  using assms by (simp add: calculate_capability_match_score_def py_iter_def)

lemma match_score_bounds:
  assumes "calculate_capability_match_score required available = Inr s"
  shows "0 \<le> s \<and> s \<le> 1"
proof -
  have "real (card (A \<inter> B)) / real (card A) \<le> 1" if "finite A" for A B :: "string set"
    using card_mono[OF that, of "A \<inter> B"] by (cases "card A = 0") (simp_all add: divide_le_eq_1)
  then show ?thesis
    using assms by (auto simp: calculate_capability_match_score_def split: if_splits sum.splits)
qed

lemma card_Int_eq: "finite A \<Longrightarrow> card A = card (A \<inter> B) \<longleftrightarrow> A \<subseteq> B"
proof
  assume "finite A" and "card A = card (A \<inter> B)"
  then have "A \<inter> B = A" using card_subset_eq[of A "A \<inter> B"] by simp
  then show "A \<subseteq> B" by blast
next
  assume "A \<subseteq> B"
  then have "A \<inter> B = A" by blast
  then show "card A = card (A \<inter> B)" by simp
qed

lemma agent_score_bounds: "agent_score required a = Inr s \<Longrightarrow> 0 \<le> s \<and> s \<le> 1"
  by (auto simp: agent_score_def dest: match_score_bounds split: sum.splits)

text \<open>The match score is the share of the required capabilities, after synonyms are
  mapped, that an agent has: 1 exactly when it has all of them (none required included), 0 exactly
  when it has none of them.\<close>

theorem match_score_exact:
  "\<exists>s. calculate_capability_match_score (PList (map PStr required)) (map PStr available) = Inr s
     \<and> 0 \<le> s \<and> s \<le> 1
     \<and> (s = 1 \<longleftrightarrow> standard_capability ` set required \<subseteq> standard_capability ` set available)
     \<and> (s = 0 \<longleftrightarrow> required \<noteq> [] \<and> standard_capability ` set required \<inter> standard_capability ` set available = {})"
proof (cases "required = []")
  case True
  then show ?thesis by (simp add: calculate_capability_match_score_def)
next
  case False
  let ?R = "standard_capability ` set required" and ?A = "standard_capability ` set available"
  let ?s = "real (card (?R \<inter> ?A)) / real (card ?R)"
  note score = match_score_share[OF False, of available]
  have pos: "card ?R > 0" using False by (simp add: card_gt_0_iff)
  have "?s = 1 \<longleftrightarrow> card ?R = card (?R \<inter> ?A)" using pos by (auto simp: field_simps)
  then have one: "?s = 1 \<longleftrightarrow> ?R \<subseteq> ?A" by (simp only: card_Int_eq finite_imageI List.finite_set)
  have zero: "?s = 0 \<longleftrightarrow> required \<noteq> [] \<and> ?R \<inter> ?A = {}" using pos False by simp
  show ?thesis
    using score one zero match_score_bounds[OF score] by (intro exI[of _ ?s] conjI) simp_all
qed

subsection \<open>The chosen agent\<close>

lemma best_agent_loop_spec:
  assumes "best_agent_loop required as b s = Inr (b', s')"
  shows "s \<le> s' \<and> (\<forall>a \<in> set as. \<exists>r. agent_score required a = Inr r \<and> r \<le> s')
    \<and> (b' = b \<and> s' = s \<or> (\<exists>a \<in> set as. b' = Some a \<and> agent_score required a = Inr s' \<and> s < s'))"
  using assms
proof (induction as arbitrary: b s)
  case (Cons a as)
  then obtain r where r: "agent_score required a = Inr r" by (auto split: sum.splits)
  show ?case
  proof (cases "r > s")
    case True
    then have "best_agent_loop required as (Some a) r = Inr (b', s')" using Cons.prems r by simp
    from Cons.IH[OF this] show ?thesis using r True by auto
  next
    case False
    then have "best_agent_loop required as b s = Inr (b', s')" using Cons.prems r by simp
    from Cons.IH[OF this] show ?thesis using r False by auto
  qed
qed simp

definition eligible_agents :: "access_db \<Rightarrow> user_row \<Rightarrow> uuid list \<Rightarrow> agent_row set" where
  "eligible_agents db u exclude =
     {a \<in> set (adb_agents db).
        can_execute_agent (Some a) (build_agent_access_context db (user_of_row u))
        \<and> ag_retired_at a = None \<and> ag_status a \<in> {''idle'', ''active''} \<and> ag_id a \<notin> set exclude}"

lemma user_of_row_id [simp]: "cu_user_id (user_of_row u) = uuid_str (usr_id u)"
  by (simp add: user_of_row_def CurrentUser_def)

lemma listed_eligible:
  assumes "access_db_ok db" and "\<forall>a \<in> set (adb_agents db). level_stored a" and "find_user (adb_users db) i = Some u"
  shows "set (list_accessible_agents rank db (user_of_row u) AccessExecute [''idle'', ''active''] exclude False)
    = eligible_agents db u exclude"
proof -
  have "usr_id u < 2 ^ 128"
    using assms(1,3) by (auto simp: access_db_ok_def find_user_def dest!: find_in_set)
  from accessible_agents[OF assms(1) this user_of_row_id assms(2), of rank AccessExecute]
  show ?thesis by (auto simp: eligible_agents_def can_execute_agent_def)
qed

lemma assigned:
  assumes "assign_agent_to_task rank fmt2 db t required i exclude = Inr r"
    and "access_db_ok db" and "\<forall>a \<in> set (adb_agents db). level_stored a" and "find_user (adb_users db) i = Some u"
  shows "(aa_agent_id r = None \<longrightarrow> aa_match_score r = 0
           \<and> (\<forall>b \<in> eligible_agents db u exclude. agent_score required b = Inr 0))
    \<and> (\<forall>k. aa_agent_id r = Some k \<longrightarrow>
         (\<exists>a \<in> eligible_agents db u exclude. ag_id a = k \<and> agent_score required a = Inr (aa_match_score r))
         \<and> 0 < aa_match_score r \<and> aa_match_score r \<le> 1
         \<and> (\<forall>b \<in> eligible_agents db u exclude. \<exists>s. agent_score required b = Inr s \<and> s \<le> aa_match_score r))"
proof -
  define as where "as = list_accessible_agents rank db (user_of_row u) AccessExecute [''idle'', ''active''] exclude False"
  have el: "set as = eligible_agents db u exclude" unfolding as_def by (rule listed_eligible[OF assms(2-4)])
  show ?thesis
  proof (cases "as = []")
    case True
    then show ?thesis using assms(1,4) el by (auto simp: assign_agent_to_task_def as_def)
  next
    case False
    then obtain b s where bs: "best_agent_loop required as None 0 = Inr (b, s)"
      using assms(1,4) by (auto simp: assign_agent_to_task_def Let_def as_def[symmetric] split: sum.splits)
    have r: "r = (case b of
          None \<Rightarrow> \<lparr>aa_task_id = t, aa_agent_id = None, aa_match_score = 0, aa_reason = ''No suitable agent found''\<rparr>
        | Some a \<Rightarrow> \<lparr>aa_task_id = t, aa_agent_id = Some (ag_id a), aa_match_score = s,
            aa_reason = ''Best match with score '' @ fmt2 s\<rparr>)"
      using assms(1,4) False bs
      by (auto simp: assign_agent_to_task_def Let_def as_def[symmetric] split: option.splits)
    note spec = best_agent_loop_spec[OF bs]
    show ?thesis
    proof (cases b)
      case None
      then have "agent_score required a = Inr 0" if "a \<in> set as" for a
        using spec agent_score_bounds that by fastforce
      then show ?thesis using None r el by simp
    next
      case (Some a)
      then show ?thesis using spec r el agent_score_bounds by auto
    qed
  qed
qed

text \<open>A task gets an agent the user may execute that is idle or active, not retired and not
  excluded, and that has at least one required capability; no eligible agent scores higher. It
  gets none exactly when no eligible agent has any of them.\<close>

theorem assigned_agent_best:
  assumes "assign_agent_to_task rank fmt2 db t required i exclude = Inr r"
    and "access_db_ok db" and "\<forall>a \<in> set (adb_agents db). level_stored a" and "find_user (adb_users db) i = Some u"
  shows "case aa_agent_id r of
      None \<Rightarrow> aa_match_score r = 0 \<and> (\<forall>b \<in> eligible_agents db u exclude. agent_score required b = Inr 0)
    | Some k \<Rightarrow>
        (\<exists>a \<in> eligible_agents db u exclude. ag_id a = k \<and> agent_score required a = Inr (aa_match_score r))
        \<and> 0 < aa_match_score r \<and> aa_match_score r \<le> 1
        \<and> (\<forall>b \<in> eligible_agents db u exclude. \<exists>s. agent_score required b = Inr s \<and> s \<le> aa_match_score r)"
  using assigned[OF assms] by (cases "aa_agent_id r") simp_all

definition sample_assign_db :: access_db where
  "sample_assign_db = sample_access_db\<lparr>adb_agents :=
     [\<lparr>ag_id = 40, ag_name = ''bot'', ag_owner = 30, ag_capabilities = PList [PStr ''SQL '', PStr ''writer''],
       ag_status = ''idle'', ag_access_level = None, ag_department = None,
       ag_retired_at = None, ag_created_at = 0\<rparr>]\<rparr>"

lemma sample_assign_run:
  "assign_agent_to_task (\<lambda>_. 0) (\<lambda>_. []) sample_assign_db 70 (PList [PStr ''sql_query'', PStr ''research'']) 30 []
   = Inr \<lparr>aa_task_id = 70, aa_agent_id = Some 40, aa_match_score = 1/2,
          aa_reason = ''Best match with score ''\<rparr>"
  by code_simp

lemma sample_assign_ok:
  "access_db_ok sample_assign_db" "\<forall>a \<in> set (adb_agents sample_assign_db). level_stored a"
  "find_user (adb_users sample_assign_db) 30 = Some (hd (adb_users sample_assign_db))"
  using sample_access_db_ok
  by (auto simp: access_db_ok_def sample_assign_db_def sample_access_db_def level_stored_def find_user_def)

theorem assigned_agent_best_witness:
  "\<exists>a \<in> eligible_agents sample_assign_db (hd (adb_users sample_assign_db)) [].
     ag_id a = 40 \<and> agent_score (PList [PStr ''sql_query'', PStr ''research'']) a = Inr (1/2)"
  using assigned_agent_best[OF sample_assign_run sample_assign_ok] by simp

subsection \<open>Batches\<close>

lemma assigned_fresh:
  assumes "assign_agent_to_task rank fmt2 db t required i exclude = Inr r" and "aa_agent_id r = Some k"
  shows "k \<notin> set exclude"
proof -
  obtain u b s where "best_agent_loop required
      (list_accessible_agents rank db (user_of_row u) AccessExecute [''idle'', ''active''] exclude False) None 0
      = Inr (Some b, s)" and k: "k = ag_id b"
    using assms by (auto simp: assign_agent_to_task_def Let_def split: option.splits if_splits sum.splits)
  then have "b \<in> set (list_accessible_agents rank db (user_of_row u) AccessExecute [''idle'', ''active''] exclude False)"
    using best_agent_loop_spec by fastforce
  then show ?thesis by (simp add: k set_list_accessible_agents)
qed

definition agents_distinct :: "(uuid, agent_assignment) dict \<Rightarrow> bool" where
  "agents_distinct m \<longleftrightarrow>
     (\<forall>t1 t2 a1 a2 k. dict_get m t1 = Some a1 \<and> dict_get m t2 = Some a2
        \<and> aa_agent_id a1 = Some k \<and> aa_agent_id a2 = Some k \<longrightarrow> t1 = t2)"

lemma assign_loop_spec:
  assumes "assign_loop rank fmt2 db i ts used m = Inr m'" and "agents_distinct m"
    and "\<forall>t a k. dict_get m t = Some a \<and> aa_agent_id a = Some k \<longrightarrow> k \<in> set used"
  shows "set (dict_keys m') = set (dict_keys m) \<union> fst ` set ts \<and> agents_distinct m'"
  using assms
proof (induction ts arbitrary: used m)
  case (Cons x ts)
  obtain t caps where x: "x = (t, caps)" by fastforce
  then obtain r where r: "assign_agent_to_task rank fmt2 db t (PList caps) i used = Inr r"
    using Cons.prems(1) by (auto split: sum.splits)
  let ?m = "dict_set t r m"
  let ?used = "case aa_agent_id r of None \<Rightarrow> used | Some k \<Rightarrow> used @ [k]"
  have fresh: "k \<notin> set used" if "aa_agent_id r = Some k" for k
    using assigned_fresh[OF r that] .
  have "assign_loop rank fmt2 db i ts ?used ?m = Inr m'" using Cons.prems(1) r x by simp
  moreover have "agents_distinct ?m"
    using Cons.prems(2,3) fresh unfolding agents_distinct_def dict_get_set by (metis option.inject)
  moreover have "\<forall>t' a k. dict_get ?m t' = Some a \<and> aa_agent_id a = Some k \<longrightarrow> k \<in> set ?used"
    using Cons.prems(3) by (auto split: option.splits if_splits)
  moreover have "fst ` set ?m = insert t (fst ` set m)"
    using dict_keys_set[of t r m] by simp
  ultimately show ?case using Cons.IH[of ?used ?m] x by simp
qed simp

text \<open>Assigning several tasks at once answers for every task and gives no agent to two tasks.\<close>

theorem batch_assignment_distinct:
  assumes "assign_agents_to_tasks rank fmt2 db task_requirements i = Inr m"
  shows "set (dict_keys m) = set (dict_keys task_requirements)
    \<and> (\<forall>t1 t2 a1 a2 k. dict_get m t1 = Some a1 \<and> dict_get m t2 = Some a2
         \<and> aa_agent_id a1 = Some k \<and> aa_agent_id a2 = Some k \<longrightarrow> t1 = t2)"
  using assign_loop_spec[OF assms[unfolded assign_agents_to_tasks_def]]
  unfolding agents_distinct_def by auto

theorem batch_assignment_distinct_witness:
  "\<exists>m. assign_agents_to_tasks (\<lambda>_. 0) (\<lambda>_. []) sample_assign_db
         [(70, [PStr ''sql_query'']), (71, [PStr ''sql'', PStr ''editor''])] 30 = Inr m
     \<and> set (dict_keys m) = {70, 71}"
proof -
  have "assign_agents_to_tasks (\<lambda>_. 0) (\<lambda>_. []) sample_assign_db
      [(70, [PStr ''sql_query'']), (71, [PStr ''sql'', PStr ''editor''])] 30
    = Inr [(71, \<lparr>aa_task_id = 71, aa_agent_id = Some 40, aa_match_score = 1, aa_reason = ''Best match with score ''\<rparr>),
           (70, \<lparr>aa_task_id = 70, aa_agent_id = None, aa_match_score = 0, aa_reason = ''No available agents''\<rparr>)]"
    by code_simp
  from batch_assignment_distinct[OF this] this show ?thesis by (intro exI conjI) auto
qed

subsection \<open>Balancing the load\<close>

lemma load_score_bounds: "calculate_load_score now lb n avg_time last_done = Inr s \<Longrightarrow> 0 \<le> s \<and> s \<le> 1"
  by (auto simp: calculate_load_score_def Let_def split: if_splits option.splits)

definition active_tasks :: "task_row list \<Rightarrow> uuid \<Rightarrow> nat" where
  "active_tasks tasks a =
     length (filter (\<lambda>t. tk_agent t = Some a \<and> tk_status t \<in> {''pending'', ''in_progress''}) tasks)"

lemma agent_load_of_active:
  "agent_load_of now tasks lb a = Inr l \<Longrightarrow>
   al_active_tasks l = active_tasks tasks a \<and> 0 \<le> al_load_score l \<and> al_load_score l \<le> 1"
  by (auto simp: agent_load_of_def Let_def active_tasks_def dest: load_score_bounds split: sum.splits)

lemma calculate_load_score_total:
  "lb_max_tasks_per_agent lb \<noteq> 0 \<Longrightarrow> calculate_load_score now lb n avg_time last_done \<noteq> Inl e"
  by (simp add: calculate_load_score_def Let_def)

lemma agent_load_of_total:
  "lb_max_tasks_per_agent lb \<noteq> 0 \<Longrightarrow> \<exists>l. agent_load_of now tasks lb a = Inr l"
  unfolding agent_load_of_def Let_def by (auto simp: calculate_load_score_total split: sum.splits)

lemma agent_load_of_cong:
  assumes "lb_max_tasks_per_agent lb' = lb_max_tasks_per_agent lb"
  shows "agent_load_of now tasks lb' a = agent_load_of now tasks lb a"
proof -
  have "calculate_load_score now lb' = calculate_load_score now lb"
    using assms by (intro ext) (simp add: calculate_load_score_def)
  then show ?thesis by (simp only: agent_load_of_def)
qed

lemma update_agent_loads_spec:
  assumes "lb_max_tasks_per_agent lb \<noteq> 0"
  shows "fst (update_agent_loads now tasks lb ids) = None
    \<and> lb_max_tasks_per_agent (snd (update_agent_loads now tasks lb ids)) = lb_max_tasks_per_agent lb
    \<and> (\<forall>a. a \<in> set ids \<longrightarrow>
         Inr (load_or_default (snd (update_agent_loads now tasks lb ids)) a) = agent_load_of now tasks lb a)
    \<and> (\<forall>a. a \<notin> set ids \<longrightarrow>
         load_or_default (snd (update_agent_loads now tasks lb ids)) a = load_or_default lb a)"
  using assms
proof (induction ids arbitrary: lb)
  case (Cons i ids)
  obtain l where l: "agent_load_of now tasks lb i = Inr l" using agent_load_of_total[OF Cons.prems] by blast
  let ?lb = "lb\<lparr>lb_agent_loads := dict_set i l (lb_agent_loads lb)\<rparr>"
  have "agent_load_of now tasks ?lb = agent_load_of now tasks lb"
    by (rule ext) (rule agent_load_of_cong, simp)
  moreover have "load_or_default ?lb a = (if a = i then l else load_or_default lb a)" for a
    by (simp add: load_or_default_def)
  moreover have "lb_max_tasks_per_agent ?lb = lb_max_tasks_per_agent lb" by simp
  ultimately show ?case using Cons.IH[of ?lb] Cons.prems l by (cases "i \<in> set ids") auto
qed simp

text \<open>With a positive capacity the load balancer answers an offered agent below the capacity whose
  load score, a number between 0 and 1, is least among those, counting the tasks of the table that
  are pending or in progress; it answers none exactly when every offered agent is at capacity.\<close>

theorem select_agent_least_loaded:
  assumes "lb_max_tasks_per_agent lb > 0"
  shows "\<exists>r. fst (select_agent now tasks lb ids) = Inr r
    \<and> (r = None \<longleftrightarrow> (\<forall>a \<in> set ids. lb_max_tasks_per_agent lb \<le> int (active_tasks tasks a)))
    \<and> (\<forall>a. r = Some a \<longrightarrow> a \<in> set ids \<and> int (active_tasks tasks a) < lb_max_tasks_per_agent lb
         \<and> (\<exists>l. agent_load_of now tasks lb a = Inr l \<and> 0 \<le> al_load_score l \<and> al_load_score l \<le> 1
              \<and> (\<forall>b \<in> set ids. int (active_tasks tasks b) < lb_max_tasks_per_agent lb \<longrightarrow>
                   (\<exists>l'. agent_load_of now tasks lb b = Inr l' \<and> al_load_score l \<le> al_load_score l'))))"
proof (cases "ids = []")
  case False
  define lb' where "lb' = snd (update_agent_loads now tasks lb ids)"
  have nz: "lb_max_tasks_per_agent lb \<noteq> 0" using assms by simp
  note spec = update_agent_loads_spec[OF nz, of now tasks ids, folded lb'_def]
  have load: "agent_load_of now tasks lb a = Inr (load_or_default lb' a)" if "a \<in> set ids" for a
    using spec that by simp
  have act: "al_active_tasks (load_or_default lb' a) = active_tasks tasks a" if "a \<in> set ids" for a
    using agent_load_of_active[OF load[OF that]] by blast
  define av where "av = filter (\<lambda>a. int (active_tasks tasks a) < lb_max_tasks_per_agent lb) ids"
  have "av = filter (\<lambda>a. int (al_active_tasks (load_or_default lb' a)) < lb_max_tasks_per_agent lb') ids"
    unfolding av_def using act spec by (intro filter_cong) auto
  then have sel: "fst (select_agent now tasks lb ids) = Inr (min_by (\<lambda>a. al_load_score (load_or_default lb' a)) av)"
    using False spec by (cases "update_agent_loads now tasks lb ids") (simp add: select_agent_def lb'_def)
  have av: "set av \<subseteq> set ids" by (auto simp: av_def)
  show ?thesis
  proof (intro exI[of _ "min_by (\<lambda>a. al_load_score (load_or_default lb' a)) av"] conjI allI impI)
    fix a assume a: "min_by (\<lambda>a. al_load_score (load_or_default lb' a)) av = Some a"
    then have "a \<in> set av" by (rule min_by_in)
    then show "a \<in> set ids" and "int (active_tasks tasks a) < lb_max_tasks_per_agent lb"
      by (simp_all add: av_def)
    then show "\<exists>l. agent_load_of now tasks lb a = Inr l \<and> 0 \<le> al_load_score l \<and> al_load_score l \<le> 1
        \<and> (\<forall>b \<in> set ids. int (active_tasks tasks b) < lb_max_tasks_per_agent lb \<longrightarrow>
             (\<exists>l'. agent_load_of now tasks lb b = Inr l' \<and> al_load_score l \<le> al_load_score l'))"
      using min_by_le[OF a] load agent_load_of_active[OF load[of a]] by (auto simp: av_def)
  qed (use sel in \<open>auto simp: av_def filter_empty_conv not_less\<close>)
qed (simp add: select_agent_def)

definition sample_balancer_tasks :: "task_row list" where
  "sample_balancer_tasks =
     [\<lparr>tk_id = 70, tk_goal_text = [], tk_parent = None, tk_agent = Some 40, tk_status = ''pending'',
       tk_result = None, tk_creator = 30, tk_created_at = 0, tk_completed_at = None\<rparr>]"

theorem select_agent_least_loaded_witness:
  "fst (select_agent 0 sample_balancer_tasks (new_load_balancer 1) [40, 41]) = Inr (Some 41)"
proof -
  have act: "active_tasks sample_balancer_tasks 40 = 1" "active_tasks sample_balancer_tasks 41 = 0"
    by (simp_all add: active_tasks_def sample_balancer_tasks_def)
  have one: "lb_max_tasks_per_agent (new_load_balancer 1) = 1" by (simp add: new_load_balancer_def)
  obtain r where r: "fst (select_agent 0 sample_balancer_tasks (new_load_balancer 1) [40, 41]) = Inr r"
    and "r = None \<longleftrightarrow> (\<forall>a \<in> set [40, 41]. 1 \<le> int (active_tasks sample_balancer_tasks a))"
    and "\<forall>a. r = Some a \<longrightarrow> a \<in> set [40, 41] \<and> int (active_tasks sample_balancer_tasks a) < 1"
    using select_agent_least_loaded[of "new_load_balancer 1" 0 sample_balancer_tasks "[40, 41]"]
    unfolding one by fastforce
  then have "r = Some 41" using act by (cases r) auto
  then show ?thesis using r by simp
qed

end
