(* ===== verification/Recovery.thy ===== *)
theory Recovery
  imports Assignment
begin

section \<open>Recovering from task failures\<close>

text \<open>
  \<open>task_manager/error_handler.py\<close> and \<open>recovery_coordinator.py\<close>: detecting that a task failed, logging
  it, counting the failures of its agent, choosing a strategy and applying it to the task's row.
  \<open>handle_task_failure\<close> awaits only while it sleeps before a retry, so a call is one step that ends
  in a strategy or in \<open>Sleeping\<close>, and a second step after the sleep.

  \<open>tracked\<close> says whether the ORM notices a change inside a JSON value it has loaded: without an
  extension for it SQLAlchemy writes a column back only when the attribute itself was assigned.
  \<open>clock\<close> is what \<open>utcnow\<close> answers at each place it is called in a step, \<open>u\<close> the random number in
  [0, 1] behind \<open>random.uniform\<close>, \<open>isofmt\<close>, \<open>fmt0\<close>, \<open>fmt2\<close> and \<open>txt\<close> are the texts of instants and
  floats. The functions callers register are kept as numbers; what they do is not modelled, and an
  exception of theirs is swallowed by the code. \<open>**\<close> on floats has no overflow here.
\<close>

subsection \<open>Failures\<close>

datatype failure_type =
    TIMEOUT | AGENT_ERROR | CONTAINER_CRASH | VALIDATION_ERROR | RESOURCE_EXHAUSTED | UNKNOWN

fun failure_value :: "failure_type \<Rightarrow> string" where
  "failure_value TIMEOUT = ''timeout''"
| "failure_value AGENT_ERROR = ''agent_error''"
| "failure_value CONTAINER_CRASH = ''container_crash''"
| "failure_value VALIDATION_ERROR = ''validation_error''"
| "failure_value RESOURCE_EXHAUSTED = ''resource_exhausted''"
| "failure_value UNKNOWN = ''unknown''"

datatype recovery_strategy = RETRY | REASSIGN | ESCALATE | PARTIAL_SUCCESS | FAIL

fun strategy_value :: "recovery_strategy \<Rightarrow> string" where
  "strategy_value RETRY = ''retry''"
| "strategy_value REASSIGN = ''reassign''"
| "strategy_value ESCALATE = ''escalate''"
| "strategy_value PARTIAL_SUCCESS = ''partial_success''"
| "strategy_value FAIL = ''fail''"

record retry_policy =
  rp_max_retries :: int
  rp_initial_delay_seconds :: real
  rp_max_delay_seconds :: real
  rp_exponential_base :: real
  rp_jitter :: bool

definition default_retry_policy :: retry_policy where
  "default_retry_policy =
     \<lparr>rp_max_retries = 3, rp_initial_delay_seconds = 1, rp_max_delay_seconds = 60,
      rp_exponential_base = 2, rp_jitter = True\<rparr>"

record failure_record =
  fr_task_id :: uuid
  fr_failure_type :: failure_type
  fr_error_message :: pyval
  fr_timestamp :: timestamp
  fr_agent_id :: "uuid option"
  fr_retry_count :: int
  fr_metadata :: "(string, pyval) dict"

text \<open>The places of a step where the clock is read.\<close>

datatype clock_point =
  AtElapsed | AtDetection | AtFailure | AtCheck | AtEscalation | AtRetry

type_synonym clock = "clock_point \<Rightarrow> timestamp"

subsection \<open>Detecting failures\<close>

definition timeout_thresholds :: "(string, int) dict" where
  "timeout_thresholds =
     [(''default'', 300), (''data_analysis'', 600), (''code_generation'', 300), (''content_writing'', 180)]"

definition get_timeout_threshold :: "task_row \<Rightarrow> int" where
  "get_timeout_threshold t =
     (let goal_lower = py_lower (tk_goal_text t)
      in case find (\<lambda>(task_type, threshold). py_substr task_type goal_lower) timeout_thresholds of
           Some (_, threshold) \<Rightarrow> threshold
         | None \<Rightarrow> 300)"

definition find_task :: "uuid \<Rightarrow> task_row list \<Rightarrow> task_row option" where
  "find_task i ts = find (\<lambda>t. tk_id t = i) ts"

definition find_user_task :: "uuid \<Rightarrow> uuid \<Rightarrow> task_row list \<Rightarrow> task_row option" where
  "find_user_task i u ts = find (\<lambda>t. tk_id t = i \<and> tk_creator t = u) ts"

definition result_get :: "string \<Rightarrow> task_row \<Rightarrow> pyval option" where
  "result_get k t = (case tk_result t of None \<Rightarrow> None | Some d \<Rightarrow> dict_get d k)"

definition detect_failure ::
    "(real \<Rightarrow> string) \<Rightarrow> clock \<Rightarrow> task_row list \<Rightarrow> uuid \<Rightarrow> uuid \<Rightarrow> failure_record option" where
  "detect_failure fmt0 clock tasks task_id user_id =
     (case find_user_task task_id user_id tasks of
        None \<Rightarrow> None
      | Some t \<Rightarrow>
          (let elapsed = total_seconds (clock AtElapsed - tk_created_at t)
           in if tk_status t = ''in_progress'' \<and> elapsed > real_of_int (get_timeout_threshold t)
              then Some \<lparr>fr_task_id = task_id, fr_failure_type = TIMEOUT,
                         fr_error_message = PStr (''Task timeout after '' @ fmt0 elapsed @ '' seconds''),
                         fr_timestamp = clock AtDetection, fr_agent_id = tk_agent t,
                         fr_retry_count = 0, fr_metadata = []\<rparr>
              else if tk_status t = ''failed''
              then Some \<lparr>fr_task_id = task_id, fr_failure_type = AGENT_ERROR,
                         fr_error_message = (case result_get ''error'' t of
                                               None \<Rightarrow> PStr ''Unknown error'' | Some v \<Rightarrow> v),
                         fr_timestamp = clock AtDetection, fr_agent_id = tk_agent t,
                         fr_retry_count = 0, fr_metadata = []\<rparr>
              else None))"

subsection \<open>Retries\<close>

record retry_manager =
  rm_default_policy :: retry_policy
  rm_retry_history :: "(uuid, timestamp list) dict"

definition new_retry_manager :: "retry_policy option \<Rightarrow> retry_manager" where
  "new_retry_manager p =
     \<lparr>rm_default_policy = (case p of None \<Rightarrow> default_retry_policy | Some q \<Rightarrow> q), rm_retry_history = []\<rparr>"

definition policy_or_default :: "retry_manager \<Rightarrow> retry_policy option \<Rightarrow> retry_policy" where
  "policy_or_default m p = (case p of None \<Rightarrow> rm_default_policy m | Some q \<Rightarrow> q)"

definition should_retry :: "retry_manager \<Rightarrow> failure_record \<Rightarrow> retry_policy option \<Rightarrow> bool" where
  "should_retry m r p =
     (if fr_retry_count r \<ge> rp_max_retries (policy_or_default m p) then False
      else if fr_failure_type r \<in> {VALIDATION_ERROR} then False
      else True)"

definition py_pow :: "real \<Rightarrow> int \<Rightarrow> py_error + real" where
  "py_pow b n =
     (if n \<ge> 0 then Inr (b ^ nat n)
      else if b = 0 then Inl ZeroDivisionError
      else Inr (1 / b ^ nat (- n)))"

definition calculate_retry_delay :: "real \<Rightarrow> retry_manager \<Rightarrow> int \<Rightarrow> retry_policy option \<Rightarrow> py_error + real" where
  "calculate_retry_delay u m retry_count p =
     (let policy = policy_or_default m p
      in case py_pow (rp_exponential_base policy) retry_count of
           Inl e \<Rightarrow> Inl e
         | Inr b \<Rightarrow>
             (let delay = min (rp_initial_delay_seconds policy * b) (rp_max_delay_seconds policy)
              in Inr (if rp_jitter policy then delay + u * (delay * (1/10)) else delay)))"

definition record_retry :: "timestamp \<Rightarrow> uuid \<Rightarrow> retry_manager \<Rightarrow> retry_manager" where
  "record_retry now task_id m =
     m\<lparr>rm_retry_history := dict_set task_id
         ((case dict_get (rm_retry_history m) task_id of None \<Rightarrow> [] | Some ts \<Rightarrow> ts) @ [now])
         (rm_retry_history m)\<rparr>"

record error_decision =
  ed_should_retry :: bool
  ed_retry_delay :: real
  ed_failure_type :: string

definition handle_task_error ::
    "real \<Rightarrow> retry_manager \<Rightarrow> timestamp \<Rightarrow> uuid \<Rightarrow> string \<Rightarrow> int \<Rightarrow> py_error + error_decision" where
  "handle_task_error u m now task_id error attempt =
     (let r = \<lparr>fr_task_id = task_id, fr_failure_type = AGENT_ERROR, fr_error_message = PStr error,
               fr_timestamp = now, fr_agent_id = None, fr_retry_count = attempt, fr_metadata = []\<rparr>;
          retry = should_retry m r None
      in case (if retry then calculate_retry_delay u m attempt None else Inr 0) of
           Inl e \<Rightarrow> Inl e
         | Inr d \<Rightarrow> Inr \<lparr>ed_should_retry = retry, ed_retry_delay = d,
                          ed_failure_type = failure_value (fr_failure_type r)\<rparr>)"

subsection \<open>The circuit breaker of the agents\<close>

datatype breaker_mode = Closed | Open | HalfOpen

record circuit_breaker_state =
  cs_failure_count :: nat
  cs_last_failure_time :: "timestamp option"
  cs_state :: breaker_mode
  cs_threshold :: nat
  cs_timeout_seconds :: int

definition new_circuit_breaker_state :: circuit_breaker_state where
  "new_circuit_breaker_state =
     \<lparr>cs_failure_count = 0, cs_last_failure_time = None, cs_state = Closed, cs_threshold = 5,
      cs_timeout_seconds = 60\<rparr>"

type_synonym breakers = "(string, circuit_breaker_state) dict"

definition record_success :: "string \<Rightarrow> breakers \<Rightarrow> breakers" where
  "record_success c bs =
     (case dict_get bs c of
        None \<Rightarrow> bs
      | Some b \<Rightarrow>
          dict_set c (b\<lparr>cs_failure_count := 0,
                        cs_state := (if cs_state b = HalfOpen then Closed else cs_state b)\<rparr>) bs)"

definition record_failure :: "timestamp \<Rightarrow> string \<Rightarrow> breakers \<Rightarrow> breakers" where
  "record_failure now c bs =
     (let b = (case dict_get bs c of None \<Rightarrow> new_circuit_breaker_state | Some b \<Rightarrow> b);
          n = cs_failure_count b + 1
      in dict_set c (b\<lparr>cs_failure_count := n, cs_last_failure_time := Some now,
                      cs_state := (if n \<ge> cs_threshold b then Open else cs_state b)\<rparr>) bs)"

definition is_open :: "timestamp \<Rightarrow> string \<Rightarrow> breakers \<Rightarrow> bool \<times> breakers" where
  "is_open now c bs =
     (case dict_get bs c of
        None \<Rightarrow> (False, bs)
      | Some b \<Rightarrow>
          (case cs_state b of
             Closed \<Rightarrow> (False, bs)
           | Open \<Rightarrow>
               (case cs_last_failure_time b of
                  Some t \<Rightarrow>
                    if total_seconds (now - t) > real_of_int (cs_timeout_seconds b)
                    then (False, dict_set c (b\<lparr>cs_state := HalfOpen\<rparr>) bs)
                    else (True, bs)
                | None \<Rightarrow> (True, bs))
           | HalfOpen \<Rightarrow> (False, bs)))"

subsection \<open>Writing the task's row\<close>

definition update_task :: "uuid \<Rightarrow> (task_row \<Rightarrow> task_row) \<Rightarrow> task_row list \<Rightarrow> task_row list" where
  "update_task i f ts = map (\<lambda>t. if tk_id t = i then f t else t) ts"

text \<open>
  \<open>if not task.result: task.result = {}\<close> followed by \<open>task.result[key] = value\<close>. The new dictionary
  is assigned to the attribute, so it is written with what is put into it; a dictionary that was
  loaded is changed in place, and written only if the ORM tracks that.
\<close>

definition set_result_keys :: "bool \<Rightarrow> (string, pyval) dict \<Rightarrow> task_row \<Rightarrow> task_row" where
  "set_result_keys tracked entries t =
     (let old = (case tk_result t of None \<Rightarrow> [] | Some d \<Rightarrow> d);
          new = foldl (\<lambda>d (k, v). dict_set k v d) old entries
      in if old = [] \<or> tracked then t\<lparr>tk_result := Some new\<rparr> else t)"

definition reassign_task ::
    "(string \<Rightarrow> int) \<Rightarrow> (real \<Rightarrow> string) \<Rightarrow> access_db \<Rightarrow> task_row list \<Rightarrow> uuid \<Rightarrow> uuid \<Rightarrow> uuid list
     \<Rightarrow> py_error + bool \<times> task_row list" where
  "reassign_task rank fmt2 db tasks task_id user_id exclude_agent_ids =
     (case find_user_task task_id user_id tasks of
        None \<Rightarrow> Inr (False, tasks)
      | Some t \<Rightarrow>
          (let exclude = (case tk_agent t of None \<Rightarrow> exclude_agent_ids | Some a \<Rightarrow> exclude_agent_ids @ [a]);
               required_capabilities = (case result_get ''required_capabilities'' t of
                                          None \<Rightarrow> PList [] | Some v \<Rightarrow> v)
           in case assign_agent_to_task rank fmt2 db task_id required_capabilities user_id exclude of
                Inl e \<Rightarrow> Inl e
              | Inr assignment \<Rightarrow>
                  (case aa_agent_id assignment of
                     None \<Rightarrow> Inr (False, tasks)
                   | Some k \<Rightarrow>
                       Inr (True, update_task task_id
                                    (\<lambda>t. t\<lparr>tk_agent := Some k, tk_status := ''pending''\<rparr>) tasks))))"

subsection \<open>Escalation, audit log and alerts\<close>

record audit_row =
  au_user_id :: uuid
  au_agent_id :: "uuid option"
  au_action :: string
  au_resource_type :: string
  au_resource_id :: uuid
  au_details :: "(string, pyval) dict"

text \<open>The calls of registered functions, in their order.\<close>

datatype callback_call =
    EscalationCall nat uuid failure_record
  | AlertCall nat string "(string, pyval) dict"

record recovery_world =
  rw_tasks :: "task_row list"
  rw_audit :: "audit_row list"
  rw_calls :: "callback_call list"

definition escalate_to_user ::
    "bool \<Rightarrow> (timestamp \<Rightarrow> string) \<Rightarrow> clock \<Rightarrow> nat list \<Rightarrow> uuid \<Rightarrow> failure_record \<Rightarrow> string
     \<Rightarrow> recovery_world \<Rightarrow> recovery_world" where
  "escalate_to_user tracked isofmt clock callbacks task_id r message w =
     w\<lparr>rw_tasks := update_task task_id
         (\<lambda>t. (set_result_keys tracked
                 [(''escalated'', PBool True), (''escalation_message'', PStr message),
                  (''escalation_time'', PStr (isofmt (clock AtEscalation)))] t)
              \<lparr>tk_status := ''escalated''\<rparr>) (rw_tasks w),
       rw_calls := rw_calls w @ map (\<lambda>c. EscalationCall c task_id r) callbacks\<rparr>"

definition log_failure ::
    "(timestamp \<Rightarrow> string) \<Rightarrow> failure_record \<Rightarrow> uuid \<Rightarrow> (string, pyval) dict option
     \<Rightarrow> recovery_world \<Rightarrow> recovery_world" where
  "log_failure isofmt r user_id additional_details w =
     (let details = [(''failure_type'', PStr (failure_value (fr_failure_type r))),
                     (''error_message'', fr_error_message r),
                     (''retry_count'', PInt (fr_retry_count r)),
                     (''timestamp'', PStr (isofmt (fr_timestamp r)))];
          details' = (case additional_details of
                        None \<Rightarrow> details
                      | Some d \<Rightarrow> foldl (\<lambda>d (k, v). dict_set k v d) details d)
      in w\<lparr>rw_audit := rw_audit w @
             [\<lparr>au_user_id = user_id, au_agent_id = fr_agent_id r, au_action = ''task_failure'',
               au_resource_type = ''task'', au_resource_id = fr_task_id r, au_details = details'\<rparr>]\<rparr>)"

definition send_alert :: "nat list \<Rightarrow> string \<Rightarrow> (string, pyval) dict \<Rightarrow> recovery_world \<Rightarrow> recovery_world" where
  "send_alert callbacks message details w =
     w\<lparr>rw_calls := rw_calls w @ map (\<lambda>c. AlertCall c message details) callbacks\<rparr>"

subsection \<open>The coordinator\<close>

record recovery_coordinator =
  rc_retry_manager :: retry_manager
  rc_breakers :: breakers
  rc_escalation_callbacks :: "nat list"
  rc_alert_callbacks :: "nat list"

definition new_recovery_coordinator :: "retry_policy option \<Rightarrow> recovery_coordinator" where
  "new_recovery_coordinator p =
     \<lparr>rc_retry_manager = new_retry_manager p, rc_breakers = [], rc_escalation_callbacks = [],
      rc_alert_callbacks = []\<rparr>"

definition register_escalation_callback :: "nat \<Rightarrow> recovery_coordinator \<Rightarrow> recovery_coordinator" where
  "register_escalation_callback cb c =
     c\<lparr>rc_escalation_callbacks := rc_escalation_callbacks c @ [cb]\<rparr>"

definition register_alert_callback :: "nat \<Rightarrow> recovery_coordinator \<Rightarrow> recovery_coordinator" where
  "register_alert_callback cb c = c\<lparr>rc_alert_callbacks := rc_alert_callbacks c @ [cb]\<rparr>"

definition select_recovery_strategy :: "recovery_coordinator \<Rightarrow> failure_record \<Rightarrow> recovery_strategy" where
  "select_recovery_strategy c r =
     (if should_retry (rc_retry_manager c) r None then RETRY
      else if fr_failure_type r \<in> {TIMEOUT, AGENT_ERROR, CONTAINER_CRASH} then REASSIGN
      else if fr_failure_type r = VALIDATION_ERROR then ESCALATE
      else ESCALATE)"

record recovery_plan =
  pl_action :: string
  pl_retry_delay :: "real option"
  pl_exclude_failed_agent :: "bool option"

definition create_recovery_plan ::
    "real \<Rightarrow> recovery_coordinator \<Rightarrow> timestamp \<Rightarrow> uuid \<Rightarrow> string \<Rightarrow> int \<Rightarrow> py_error + recovery_plan" where
  "create_recovery_plan u c now task_id failure_reason attempt =
     (let ty = (if py_substr ''timeout'' (py_lower failure_reason) then TIMEOUT else AGENT_ERROR);
          r = \<lparr>fr_task_id = task_id, fr_failure_type = ty, fr_error_message = PStr failure_reason,
               fr_timestamp = now, fr_agent_id = None, fr_retry_count = attempt, fr_metadata = []\<rparr>;
          strategy = select_recovery_strategy c r
      in if strategy = RETRY
         then (case calculate_retry_delay u (rc_retry_manager c) attempt None of
                 Inl e \<Rightarrow> Inl e
               | Inr d \<Rightarrow> Inr \<lparr>pl_action = strategy_value strategy, pl_retry_delay = Some d,
                               pl_exclude_failed_agent = None\<rparr>)
         else if strategy = REASSIGN
         then Inr \<lparr>pl_action = strategy_value strategy, pl_retry_delay = None,
                   pl_exclude_failed_agent = Some True\<rparr>
         else Inr \<lparr>pl_action = strategy_value strategy, pl_retry_delay = None,
                   pl_exclude_failed_agent = None\<rparr>)"

text \<open>What a step of a call ends in: the strategy it answers, or the sleep before a retry.\<close>

datatype handling = Finished recovery_strategy | Sleeping real

definition apply_escalation ::
    "bool \<Rightarrow> (timestamp \<Rightarrow> string) \<Rightarrow> (pyval \<Rightarrow> string) \<Rightarrow> clock \<Rightarrow> recovery_coordinator \<Rightarrow> uuid \<Rightarrow> uuid
     \<Rightarrow> failure_record \<Rightarrow> recovery_world \<Rightarrow> recovery_strategy \<times> recovery_world" where
  "apply_escalation tracked isofmt txt clock c task_id user_id r w =
     (let message = ''Task '' @ uuid_str task_id @ '' failed with '' @ failure_value (fr_failure_type r)
                    @ ''. Error: '' @ py_text txt (fr_error_message r)
                    @ ''. Please review and provide guidance.'';
          w1 = escalate_to_user tracked isofmt clock (rc_escalation_callbacks c) task_id r message w;
          w2 = (if fr_retry_count r \<ge> 2
                then send_alert (rc_alert_callbacks c)
                       (''Task '' @ uuid_str task_id @ '' escalated after multiple failures'')
                       [(''task_id'', PStr (uuid_str task_id)), (''user_id'', PStr (uuid_str user_id)),
                        (''failure_type'', PStr (failure_value (fr_failure_type r))),
                        (''retry_count'', PInt (fr_retry_count r))] w1
                else w1)
      in (ESCALATE, w2))"

definition apply_reassignment ::
    "bool \<Rightarrow> (timestamp \<Rightarrow> string) \<Rightarrow> (pyval \<Rightarrow> string) \<Rightarrow> (string \<Rightarrow> int) \<Rightarrow> (real \<Rightarrow> string) \<Rightarrow> clock
     \<Rightarrow> recovery_coordinator \<Rightarrow> access_db \<Rightarrow> uuid \<Rightarrow> uuid \<Rightarrow> failure_record \<Rightarrow> recovery_world
     \<Rightarrow> py_error + recovery_strategy \<times> recovery_world" where
  "apply_reassignment tracked isofmt txt rank fmt2 clock c db task_id user_id r w =
     (let exclude_agents = (case fr_agent_id r of None \<Rightarrow> [] | Some a \<Rightarrow> [a])
      in case reassign_task rank fmt2 db (rw_tasks w) task_id user_id exclude_agents of
           Inl e \<Rightarrow> Inl e
         | Inr (success, tasks) \<Rightarrow>
             if success then Inr (REASSIGN, w\<lparr>rw_tasks := tasks\<rparr>)
             else Inr (apply_escalation tracked isofmt txt clock c task_id user_id r w))"

definition apply_partial_success ::
    "bool \<Rightarrow> (timestamp \<Rightarrow> string) \<Rightarrow> (pyval \<Rightarrow> string) \<Rightarrow> clock \<Rightarrow> recovery_coordinator \<Rightarrow> uuid \<Rightarrow> uuid
     \<Rightarrow> failure_record \<Rightarrow> recovery_world \<Rightarrow> recovery_strategy \<times> recovery_world" where
  "apply_partial_success tracked isofmt txt clock c task_id user_id r w =
     (let subtasks = filter (\<lambda>t. tk_parent t = Some task_id) (rw_tasks w);
          completed_subtasks = filter (\<lambda>t. tk_status t = ''completed'') subtasks
      in if completed_subtasks \<noteq> []
         then (PARTIAL_SUCCESS,
               w\<lparr>rw_tasks := update_task task_id
                   (\<lambda>t. set_result_keys tracked
                          [(''partial_success'', PBool True),
                           (''completed_subtasks'', PInt (int (length completed_subtasks))),
                           (''total_subtasks'', PInt (int (length subtasks)))]
                          (t\<lparr>tk_status := ''partial_success''\<rparr>)) (rw_tasks w)\<rparr>)
         else apply_escalation tracked isofmt txt clock c task_id user_id r w)"

definition apply_failure ::
    "(pyval \<Rightarrow> string) \<Rightarrow> recovery_coordinator \<Rightarrow> uuid \<Rightarrow> uuid \<Rightarrow> failure_record \<Rightarrow> recovery_world
     \<Rightarrow> recovery_strategy \<times> recovery_world" where
  "apply_failure txt c task_id user_id r w =
     (FAIL, send_alert (rc_alert_callbacks c)
              (''Task '' @ uuid_str task_id @ '' failed permanently'')
              [(''task_id'', PStr (uuid_str task_id)), (''user_id'', PStr (uuid_str user_id)),
               (''failure_type'', PStr (failure_value (fr_failure_type r))),
               (''error_message'', fr_error_message r)] w)"

text \<open>After the sleep of \<open>_apply_retry\<close>.\<close>

definition finish_retry ::
    "bool \<Rightarrow> clock \<Rightarrow> uuid \<Rightarrow> failure_record \<Rightarrow> recovery_coordinator \<Rightarrow> recovery_world
     \<Rightarrow> recovery_strategy \<times> recovery_coordinator \<times> recovery_world" where
  "finish_retry tracked clock task_id r c w =
     (RETRY,
      c\<lparr>rc_retry_manager := record_retry (clock AtRetry) task_id (rc_retry_manager c)\<rparr>,
      w\<lparr>rw_tasks := update_task task_id
          (\<lambda>t. set_result_keys tracked [(''retry_count'', PInt (fr_retry_count r + 1))]
                 (t\<lparr>tk_status := ''pending''\<rparr>)) (rw_tasks w)\<rparr>)"

definition apply_strategy ::
    "bool \<Rightarrow> (timestamp \<Rightarrow> string) \<Rightarrow> (pyval \<Rightarrow> string) \<Rightarrow> (string \<Rightarrow> int) \<Rightarrow> (real \<Rightarrow> string) \<Rightarrow> real \<Rightarrow> clock
     \<Rightarrow> access_db \<Rightarrow> uuid \<Rightarrow> uuid \<Rightarrow> failure_record \<Rightarrow> recovery_coordinator \<Rightarrow> recovery_world
     \<Rightarrow> (py_error + handling) \<times> recovery_world" where
  "apply_strategy tracked isofmt txt rank fmt2 u clock db task_id user_id r c w =
     (case select_recovery_strategy c r of
        RETRY \<Rightarrow>
          (case calculate_retry_delay u (rc_retry_manager c) (fr_retry_count r) None of
             Inl e \<Rightarrow> (Inl e, w)
           | Inr delay \<Rightarrow> (Inr (Sleeping delay), w))
      | REASSIGN \<Rightarrow>
          (case apply_reassignment tracked isofmt txt rank fmt2 clock c db task_id user_id r w of
             Inl e \<Rightarrow> (Inl e, w) | Inr (s, w') \<Rightarrow> (Inr (Finished s), w'))
      | ESCALATE \<Rightarrow>
          (case apply_escalation tracked isofmt txt clock c task_id user_id r w of
             (s, w') \<Rightarrow> (Inr (Finished s), w'))
      | PARTIAL_SUCCESS \<Rightarrow>
          (case apply_partial_success tracked isofmt txt clock c task_id user_id r w of
             (s, w') \<Rightarrow> (Inr (Finished s), w'))
      | FAIL \<Rightarrow>
          (case apply_failure txt c task_id user_id r w of (s, w') \<Rightarrow> (Inr (Finished s), w')))"

definition agent_component :: "uuid \<Rightarrow> string" where
  "agent_component a = ''agent:'' @ uuid_str a"

definition handle_failure_record ::
    "bool \<Rightarrow> (timestamp \<Rightarrow> string) \<Rightarrow> (pyval \<Rightarrow> string) \<Rightarrow> (string \<Rightarrow> int) \<Rightarrow> (real \<Rightarrow> string) \<Rightarrow> real \<Rightarrow> clock
     \<Rightarrow> access_db \<Rightarrow> uuid \<Rightarrow> uuid \<Rightarrow> failure_record \<Rightarrow> recovery_coordinator \<Rightarrow> recovery_world
     \<Rightarrow> (py_error + handling) \<times> recovery_coordinator \<times> recovery_world" where
  "handle_failure_record tracked isofmt txt rank fmt2 u clock db task_id user_id r c w =
     (let w1 = log_failure isofmt r user_id None w
      in case fr_agent_id r of
           None \<Rightarrow>
             (case apply_strategy tracked isofmt txt rank fmt2 u clock db task_id user_id r c w1 of
                (h, w2) \<Rightarrow> (h, c, w2))
         | Some a \<Rightarrow>
             (case is_open (clock AtCheck) (agent_component a)
                     (record_failure (clock AtFailure) (agent_component a) (rc_breakers c)) of
                (opened, bs) \<Rightarrow>
                  (let c1 = c\<lparr>rc_breakers := bs\<rparr>
                   in if opened
                      then (case apply_reassignment tracked isofmt txt rank fmt2 clock c1 db task_id user_id r w1 of
                              Inl e \<Rightarrow> (Inl e, c1, w1)
                            | Inr (s, w2) \<Rightarrow> (Inr (Finished s), c1, w2))
                      else (case apply_strategy tracked isofmt txt rank fmt2 u clock db task_id user_id r c1 w1 of
                              (h, w2) \<Rightarrow> (h, c1, w2)))))"

definition handle_task_failure ::
    "bool \<Rightarrow> (timestamp \<Rightarrow> string) \<Rightarrow> (pyval \<Rightarrow> string) \<Rightarrow> (string \<Rightarrow> int) \<Rightarrow> (real \<Rightarrow> string) \<Rightarrow> (real \<Rightarrow> string)
     \<Rightarrow> real \<Rightarrow> clock \<Rightarrow> access_db \<Rightarrow> uuid \<Rightarrow> uuid \<Rightarrow> failure_record option \<Rightarrow> recovery_coordinator
     \<Rightarrow> recovery_world \<Rightarrow> (py_error + handling) \<times> recovery_coordinator \<times> recovery_world" where
  "handle_task_failure tracked isofmt txt rank fmt2 fmt0 u clock db task_id user_id failure_record c w =
     (case (case failure_record of
              Some r \<Rightarrow> Some r
            | None \<Rightarrow> detect_failure fmt0 clock (rw_tasks w) task_id user_id) of
        None \<Rightarrow> (Inr (Finished FAIL), c, w)
      | Some r \<Rightarrow>
          handle_failure_record tracked isofmt txt rank fmt2 u clock db task_id user_id r c w)"

subsection \<open>Retry delays\<close>

text \<open>Before retry \<open>n\<close> the task waits the initial delay times the base to the power \<open>n\<close>, cut at the
  maximal delay, and at most a tenth of that longer when jitter is on; no wait exceeds the maximal
  delay by more than a tenth.\<close>

theorem retry_delay_bounds:
  assumes "0 \<le> u" and "u \<le> 1"
    and "0 \<le> rp_initial_delay_seconds (policy_or_default m p)" and "0 \<le> rp_exponential_base (policy_or_default m p)"
    and "0 \<le> rp_max_delay_seconds (policy_or_default m p)"
  shows "let policy = policy_or_default m p;
      nominal = min (rp_initial_delay_seconds policy * rp_exponential_base policy ^ n) (rp_max_delay_seconds policy)
    in \<exists>d. calculate_retry_delay u m (int n) p = Inr d \<and> nominal \<le> d
         \<and> d \<le> (if rp_jitter policy then nominal * (11/10) else nominal)
         \<and> d \<le> rp_max_delay_seconds policy * (11/10)"
proof -
  define pol where "pol = policy_or_default m p"
  define nominal where "nominal = min (rp_initial_delay_seconds pol * rp_exponential_base pol ^ n) (rp_max_delay_seconds pol)"
  have nom: "0 \<le> nominal" "nominal \<le> rp_max_delay_seconds pol" using assms by (simp_all add: nominal_def pol_def)
  then have "0 \<le> u * nominal" "u * nominal \<le> nominal" using assms(1,2) mult_right_mono[of u 1 nominal] by simp_all
  moreover have "calculate_retry_delay u m (int n) p
      = Inr (if rp_jitter pol then nominal + u * (nominal * (1/10)) else nominal)"
    by (simp add: calculate_retry_delay_def py_pow_def Let_def pol_def nominal_def)
  ultimately show ?thesis using nom by (auto simp: Let_def pol_def[symmetric] nominal_def[symmetric])
qed

theorem retry_delay_bounds_witness:
  "\<exists>d. calculate_retry_delay (1/2) (new_retry_manager None) 3 None = Inr d \<and> 8 \<le> d \<and> d \<le> 66"
proof -
  have p: "policy_or_default (new_retry_manager None) None = default_retry_policy"
    by (simp add: policy_or_default_def new_retry_manager_def)
  from retry_delay_bounds[of "1/2" "new_retry_manager None" None 3]
  show ?thesis unfolding p by (auto simp: default_retry_policy_def Let_def)
qed

subsection \<open>The failures of an agent\<close>

lemma find_task_SomeD: "find_user_task i u ts = Some t \<Longrightarrow> t \<in> set ts \<and> tk_id t = i \<and> tk_creator t = u"
  by (auto simp: find_user_task_def dest: find_in_set)

text \<open>What the coordinator does with the breakers when agents fail, one pair of clock readings each.\<close>

fun failures_of :: "(uuid \<times> timestamp \<times> timestamp) list \<Rightarrow> breakers \<Rightarrow> bool list" where
  "failures_of [] bs = []"
| "failures_of ((a, t, t') # fs) bs =
     (case is_open t' (agent_component a) (record_failure t (agent_component a) bs) of
        (opened, bs') \<Rightarrow> opened # failures_of fs bs')"

definition breaker_ok :: "circuit_breaker_state \<Rightarrow> bool" where
  "breaker_ok b \<longleftrightarrow> cs_threshold b = 5 \<and> cs_timeout_seconds b = 60
     \<and> (cs_state b = Open \<longleftrightarrow> cs_failure_count b \<ge> 5) \<and> cs_state b \<noteq> HalfOpen"

definition failure_count :: "breakers \<Rightarrow> string \<Rightarrow> nat" where
  "failure_count bs c = (case dict_get bs c of None \<Rightarrow> 0 | Some b \<Rightarrow> cs_failure_count b)"

definition breakers_ok :: "breakers \<Rightarrow> bool" where
  "breakers_ok bs \<longleftrightarrow> (\<forall>c b. dict_get bs c = Some b \<longrightarrow> breaker_ok b)"

lemma failure_step:
  assumes "breakers_ok bs" and "t' - t \<le> usec 60"
  shows "fst (is_open t' c (record_failure t c bs)) = (5 \<le> Suc (failure_count bs c))
    \<and> breakers_ok (snd (is_open t' c (record_failure t c bs)))
    \<and> failure_count (snd (is_open t' c (record_failure t c bs))) c' =
        (if c' = c then Suc (failure_count bs c) else failure_count bs c')"
proof -
  have late: "\<not> total_seconds (t' - t) > 60" using assms(2) by (simp add: total_seconds_def usec_def)
  define b where "b = (case dict_get bs c of None \<Rightarrow> new_circuit_breaker_state | Some b \<Rightarrow> b)"
  have b: "breaker_ok b" "cs_failure_count b = failure_count bs c"
    using assms(1)
    by (auto simp: b_def breakers_ok_def failure_count_def breaker_ok_def new_circuit_breaker_state_def
        split: option.splits)
  define b' where "b' = b\<lparr>cs_failure_count := cs_failure_count b + 1, cs_last_failure_time := Some t,
      cs_state := (if cs_failure_count b + 1 \<ge> cs_threshold b then Open else cs_state b)\<rparr>"
  have rec: "record_failure t c bs = dict_set c b' bs"
    by (simp add: record_failure_def b_def[symmetric] b'_def Let_def)
  have b': "breaker_ok b'" "cs_failure_count b' = Suc (failure_count bs c)" "cs_last_failure_time b' = Some t"
    using b by (auto simp: b'_def breaker_ok_def)
  have opn: "is_open t' c (dict_set c b' bs) = (5 \<le> Suc (failure_count bs c), dict_set c b' bs)"
    using b' late by (cases "cs_state b'") (auto simp: is_open_def breaker_ok_def)
  show ?thesis
    unfolding rec opn using b' assms(1) by (auto simp: breakers_ok_def failure_count_def)
qed

lemma failures_of_count:
  assumes "breakers_ok bs" and "\<forall>(a, t, t') \<in> set fs. a < 2 ^ 128 \<and> t' - t \<le> usec 60" and "i < length fs"
  shows "failures_of fs bs ! i
    \<longleftrightarrow> 5 \<le> failure_count bs (agent_component (fst (fs ! i)))
            + length (filter (\<lambda>f. fst f = fst (fs ! i)) (take (Suc i) fs))"
  using assms
proof (induction fs arbitrary: bs i)
  case (Cons f fs)
  obtain a t t' where f: "f = (a, t, t')" by (cases f)
  define bs' where "bs' = snd (is_open t' (agent_component a) (record_failure t (agent_component a) bs))"
  have step: "fst (is_open t' (agent_component a) (record_failure t (agent_component a) bs))
      = (5 \<le> Suc (failure_count bs (agent_component a)))"
    "breakers_ok bs'"
    "\<And>c'. failure_count bs' c' = (if c' = agent_component a then Suc (failure_count bs (agent_component a))
        else failure_count bs c')"
    using failure_step[OF Cons.prems(1), of t' t "agent_component a"] Cons.prems(2) f by (auto simp: bs'_def)
  have run: "failures_of (f # fs) bs = (5 \<le> Suc (failure_count bs (agent_component a))) # failures_of fs bs'"
    using step(1) by (cases "is_open t' (agent_component a) (record_failure t (agent_component a) bs)")
      (simp add: f bs'_def)
  show ?case
  proof (cases i)
    case 0
    then show ?thesis unfolding run by (simp add: f)
  next
    case (Suc j)
    then have j: "j < length fs" using Cons.prems(3) by simp
    have "fst (fs ! j) < 2 ^ 128" "a < 2 ^ 128" using Cons.prems(2) nth_mem[OF j] f by auto
    then have "agent_component (fst (fs ! j)) = agent_component a \<longleftrightarrow> fst (fs ! j) = a"
      by (simp add: agent_component_def uuid_str_inj)
    moreover have "\<forall>(a, t, t') \<in> set fs. a < 2 ^ 128 \<and> t' - t \<le> usec 60" using Cons.prems(2) by simp
    ultimately show ?thesis
      unfolding run using Cons.IH[OF step(2) _ j] by (auto simp: Suc f step(3))
  qed
qed simp

text \<open>The coordinator starts to send an agent's tasks elsewhere exactly from the agent's fifth failure on,
  whatever other agents do in between: nothing it calls ever counts a success, so the breaker
  of an agent never closes again.\<close>

theorem fifth_failure_opens:
  assumes "\<forall>(a, t, t') \<in> set fs. a < 2 ^ 128 \<and> t' - t \<le> usec 60" and "i < length fs"
  shows "failures_of fs (rc_breakers (new_recovery_coordinator p)) ! i
    \<longleftrightarrow> 5 \<le> length (filter (\<lambda>f. fst f = fst (fs ! i)) (take (Suc i) fs))"
  using failures_of_count[OF _ assms, of "[]"]
  by (simp add: new_recovery_coordinator_def breakers_ok_def failure_count_def)

theorem fifth_failure_opens_witness:
  "failures_of ([(40, 0, 0), (40, 1, 2), (40, 3, 3), (40, 4, 4), (41, 7, 7), (40, 9000000000, 9000000000)])
     (rc_breakers (new_recovery_coordinator None)) ! 5"
  using fifth_failure_opens[of "[(40, 0, 0), (40, 1, 2), (40, 3, 3), (40, 4, 4), (41, 7, 7), (40, 9000000000, 9000000000)]" 5 None]
  by (simp add: usec_def)

subsection \<open>Where a reassigned task goes\<close>

lemma reassigned:
  assumes "reassign_task rank fmt2 db tasks task_id user_id exclude = Inr (True, tasks')"
    and "access_db_ok db" and "\<forall>a \<in> set (adb_agents db). level_stored a"
  shows "\<exists>t usr a. find_user_task task_id user_id tasks = Some t \<and> find_user (adb_users db) user_id = Some usr
    \<and> a \<in> eligible_agents db usr exclude \<and> tk_agent t \<noteq> Some (ag_id a)
    \<and> tasks' = update_task task_id (\<lambda>t. t\<lparr>tk_agent := Some (ag_id a), tk_status := ''pending''\<rparr>) tasks"
proof -
  obtain t where t: "find_user_task task_id user_id tasks = Some t"
    using assms(1) by (auto simp: reassign_task_def split: option.splits)
  define excl where "excl = (case tk_agent t of None \<Rightarrow> exclude | Some a \<Rightarrow> exclude @ [a])"
  define req where "req = (case result_get ''required_capabilities'' t of None \<Rightarrow> PList [] | Some v \<Rightarrow> v)"
  obtain r k where r: "assign_agent_to_task rank fmt2 db task_id req user_id excl = Inr r" "aa_agent_id r = Some k"
    and tasks': "tasks' = update_task task_id (\<lambda>t. t\<lparr>tk_agent := Some k, tk_status := ''pending''\<rparr>) tasks"
    using assms(1) t
    by (auto simp: reassign_task_def Let_def excl_def[symmetric] req_def[symmetric] split: sum.splits option.splits)
  obtain usr where usr: "find_user (adb_users db) user_id = Some usr"
    using r by (cases "find_user (adb_users db) user_id") (auto simp: assign_agent_to_task_def)
  obtain a where a: "a \<in> eligible_agents db usr excl" "ag_id a = k"
    using assigned[OF r(1) assms(2,3) usr] r(2) by blast
  then have "a \<in> eligible_agents db usr exclude" "tk_agent t \<noteq> Some (ag_id a)"
    by (auto simp: eligible_agents_def excl_def split: option.splits)
  then show ?thesis using t usr tasks' a(2) by blast
qed

lemma reassign_inr: 
  assumes "apply_reassignment tracked isofmt txt rank fmt2 clock c db task_id user_id r w = Inr (REASSIGN, w')"
  shows "\<exists>ts. reassign_task rank fmt2 db (rw_tasks w) task_id user_id (case fr_agent_id r of None \<Rightarrow> [] | Some a \<Rightarrow> [a])
      = Inr (True, ts) \<and> w' = w\<lparr>rw_tasks := ts\<rparr>"
  using assms by (auto simp: apply_reassignment_def apply_escalation_def Let_def split: sum.splits if_splits)

lemma handled_reassign:
  assumes "handle_failure_record tracked isofmt txt rank fmt2 u clock db task_id user_id r c w
      = (Inr (Finished REASSIGN), c', w')"
  shows "\<exists>ts. reassign_task rank fmt2 db (rw_tasks w) task_id user_id (case fr_agent_id r of None \<Rightarrow> [] | Some a \<Rightarrow> [a])
      = Inr (True, ts) \<and> rw_tasks w' = ts"
proof -
  define w1 where "w1 = log_failure isofmt r user_id None w"
  have w1: "rw_tasks w1 = rw_tasks w" by (simp add: w1_def log_failure_def Let_def)
  have strat: "apply_reassignment tracked isofmt txt rank fmt2 clock c1 db task_id user_id r w1 = Inr (REASSIGN, w2)"
    if "apply_strategy tracked isofmt txt rank fmt2 u clock db task_id user_id r c1 w1 = (Inr (Finished REASSIGN), w2)" for c1 w2
    using that
    by (auto simp: apply_strategy_def apply_escalation_def apply_failure_def apply_partial_success_def Let_def
        split: recovery_strategy.splits sum.splits if_splits)
  obtain c1 where "apply_reassignment tracked isofmt txt rank fmt2 clock c1 db task_id user_id r w1 = Inr (REASSIGN, w')"
    using assms strat
    by (auto simp: handle_failure_record_def w1_def[symmetric] Let_def
        split: option.splits prod.splits if_splits sum.splits)
  from reassign_inr[OF this] show ?thesis using w1 by auto
qed

text \<open>C29: When handling a failure ends in reassignment, the user owns the task, and the task is pending again
  with an agent the user may execute that is idle or active and not retired, and that is neither
  the task's former agent nor the agent the failure names; no other task changes.\<close>

theorem reassigned_to_other_agent:
  assumes "handle_task_failure tracked isofmt txt rank fmt2 fmt0 u clock db task_id user_id failure c w
      = (Inr (Finished REASSIGN), c', w')"
    and "access_db_ok db" and "\<forall>a \<in> set (adb_agents db). level_stored a"
  shows "\<exists>t usr a. find_user_task task_id user_id (rw_tasks w) = Some t
    \<and> find_user (adb_users db) user_id = Some usr \<and> a \<in> eligible_agents db usr []
    \<and> tk_agent t \<noteq> Some (ag_id a)
    \<and> (\<forall>r. failure = Some r \<longrightarrow> fr_agent_id r \<noteq> Some (ag_id a))
    \<and> rw_tasks w' = update_task task_id
        (\<lambda>t. t\<lparr>tk_agent := Some (ag_id a), tk_status := ''pending''\<rparr>) (rw_tasks w)"
proof -
  obtain r where r: "handle_failure_record tracked isofmt txt rank fmt2 u clock db task_id user_id r c w
      = (Inr (Finished REASSIGN), c', w')" "\<forall>r'. failure = Some r' \<longrightarrow> r = r'"
    using assms(1) by (auto simp: handle_task_failure_def split: option.splits)
  define excl where "excl = (case fr_agent_id r of None \<Rightarrow> [] | Some a \<Rightarrow> [a])"
  obtain ts where "reassign_task rank fmt2 db (rw_tasks w) task_id user_id excl = Inr (True, ts)" "rw_tasks w' = ts"
    using handled_reassign[OF r(1)] unfolding excl_def by blast
  then obtain t usr a where "find_user_task task_id user_id (rw_tasks w) = Some t"
    "find_user (adb_users db) user_id = Some usr" "a \<in> eligible_agents db usr excl" "tk_agent t \<noteq> Some (ag_id a)"
    "rw_tasks w' = update_task task_id (\<lambda>t. t\<lparr>tk_agent := Some (ag_id a), tk_status := ''pending''\<rparr>) (rw_tasks w)"
    using reassigned[OF _ assms(2,3)] by blast
  moreover have "a \<in> eligible_agents db usr []" "fr_agent_id r \<noteq> Some (ag_id a)"
    using calculation(3) by (auto simp: eligible_agents_def excl_def split: option.splits)
  ultimately show ?thesis using r(2) by blast
qed

definition sample_failed_task :: task_row where
  "sample_failed_task =
     \<lparr>tk_id = 70, tk_goal_text = ''default'', tk_parent = None, tk_agent = Some 41, tk_status = ''failed'',
      tk_result = Some [(''required_capabilities'', PList [PStr ''sql''])], tk_creator = 30,
      tk_created_at = 0, tk_completed_at = None\<rparr>"

definition sample_failure :: failure_record where
  "sample_failure =
     \<lparr>fr_task_id = 70, fr_failure_type = TIMEOUT, fr_error_message = PStr [], fr_timestamp = 0,
      fr_agent_id = Some 42, fr_retry_count = 3, fr_metadata = []\<rparr>"

definition sample_recovery_world :: recovery_world where
  "sample_recovery_world = \<lparr>rw_tasks = [sample_failed_task], rw_audit = [], rw_calls = []\<rparr>"

theorem reassigned_to_other_agent_witness:
  "rw_tasks (snd (snd (handle_task_failure False (\<lambda>_. []) (\<lambda>_. []) (\<lambda>_. 0) (\<lambda>_. []) (\<lambda>_. []) 0 (\<lambda>_. 0)
       sample_assign_db 70 30 (Some sample_failure) (new_recovery_coordinator None) sample_recovery_world)))
   = update_task 70 (\<lambda>t. t\<lparr>tk_agent := Some 40, tk_status := ''pending''\<rparr>) [sample_failed_task]"
proof -
  let ?h = "handle_task_failure False (\<lambda>_. []) (\<lambda>_. []) (\<lambda>_. 0) (\<lambda>_. []) (\<lambda>_. []) 0 (\<lambda>_. 0)
       sample_assign_db 70 30 (Some sample_failure) (new_recovery_coordinator None) sample_recovery_world"
  have "(case fst ?h of Inr (Finished REASSIGN) \<Rightarrow> True | _ \<Rightarrow> False)" by code_simp
  then have "?h = (Inr (Finished REASSIGN), fst (snd ?h), snd (snd ?h))"
    by (cases ?h) (auto split: sum.splits handling.splits recovery_strategy.splits)
  from reassigned_to_other_agent[OF this sample_assign_ok(1,2)] obtain a usr where
    "a \<in> eligible_agents sample_assign_db usr []"
    "rw_tasks (snd (snd ?h)) = update_task 70 (\<lambda>t. t\<lparr>tk_agent := Some (ag_id a), tk_status := ''pending''\<rparr>)
       (rw_tasks sample_recovery_world)" by blast
  moreover have "ag_id a = 40"
    using calculation(1) by (simp add: eligible_agents_def sample_assign_db_def)
  ultimately show ?thesis by (simp add: sample_recovery_world_def)
qed

subsection \<open>Retries without end\<close>

lemma detected_record:
  "detect_failure fmt0 clock tasks task_id user_id = Some r \<Longrightarrow>
   fr_retry_count r = 0 \<and> fr_failure_type r \<noteq> VALIDATION_ERROR
   \<and> (\<exists>t. find_user_task task_id user_id tasks = Some t \<and> fr_agent_id r = tk_agent t)"
  by (auto simp: detect_failure_def Let_def split: option.splits if_splits)

lemma detected_strategy:
  assumes "detect_failure fmt0 clock tasks task_id user_id = Some r"
    and "0 < rp_max_retries (rm_default_policy (rc_retry_manager c))"
  shows "\<exists>d. apply_strategy tracked isofmt txt rank fmt2 u clock db task_id user_id r c w = (Inr (Sleeping d), w)"
  using detected_record[OF assms(1)] assms(2)
  by (simp add: apply_strategy_def select_recovery_strategy_def should_retry_def policy_or_default_def
      calculate_retry_delay_def py_pow_def Let_def)

text \<open>C39: A failure the coordinator detects itself is always retried, however often the task has been retried
  before, unless the breaker of its agent is open: the detected record starts from zero retries.\<close>

theorem detected_failures_always_retried:
  assumes "detect_failure fmt0 clock (rw_tasks w) task_id user_id = Some r"
    and "0 < rp_max_retries (rm_default_policy (rc_retry_manager c))"
    and "\<forall>a. fr_agent_id r = Some a \<longrightarrow> \<not> fst (is_open (clock AtCheck) (agent_component a)
           (record_failure (clock AtFailure) (agent_component a) (rc_breakers c)))"
  shows "\<exists>d. fst (handle_task_failure tracked isofmt txt rank fmt2 fmt0 u clock db task_id user_id None c w)
      = Inr (Sleeping d)"
proof -
  have sleep: "\<exists>d. apply_strategy tracked isofmt txt rank fmt2 u clock db task_id user_id r c1 w1 = (Inr (Sleeping d), w1)"
    if "rc_retry_manager c1 = rc_retry_manager c" for c1 w1
    using detected_strategy[OF assms(1), of c1] assms(2) that by simp
  show ?thesis
  proof (cases "fr_agent_id r")
    case None
    then show ?thesis
      using sleep[of c "log_failure isofmt r user_id None w"]
      by (auto simp: handle_task_failure_def handle_failure_record_def assms(1) Let_def)
  next
    case (Some a)
    then obtain bs where bs: "is_open (clock AtCheck) (agent_component a)
        (record_failure (clock AtFailure) (agent_component a) (rc_breakers c)) = (False, bs)"
      using assms(3) by (metis prod.collapse)
    then show ?thesis
      using sleep[of "c\<lparr>rc_breakers := bs\<rparr>" "log_failure isofmt r user_id None w"] Some
      by (auto simp: handle_task_failure_def handle_failure_record_def assms(1) Let_def)
  qed
qed

theorem detected_failures_always_retried_witness:
  "\<exists>d. fst (handle_task_failure False (\<lambda>_. []) (\<lambda>_. []) (\<lambda>_. 0) (\<lambda>_. []) (\<lambda>_. []) 0 (\<lambda>_. 0)
      sample_assign_db 70 30 None (new_recovery_coordinator None)
      \<lparr>rw_tasks = [sample_failed_task\<lparr>tk_agent := None,
         tk_result := Some [(''retry_count'', PInt 99)]\<rparr>], rw_audit = [], rw_calls = []\<rparr>) = Inr (Sleeping d)"
  (is "\<exists>d. fst (handle_task_failure _ _ _ _ _ _ _ _ _ _ _ _ ?c ?w) = _")
proof -
  have "detect_failure (\<lambda>_. []) (\<lambda>_. 0) (rw_tasks ?w) 70 30
    = Some \<lparr>fr_task_id = 70, fr_failure_type = AGENT_ERROR, fr_error_message = PStr ''Unknown error'',
            fr_timestamp = 0, fr_agent_id = None, fr_retry_count = 0, fr_metadata = []\<rparr>"
    by (simp add: detect_failure_def find_user_task_def sample_failed_task_def result_get_def dict_get_def)
  from detected_failures_always_retried[OF this, of ?c] show ?thesis
    by (simp add: new_recovery_coordinator_def new_retry_manager_def default_retry_policy_def)
qed

text \<open>Two strategies are never chosen.\<close>

lemma unused_strategies: "select_recovery_strategy c r \<notin> {PARTIAL_SUCCESS, FAIL}"
  by (simp add: select_recovery_strategy_def)

text \<open>Without tracking, what an escalation or a retry notes in a result that is not empty is lost.\<close>

lemma result_note_lost:
  "tk_result t = Some (e # es) \<Longrightarrow> set_result_keys False entries t = t"
  by (simp add: set_result_keys_def Let_def)

lemma result_note_kept:
  "tk_result t \<in> {None, Some []} \<Longrightarrow>
   result_get k (set_result_keys tracked [(k, v)] t) = Some v"
  by (auto simp: set_result_keys_def result_get_def)

end
