(* ===== verification/Document_Chunker.thy ===== *)
theory Document_Chunker
  imports Py_Compare
begin

section \<open>Chunking documents\<close>

text \<open>
  \<open>knowledge_base/document_chunker.py\<close>: a text is cut into chunks for embedding, by a fixed number of
  tokens with an overlap, by paragraphs, or by segments that keep code blocks and tables whole.
  The tokenizer \<open>tiktoken\<close> is the pair of arguments \<open>encode\<close> and \<open>decode\<close>; the fallback the module
  defines for it is one instance. The loop of \<open>_chunk_fixed_size\<close> does not end for every
  configuration, so it is a partial function. A chunk's metadata is a dictionary.
\<close>

type_synonym tokens = "int list"

subsection \<open>The fallback tokenizer\<close>

definition fallback_encode :: "string \<Rightarrow> tokens" where
  "fallback_encode s = map (\<lambda>c. int (of_char c)) s"

definition fallback_decode :: "tokens \<Rightarrow> string" where
  "fallback_decode ts = map (\<lambda>t. char_of (nat t)) ts"

subsection \<open>The chunker\<close>

datatype chunking_strategy = FIXED_SIZE | SENTENCE | PARAGRAPH | SEMANTIC | HIERARCHICAL

type_synonym meta = "(string, pyval) dict"

record chunk_result =
  cr_chunks :: "string list"
  cr_chunk_metadata :: "meta list"
  cr_total_tokens :: nat
  cr_chunk_count :: nat

record document_chunker =
  dc_chunk_size :: int
  dc_chunk_overlap :: int
  dc_delimiters :: string
  dc_overlap_percent :: real

text \<open>\<open>{**entries, **(metadata or {})}\<close>.\<close>

definition with_metadata :: "meta \<Rightarrow> meta option \<Rightarrow> meta" where
  "with_metadata entries metadata =
     (case metadata of None \<Rightarrow> entries | Some d \<Rightarrow> foldl (\<lambda>d (k, v). dict_set k v d) entries d)"

subsection \<open>Fixed-size chunks of characters\<close>

definition text_overlap :: "int \<Rightarrow> int \<Rightarrow> int" where
  "text_overlap chunk_size overlap = (if overlap \<ge> chunk_size then max 0 (chunk_size div 4) else overlap)"

text \<open>\<open>xs[i:j]\<close>: a negative index counts from the end.\<close>

definition slice_index :: "int \<Rightarrow> 'a list \<Rightarrow> nat" where
  "slice_index i xs = nat (if i < 0 then max 0 (int (length xs) + i) else i)"

definition slice :: "int \<Rightarrow> int \<Rightarrow> 'a list \<Rightarrow> 'a list" where
  "slice i j xs = drop (slice_index i xs) (take (slice_index j xs) xs)"

function text_loop :: "int \<Rightarrow> int \<Rightarrow> string \<Rightarrow> int \<Rightarrow> string list" where
  "text_loop chunk_size step text start =
     (if start < int (length text)
      then let e = min (int (length text)) (start + chunk_size)
           in if e \<ge> int (length text) then [slice start e text]
              else if step \<ge> 1 then slice start e text # text_loop chunk_size step text (start + step)
              else []
      else [])"
  by pat_completeness auto
termination text_loop
  by (relation "measure (\<lambda>(chunk_size, step, text, start). nat (int (length text) - start))") auto

declare text_loop.simps [simp del]

text \<open>\<open>chunk_text\<close> passes a step that is at least 1, so the last branch of the loop is never taken.\<close>

definition chunk_text :: "string \<Rightarrow> int \<Rightarrow> int \<Rightarrow> string list" where
  "chunk_text text chunk_size overlap =
     (if chunk_size \<le> 0 then [text]
      else text_loop chunk_size (max 1 (chunk_size - text_overlap chunk_size overlap)) text 0)"

subsection \<open>Fixed-size chunks of tokens\<close>

text \<open>The values \<open>start\<close> and \<open>end\<close> of each round; no value when the loop does not end.\<close>

partial_function (option) fixed_ranges :: "int \<Rightarrow> int \<Rightarrow> int \<Rightarrow> int \<Rightarrow> (int \<times> int) list option" where
  "fixed_ranges sz overlap tot start =
     (if start < tot
      then Option.bind (fixed_ranges sz overlap tot (start + (sz - overlap)))
             (\<lambda>rs. Some ((start, min (start + sz) tot) # rs))
      else Some [])"

declare fixed_ranges.simps [code]

definition fixed_meta :: "string \<Rightarrow> meta option \<Rightarrow> nat \<Rightarrow> int \<times> int \<Rightarrow> tokens \<Rightarrow> meta" where
  "fixed_meta document_id metadata i r chunk_tokens =
     with_metadata
       [(''document_id'', PStr document_id), (''chunk_index'', PInt (int i)),
        (''start_token'', PInt (fst r)), (''end_token'', PInt (snd r)),
        (''token_count'', PInt (int (length chunk_tokens)))] metadata"

definition chunk_fixed_size ::
    "(string \<Rightarrow> tokens) \<Rightarrow> (tokens \<Rightarrow> string) \<Rightarrow> document_chunker \<Rightarrow> string \<Rightarrow> string \<Rightarrow> meta option
     \<Rightarrow> chunk_result option" where
  "chunk_fixed_size encode decode dc text document_id metadata =
     (let tokens = encode text
      in case fixed_ranges (dc_chunk_size dc) (dc_chunk_overlap dc) (int (length tokens)) 0 of
           None \<Rightarrow> None
         | Some rs \<Rightarrow>
             (let pieces = map (\<lambda>(s, e). slice s e tokens) rs
              in Some \<lparr>cr_chunks = map decode pieces,
                       cr_chunk_metadata = map (\<lambda>(i, r, p). fixed_meta document_id metadata i r p)
                         (zip [0..<length rs] (zip rs pieces)),
                       cr_total_tokens = length tokens,
                       cr_chunk_count = length rs\<rparr>))"

subsection \<open>Paragraphs\<close>

fun py_split_str :: "string \<Rightarrow> string \<Rightarrow> string list" where
  "py_split_str sep [] = [[]]"
| "py_split_str sep (c # cs) =
     (if sep \<noteq> [] \<and> take (length sep) (c # cs) = sep
      then [] # py_split_str sep (drop (length sep - 1) cs)
      else (case py_split_str sep cs of w # ws \<Rightarrow> (c # w) # ws | [] \<Rightarrow> [[c]]))"

definition newline :: string where
  "newline = [char_of (10 :: nat)]"

text \<open>What the loops keep: the chunks and metadata so far, the pieces of the current chunk and their
  tokens, the overlap text (of the semantic loop) and the tokens of all pieces.\<close>

record chunk_state =
  cks_chunks :: "string list"
  cks_meta :: "meta list"
  cks_index :: nat
  cks_current :: "string list"
  cks_tokens :: nat
  cks_overlap :: string
  cks_total :: nat

definition chunk_start :: chunk_state where
  "chunk_start =
     \<lparr>cks_chunks = [], cks_meta = [], cks_index = 0, cks_current = [], cks_tokens = 0,
      cks_overlap = [], cks_total = 0\<rparr>"

definition chunk_meta :: "string \<Rightarrow> meta option \<Rightarrow> nat \<Rightarrow> nat \<Rightarrow> meta" where
  "chunk_meta document_id metadata i n =
     with_metadata
       [(''document_id'', PStr document_id), (''chunk_index'', PInt (int i)),
        (''token_count'', PInt (int n))] metadata"

definition emit :: "string \<Rightarrow> meta option \<Rightarrow> string \<Rightarrow> nat \<Rightarrow> chunk_state \<Rightarrow> chunk_state" where
  "emit document_id metadata chunk n s =
     s\<lparr>cks_chunks := cks_chunks s @ [chunk],
       cks_meta := cks_meta s @ [chunk_meta document_id metadata (cks_index s) n],
       cks_index := cks_index s + 1\<rparr>"

definition result_of :: "chunk_state \<Rightarrow> chunk_result" where
  "result_of s =
     \<lparr>cr_chunks = cks_chunks s, cr_chunk_metadata = cks_meta s, cr_total_tokens = cks_total s,
      cr_chunk_count = length (cks_chunks s)\<rparr>"

definition paragraph_step ::
    "(string \<Rightarrow> tokens) \<Rightarrow> document_chunker \<Rightarrow> string \<Rightarrow> meta option \<Rightarrow> chunk_state \<Rightarrow> string \<Rightarrow> chunk_state" where
  "paragraph_step encode dc document_id metadata s paragraph =
     (let para = py_strip paragraph
      in if para = [] then s
         else let n = length (encode para);
                  s1 = s\<lparr>cks_total := cks_total s + n\<rparr>
              in if int (cks_tokens s1 + n) > dc_chunk_size dc \<and> cks_current s1 \<noteq> []
                 then (emit document_id metadata (py_join (newline @ newline) (cks_current s1)) (cks_tokens s1) s1)
                        \<lparr>cks_current := [para], cks_tokens := n\<rparr>
                 else s1\<lparr>cks_current := cks_current s1 @ [para], cks_tokens := cks_tokens s1 + n\<rparr>)"

definition chunk_by_paragraph ::
    "(string \<Rightarrow> tokens) \<Rightarrow> document_chunker \<Rightarrow> string \<Rightarrow> string \<Rightarrow> meta option \<Rightarrow> chunk_result" where
  "chunk_by_paragraph encode dc text document_id metadata =
     (let s = foldl (paragraph_step encode dc document_id metadata) chunk_start
                (py_split_str (newline @ newline) text)
      in result_of
           (if cks_current s \<noteq> []
            then emit document_id metadata (py_join (newline @ newline) (cks_current s)) (cks_tokens s) s
            else s))"

subsection \<open>Segments\<close>

text \<open>\<open>re.split\<close> with a group of one-character alternatives: the text between the delimiters, and them.\<close>

fun re_split :: "char set \<Rightarrow> string \<Rightarrow> string \<Rightarrow> string list" where
  "re_split ds acc [] = [acc]"
| "re_split ds acc (c # cs) =
     (if c \<in> ds then acc # [c] # re_split ds [] cs else re_split ds (acc @ [c]) cs)"

fun attach_delimiters :: "string \<Rightarrow> string list \<Rightarrow> string \<Rightarrow> string list" where
  "attach_delimiters delimiters [] current = (if py_strip current \<noteq> [] then [current] else [])"
| "attach_delimiters delimiters (part # parts) current =
     (let cur = current @ part
      in if length part = 1 \<and> hd part \<in> set delimiters
         then (if py_strip cur \<noteq> [] then [cur] else []) @ attach_delimiters delimiters parts []
         else attach_delimiters delimiters parts cur)"

definition split_by_delimiters :: "document_chunker \<Rightarrow> string \<Rightarrow> string list" where
  "split_by_delimiters dc text =
     (if dc_delimiters dc = [] then (if py_strip text \<noteq> [] then [text] else [])
      else let escaped = filter (\<lambda>d. [d] \<noteq> newline) (dc_delimiters dc)
           in if escaped = [] then (if py_strip text \<noteq> [] then [text] else [])
              else attach_delimiters (dc_delimiters dc) (re_split (set escaped) [] text) [])"

definition is_fence :: "string \<Rightarrow> bool" where
  "is_fence line = py_startswith (py_strip line) ''```''"

definition is_table_row :: "string \<Rightarrow> bool" where
  "is_table_row line \<longleftrightarrow> CHR ''|'' \<in> set line \<and> py_startswith (py_strip line) ''|''"

text \<open>The lines of a code block after its first, and the lines behind it.\<close>

fun code_block :: "string list \<Rightarrow> string list \<times> string list" where
  "code_block [] = ([], [])"
| "code_block (l # ls) =
     (if is_fence l then ([l], ls) else (case code_block ls of (b, r) \<Rightarrow> (l # b, r)))"

lemma code_block_append: "fst (code_block ls) @ snd (code_block ls) = ls"
  by (induction ls) (auto split: prod.splits)

lemma length_code_block [simp]: "length (snd (code_block ls)) \<le> length ls"
  using arg_cong[OF code_block_append[of ls], of length] by simp

function segment_lines :: "document_chunker \<Rightarrow> string list \<Rightarrow> string list" where
  "segment_lines dc [] = []"
| "segment_lines dc (line # ls) =
     (if is_fence line
      then (py_join newline (line # fst (code_block ls)) @ newline) # segment_lines dc (snd (code_block ls))
      else if is_table_row line
      then (py_join newline (line # takeWhile is_table_row ls) @ newline)
             # segment_lines dc (dropWhile is_table_row ls)
      else (if dc_delimiters dc \<noteq> [] then split_by_delimiters dc (line @ newline) else [line @ newline])
             @ segment_lines dc ls)"
  by pat_completeness auto
termination segment_lines
  by (relation "measure (\<lambda>(dc, ls). length ls)") (auto simp: less_Suc_eq_le length_dropWhile_le)

definition split_into_segments :: "document_chunker \<Rightarrow> string \<Rightarrow> string list" where
  "split_into_segments dc text =
     filter (\<lambda>s. py_strip s \<noteq> []) (segment_lines dc (py_split (char_of (10 :: nat)) text))"

definition compute_overlap ::
    "(string \<Rightarrow> tokens) \<Rightarrow> (tokens \<Rightarrow> string) \<Rightarrow> document_chunker \<Rightarrow> string \<Rightarrow> string" where
  "compute_overlap encode decode dc text =
     (if dc_overlap_percent dc \<le> 0 then []
      else let tokens = encode text;
               overlap_tokens = max 1 (nat \<lfloor>real (length tokens) * dc_overlap_percent dc / 100\<rfloor>);
               n = min overlap_tokens (length tokens)
           in decode (drop (length tokens - n) tokens))"

definition emit_current ::
    "(string \<Rightarrow> tokens) \<Rightarrow> (tokens \<Rightarrow> string) \<Rightarrow> document_chunker \<Rightarrow> string \<Rightarrow> meta option
     \<Rightarrow> chunk_state \<Rightarrow> chunk_state" where
  "emit_current encode decode dc document_id metadata s =
     (emit document_id metadata (py_strip (cks_overlap s @ concat (cks_current s))) (cks_tokens s) s)
       \<lparr>cks_overlap := compute_overlap encode decode dc (concat (cks_current s))\<rparr>"

definition semantic_step ::
    "(string \<Rightarrow> tokens) \<Rightarrow> (tokens \<Rightarrow> string) \<Rightarrow> document_chunker \<Rightarrow> string \<Rightarrow> meta option
     \<Rightarrow> chunk_state \<Rightarrow> string \<Rightarrow> chunk_state" where
  "semantic_step encode decode dc document_id metadata s segment =
     (let n = length (encode segment);
          s0 = s\<lparr>cks_total := cks_total s + n\<rparr>
      in if int n > dc_chunk_size dc
         then let s1 = (if cks_current s0 \<noteq> []
                        then (emit_current encode decode dc document_id metadata s0)
                               \<lparr>cks_current := [], cks_tokens := 0\<rparr>
                        else s0)
              in (emit document_id metadata (py_strip (cks_overlap s1 @ segment)) n s1)
                   \<lparr>cks_overlap := compute_overlap encode decode dc segment\<rparr>
         else if int (cks_tokens s0 + n) > dc_chunk_size dc \<and> cks_current s0 \<noteq> []
         then (emit_current encode decode dc document_id metadata s0)
                \<lparr>cks_current := [segment], cks_tokens := n\<rparr>
         else s0\<lparr>cks_current := cks_current s0 @ [segment], cks_tokens := cks_tokens s0 + n\<rparr>)"

definition chunk_semantic ::
    "(string \<Rightarrow> tokens) \<Rightarrow> (tokens \<Rightarrow> string) \<Rightarrow> document_chunker \<Rightarrow> string \<Rightarrow> string \<Rightarrow> meta option
     \<Rightarrow> chunk_result" where
  "chunk_semantic encode decode dc text document_id metadata =
     (let s = foldl (semantic_step encode decode dc document_id metadata) chunk_start
                (split_into_segments dc text)
      in result_of
           (if cks_current s \<noteq> []
            then emit document_id metadata (py_strip (cks_overlap s @ concat (cks_current s))) (cks_tokens s) s
            else s))"

definition chunk ::
    "(string \<Rightarrow> tokens) \<Rightarrow> (tokens \<Rightarrow> string) \<Rightarrow> document_chunker \<Rightarrow> string \<Rightarrow> string \<Rightarrow> chunking_strategy
     \<Rightarrow> meta option \<Rightarrow> chunk_result option" where
  "chunk encode decode dc text document_id strategy metadata =
     (case strategy of
        FIXED_SIZE \<Rightarrow> chunk_fixed_size encode decode dc text document_id metadata
      | PARAGRAPH \<Rightarrow> Some (chunk_by_paragraph encode dc text document_id metadata)
      | SEMANTIC \<Rightarrow> Some (chunk_semantic encode decode dc text document_id metadata)
      | _ \<Rightarrow> chunk_fixed_size encode decode dc text document_id metadata)"

subsection \<open>Cutting at fixed sizes\<close>

lemma slice_nat: "0 \<le> i \<Longrightarrow> 0 \<le> j \<Longrightarrow> slice i j xs = drop (nat i) (take (nat j) xs)"
  by (simp add: slice_def slice_index_def)

lemma text_loop_step:
  "start < int (length text) \<Longrightarrow> start + sz < int (length text) \<Longrightarrow> step \<ge> 1 \<Longrightarrow>
   text_loop sz step text start = slice start (start + sz) text # text_loop sz step text (start + step)"
  by (subst text_loop.simps) (simp add: Let_def)

lemma text_loop_last:
  "start < int (length text) \<Longrightarrow> int (length text) \<le> start + sz \<Longrightarrow>
   text_loop sz step text start = [slice start (int (length text)) text]"
  by (subst text_loop.simps) (simp add: Let_def)

lemma text_loop_tail:
  assumes "0 \<le> ov" and "ov < sz" and "0 \<le> start" and "start < int (length text)"
  shows "\<exists>c cs. text_loop sz (sz - ov) text start = c # cs
    \<and> c @ concat (map (drop (nat ov)) cs) = drop (nat start) text
    \<and> (\<forall>c \<in> set (c # cs). int (length c) \<le> sz)"
  using assms
proof (induction "nat (int (length text) - start)" arbitrary: start rule: less_induct)
  case less
  show ?case
  proof (cases "start + sz < int (length text)")
    case False
    then show ?thesis
      using less.prems by (auto simp: text_loop_last slice_nat)
  next
    case True
    define start' where "start' = start + (sz - ov)"
    obtain c cs where c: "text_loop sz (sz - ov) text start' = c # cs"
      "c @ concat (map (drop (nat ov)) cs) = drop (nat start') text"
      "\<forall>c \<in> set (c # cs). int (length c) \<le> sz"
      using less.hyps[of start'] less.prems True by (auto simp: start'_def)
    define d where "d = slice start (start + sz) text"
    have d: "d = take (nat sz) (drop (nat start) text)"
      using less.prems by (simp add: d_def slice_nat drop_take nat_add_distrib)
    have len: "nat ov \<le> length c"
    proof -
      have "int (length text) - start' > ov" using True by (simp add: start'_def)
      then show ?thesis
        using c(1) less.prems by (subst (asm) text_loop.simps) (auto simp: start'_def Let_def slice_nat split: if_splits)
    qed
    have "drop (nat ov) c @ concat (map (drop (nat ov)) cs) = drop (nat ov) (drop (nat start') text)"
      unfolding c(2)[symmetric] using len by simp
    also have "nat ov + nat start' = nat sz + nat start" using less.prems by (simp add: start'_def)
    then have "drop (nat ov) (drop (nat start') text) = drop (nat sz) (drop (nat start) text)"
      by (simp add: add.commute)
    finally have "d @ concat (map (drop (nat ov)) (c # cs)) = drop (nat start) text"
      unfolding d using append_take_drop_id[of "nat sz" "drop (nat start) text"] by simp
    moreover have "int (length d) \<le> sz" using less.prems by (simp add: d)
    moreover have "text_loop sz (sz - ov) text start = d # c # cs"
      using text_loop_step[OF less.prems(4) True] less.prems c(1) by (simp add: start'_def d_def)
    ultimately show ?thesis using c(3) by auto
  qed
qed

text \<open>Cutting a text by characters returns for every text and every positive chunk size, no chunk is
  longer than the size, and the first chunk followed by the others without their overlap is
  the text.\<close>

theorem chunk_text_covers:
  assumes "0 < sz" and "0 \<le> overlap" and "text \<noteq> []"
  shows "\<exists>c cs. chunk_text text sz overlap = c # cs
    \<and> c @ concat (map (drop (nat (text_overlap sz overlap))) cs) = text
    \<and> (\<forall>c \<in> set (c # cs). int (length c) \<le> sz)"
proof -
  have "0 \<le> text_overlap sz overlap" "text_overlap sz overlap < sz"
    using assms by (auto simp: text_overlap_def)
  with text_loop_tail[of "text_overlap sz overlap" sz 0 "text"] assms show ?thesis
    by (simp add: chunk_text_def max_def)
qed

theorem chunk_text_covers_witness:
  "chunk_text ''abcdefg'' 4 4 = [''abcd'', ''defg'']
   \<and> concat (map (drop (nat (text_overlap 4 4))) [''defg'']) = ''efg''"
proof -
  have c: "chunk_text ''abcdefg'' 4 4 = [''abcd'', ''defg'']" by code_simp
  with chunk_text_covers[of 4 4 "''abcdefg''"] show ?thesis by simp
qed

lemma fixed_ranges_more:
  "start < tot \<Longrightarrow> fixed_ranges sz ov tot start = Some r \<longleftrightarrow>
   (\<exists>r'. fixed_ranges sz ov tot (start + (sz - ov)) = Some r' \<and> r = (start, min (start + sz) tot) # r')"
  by (subst fixed_ranges.simps) (auto simp: bind_eq_Some_conv)

lemma fixed_ranges_done: "\<not> start < tot \<Longrightarrow> fixed_ranges sz ov tot start = Some []"
  by (subst fixed_ranges.simps) simp

lemma fixed_ranges_stall:
  "fixed_ranges sz ov tot start = Some r \<Longrightarrow> start < tot \<Longrightarrow> ov < sz"
proof -
  assume "fixed_ranges sz ov tot start = Some r" and "start < tot"
  moreover have "fixed_ranges sz ov tot start = Some r \<Longrightarrow> start < tot \<longrightarrow> ov < sz"
    by (rule fixed_ranges.raw_induct[where P = "\<lambda>sz ov tot start r. start < tot \<longrightarrow> ov < sz"])
      (fastforce simp: bind_eq_Some_conv split: if_splits)
  ultimately show "ov < sz" by blast
qed

lemma fixed_ranges_ends:
  "ov < sz \<Longrightarrow> \<exists>r. fixed_ranges sz ov tot start = Some r"
proof (induction "nat (tot - start)" arbitrary: start rule: less_induct)
  case less
  show ?case
  proof (cases "start < tot")
    case True
    then have "nat (tot - (start + (sz - ov))) < nat (tot - start)" using less.prems by simp
    from less.hyps[OF this less.prems] True show ?thesis by (auto simp: fixed_ranges_more)
  qed (simp add: fixed_ranges_done)
qed

lemma fixed_pieces:
  assumes "0 \<le> ov" and "ov < sz" and "0 \<le> start" and "fixed_ranges sz ov (int (length ts)) start = Some r"
  shows "concat (map (drop (nat ov)) (map (\<lambda>(s, e). slice s e ts) r)) = drop (nat start + nat ov) ts
    \<and> (\<forall>(s, e) \<in> set r. int (length (slice s e ts)) \<le> sz)
    \<and> (start < int (length ts) \<longrightarrow> (\<exists>r'. r = (start, min (start + sz) (int (length ts))) # r'
         \<and> fixed_ranges sz ov (int (length ts)) (start + (sz - ov)) = Some r'))"
  using assms
proof (induction "nat (int (length ts) - start)" arbitrary: start r rule: less_induct)
  case less
  show ?case
  proof (cases "start < int (length ts)")
    case False
    then show ?thesis using less.prems by (simp add: fixed_ranges_done)
  next
    case True
    define start' where "start' = start + (sz - ov)"
    obtain r' where r': "fixed_ranges sz ov (int (length ts)) start' = Some r'"
      and r: "r = (start, min (start + sz) (int (length ts))) # r'"
      using less.prems(4) True by (auto simp: fixed_ranges_more start'_def)
    have IH: "concat (map (drop (nat ov)) (map (\<lambda>(s, e). slice s e ts) r')) = drop (nat start' + nat ov) ts"
      "\<forall>(s, e) \<in> set r'. int (length (slice s e ts)) \<le> sz"
      using less.hyps[OF _ less.prems(1,2) _ r'] less.prems True by (auto simp: start'_def)
    define d where "d = slice start (min (start + sz) (int (length ts))) ts"
    have d: "d = take (nat sz) (drop (nat start) ts)"
      using less.prems True by (simp add: d_def slice_nat drop_take nat_add_distrib min_def)
    have "drop (nat ov) d = take (nat (sz - ov)) (drop (nat start + nat ov) ts)"
      using less.prems by (simp add: d drop_take nat_diff_distrib add.commute)
    moreover have "nat start' + nat ov = nat (sz - ov) + (nat start + nat ov)"
      using less.prems by (simp add: start'_def nat_add_distrib)
    then have "drop (nat start' + nat ov) ts = drop (nat (sz - ov)) (drop (nat start + nat ov) ts)"
      by (simp only: drop_drop)
    ultimately have "drop (nat ov) d @ concat (map (drop (nat ov)) (map (\<lambda>(s, e). slice s e ts) r'))
        = drop (nat start + nat ov) ts"
      unfolding IH(1) using append_take_drop_id[of "nat (sz - ov)" "drop (nat start + nat ov) ts"] by simp
    moreover have "int (length d) \<le> sz" using less.prems by (simp add: d)
    ultimately show ?thesis using IH(2) r' unfolding r by (simp add: d_def start'_def)
  qed
qed

lemma fixed_size_returns:
  "(\<exists>r. chunk_fixed_size encode decode dc text document_id metadata = Some r)
   \<longleftrightarrow> encode text = [] \<or> dc_chunk_overlap dc < dc_chunk_size dc"
proof -
  have "(\<exists>r. chunk_fixed_size encode decode dc text document_id metadata = Some r)
      \<longleftrightarrow> (\<exists>rs. fixed_ranges (dc_chunk_size dc) (dc_chunk_overlap dc) (int (length (encode text))) 0 = Some rs)"
    by (auto simp: chunk_fixed_size_def Let_def split: option.splits)
  also have "\<dots> \<longleftrightarrow> encode text = [] \<or> dc_chunk_overlap dc < dc_chunk_size dc"
    using fixed_ranges_stall fixed_ranges_ends fixed_ranges_done[of 0 "int (length (encode text))"] by fastforce
  finally show ?thesis .
qed

text \<open>C31: Cutting by tokens returns exactly when there is nothing to cut or the overlap is smaller than the
  chunk size; otherwise the loop never ends.\<close>

theorem fixed_size_returns_iff:
  "(\<exists>r. chunk_fixed_size encode decode dc text document_id metadata = Some r)
   \<longleftrightarrow> encode text = [] \<or> dc_chunk_overlap dc < dc_chunk_size dc"
  by (rule fixed_size_returns)

text \<open>With an overlap from zero to below the chunk size, every chunk has at most the chunk size in tokens,
  and the first piece followed by the others without their overlap is the token sequence of the text.\<close>

theorem fixed_size_covers:
  assumes "0 \<le> dc_chunk_overlap dc" and "dc_chunk_overlap dc < dc_chunk_size dc" and "encode text \<noteq> []"
  shows "\<exists>r p ps. chunk_fixed_size encode decode dc text document_id metadata = Some r
    \<and> cr_chunks r = map decode (p # ps)
    \<and> p @ concat (map (drop (nat (dc_chunk_overlap dc))) ps) = encode text
    \<and> (\<forall>q \<in> set (p # ps). int (length q) \<le> dc_chunk_size dc)"
proof -
  let ?ts = "encode text" and ?sz = "dc_chunk_size dc" and ?ov = "dc_chunk_overlap dc"
  obtain rs where rs: "fixed_ranges ?sz ?ov (int (length ?ts)) 0 = Some rs"
    using fixed_ranges_ends[OF assms(2)] by blast
  note pieces = fixed_pieces[OF assms(1,2) order_refl rs]
  obtain rs' where rs': "rs = (0, min ?sz (int (length ?ts))) # rs'"
    "fixed_ranges ?sz ?ov (int (length ?ts)) (?sz - ?ov) = Some rs'"
    using pieces assms(3) by auto
  define p where "p = slice 0 (min ?sz (int (length ?ts))) ?ts"
  define ps where "ps = map (\<lambda>(s, e). slice s e ?ts) rs'"
  have p: "p = take (nat ?sz) ?ts" using assms by (simp add: p_def slice_nat min_def)
  have "concat (map (drop (nat ?ov)) ps) = drop (nat (?sz - ?ov) + nat ?ov) ?ts"
    using fixed_pieces[OF assms(1,2) _ rs'(2)] assms(2) by (simp add: ps_def)
  moreover have "nat (?sz - ?ov) + nat ?ov = nat ?sz" using assms by simp
  ultimately have "p @ concat (map (drop (nat ?ov)) ps) = ?ts" by (simp add: p)
  moreover have "\<forall>q \<in> set (p # ps). int (length q) \<le> ?sz"
    using pieces unfolding rs'(1) ps_def p_def by (auto split: prod.splits)
  moreover have "\<exists>r. chunk_fixed_size encode decode dc text document_id metadata = Some r
      \<and> cr_chunks r = map decode (p # ps)"
    by (simp add: chunk_fixed_size_def rs rs'(1) p_def ps_def Let_def)
  ultimately show ?thesis by blast
qed

definition sample_chunker :: document_chunker where
  "sample_chunker =
     \<lparr>dc_chunk_size = 4, dc_chunk_overlap = 1, dc_delimiters = ''.!'', dc_overlap_percent = 0\<rparr>"

lemma fallback_round_trip: "fallback_decode (fallback_encode s) = s"
  by (simp add: fallback_decode_def fallback_encode_def o_def)

theorem fixed_size_covers_witness:
  "\<exists>r p ps. chunk_fixed_size fallback_encode fallback_decode sample_chunker ''abcdefg'' ''d'' None = Some r
     \<and> cr_chunks r = map fallback_decode (p # ps) \<and> p @ concat (map (drop 1) ps) = fallback_encode ''abcdefg''"
  using fixed_size_covers[of sample_chunker fallback_encode "''abcdefg''" fallback_decode "''d''" None]
  by (auto simp: sample_chunker_def fallback_encode_def)

text \<open>The loop goes on after the text is covered: a last piece may lie in the overlap of the one before.\<close>

lemma redundant_last_chunk:
  "fixed_ranges 4 1 4 0 = Some [(0, 4), (3, 4)]"
  by (simp add: fixed_ranges_more fixed_ranges_done)

subsection \<open>The configured chunker\<close>

record chunking_config =
  cc_chunk_token_num :: "int option"
  cc_overlap_percent :: "int option"
  cc_delimiters :: string

text \<open>Python's \<open>int\<close> of a quotient truncates towards zero.\<close>

definition div_trunc :: "int \<Rightarrow> int \<Rightarrow> int" where
  "div_trunc a b = (if a \<ge> 0 then a div b else - ((- a) div b))"

definition resolved_chunk_size :: "chunking_config \<Rightarrow> int option \<Rightarrow> int" where
  "resolved_chunk_size cfg chunk_size =
     (let default = (case cc_chunk_token_num cfg of None \<Rightarrow> 512 | Some n \<Rightarrow> n)
      in case chunk_size of None \<Rightarrow> default | Some n \<Rightarrow> if n \<noteq> 0 then n else default)"

definition resolved_chunk_overlap :: "chunking_config \<Rightarrow> int \<Rightarrow> int option \<Rightarrow> int" where
  "resolved_chunk_overlap cfg n chunk_overlap =
     (let overlap = (case chunk_overlap of
                       None \<Rightarrow>
                         (let overlap_percent =
                                max 0 (min (case cc_overlap_percent cfg of None \<Rightarrow> 10 | Some p \<Rightarrow> p) 50)
                          in div_trunc (n * overlap_percent) 100)
                     | Some k \<Rightarrow> k)
      in max 0 (min overlap (max (n - 1) 0)))"

definition new_document_chunker :: "chunking_config \<Rightarrow> int \<Rightarrow> int \<Rightarrow> document_chunker" where
  "new_document_chunker cfg chunk_size chunk_overlap =
     \<lparr>dc_chunk_size = chunk_size, dc_chunk_overlap = chunk_overlap, dc_delimiters = cc_delimiters cfg,
      dc_overlap_percent = real_of_int (case cc_overlap_percent cfg of None \<Rightarrow> 10 | Some p \<Rightarrow> p)\<rparr>"

text \<open>The module's instance, with the signature of the configuration it was built from.\<close>

definition get_document_chunker ::
    "string \<Rightarrow> chunking_config \<Rightarrow> int option \<Rightarrow> int option \<Rightarrow> (document_chunker \<times> string) option
     \<Rightarrow> document_chunker \<times> (document_chunker \<times> string) option" where
  "get_document_chunker signature cfg chunk_size chunk_overlap instance_state =
     (case instance_state of
        Some (dc, old_signature) \<Rightarrow>
          if signature \<noteq> old_signature
          then let n = resolved_chunk_size cfg chunk_size;
                   new = new_document_chunker cfg n (resolved_chunk_overlap cfg n chunk_overlap)
               in (new, Some (new, signature))
          else (dc, instance_state)
      | None \<Rightarrow>
          (let n = resolved_chunk_size cfg chunk_size;
               new = new_document_chunker cfg n (resolved_chunk_overlap cfg n chunk_overlap)
           in (new, Some (new, signature))))"

lemma resolved_overlap_less:
  "0 < n \<Longrightarrow> 0 \<le> resolved_chunk_overlap cfg n ov \<and> resolved_chunk_overlap cfg n ov < n"
  by (auto simp: resolved_chunk_overlap_def Let_def)

lemma configured_chunker_returns:
  assumes "0 < resolved_chunk_size cfg chunk_size"
  shows "\<exists>r. chunk_fixed_size encode decode (fst (get_document_chunker sig cfg chunk_size chunk_overlap None))
     text document_id metadata = Some r"
  using resolved_overlap_less[OF assms]
  by (simp add: fixed_size_returns get_document_chunker_def new_document_chunker_def Let_def)

text \<open>The arguments of a later call are ignored while the configuration stays the same.\<close>

lemma later_arguments_ignored:
  "fst (get_document_chunker sig cfg chunk_size chunk_overlap (Some (dc, sig))) = dc"
  by (simp add: get_document_chunker_def)

subsection \<open>No text is lost\<close>

definition nonspace :: "string \<Rightarrow> string" where
  "nonspace s = filter (\<lambda>c. \<not> py_isspace c) s"

lemma nonspace_append [simp]: "nonspace (s @ t) = nonspace s @ nonspace t"
  by (simp add: nonspace_def)

lemma nonspace_concat: "nonspace (concat ss) = concat (map nonspace ss)"
  by (induction ss) (auto simp: nonspace_def)

lemma nonspace_Nil [simp]: "nonspace [] = []"
  by (simp add: nonspace_def)

lemma nonspace_newline [simp]: "nonspace newline = []"
  by (simp add: nonspace_def newline_def py_isspace_def)

lemma nonspace_dropWhile: "nonspace (dropWhile py_isspace s) = nonspace s"
  by (induction s) (auto simp: nonspace_def)

lemma nonspace_rev: "nonspace (rev s) = rev (nonspace s)"
  by (simp add: nonspace_def rev_filter)

lemma nonspace_strip [simp]: "nonspace (py_strip s) = nonspace s"
  by (simp add: py_strip_def nonspace_rev nonspace_dropWhile)

lemma strip_empty: "py_strip s = [] \<Longrightarrow> nonspace s = []"
  using nonspace_strip[of s] by simp

lemma nonspace_filter: "concat (map nonspace (filter (\<lambda>s. py_strip s \<noteq> []) ss)) = concat (map nonspace ss)"
  by (induction ss) (auto simp: strip_empty)

lemma nonspace_join: "nonspace sep = [] \<Longrightarrow> nonspace (py_join sep ss) = concat (map nonspace ss)"
  by (induction sep ss rule: py_join.induct) auto

lemma re_split_concat: "concat (re_split ds acc s) = acc @ s"
  by (induction ds acc s rule: re_split.induct) auto

lemma attach_nonspace:
  "concat (map nonspace (attach_delimiters ds parts cur)) = nonspace (cur @ concat parts)"
  by (induction ds parts cur rule: attach_delimiters.induct) (auto simp: Let_def dest: strip_empty)

lemma split_by_delimiters_nonspace: "concat (map nonspace (split_by_delimiters dc s)) = nonspace s"
  by (auto simp: split_by_delimiters_def Let_def attach_nonspace re_split_concat strip_empty)

lemma segment_lines_nonspace: "concat (map nonspace (segment_lines dc ls)) = concat (map nonspace ls)"
proof (induction dc ls rule: segment_lines.induct)
  case (2 dc line ls)
  have block: "concat (map nonspace ls) = concat (map nonspace (fst (code_block ls)))
      @ concat (map nonspace (snd (code_block ls)))"
    using arg_cong[OF code_block_append[of ls], of "\<lambda>l. concat (map nonspace l)"] by simp
  have rows: "concat (map nonspace ls) = concat (map nonspace (takeWhile is_table_row ls))
      @ concat (map nonspace (dropWhile is_table_row ls))"
    by (metis concat_append map_append takeWhile_dropWhile_id)
  consider "is_fence line" | "\<not> is_fence line" "is_table_row line" | "\<not> is_fence line" "\<not> is_table_row line" by blast
  then show ?case
  proof cases
    case 1
    then show ?thesis using 2(1)[OF 1] block by (simp add: nonspace_join)
  next
    case b: 2
    then show ?thesis using 2(2)[OF b] rows by (simp add: nonspace_join)
  next
    case c: 3
    then show ?thesis using 2(3)[OF c] by (simp add: split_by_delimiters_nonspace)
  qed
qed simp

lemma segments_nonspace: "concat (map nonspace (split_into_segments dc s)) = nonspace s"
proof -
  have "concat (map nonspace (py_split (char_of (10 :: nat)) s)) = nonspace (py_join newline (py_split (char_of (10 :: nat)) s))"
    by (simp add: nonspace_join)
  also have "\<dots> = nonspace s" by (simp add: newline_def py_join_split)
  finally show ?thesis
    by (simp add: split_into_segments_def nonspace_filter segment_lines_nonspace)
qed

text \<open>Splitting a text into segments (code blocks, tables and delimited pieces) loses nothing but white
  space and keeps the order of everything else.\<close>

theorem segments_keep_text:
  "filter (\<lambda>c. \<not> py_isspace c) (concat (split_into_segments dc text)) = filter (\<lambda>c. \<not> py_isspace c) text"
  using segments_nonspace[of dc "text"] by (simp add: nonspace_concat flip: nonspace_def)

subsection \<open>Semantic chunks are groups of segments\<close>

type_synonym chunk_group = "string \<times> string list"

definition token_count :: "(string \<Rightarrow> tokens) \<Rightarrow> string list \<Rightarrow> nat" where
  "token_count encode ss = sum_list (map (\<lambda>s. length (encode s)) ss)"

definition group_text :: "chunk_group \<Rightarrow> string" where
  "group_text g = py_strip (fst g @ concat (snd g))"

definition group_ok :: "(string \<Rightarrow> tokens) \<Rightarrow> document_chunker \<Rightarrow> chunk_group \<Rightarrow> bool" where
  "group_ok encode dc g \<longleftrightarrow> snd g \<noteq> []
     \<and> (int (token_count encode (snd g)) \<le> dc_chunk_size dc \<or> (\<exists>s. snd g = [s]))"

text \<open>Each group starts with the overlap of the group before it.\<close>

fun overlaps_from ::
    "(string \<Rightarrow> tokens) \<Rightarrow> (tokens \<Rightarrow> string) \<Rightarrow> document_chunker \<Rightarrow> string \<Rightarrow> chunk_group list \<Rightarrow> bool" where
  "overlaps_from encode decode dc ov [] \<longleftrightarrow> True"
| "overlaps_from encode decode dc ov (g # gs) \<longleftrightarrow> fst g = ov
     \<and> overlaps_from encode decode dc (compute_overlap encode decode dc (concat (snd g))) gs"

definition next_overlap ::
    "(string \<Rightarrow> tokens) \<Rightarrow> (tokens \<Rightarrow> string) \<Rightarrow> document_chunker \<Rightarrow> chunk_group list \<Rightarrow> string" where
  "next_overlap encode decode dc gs =
     (if gs = [] then [] else compute_overlap encode decode dc (concat (snd (last gs))))"

lemma overlaps_from_snoc:
  "overlaps_from encode decode dc ov (gs @ [g]) \<longleftrightarrow> overlaps_from encode decode dc ov gs
     \<and> fst g = (if gs = [] then ov else compute_overlap encode decode dc (concat (snd (last gs))))"
  by (induction gs arbitrary: ov) auto

definition semantic_inv ::
    "(string \<Rightarrow> tokens) \<Rightarrow> (tokens \<Rightarrow> string) \<Rightarrow> document_chunker \<Rightarrow> string list \<Rightarrow> chunk_group list
     \<Rightarrow> chunk_state \<Rightarrow> bool" where
  "semantic_inv encode decode dc done gs s \<longleftrightarrow>
     cks_chunks s = map group_text gs \<and> concat (map snd gs) @ cks_current s = done
     \<and> overlaps_from encode decode dc [] gs \<and> cks_overlap s = next_overlap encode decode dc gs
     \<and> list_all (group_ok encode dc) gs \<and> cks_tokens s = token_count encode (cks_current s)
     \<and> (cks_current s = [] \<or> int (cks_tokens s) \<le> dc_chunk_size dc)
     \<and> cks_total s = token_count encode done"

lemma emit_simps [simp]:
  "cks_chunks (emit d m c n s) = cks_chunks s @ [c]" "cks_current (emit d m c n s) = cks_current s"
  "cks_tokens (emit d m c n s) = cks_tokens s" "cks_overlap (emit d m c n s) = cks_overlap s"
  "cks_total (emit d m c n s) = cks_total s"
  by (simp_all add: emit_def)

lemma next_overlap_snoc [simp]:
  "next_overlap encode decode dc (gs @ [g]) = compute_overlap encode decode dc (concat (snd g))"
  by (simp add: next_overlap_def)

lemma next_overlap_snoc2 [simp]:
  "next_overlap encode decode dc (gs @ [g, h]) = compute_overlap encode decode dc (concat (snd h))"
  by (simp add: next_overlap_def)

lemma overlaps_snoc:
  "overlaps_from encode decode dc [] (gs @ [g]) \<longleftrightarrow>
   overlaps_from encode decode dc [] gs \<and> fst g = next_overlap encode decode dc gs"
  by (auto simp: overlaps_from_snoc next_overlap_def)

lemma semantic_inv_step:
  assumes "semantic_inv encode decode dc ds gs s"
  shows "\<exists>gs'. semantic_inv encode decode dc (ds @ [x]) gs'
    (semantic_step encode decode dc document_id metadata s x)"
proof -
  define n where "n = length (encode x)"
  note defs = semantic_inv_def semantic_step_def emit_current_def group_text_def overlaps_snoc group_ok_def
    token_count_def Let_def n_def
  let ?g = "(cks_overlap s, cks_current s)"
  consider "int n > dc_chunk_size dc" "cks_current s \<noteq> []"
    | "int n > dc_chunk_size dc" "cks_current s = []"
    | "\<not> int n > dc_chunk_size dc" "int (cks_tokens s + n) > dc_chunk_size dc" "cks_current s \<noteq> []"
    | "\<not> int n > dc_chunk_size dc" "\<not> int (cks_tokens s + n) > dc_chunk_size dc \<or> cks_current s = []"
    by blast
  then show ?thesis
  proof cases
    case 1
    have "semantic_inv encode decode dc (ds @ [x])
        ((gs @ [?g]) @ [(compute_overlap encode decode dc (concat (cks_current s)), [x])])
        (semantic_step encode decode dc document_id metadata s x)"
      using assms 1 unfolding defs by auto
    then show ?thesis by blast
  next
    case 2
    have "semantic_inv encode decode dc (ds @ [x]) (gs @ [(cks_overlap s, [x])])
        (semantic_step encode decode dc document_id metadata s x)"
      using assms 2 unfolding defs by auto
    then show ?thesis by blast
  next
    case 3
    have "semantic_inv encode decode dc (ds @ [x]) (gs @ [?g])
        (semantic_step encode decode dc document_id metadata s x)"
      using assms 3 unfolding defs by auto
    then show ?thesis by blast
  next
    case 4
    have "semantic_inv encode decode dc (ds @ [x]) gs (semantic_step encode decode dc document_id metadata s x)"
      using assms 4 unfolding defs by auto
    then show ?thesis by blast
  qed
qed

lemma semantic_inv_fold:
  "semantic_inv encode decode dc ds gs s \<Longrightarrow>
   \<exists>gs'. semantic_inv encode decode dc (ds @ xs) gs'
     (foldl (semantic_step encode decode dc document_id metadata) s xs)"
proof (induction xs arbitrary: ds gs s)
  case (Cons x xs)
  from semantic_inv_step[OF Cons.prems] obtain gs1 where
    "semantic_inv encode decode dc (ds @ [x]) gs1 (semantic_step encode decode dc document_id metadata s x)" by blast
  from Cons.IH[OF this] show ?case by simp
qed auto

lemma semantic_groups:
  "\<exists>gs. cr_chunks (chunk_semantic encode decode dc text document_id metadata) = map group_text gs
     \<and> concat (map snd gs) = split_into_segments dc text
     \<and> overlaps_from encode decode dc [] gs \<and> list_all (group_ok encode dc) gs
     \<and> cr_total_tokens (chunk_semantic encode decode dc text document_id metadata)
         = token_count encode (split_into_segments dc text)"
proof -
  define s where "s = foldl (semantic_step encode decode dc document_id metadata) chunk_start (split_into_segments dc text)"
  have "semantic_inv encode decode dc [] [] chunk_start"
    by (simp add: semantic_inv_def chunk_start_def next_overlap_def token_count_def)
  from semantic_inv_fold[OF this, of "split_into_segments dc text" document_id metadata]
  obtain gs where gs: "semantic_inv encode decode dc (split_into_segments dc text) gs s"
    unfolding s_def append_Nil by blast
  show ?thesis
  proof (cases "cks_current s = []")
    case True
    then show ?thesis using gs
      by (intro exI[of _ gs]) (simp add: chunk_semantic_def s_def[symmetric] semantic_inv_def result_of_def Let_def)
  next
    case False
    then show ?thesis using gs
      by (intro exI[of _ "gs @ [(cks_overlap s, cks_current s)]"])
        (simp add: chunk_semantic_def s_def[symmetric] semantic_inv_def result_of_def Let_def overlaps_snoc
          group_text_def group_ok_def)
  qed
qed

text \<open>C30: Semantic chunking groups the segments of the text in their order: every segment is in exactly one
  chunk, a chunk is its group after the overlap of the group before it, and a group has at most
  the chunk size in tokens or is one single segment. Without overlap the chunks keep everything
  of the text but white space.\<close>

theorem semantic_chunks_partition:
  "\<exists>gs. cr_chunks (chunk_semantic encode decode dc text document_id metadata) = map group_text gs
     \<and> concat (map snd gs) = split_into_segments dc text
     \<and> overlaps_from encode decode dc [] gs \<and> list_all (group_ok encode dc) gs
     \<and> (dc_overlap_percent dc \<le> 0 \<longrightarrow>
          concat (map nonspace (cr_chunks (chunk_semantic encode decode dc text document_id metadata)))
            = nonspace text)"
proof -
  obtain gs where gs: "cr_chunks (chunk_semantic encode decode dc text document_id metadata) = map group_text gs"
    "concat (map snd gs) = split_into_segments dc text"
    "overlaps_from encode decode dc [] gs" "list_all (group_ok encode dc) gs"
    using semantic_groups by blast
  have "concat (map nonspace (map group_text gs)) = nonspace text" if p: "dc_overlap_percent dc \<le> 0"
  proof -
    have "concat (map nonspace (map group_text hs)) = concat (map nonspace (concat (map snd hs)))"
      if "overlaps_from encode decode dc [] hs" for hs
      using that
    proof (induction hs)
      case (Cons h hs)
      then show ?case using p by (simp add: compute_overlap_def group_text_def nonspace_concat)
    qed simp
    from this[OF gs(3)] show ?thesis by (simp add: gs(2) segments_nonspace)
  qed
  then show ?thesis using gs by auto
qed

theorem semantic_chunks_partition_witness:
  "concat (map nonspace (cr_chunks (chunk_semantic fallback_encode fallback_decode sample_chunker
     ''ab. cde! f'' ''d'' None))) = ''ab.cde!f''"
proof -
  have "nonspace ''ab. cde! f'' = ''ab.cde!f''" by code_simp
  then show ?thesis
    using semantic_chunks_partition[of fallback_encode fallback_decode sample_chunker "''ab. cde! f''" "''d''" None]
    by (auto simp: sample_chunker_def)
qed

subsection \<open>Chunks of paragraphs\<close>

definition paragraphs_of :: "string list \<Rightarrow> string list" where
  "paragraphs_of ps = filter (\<lambda>p. p \<noteq> []) (map py_strip ps)"

definition paragraph_ok :: "(string \<Rightarrow> tokens) \<Rightarrow> document_chunker \<Rightarrow> string list \<Rightarrow> bool" where
  "paragraph_ok encode dc g \<longleftrightarrow> g \<noteq> [] \<and> (int (token_count encode g) \<le> dc_chunk_size dc \<or> (\<exists>p. g = [p]))"

definition paragraph_inv ::
    "(string \<Rightarrow> tokens) \<Rightarrow> document_chunker \<Rightarrow> string list \<Rightarrow> string list list \<Rightarrow> chunk_state \<Rightarrow> bool" where
  "paragraph_inv encode dc done gs s \<longleftrightarrow>
     cks_chunks s = map (py_join (newline @ newline)) gs \<and> concat gs @ cks_current s = paragraphs_of done
     \<and> list_all (paragraph_ok encode dc) gs \<and> cks_tokens s = token_count encode (cks_current s)
     \<and> (cks_current s = [] \<or> paragraph_ok encode dc (cks_current s))"

lemma paragraph_inv_step:
  assumes "paragraph_inv encode dc ds gs s"
  shows "\<exists>gs'. paragraph_inv encode dc (ds @ [x]) gs' (paragraph_step encode dc document_id metadata s x)"
proof -
  define n where "n = length (encode (py_strip x))"
  note defs = paragraph_inv_def paragraph_step_def paragraphs_of_def paragraph_ok_def token_count_def Let_def n_def
  consider "py_strip x = []"
    | "py_strip x \<noteq> []" "int (cks_tokens s + n) > dc_chunk_size dc" "cks_current s \<noteq> []"
    | "py_strip x \<noteq> []" "\<not> int (cks_tokens s + n) > dc_chunk_size dc \<or> cks_current s = []" by blast
  then show ?thesis
  proof cases
    case 1
    then have "paragraph_inv encode dc (ds @ [x]) gs (paragraph_step encode dc document_id metadata s x)"
      using assms unfolding defs by simp
    then show ?thesis by blast
  next
    case 2
    then have "paragraph_inv encode dc (ds @ [x]) (gs @ [cks_current s]) (paragraph_step encode dc document_id metadata s x)"
      using assms unfolding defs by auto
    then show ?thesis by blast
  next
    case 3
    then have "paragraph_inv encode dc (ds @ [x]) gs (paragraph_step encode dc document_id metadata s x)"
      using assms unfolding defs by auto
    then show ?thesis by blast
  qed
qed

lemma paragraph_inv_fold:
  "paragraph_inv encode dc ds gs s \<Longrightarrow>
   \<exists>gs'. paragraph_inv encode dc (ds @ xs) gs' (foldl (paragraph_step encode dc document_id metadata) s xs)"
proof (induction xs arbitrary: ds gs s)
  case (Cons x xs)
  from paragraph_inv_step[OF Cons.prems] obtain gs1 where
    "paragraph_inv encode dc (ds @ [x]) gs1 (paragraph_step encode dc document_id metadata s x)" by blast
  from Cons.IH[OF this] show ?case by simp
qed auto

lemma paragraph_chunks_partition:
  "\<exists>gs. cr_chunks (chunk_by_paragraph encode dc text document_id metadata) = map (py_join (newline @ newline)) gs
     \<and> concat gs = paragraphs_of (py_split_str (newline @ newline) text)
     \<and> list_all (paragraph_ok encode dc) gs"
proof -
  define ps where "ps = py_split_str (newline @ newline) text"
  define s where "s = foldl (paragraph_step encode dc document_id metadata) chunk_start ps"
  have "paragraph_inv encode dc [] [] chunk_start"
    by (simp add: paragraph_inv_def chunk_start_def paragraphs_of_def token_count_def)
  from paragraph_inv_fold[OF this, of ps document_id metadata]
  obtain gs where gs: "paragraph_inv encode dc ps gs s" unfolding s_def append_Nil by blast
  show ?thesis
  proof (cases "cks_current s = []")
    case True
    then show ?thesis using gs
      by (intro exI[of _ gs])
        (simp add: chunk_by_paragraph_def s_def[symmetric] ps_def[symmetric] paragraph_inv_def result_of_def Let_def)
  next
    case False
    then show ?thesis using gs
      by (intro exI[of _ "gs @ [cks_current s]"])
        (simp add: chunk_by_paragraph_def s_def[symmetric] ps_def[symmetric] paragraph_inv_def result_of_def Let_def)
  qed
qed

end
