(* ===== verification/Policy_Loader.thy ===== *)
theory Policy_Loader
  imports Abac State_Machine
begin

section \<open>Storing policies\<close>

text \<open>
  \<open>access_control/policy_loader.py\<close>: policies are stored in the table \<open>abac_policies\<close>, their conditions
  as JSON, and the enabled ones are kept in the engine of \<open>Abac\<close> as well. The contract is that the
  engine which has followed a sequence of changes decides like one that is loaded from the table
  afresh. Every exception of deserialising is swallowed by the callers, so it is \<open>None\<close> here; a
  condition whose attribute is no string counts as such an exception. The table is a dictionary
  from policy ids to rows in the order of insertion, which is also the order in which rows of equal
  priority are returned here. \<open>now\<close> is the \<open>utcnow()\<close> of \<open>update_policy\<close>.
\<close>

subsection \<open>Enumerations and their values\<close>

fun cond_op_value :: "condition_operator \<Rightarrow> string" where
  "cond_op_value EQUALS = ''==''"
| "cond_op_value NOT_EQUALS = ''!=''"
| "cond_op_value GREATER_THAN = ''>''"
| "cond_op_value GREATER_THAN_OR_EQUAL = ''>=''"
| "cond_op_value LESS_THAN = ''<''"
| "cond_op_value LESS_THAN_OR_EQUAL = ''<=''"
| "cond_op_value IN = ''in''"
| "cond_op_value NOT_IN = ''not_in''"
| "cond_op_value CONTAINS = ''contains''"
| "cond_op_value STARTS_WITH = ''starts_with''"
| "cond_op_value ENDS_WITH = ''ends_with''"

definition condition_operators :: "condition_operator list" where
  "condition_operators =
     [EQUALS, NOT_EQUALS, GREATER_THAN, GREATER_THAN_OR_EQUAL, LESS_THAN, LESS_THAN_OR_EQUAL,
      IN, NOT_IN, CONTAINS, STARTS_WITH, ENDS_WITH]"

definition cond_op_of_value :: "pyval \<Rightarrow> condition_operator option" where
  "cond_op_of_value v = find (\<lambda>op. v = PStr (cond_op_value op)) condition_operators"

fun log_op_value :: "logical_operator \<Rightarrow> string" where
  "log_op_value L_AND = ''AND''"
| "log_op_value L_OR = ''OR''"
| "log_op_value L_NOT = ''NOT''"

definition log_op_of_value :: "pyval \<Rightarrow> logical_operator option" where
  "log_op_of_value v = find (\<lambda>op. v = PStr (log_op_value op)) [L_AND, L_OR, L_NOT]"

definition effect_of_value :: "string \<Rightarrow> policy_effect option" where
  "effect_of_value v = find (\<lambda>f. v = effect_value f) [ALLOW, DENY]"

lemma cond_op_round_trip [simp]: "cond_op_of_value (PStr (cond_op_value op)) = Some op"
  by (cases op) (simp_all add: cond_op_of_value_def condition_operators_def)

lemma log_op_round_trip [simp]: "log_op_of_value (PStr (log_op_value op)) = Some op"
  by (cases op) (simp_all add: log_op_of_value_def)

lemma effect_round_trip [simp]: "effect_of_value (effect_value f) = Some f"
  by (cases f) (simp_all add: effect_of_value_def)

subsection \<open>Conditions as JSON\<close>

fun serialize_condition :: "condition_group \<Rightarrow> pyval" where
  "serialize_condition (Single c) =
     PDict [(''type'', PStr ''condition''), (''attribute'', PStr (cd_attribute c)),
            (''operator'', PStr (cond_op_value (cd_operator c))), (''value'', cd_value c)]"
| "serialize_condition (Group op conditions) =
     PDict [(''type'', PStr ''group''), (''operator'', PStr (log_op_value op)),
            (''conditions'', PList (map serialize_condition conditions))]"

text \<open>The whole must be a group: a bare condition has no attribute \<open>conditions\<close>.\<close>

definition serialize_conditions :: "condition_group \<Rightarrow> pyval option" where
  "serialize_conditions g =
     (case g of
        Group op conditions \<Rightarrow>
          Some (PDict [(''operator'', PStr (log_op_value op)),
                       (''conditions'', PList (map serialize_condition conditions))])
      | Single c \<Rightarrow> None)"

fun all_some :: "'a option list \<Rightarrow> 'a list option" where
  "all_some [] = Some []"
| "all_some (None # xs) = None"
| "all_some (Some x # xs) = map_option ((#) x) (all_some xs)"

text \<open>The members of a JSON value that is iterated: only dictionaries deserialise, and the members of
  a string or a dictionary are strings.\<close>

definition member_list :: "pyval \<Rightarrow> pyval list option" where
  "member_list v =
     (case v of
        PList xs \<Rightarrow> Some xs
      | PStr s \<Rightarrow> Some (map (\<lambda>c. PStr [c]) s)
      | PDict d \<Rightarrow> Some (map PStr (dict_keys d))
      | _ \<Rightarrow> None)"

definition condition_of :: "(string, pyval) dict \<Rightarrow> condition option" where
  "condition_of d =
     (case dict_get d ''attribute'' of
        Some (PStr a) \<Rightarrow>
          (case dict_get d ''operator'' of
             None \<Rightarrow> None
           | Some op \<Rightarrow>
               (case cond_op_of_value op of
                  None \<Rightarrow> None
                | Some op' \<Rightarrow>
                    (case dict_get d ''value'' of
                       None \<Rightarrow> None
                     | Some v \<Rightarrow> Some \<lparr>cd_attribute = a, cd_operator = op', cd_value = v\<rparr>)))
      | _ \<Rightarrow> None)"

lemma size_dict_get: "dict_get d k = Some v \<Longrightarrow> size v < size (PDict d)"
  unfolding dict_get_def by (induction d) (auto split: if_splits)

lemma size_member:
  "member_list v = Some xs \<Longrightarrow> x \<in> set xs \<Longrightarrow> size x \<le> size v"
  by (cases v) (auto simp: member_list_def dest: size_list_estimation'[where f = size, OF _ order_refl])

function deserialize_condition :: "pyval \<Rightarrow> condition_group option" where
  "deserialize_condition v =
     (case v of
        PDict d \<Rightarrow>
          (let cond_type = (case dict_get d ''type'' of None \<Rightarrow> PStr ''condition'' | Some t \<Rightarrow> t)
           in if cond_type = PStr ''condition'' then map_option Single (condition_of d)
              else if cond_type = PStr ''group''
              then (case dict_get d ''operator'' of
                      None \<Rightarrow> None
                    | Some op \<Rightarrow>
                        (case log_op_of_value op of
                           None \<Rightarrow> None
                         | Some op' \<Rightarrow>
                             (case dict_get d ''conditions'' of
                                None \<Rightarrow> None
                              | Some cs \<Rightarrow>
                                  (case member_list cs of
                                     None \<Rightarrow> None
                                   | Some xs \<Rightarrow>
                                       map_option (Group op') (all_some (map deserialize_condition xs))))))
              else None)
      | _ \<Rightarrow> None)"
  by pat_completeness auto
termination deserialize_condition
  by (relation "measure size") (auto dest!: size_dict_get size_member)

declare deserialize_condition.simps [simp del]

definition deserialize_conditions :: "pyval \<Rightarrow> condition_group option" where
  "deserialize_conditions v =
     (case v of
        PDict d \<Rightarrow>
          (case dict_get d ''operator'' of
             None \<Rightarrow> None
           | Some op \<Rightarrow>
               (case log_op_of_value op of
                  None \<Rightarrow> None
                | Some op' \<Rightarrow>
                    (case dict_get d ''conditions'' of
                       None \<Rightarrow> None
                     | Some cs \<Rightarrow>
                         (case member_list cs of
                            None \<Rightarrow> None
                          | Some xs \<Rightarrow> map_option (Group op') (all_some (map deserialize_condition xs))))))
      | _ \<Rightarrow> None)"

subsection \<open>Rows\<close>

record policy_row =
  pw_policy_id :: string
  pw_name :: string
  pw_description :: string
  pw_effect :: string
  pw_resource_type :: string
  pw_actions :: "string list"
  pw_conditions :: pyval
  pw_priority :: int
  pw_enabled :: bool
  pw_created_at :: timestamp
  pw_updated_at :: timestamp

type_synonym policy_table = "(string, policy_row) dict"

definition policy_to_model :: "abac_policy \<Rightarrow> policy_row option" where
  "policy_to_model p =
     (case serialize_conditions (ap_conditions p) of
        None \<Rightarrow> None
      | Some conditions \<Rightarrow>
          Some \<lparr>pw_policy_id = ap_policy_id p, pw_name = ap_name p, pw_description = ap_description p,
                pw_effect = effect_value (ap_effect p), pw_resource_type = ap_resource_type p,
                pw_actions = ap_actions p, pw_conditions = conditions, pw_priority = ap_priority p,
                pw_enabled = ap_enabled p, pw_created_at = ap_created_at p, pw_updated_at = ap_updated_at p\<rparr>)"

definition model_to_policy :: "policy_row \<Rightarrow> abac_policy option" where
  "model_to_policy m =
     (case effect_of_value (pw_effect m) of
        None \<Rightarrow> None
      | Some effect \<Rightarrow>
          (case deserialize_conditions (pw_conditions m) of
             None \<Rightarrow> None
           | Some conditions \<Rightarrow>
               Some \<lparr>ap_policy_id = pw_policy_id m, ap_name = pw_name m, ap_description = pw_description m,
                     ap_effect = effect, ap_resource_type = pw_resource_type m, ap_actions = pw_actions m,
                     ap_conditions = conditions, ap_priority = pw_priority m, ap_enabled = pw_enabled m,
                     ap_created_at = pw_created_at m, ap_updated_at = pw_updated_at m\<rparr>))"

subsection \<open>The loader\<close>

datatype loader_error = IntegrityError | PolicySerializationError | PolicyNotFoundError

record policy_store =
  ps_table :: policy_table
  ps_engine :: abac_engine

definition create_policy :: "abac_policy \<Rightarrow> policy_store \<Rightarrow> (loader_error + abac_policy) \<times> policy_store" where
  "create_policy p s =
     (case policy_to_model p of
        None \<Rightarrow> (Inl PolicySerializationError, s)
      | Some m \<Rightarrow>
          if dict_get (ps_table s) (ap_policy_id p) \<noteq> None then (Inl IntegrityError, s)
          else (Inr p, s\<lparr>ps_table := ps_table s @ [(ap_policy_id p, m)],
                         ps_engine := (if ap_enabled p then add_policy p (ps_engine s) else ps_engine s)\<rparr>))"

definition loader_get_policy :: "string \<Rightarrow> policy_store \<Rightarrow> abac_policy option" where
  "loader_get_policy i s =
     (case dict_get (ps_table s) i of None \<Rightarrow> None | Some m \<Rightarrow> model_to_policy m)"

definition loader_list_policies :: "string option \<Rightarrow> bool \<Rightarrow> policy_effect option \<Rightarrow> policy_store \<Rightarrow> abac_policy list" where
  "loader_list_policies resource_type enabled_only effect s =
     (let rows = dict_values (ps_table s);
          typed = (case resource_type of
                     Some (c # cs) \<Rightarrow> filter (\<lambda>m. pw_resource_type m = c # cs) rows
                   | _ \<Rightarrow> rows);
          active = (if enabled_only then filter pw_enabled typed else typed);
          selected = (case effect of
                        None \<Rightarrow> active | Some f \<Rightarrow> filter (\<lambda>m. pw_effect m = effect_value f) active)
      in case all_some (map model_to_policy (sort_desc pw_priority selected)) of
           None \<Rightarrow> []
         | Some ps \<Rightarrow> ps)"

definition update_policy ::
    "timestamp \<Rightarrow> abac_policy \<Rightarrow> policy_store \<Rightarrow> (loader_error + abac_policy) \<times> policy_store" where
  "update_policy now p s =
     (case dict_get (ps_table s) (ap_policy_id p) of
        None \<Rightarrow> (Inl PolicyNotFoundError, s)
      | Some m \<Rightarrow>
          (case serialize_conditions (ap_conditions p) of
             None \<Rightarrow> (Inl PolicySerializationError, s)
           | Some conditions \<Rightarrow>
               (let m' = m\<lparr>pw_name := ap_name p, pw_description := ap_description p,
                           pw_effect := effect_value (ap_effect p), pw_resource_type := ap_resource_type p,
                           pw_actions := ap_actions p, pw_conditions := conditions,
                           pw_priority := ap_priority p, pw_enabled := ap_enabled p, pw_updated_at := now\<rparr>;
                    e = snd (remove_policy (ap_policy_id p) (ps_engine s))
                in (Inr p, s\<lparr>ps_table := dict_set (ap_policy_id p) m' (ps_table s),
                             ps_engine := (if ap_enabled p then add_policy p e else e)\<rparr>))))"

definition delete_policy :: "string \<Rightarrow> policy_store \<Rightarrow> bool \<times> policy_store" where
  "delete_policy i s =
     (case dict_get (ps_table s) i of
        None \<Rightarrow> (False, s)
      | Some m \<Rightarrow>
          (True, s\<lparr>ps_table := dict_del i (ps_table s), ps_engine := snd (remove_policy i (ps_engine s))\<rparr>))"

definition load_policies_into_engine :: "bool \<Rightarrow> policy_store \<Rightarrow> nat \<times> policy_store" where
  "load_policies_into_engine clear_existing s =
     (let e = (if clear_existing then clear_policies (ps_engine s) else ps_engine s);
          policies = loader_list_policies None True None s
      in (length policies, s\<lparr>ps_engine := foldl (\<lambda>e p. add_policy p e) e policies\<rparr>))"

definition reload_policies :: "policy_store \<Rightarrow> nat \<times> policy_store" where
  "reload_policies s = load_policies_into_engine True s"

definition enable_policy :: "timestamp \<Rightarrow> string \<Rightarrow> policy_store \<Rightarrow> bool \<times> policy_store" where
  "enable_policy now i s =
     (case loader_get_policy i s of
        None \<Rightarrow> (False, s)
      | Some p \<Rightarrow>
          (case update_policy now (p\<lparr>ap_enabled := True\<rparr>) s of
             (Inl e, s') \<Rightarrow> (False, s') | (Inr q, s') \<Rightarrow> (True, s')))"

definition disable_policy :: "timestamp \<Rightarrow> string \<Rightarrow> policy_store \<Rightarrow> bool \<times> policy_store" where
  "disable_policy now i s =
     (case loader_get_policy i s of
        None \<Rightarrow> (False, s)
      | Some p \<Rightarrow>
          (case update_policy now (p\<lparr>ap_enabled := False\<rparr>) s of
             (Inl e, s') \<Rightarrow> (False, s') | (Inr q, s') \<Rightarrow> (True, s')))"

subsection \<open>The round trip of conditions and policies\<close>

lemma all_some_map: "\<forall>x \<in> set xs. f x = Some (g x) \<Longrightarrow> all_some (map f xs) = Some (map g xs)"
  by (induction xs) auto

lemma all_some_SomeD: "all_some (map f xs) = Some ys \<Longrightarrow> (\<forall>x \<in> set xs. f x \<noteq> None) \<and> ys = map (the \<circ> f) xs"
proof (induction xs arbitrary: ys)
  case (Cons x xs)
  then show ?case by (cases "f x") auto
qed simp

lemma condition_round_trip: "deserialize_condition (serialize_condition g) = Some g"
proof (induction g rule: serialize_condition.induct)
  case (1 c)
  then show ?case by (subst deserialize_condition.simps) (simp add: condition_of_def dict_get_def)
next
  case (2 op cs)
  then have "all_some (map deserialize_condition (map serialize_condition cs)) = Some cs"
    using all_some_map[of cs "\<lambda>c. deserialize_condition (serialize_condition c)" id] by (simp add: o_def)
  then show ?case by (subst deserialize_condition.simps) (simp add: dict_get_def member_list_def o_def)
qed

lemma conditions_round_trip:
  "serialize_conditions g = Some v \<Longrightarrow> deserialize_conditions v = Some g"
  using all_some_map[of _ "\<lambda>c. deserialize_condition (serialize_condition c)" id]
  by (cases g) (auto simp: serialize_conditions_def deserialize_conditions_def dict_get_def member_list_def
      condition_round_trip o_def)

lemma policy_model_decodes: "policy_to_model p = Some m \<Longrightarrow> model_to_policy m = Some p"
  by (auto simp: policy_to_model_def model_to_policy_def dest: conditions_round_trip split: option.splits)

text \<open>C33: A policy can be stored exactly when its conditions form a group, and a stored policy is read back
  as it was, nested groups, operators and values included.\<close>

theorem policy_round_trip:
  "(\<exists>m. policy_to_model p = Some m \<and> model_to_policy m = Some p)
   \<longleftrightarrow> (\<exists>op cs. ap_conditions p = Group op cs)"
  using policy_model_decodes[of p]
  by (cases "ap_conditions p") (auto simp: policy_to_model_def serialize_conditions_def)

subsection \<open>The engine follows the table\<close>

definition table_ok :: "policy_table \<Rightarrow> bool" where
  "table_ok db \<longleftrightarrow> dict_wf db
     \<and> (\<forall>i m. dict_get db i = Some m \<longrightarrow> pw_policy_id m = i \<and> (\<exists>p. model_to_policy m = Some p))"

definition forget :: "abac_policy \<Rightarrow> abac_policy" where
  "forget p = p\<lparr>ap_created_at := 0, ap_updated_at := 0\<rparr>"

definition active_policy :: "policy_table \<Rightarrow> string \<Rightarrow> abac_policy option" where
  "active_policy db i =
     (case dict_get db i of None \<Rightarrow> None | Some m \<Rightarrow> if pw_enabled m then model_to_policy m else None)"

definition synced :: "policy_store \<Rightarrow> bool" where
  "synced s \<longleftrightarrow> table_ok (ps_table s) \<and> dict_wf (ps_engine s)
     \<and> (\<forall>i. map_option forget (dict_get (ps_engine s) i) = map_option forget (active_policy (ps_table s) i))"

lemma decoded_fields:
  "model_to_policy m = Some p \<Longrightarrow> ap_policy_id p = pw_policy_id m \<and> ap_enabled p = pw_enabled m"
  by (auto simp: model_to_policy_def split: option.splits)

datatype loader_op =
    CreatePolicy abac_policy
  | UpdatePolicy timestamp abac_policy
  | DeletePolicy string
  | EnablePolicy timestamp string
  | DisablePolicy timestamp string
  | ReloadPolicies

fun loader_call :: "loader_op \<Rightarrow> policy_store \<Rightarrow> policy_store" where
  "loader_call (CreatePolicy p) s = snd (create_policy p s)"
| "loader_call (UpdatePolicy now p) s = snd (update_policy now p s)"
| "loader_call (DeletePolicy i) s = snd (delete_policy i s)"
| "loader_call (EnablePolicy now i) s = snd (enable_policy now i s)"
| "loader_call (DisablePolicy now i) s = snd (disable_policy now i s)"
| "loader_call ReloadPolicies s = snd (reload_policies s)"

lemma dict_wf_snoc: "dict_wf d \<Longrightarrow> dict_get d k = None \<Longrightarrow> dict_wf (d @ [(k, v)])"
  by (auto simp: dict_wf_def dict_get_None_iff)

lemma dict_get_snoc:
  "dict_get d k = None \<Longrightarrow> dict_get (d @ [(k, v)]) i = (if i = k then Some v else dict_get d i)"
  by (auto simp: dict_get_def map_add_def split: option.splits)

lemma synced_engine_None: "synced s \<Longrightarrow> dict_get (ps_engine s) i = None \<longleftrightarrow> active_policy (ps_table s) i = None"
  unfolding synced_def by (metis option.map_disc_iff)

lemma remove_policy_get [simp]:
  "dict_get (snd (remove_policy k e)) i = (if i = k then None else dict_get e i)"
  by (simp add: remove_policy_def)

lemma remove_policy_wf [simp]: "dict_wf e \<Longrightarrow> dict_wf (snd (remove_policy k e))"
  by (simp add: remove_policy_def)

lemma create_synced: "synced s \<Longrightarrow> synced (snd (create_policy p s))"
proof -
  assume s: "synced s"
  show ?thesis
  proof (cases "policy_to_model p")
    case (Some m)
    have m: "model_to_policy m = Some p" "pw_policy_id m = ap_policy_id p" "pw_enabled m = ap_enabled p"
      using policy_model_decodes[OF Some] decoded_fields by auto
    show ?thesis
    proof (cases "dict_get (ps_table s) (ap_policy_id p)")
      case None
      then have "active_policy (ps_table s) (ap_policy_id p) = None" by (simp add: active_policy_def)
      then have "dict_get (ps_engine s) (ap_policy_id p) = None" using synced_engine_None[OF s] by simp
      with None s m Some show ?thesis
        by (auto simp: create_policy_def synced_def table_ok_def active_policy_def add_policy_def
            dict_get_snoc dict_wf_snoc)
    qed (use s Some in \<open>simp add: create_policy_def\<close>)
  qed (use s in \<open>simp add: create_policy_def\<close>)
qed

lemma update_synced: "synced s \<Longrightarrow> synced (snd (update_policy now p s))"
proof -
  assume s: "synced s"
  consider m g where "dict_get (ps_table s) (ap_policy_id p) = Some m" "serialize_conditions (ap_conditions p) = Some g"
    | "snd (update_policy now p s) = s"
    by (cases "dict_get (ps_table s) (ap_policy_id p)"; cases "serialize_conditions (ap_conditions p)")
      (auto simp: update_policy_def)
  then show ?thesis
  proof cases
    case 1
    define m' where "m' = m\<lparr>pw_name := ap_name p, pw_description := ap_description p,
        pw_effect := effect_value (ap_effect p), pw_resource_type := ap_resource_type p,
        pw_actions := ap_actions p, pw_conditions := g,
        pw_priority := ap_priority p, pw_enabled := ap_enabled p, pw_updated_at := now\<rparr>"
    have "pw_policy_id m = ap_policy_id p" using s 1(1) by (auto simp: synced_def table_ok_def)
    then have m': "pw_policy_id m' = ap_policy_id p" "pw_enabled m' = ap_enabled p"
      "\<exists>q. model_to_policy m' = Some q \<and> forget q = forget p"
      using conditions_round_trip[OF 1(2)]
      by (auto simp: m'_def model_to_policy_def forget_def)
    show ?thesis
      using s m' 1
      by (auto simp: update_policy_def synced_def table_ok_def active_policy_def add_policy_def
          m'_def[symmetric] Let_def)
  qed (use s in simp)
qed

lemma delete_synced: "synced s \<Longrightarrow> synced (snd (delete_policy i s))"
  by (cases "dict_get (ps_table s) i")
    (auto simp: delete_policy_def synced_def table_ok_def active_policy_def)

lemma enable_synced: "synced s \<Longrightarrow> synced (snd (enable_policy now i s))"
  using update_synced[of s now]
  by (auto simp: enable_policy_def split: option.splits sum.splits prod.splits) (metis snd_conv)+

lemma disable_synced: "synced s \<Longrightarrow> synced (snd (disable_policy now i s))"
  using update_synced[of s now]
  by (auto simp: disable_policy_def split: option.splits sum.splits prod.splits) (metis snd_conv)+

lemma add_all_other: "i \<notin> ap_policy_id ` set ps \<Longrightarrow> dict_get (foldl (\<lambda>e p. add_policy p e) e ps) i = dict_get e i"
  by (induction ps arbitrary: e) (auto simp: add_policy_def)

lemma add_all_wf: "dict_wf e \<Longrightarrow> dict_wf (foldl (\<lambda>e p. add_policy p e) e ps)"
  by (induction ps arbitrary: e) (auto simp: add_policy_def)

lemma add_all_in:
  "p \<in> set ps \<Longrightarrow> distinct (map ap_policy_id ps) \<Longrightarrow>
   dict_get (foldl (\<lambda>e p. add_policy p e) e ps) (ap_policy_id p) = Some p"
proof (induction ps arbitrary: e)
  case (Cons q ps)
  then show ?case
    using add_all_other[of "ap_policy_id q" ps "add_policy q e"] by (auto simp: add_policy_def)
qed simp

lemma dict_values_get: "dict_wf d \<Longrightarrow> v \<in> set (dict_values d) \<longleftrightarrow> (\<exists>i. dict_get d i = Some v)"
  by (force simp flip: dict_mem_get)

lemma enabled_policies:
  assumes "table_ok db"
  defines "rows \<equiv> sort_desc pw_priority (filter pw_enabled (dict_values db))"
  shows "all_some (map model_to_policy rows) = Some (map (the \<circ> model_to_policy) rows)"
    and "distinct (map ap_policy_id (map (the \<circ> model_to_policy) rows))"
    and "set rows = {m. \<exists>i. dict_get db i = Some m \<and> pw_enabled m}"
proof -
  have get: "m \<in> set (dict_values db) \<longleftrightarrow> (\<exists>i. dict_get db i = Some m)" for m
    using assms(1) unfolding table_ok_def by (intro dict_values_get) blast
  show set: "set rows = {m. \<exists>i. dict_get db i = Some m \<and> pw_enabled m}"
  proof -
    have "set rows = {m \<in> set (dict_values db). pw_enabled m}" by (auto simp: rows_def)
    then show ?thesis unfolding get by blast
  qed
  have dec: "model_to_policy m = Some ((the \<circ> model_to_policy) m) \<and> ap_policy_id ((the \<circ> model_to_policy) m) = pw_policy_id m"
    if "m \<in> set rows" for m
    using that assms(1) decoded_fields[of m] by (auto simp: set table_ok_def)
  show "all_some (map model_to_policy rows) = Some (map (the \<circ> model_to_policy) rows)"
    by (rule all_some_map) (use dec in simp)
  have ids: "map ap_policy_id (map (the \<circ> model_to_policy) rows) = map pw_policy_id rows"
    using dec by simp
  have "map pw_policy_id (dict_values db) = dict_keys db"
    using assms(1) by (auto simp: table_ok_def dict_mem_get[symmetric])
  then have "distinct (map pw_policy_id (filter pw_enabled (dict_values db)))"
    using assms(1) by (metis dict_wf_def distinct_map_filter table_ok_def)
  then have "distinct (map pw_policy_id rows)"
    unfolding rows_def sort_desc_def by (simp add: distinct_map)
  then show "distinct (map ap_policy_id (map (the \<circ> model_to_policy) rows))" unfolding ids .
qed

lemma load_synced:
  assumes "table_ok (ps_table s)"
  shows "synced (snd (load_policies_into_engine True s))"
proof -
  define rows where "rows = sort_desc pw_priority (filter pw_enabled (dict_values (ps_table s)))"
  define ps where "ps = map (the \<circ> model_to_policy) rows"
  note en = enabled_policies[OF assms, folded rows_def, folded ps_def]
  have "loader_list_policies None True None s = ps"
    by (simp add: loader_list_policies_def rows_def[symmetric] en(1) Let_def)
  then have load: "snd (load_policies_into_engine True s) = s\<lparr>ps_engine := foldl (\<lambda>e p. add_policy p e) [] ps\<rparr>"
    by (simp add: load_policies_into_engine_def clear_policies_def Let_def)
  have "dict_get (foldl (\<lambda>e p. add_policy p e) [] ps) i = active_policy (ps_table s) i" for i
  proof (cases "\<exists>m. dict_get (ps_table s) i = Some m \<and> pw_enabled m")
    case True
    then obtain m where m1: "dict_get (ps_table s) i = Some m" "pw_enabled m" by blast
    then obtain p where "model_to_policy m = Some p" "pw_policy_id m = i"
      using assms unfolding table_ok_def by blast
    note m = m1 this
    then have "p \<in> set ps" using en(3) by (force simp: ps_def)
    from add_all_in[OF this en(2), of "[]"] show ?thesis
      using decoded_fields[OF m(3)] m by (simp add: active_policy_def)
  next
    case False
    have "i \<notin> ap_policy_id ` set ps"
    proof
      assume "i \<in> ap_policy_id ` set ps"
      then obtain m where m: "m \<in> set rows" "i = ap_policy_id (the (model_to_policy m))" by (auto simp: ps_def)
      then obtain j where "dict_get (ps_table s) j = Some m" "pw_enabled m" using en(3) by auto
      then show False using False m decoded_fields[of m] assms by (auto simp: table_ok_def)
    qed
    then show ?thesis using add_all_other[of i ps "[]"] False by (auto simp: active_policy_def split: option.splits)
  qed
  then show ?thesis using assms by (simp add: load synced_def add_all_wf)
qed

interpretation loader: invariant_machine "fun_step loader_call" synced
proof
  fix s op s'
  assume "synced s" and "fun_step loader_call s op s'"
  then show "synced s'"
    by (cases op) (auto simp: fun_step_def reload_policies_def synced_def[of s]
        intro: create_synced update_synced delete_synced enable_synced disable_synced load_synced)
qed

lemma synced_decisions:
  assumes "synced s" and "synced s'" and "ps_table s = ps_table s'"
  shows "engine_evaluate txt fmt now user t res action env (ps_engine s)
    = engine_evaluate txt fmt now user t res action env (ps_engine s')"
proof -
  have vals: "p \<in> set (dict_values (ps_engine s)) \<longleftrightarrow> (\<exists>i. dict_get (ps_engine s) i = Some p)"
    if "synced s" for s p
    using that unfolding synced_def by (intro dict_values_get) blast
  have half: "\<exists>q \<in> set (dict_values (ps_engine s2)). policy_applies txt c t action q \<and> ap_effect q = f"
    if s1: "synced s1" and s2: "synced s2" and same: "ps_table s1 = ps_table s2"
      and ex: "\<exists>p \<in> set (dict_values (ps_engine s1)). policy_applies txt c t action p \<and> ap_effect p = f" for s1 s2 c f
  proof -
    obtain p i where p: "dict_get (ps_engine s1) i = Some p" "policy_applies txt c t action p" "ap_effect p = f"
      using ex vals[OF s1] by blast
    have "map_option forget (dict_get (ps_engine s2) i) = map_option forget (dict_get (ps_engine s1) i)"
      using s1 s2 same by (simp add: synced_def)
    then obtain q where q: "dict_get (ps_engine s2) i = Some q" "forget q = forget p" using p(1) by auto
    have "policy_applies txt c t action q = policy_applies txt c t action (forget q)"
      "policy_applies txt c t action p = policy_applies txt c t action (forget p)"
      "ap_effect (forget q) = ap_effect q" "ap_effect (forget p) = ap_effect p"
      by (simp_all add: policy_applies_def forget_def)
    then show ?thesis using p q vals[OF s2] by metis
  qed
  show ?thesis
    unfolding engine_evaluate_iff Let_def
    using half[OF assms] half[OF assms(2,1) assms(3)[symmetric]] by blast
qed

text \<open>C32: The policies in memory never drift from the stored ones: after loading and any sequence of created,
  changed, enabled, disabled, deleted and reloaded policies, failed calls included, the engine
  decides every request like an engine loaded from the table afresh.\<close>

theorem engine_decides_like_table:
  assumes "table_ok (ps_table s)"
    and "run_of (fun_step loader_call) (snd (load_policies_into_engine True s)) ops s'"
  shows "engine_evaluate txt fmt now user t res action env (ps_engine s')
    = engine_evaluate txt fmt now user t res action env (ps_engine (snd (load_policies_into_engine True s')))"
proof (rule synced_decisions)
  show "synced s'" using loader.run_inv[OF assms(2) load_synced[OF assms(1)]] .
  then show "synced (snd (load_policies_into_engine True s'))" by (intro load_synced) (simp add: synced_def)
qed (simp add: load_policies_into_engine_def Let_def)

definition sample_policy :: abac_policy where
  "sample_policy = ABACPolicy 0 0 ''p'' ''n'' ''d'' ALLOW ''knowledge'' [''read'']
     (Group L_OR [Group L_NOT [Single \<lparr>cd_attribute = ''user.x'', cd_operator = IN, cd_value = PList []\<rparr>]]) 5"

lemma sample_policy_id [simp]: "ap_policy_id sample_policy = ''p''"
  by (simp add: sample_policy_def ABACPolicy_def)

theorem engine_decides_like_table_witness:
  "\<forall>txt fmt now user t res action env.
     let s = snd (load_policies_into_engine True \<lparr>ps_table = [], ps_engine = []\<rparr>);
       s' = fold loader_call [CreatePolicy sample_policy, DisablePolicy 7 ''p'', EnablePolicy 9 ''p''] s
     in engine_evaluate txt fmt now user t res action env (ps_engine s')
       = engine_evaluate txt fmt now user t res action env (ps_engine (snd (load_policies_into_engine True s')))"
proof -
  let ?s = "\<lparr>ps_table = [], ps_engine = []\<rparr>"
  have "table_ok (ps_table ?s)" by (simp add: table_ok_def)
  moreover have "run_of (fun_step loader_call) (snd (load_policies_into_engine True ?s))
      [CreatePolicy sample_policy, DisablePolicy 7 ''p'', EnablePolicy 9 ''p'']
      (fold loader_call [CreatePolicy sample_policy, DisablePolicy 7 ''p'', EnablePolicy 9 ''p'']
        (snd (load_policies_into_engine True ?s)))"
    by (simp only: run_of_fun_step)
  ultimately show ?thesis unfolding Let_def by (intro allI) (rule engine_decides_like_table)
qed

text \<open>C40: Whatever calls are made, every stored row stays readable under its own id: its effect and its JSON
  conditions decode to a policy.\<close>

theorem stored_rows_stay_readable:
  assumes "table_ok (ps_table s)"
    and "run_of (fun_step loader_call) (snd (load_policies_into_engine True s)) ops s'"
    and "dict_get (ps_table s') i = Some m"
  shows "\<exists>p op cs. model_to_policy m = Some p \<and> ap_policy_id p = i \<and> ap_conditions p = Group op cs"
proof -
  have "synced s'" using loader.run_inv[OF assms(2) load_synced[OF assms(1)]] .
  then obtain p where p: "model_to_policy m = Some p" "pw_policy_id m = i"
    using assms(3) unfolding synced_def table_ok_def by blast
  then have "deserialize_conditions (pw_conditions m) = Some (ap_conditions p)"
    by (auto simp: model_to_policy_def split: option.splits)
  then have "\<exists>op cs. ap_conditions p = Group op cs"
    by (auto simp: deserialize_conditions_def split: pyval.splits option.splits) (metis)
  then show ?thesis using p decoded_fields[OF p(1)] by blast
qed

theorem stored_rows_stay_readable_witness:
  "\<exists>p m. dict_get (ps_table (loader_call (CreatePolicy sample_policy)
       (snd (load_policies_into_engine True \<lparr>ps_table = [], ps_engine = []\<rparr>)))) ''p'' = Some m
     \<and> model_to_policy m = Some p \<and> ap_policy_id p = ''p''"
proof -
  let ?init = "\<lparr>ps_table = [], ps_engine = []\<rparr>"
  let ?s = "loader_call (CreatePolicy sample_policy) (snd (load_policies_into_engine True ?init))"
  obtain m where m: "policy_to_model sample_policy = Some m"
    by (simp add: policy_to_model_def sample_policy_def serialize_conditions_def ABACPolicy_def)
  have "dict_get (ps_table ?s) ''p'' = Some m"
    by (simp add: load_policies_into_engine_def loader_list_policies_def sort_desc_def create_policy_def m
        dict_get_def Let_def sample_policy_id)
  moreover have "table_ok (ps_table ?init)" by (simp add: table_ok_def)
  moreover have "run_of (fun_step loader_call) (snd (load_policies_into_engine True ?init)) [CreatePolicy sample_policy] ?s"
    by (simp add: fun_step_def)
  ultimately show ?thesis using stored_rows_stay_readable[of ?init "[CreatePolicy sample_policy]" ?s "''p''" m] by blast
qed

text \<open>One enabled row that cannot be decoded empties the engine on the next load.\<close>

lemma all_some_None: "x \<in> set xs \<Longrightarrow> f x = None \<Longrightarrow> all_some (map f xs) = None"
proof (induction xs)
  case (Cons y xs)
  then show ?case by (cases "f y") auto
qed simp

lemma unreadable_row_empties_engine:
  assumes "m \<in> set (dict_values (ps_table s))" and "pw_enabled m" and "model_to_policy m = None"
  shows "load_policies_into_engine True s = (0, s\<lparr>ps_engine := []\<rparr>)"
  using all_some_None[of m "sort_desc pw_priority (filter pw_enabled (dict_values (ps_table s)))" model_to_policy] assms
  by (simp add: load_policies_into_engine_def loader_list_policies_def clear_policies_def Let_def)

end
