(* ===== verification/Messages.thy ===== *)
theory Messages
  imports Py_Values State_Machine
begin

section \<open>Messages between agents\<close>

text \<open>
  \<open>message_bus/message.py\<close>, \<open>authorization.py\<close> and \<open>audit.py\<close>: who may send a message to whom, and the
  bounded log of the attempts. An agent's permissions hold a set of task ids that \<open>add_agent_task\<close>
  changes in place, and \<open>register_agent\<close> and \<open>update_agent_tasks\<close> keep the very set the caller
  passes, so sets live in a store of their own here and permissions hold their address. The text of
  an instant and fresh identifiers are arguments.
\<close>

subsection \<open>Messages\<close>

datatype message_type = DIRECT | BROADCAST | REQUEST | RESPONSE | EVENT

fun message_type_value :: "message_type \<Rightarrow> string" where
  "message_type_value DIRECT = ''direct''"
| "message_type_value BROADCAST = ''broadcast''"
| "message_type_value REQUEST = ''request''"
| "message_type_value RESPONSE = ''response''"
| "message_type_value EVENT = ''event''"

record message =
  ms_message_id :: string
  ms_from_agent_id :: string
  ms_to_agent_id :: "string option"
  ms_task_id :: string
  ms_message_type :: message_type
  ms_payload :: "(string, pyval) dict"
  ms_timestamp :: string
  ms_correlation_id :: "string option"

definition create_message ::
    "string \<Rightarrow> string \<Rightarrow> string \<Rightarrow> string \<Rightarrow> message_type \<Rightarrow> (string, pyval) dict \<Rightarrow> string option
     \<Rightarrow> string option \<Rightarrow> message" where
  "create_message fresh_id now_text from_agent_id task_id message_type payload to_agent_id correlation_id =
     \<lparr>ms_message_id = fresh_id, ms_from_agent_id = from_agent_id, ms_to_agent_id = to_agent_id,
      ms_task_id = task_id, ms_message_type = message_type, ms_payload = payload,
      ms_timestamp = now_text @ ''Z'', ms_correlation_id = correlation_id\<rparr>"

definition is_broadcast :: "message \<Rightarrow> bool" where
  "is_broadcast m \<longleftrightarrow> ms_message_type m = BROADCAST \<or> ms_to_agent_id m = None"

definition is_request :: "message \<Rightarrow> bool" where
  "is_request m \<longleftrightarrow> ms_message_type m = REQUEST"

definition is_response :: "message \<Rightarrow> bool" where
  "is_response m \<longleftrightarrow> ms_message_type m = RESPONSE"

definition create_response :: "string \<Rightarrow> string \<Rightarrow> message \<Rightarrow> string \<Rightarrow> (string, pyval) dict \<Rightarrow> message" where
  "create_response fresh_id now_text m from_agent_id payload =
     create_message fresh_id now_text from_agent_id (ms_task_id m) RESPONSE payload
       (Some (ms_from_agent_id m)) (str_or (ms_correlation_id m) (Some (ms_message_id m)))"

subsection \<open>Permissions\<close>

type_synonym set_address = nat

record agent_permissions =
  pm_agent_id :: string
  pm_assigned_tasks :: set_address
  pm_can_broadcast :: bool
  pm_can_send_direct :: bool
  pm_allowed_recipients :: "string set option"

record message_authorizer =
  ma_permissions :: "(string, agent_permissions) dict"
  ma_sets :: "set_address \<Rightarrow> string set"

definition new_message_authorizer :: "(set_address \<Rightarrow> string set) \<Rightarrow> message_authorizer" where
  "new_message_authorizer sets = \<lparr>ma_permissions = [], ma_sets = sets\<rparr>"

definition register_agent :: "agent_permissions \<Rightarrow> message_authorizer \<Rightarrow> message_authorizer" where
  "register_agent p s = s\<lparr>ma_permissions := dict_set (pm_agent_id p) p (ma_permissions s)\<rparr>"

definition unregister_agent :: "string \<Rightarrow> message_authorizer \<Rightarrow> message_authorizer" where
  "unregister_agent agent_id s =
     (if dict_get (ma_permissions s) agent_id \<noteq> None
      then s\<lparr>ma_permissions := dict_del agent_id (ma_permissions s)\<rparr> else s)"

definition assigned_to :: "message_authorizer \<Rightarrow> agent_permissions \<Rightarrow> string \<Rightarrow> bool" where
  "assigned_to s p task_id \<longleftrightarrow> task_id \<in> ma_sets s (pm_assigned_tasks p)"

definition authorize_message :: "message_authorizer \<Rightarrow> message \<Rightarrow> bool \<times> string option" where
  "authorize_message s m =
     (let sender = ms_from_agent_id m; task_id = ms_task_id m
      in case dict_get (ma_permissions s) sender of
           None \<Rightarrow> (False, Some (''Agent '' @ sender @ '' not registered''))
         | Some p \<Rightarrow>
             if \<not> assigned_to s p task_id
             then (False, Some (''Agent '' @ sender @ '' not assigned to task '' @ task_id))
             else if is_broadcast m
             then (if \<not> pm_can_broadcast p
                   then (False, Some (''Agent '' @ sender @ '' cannot send broadcast messages''))
                   else (True, None))
             else if \<not> pm_can_send_direct p
             then (False, Some (''Agent '' @ sender @ '' cannot send direct messages''))
             else case ms_to_agent_id m of
                    Some (c # cs) \<Rightarrow>
                      (let recipient = c # cs
                       in if pm_allowed_recipients p \<noteq> None \<and> recipient \<notin> the (pm_allowed_recipients p)
                          then (False, Some (''Agent '' @ sender @ '' not allowed to message agent '' @ recipient))
                          else case dict_get (ma_permissions s) recipient of
                                 None \<Rightarrow> (False, Some (''Recipient agent '' @ recipient @ '' not registered''))
                               | Some q \<Rightarrow>
                                   if \<not> assigned_to s q task_id
                                   then (False, Some (''Recipient agent '' @ recipient
                                           @ '' not assigned to task '' @ task_id))
                                   else (True, None))
                  | _ \<Rightarrow> (True, None))"

definition can_agent_send_to_task :: "message_authorizer \<Rightarrow> string \<Rightarrow> string \<Rightarrow> bool" where
  "can_agent_send_to_task s agent_id task_id =
     (case dict_get (ma_permissions s) agent_id of None \<Rightarrow> False | Some p \<Rightarrow> assigned_to s p task_id)"

definition can_agent_message_agent :: "message_authorizer \<Rightarrow> string \<Rightarrow> string \<Rightarrow> string \<Rightarrow> bool" where
  "can_agent_message_agent s sender_id recipient_id task_id =
     (case dict_get (ma_permissions s) sender_id of
        None \<Rightarrow> False
      | Some p \<Rightarrow>
          if \<not> assigned_to s p task_id then False
          else if \<not> pm_can_send_direct p then False
          else if pm_allowed_recipients p \<noteq> None \<and> recipient_id \<notin> the (pm_allowed_recipients p) then False
          else case dict_get (ma_permissions s) recipient_id of
                 None \<Rightarrow> False
               | Some q \<Rightarrow> if \<not> assigned_to s q task_id then False else True)"

definition get_agent_permissions :: "message_authorizer \<Rightarrow> string \<Rightarrow> agent_permissions option" where
  "get_agent_permissions s agent_id = dict_get (ma_permissions s) agent_id"

definition update_agent_tasks :: "string \<Rightarrow> set_address \<Rightarrow> message_authorizer \<Rightarrow> message_authorizer" where
  "update_agent_tasks agent_id task_ids s =
     (case dict_get (ma_permissions s) agent_id of
        None \<Rightarrow> s
      | Some p \<Rightarrow>
          s\<lparr>ma_permissions := dict_set agent_id (p\<lparr>pm_assigned_tasks := task_ids\<rparr>) (ma_permissions s)\<rparr>)"

definition add_agent_task :: "string \<Rightarrow> string \<Rightarrow> message_authorizer \<Rightarrow> message_authorizer" where
  "add_agent_task agent_id task_id s =
     (case dict_get (ma_permissions s) agent_id of
        None \<Rightarrow> s
      | Some p \<Rightarrow>
          s\<lparr>ma_sets := (ma_sets s)(pm_assigned_tasks p := insert task_id (ma_sets s (pm_assigned_tasks p)))\<rparr>)"

definition remove_agent_task :: "string \<Rightarrow> string \<Rightarrow> message_authorizer \<Rightarrow> message_authorizer" where
  "remove_agent_task agent_id task_id s =
     (case dict_get (ma_permissions s) agent_id of
        None \<Rightarrow> s
      | Some p \<Rightarrow>
          s\<lparr>ma_sets := (ma_sets s)(pm_assigned_tasks p := ma_sets s (pm_assigned_tasks p) - {task_id})\<rparr>)"

definition clear_permissions :: "message_authorizer \<Rightarrow> message_authorizer" where
  "clear_permissions s = s\<lparr>ma_permissions := []\<rparr>"

subsection \<open>The audit log\<close>

record message_audit_log =
  ml_log_id :: string
  ml_message_id :: string
  ml_from_agent_id :: string
  ml_to_agent_id :: "string option"
  ml_task_id :: string
  ml_message_type :: string
  ml_timestamp :: string
  ml_authorized :: bool
  ml_delivered :: bool
  ml_error :: "string option"
  ml_audit_timestamp :: string

record message_auditor =
  mu_buffer_size :: int
  mu_logs :: "message_audit_log list"
  mu_log_count :: nat

definition new_message_auditor :: "int \<Rightarrow> message_auditor" where
  "new_message_auditor n = \<lparr>mu_buffer_size = n, mu_logs = [], mu_log_count = 0\<rparr>"

text \<open>\<open>xs[-n:]\<close>; for \<open>n = 0\<close> that is the whole list.\<close>

definition last_slice :: "int \<Rightarrow> 'a list \<Rightarrow> 'a list" where
  "last_slice n xs =
     (if n > 0 then drop (length xs - nat n) xs else drop (nat (- n)) xs)"

definition add_log :: "message_audit_log \<Rightarrow> message_auditor \<Rightarrow> message_auditor" where
  "add_log e a =
     (let logs = mu_logs a @ [e]
      in a\<lparr>mu_logs := (if int (length logs) > mu_buffer_size a then last_slice (mu_buffer_size a) logs else logs)\<rparr>)"

definition log_message_attempt ::
    "string \<Rightarrow> message \<Rightarrow> bool \<Rightarrow> string option \<Rightarrow> message_auditor \<Rightarrow> message_audit_log \<times> message_auditor" where
  "log_message_attempt now_text m authorized authorization_reason a =
     (let e = \<lparr>ml_log_id = ''audit-'' @ nat_str (mu_log_count a), ml_message_id = ms_message_id m,
               ml_from_agent_id = ms_from_agent_id m, ml_to_agent_id = ms_to_agent_id m,
               ml_task_id = ms_task_id m, ml_message_type = message_type_value (ms_message_type m),
               ml_timestamp = ms_timestamp m, ml_authorized = authorized, ml_delivered = False,
               ml_error = (if \<not> authorized then authorization_reason else None),
               ml_audit_timestamp = now_text @ ''Z''\<rparr>
      in (e, (add_log e a)\<lparr>mu_log_count := mu_log_count a + 1\<rparr>))"

definition find_log :: "message_auditor \<Rightarrow> string \<Rightarrow> message_audit_log option" where
  "find_log a message_id = find (\<lambda>e. ml_message_id e = message_id) (rev (mu_logs a))"

fun update_first :: "('a \<Rightarrow> bool) \<Rightarrow> ('a \<Rightarrow> 'a) \<Rightarrow> 'a list \<Rightarrow> 'a list" where
  "update_first P f [] = []"
| "update_first P f (x # xs) = (if P x then f x # xs else x # update_first P f xs)"

text \<open>The entry \<open>_find_log\<close> returns is changed in place: the most recent one of that message.\<close>

definition log_message_delivery :: "string \<Rightarrow> bool \<Rightarrow> string option \<Rightarrow> message_auditor \<Rightarrow> message_auditor" where
  "log_message_delivery message_id delivered error a =
     a\<lparr>mu_logs := rev (update_first (\<lambda>e. ml_message_id e = message_id)
         (\<lambda>e. e\<lparr>ml_delivered := delivered,
                ml_error := (case error of Some (c # cs) \<Rightarrow> error | _ \<Rightarrow> ml_error e)\<rparr>)
         (rev (mu_logs a)))\<rparr>"

definition get_logs :: "string option \<Rightarrow> string option \<Rightarrow> int \<Rightarrow> message_auditor \<Rightarrow> message_audit_log list" where
  "get_logs agent_id task_id limit a =
     (let by_agent = (case agent_id of
                        Some (c # cs) \<Rightarrow>
                          filter (\<lambda>e. ml_from_agent_id e = c # cs \<or> ml_to_agent_id e = Some (c # cs)) (mu_logs a)
                      | _ \<Rightarrow> mu_logs a);
          by_task = (case task_id of
                       Some (c # cs) \<Rightarrow> filter (\<lambda>e. ml_task_id e = c # cs) by_agent
                     | _ \<Rightarrow> by_agent)
      in last_slice limit by_task)"

definition get_log :: "message_auditor \<Rightarrow> string \<Rightarrow> message_audit_log option" where
  "get_log a message_id = find_log a message_id"

record audit_statistics =
  as_total_messages :: nat
  as_authorized :: nat
  as_unauthorized :: nat
  as_delivered :: nat
  as_failed :: nat
  as_authorization_rate :: real
  as_delivery_rate :: real

definition get_statistics :: "message_auditor \<Rightarrow> audit_statistics" where
  "get_statistics a =
     (let tot = length (mu_logs a);
          authorized = length (filter ml_authorized (mu_logs a));
          delivered = length (filter ml_delivered (mu_logs a));
          failed = length (filter (\<lambda>e. \<not> ml_delivered e \<and> ml_authorized e) (mu_logs a))
      in \<lparr>as_total_messages = tot, as_authorized = authorized, as_unauthorized = tot - authorized,
          as_delivered = delivered, as_failed = failed,
          as_authorization_rate = (if tot > 0 then real authorized / real tot else 0),
          as_delivery_rate = (if authorized > 0 then real delivered / real authorized else 0)\<rparr>)"

definition clear_logs :: "message_auditor \<Rightarrow> message_auditor" where
  "clear_logs a = a\<lparr>mu_logs := []\<rparr>"

subsection \<open>The two decisions agree\<close>

lemma authorize_direct:
  assumes "ms_message_type m \<noteq> BROADCAST" and "ms_to_agent_id m = Some r" and "r \<noteq> []"
  shows "fst (authorize_message s m) = can_agent_message_agent s (ms_from_agent_id m) r (ms_task_id m)"
proof -
  obtain c cs where r: "r = c # cs" using assms(3) by (cases r) auto
  have "\<not> is_broadcast m" using assms by (simp add: is_broadcast_def)
  then show ?thesis
    using assms(2) unfolding r
    by (auto simp: authorize_message_def can_agent_message_agent_def Let_def split: option.splits)
qed

text \<open>A message to a named recipient is let through exactly when the sender may message that agent in the
  task, a broadcast exactly when the sender belongs to the task and may broadcast; so no message
  to a recipient outside the task is let through.\<close>

theorem authorization_agrees:
  assumes "\<not> is_broadcast m \<longrightarrow> ms_to_agent_id m \<noteq> Some []"
  shows "fst (authorize_message s m) \<longleftrightarrow>
    (if is_broadcast m
     then can_agent_send_to_task s (ms_from_agent_id m) (ms_task_id m)
        \<and> (\<exists>p. get_agent_permissions s (ms_from_agent_id m) = Some p \<and> pm_can_broadcast p)
     else (\<exists>r. ms_to_agent_id m = Some r
        \<and> can_agent_message_agent s (ms_from_agent_id m) r (ms_task_id m)
        \<and> can_agent_send_to_task s r (ms_task_id m)))"
proof (cases "is_broadcast m")
  case True
  then show ?thesis
    by (auto simp: authorize_message_def can_agent_send_to_task_def get_agent_permissions_def Let_def
        split: option.splits)
next
  case False
  then obtain r where r: "ms_message_type m \<noteq> BROADCAST" "ms_to_agent_id m = Some r" "r \<noteq> []"
    using assms by (auto simp: is_broadcast_def)
  have "can_agent_message_agent s a r t \<Longrightarrow> can_agent_send_to_task s r t" for a t
    by (auto simp: can_agent_message_agent_def can_agent_send_to_task_def split: option.splits if_splits)
  then show ?thesis using False r authorize_direct[OF r] by auto
qed

definition sample_message :: message where
  "sample_message = create_message ''m'' ''t'' ''a'' ''task'' REQUEST [] (Some ''b'') None"

theorem authorization_agrees_witness:
  "\<not> fst (authorize_message (new_message_authorizer (\<lambda>_. {})) sample_message)"
  using authorization_agrees[of sample_message "new_message_authorizer (\<lambda>_. {})"]
  by (simp add: sample_message_def create_message_def is_broadcast_def can_agent_message_agent_def
      new_message_authorizer_def)

text \<open>An empty recipient is neither a broadcast nor checked.\<close>

lemma empty_recipient_unchecked:
  assumes "dict_get (ma_permissions s) (ms_from_agent_id m) = Some p" and "assigned_to s p (ms_task_id m)"
    and "pm_can_send_direct p" and "ms_message_type m = DIRECT" and "ms_to_agent_id m = Some []"
  shows "authorize_message s m = (True, None)"
  using assms by (simp add: authorize_message_def is_broadcast_def)

subsection \<open>Changing the tasks of one agent\<close>

definition own_sets :: "message_authorizer \<Rightarrow> bool" where
  "own_sets s \<longleftrightarrow>
     (\<forall>a b p q. dict_get (ma_permissions s) a = Some p \<and> dict_get (ma_permissions s) b = Some q
        \<and> pm_assigned_tasks p = pm_assigned_tasks q \<longrightarrow> a = b)"

text \<open>When no two agents share one set of tasks, giving a task to an agent or taking it away changes
  exactly that: the agent is in the task afterwards (or no longer), and no other agent's tasks and
  no other task of the agent change.\<close>

theorem task_changes_isolated:
  assumes "own_sets s" and "get_agent_permissions s a \<noteq> None"
  shows "can_agent_send_to_task (add_agent_task a t s) b t'
      = (b = a \<and> t' = t \<or> can_agent_send_to_task s b t')
    \<and> can_agent_send_to_task (remove_agent_task a t s) b t'
      = (\<not> (b = a \<and> t' = t) \<and> can_agent_send_to_task s b t')"
  using assms
  by (auto simp: can_agent_send_to_task_def add_agent_task_def remove_agent_task_def assigned_to_def
      get_agent_permissions_def own_sets_def split: option.splits)

definition sample_authorizer :: "set_address \<Rightarrow> message_authorizer" where
  "sample_authorizer x =
     register_agent \<lparr>pm_agent_id = ''b'', pm_assigned_tasks = x, pm_can_broadcast = True,
       pm_can_send_direct = True, pm_allowed_recipients = None\<rparr>
       (register_agent \<lparr>pm_agent_id = ''a'', pm_assigned_tasks = 0, pm_can_broadcast = True,
          pm_can_send_direct = True, pm_allowed_recipients = None\<rparr> (new_message_authorizer (\<lambda>_. {})))"

theorem task_changes_isolated_witness:
  "can_agent_send_to_task (add_agent_task ''a'' ''t'' (sample_authorizer 1)) ''a'' ''t''
   \<and> \<not> can_agent_send_to_task (add_agent_task ''a'' ''t'' (sample_authorizer 1)) ''b'' ''t''"
proof -
  have "own_sets (sample_authorizer 1)"
    by (auto simp: own_sets_def sample_authorizer_def register_agent_def new_message_authorizer_def split: if_splits)
  moreover have "get_agent_permissions (sample_authorizer 1) ''a'' \<noteq> None"
    by (simp add: get_agent_permissions_def sample_authorizer_def register_agent_def)
  moreover have "\<not> can_agent_send_to_task (sample_authorizer 1) ''b'' ''t''"
    by (simp add: can_agent_send_to_task_def sample_authorizer_def register_agent_def new_message_authorizer_def
        assigned_to_def)
  ultimately show ?thesis using task_changes_isolated[of "sample_authorizer 1" "''a''" "''t''"] by auto
qed

text \<open>Agents registered with one shared set get each other's tasks.\<close>

lemma shared_set_leaks: "can_agent_send_to_task (add_agent_task ''a'' ''t'' (sample_authorizer 0)) ''b'' ''t''"
  by (simp add: can_agent_send_to_task_def sample_authorizer_def register_agent_def new_message_authorizer_def
      assigned_to_def add_agent_task_def)

subsection \<open>The buffer keeps the most recent entries\<close>

datatype audit_call =
    Attempt string message bool "string option"
  | Delivery string bool "string option"
  | ClearLogs

fun audit_step :: "audit_call \<Rightarrow> message_auditor \<Rightarrow> message_auditor" where
  "audit_step (Attempt now m authorized reason) a = snd (log_message_attempt now m authorized reason a)"
| "audit_step (Delivery i delivered error) a = log_message_delivery i delivered error a"
| "audit_step ClearLogs a = clear_logs a"

text \<open>The same calls on a log that forgets nothing.\<close>

definition unbounded_add :: "message_audit_log \<Rightarrow> message_auditor \<Rightarrow> message_auditor" where
  "unbounded_add e a = a\<lparr>mu_logs := mu_logs a @ [e], mu_log_count := mu_log_count a + 1\<rparr>"

fun full_step :: "audit_call \<Rightarrow> message_auditor \<Rightarrow> message_auditor" where
  "full_step (Attempt now m authorized reason) a =
     unbounded_add (fst (log_message_attempt now m authorized reason a)) a"
| "full_step (Delivery i delivered error) a = log_message_delivery i delivered error a"
| "full_step ClearLogs a = clear_logs a"

definition last_of :: "nat \<Rightarrow> 'a list \<Rightarrow> 'a list" where
  "last_of n xs = rev (take n (rev xs))"

lemma last_of_snoc: "0 < n \<Longrightarrow> last_of n (xs @ [x]) = last_of n (last_of n xs @ [x])"
  by (cases n) (auto simp: last_of_def)

lemma last_slice_last_of: "0 < n \<Longrightarrow> last_slice n xs = last_of (nat n) xs"
  by (simp add: last_slice_def last_of_def take_rev)

lemma last_of_short: "length xs \<le> n \<Longrightarrow> last_of n xs = xs"
  by (simp add: last_of_def)

lemma update_first_take: "take n (update_first P f xs) = update_first P f (take n xs)"
  by (induction xs arbitrary: n) (auto simp: take_Cons split: nat.splits)

lemma add_log_logs: "0 < mu_buffer_size a \<Longrightarrow> mu_logs (add_log e a) = last_of (nat (mu_buffer_size a)) (mu_logs a @ [e])"
  by (auto simp: add_log_def Let_def last_slice_last_of last_of_short)

definition window_rel :: "message_auditor \<Rightarrow> message_auditor \<Rightarrow> bool" where
  "window_rel a full \<longleftrightarrow> 0 < mu_buffer_size a \<and> mu_log_count a = mu_log_count full
     \<and> mu_logs a = last_of (nat (mu_buffer_size a)) (mu_logs full)"

lemma window_step: "window_rel a full \<Longrightarrow> window_rel (audit_step c a) (full_step c full)"
proof (cases c)
  case (Attempt now m authorized reason)
  assume w: "window_rel a full"
  have "mu_logs (add_log e a) = last_of (nat (mu_buffer_size a)) (mu_logs full @ [e])" for e
    using w add_log_logs[of a e] last_of_snoc[of "nat (mu_buffer_size a)" "mu_logs full" e]
    by (simp add: window_rel_def)
  moreover have "mu_buffer_size (add_log e a) = mu_buffer_size a" for e by (simp add: add_log_def Let_def)
  ultimately show ?thesis
    using w by (simp add: Attempt window_rel_def log_message_attempt_def unbounded_add_def Let_def)
next
  case (Delivery i delivered error)
  assume "window_rel a full"
  then show ?thesis
    by (simp add: Delivery window_rel_def log_message_delivery_def last_of_def update_first_take)
next
  case ClearLogs
  assume "window_rel a full"
  then show ?thesis by (simp add: ClearLogs window_rel_def clear_logs_def last_of_def)
qed

text \<open>With a positive buffer size the audit log is at every moment the most recent entries, in order and
  with their delivery states, of the log that would forget nothing; it never exceeds its size.\<close>

theorem audit_keeps_recent:
  assumes "0 < n"
  shows "mu_logs (fold audit_step cs (new_message_auditor n))
      = last_of (nat n) (mu_logs (fold full_step cs (new_message_auditor n)))
    \<and> int (length (mu_logs (fold audit_step cs (new_message_auditor n)))) \<le> n"
proof -
  have size: "mu_buffer_size (fold audit_step cs a) = mu_buffer_size a" for a
  proof (induction cs arbitrary: a)
    case (Cons c cs)
    then show ?case
      by (cases c) (simp_all add: log_message_attempt_def add_log_def log_message_delivery_def clear_logs_def Let_def)
  qed simp
  have run: "window_rel (fold audit_step cs a) (fold full_step cs full)" if "window_rel a full" for a full
    using that by (induction cs arbitrary: a full) (auto intro: window_step)
  have "window_rel (new_message_auditor n) (new_message_auditor n)"
    using assms by (simp add: window_rel_def new_message_auditor_def last_of_def)
  then have "window_rel (fold audit_step cs (new_message_auditor n)) (fold full_step cs (new_message_auditor n))"
    by (rule run)
  then show ?thesis
    using size[of "new_message_auditor n"] assms
    by (auto simp: window_rel_def new_message_auditor_def last_of_def)
qed

theorem audit_keeps_recent_witness:
  "length (mu_logs (fold audit_step [Attempt [] sample_message True None, Attempt [] sample_message True None,
      Delivery ''m'' True None] (new_message_auditor 1))) \<le> 1"
  using audit_keeps_recent[of 1 "[Attempt [] sample_message True None, Attempt [] sample_message True None,
      Delivery ''m'' True None]"] by linarith

text \<open>A limit of zero answers everything instead of nothing.\<close>

lemma limit_zero_answers_all: "get_logs None None 0 a = mu_logs a"
  by (simp add: get_logs_def last_slice_def)

end
