(* ===== verification/Runtime_Binding.thy ===== *)
theory Runtime_Binding
  imports Py_Compare State_Machine
begin

section \<open>Hosts of external agents (\<open>project_execution/external_runtime_service.py\<close>, first half)\<close>

text \<open>
  An external agent runs on a host of its own. A user draws a one-time install code; the host
  redeems it for a machine token, which binds the host to the agent, and then sends heartbeats until
  it unregisters. The rows of the agents, install tokens, bindings and profiles are a record; the
  columns no modelled code reads are left out. \<open>hashlib.sha256\<close> is the argument \<open>sha\<close>, a secret
  drawn by \<open>secrets.token_urlsafe\<close> and the id of a new row are arguments, and a request reads the
  clock once. A request is one transaction (\<open>api_gateway/routers/external_runtime.py\<close>): an exception
  rolls its changes back. A host's request authenticates in a transaction of its own first, so its
  principal may be outdated when the request proper runs.
\<close>

definition CURRENT_EXTERNAL_RUNTIME_VERSION :: string where
  "CURRENT_EXTERNAL_RUNTIME_VERSION = ''0.2.0''"

definition EXTERNAL_RUNTIME_OFFLINE_SECONDS :: int where
  "EXTERNAL_RUNTIME_OFFLINE_SECONDS = 90"

definition EXTERNAL_INSTALL_CODE_TTL_MINUTES :: int where
  "EXTERNAL_INSTALL_CODE_TTL_MINUTES = 15"

definition SUPPORTED_EXTERNAL_TARGETS :: "(string \<times> string list) list" where
  "SUPPORTED_EXTERNAL_TARGETS =
     [(''linux'', [''amd64'', ''arm64'']), (''darwin'', [''amd64'', ''arm64'']), (''windows'', [''amd64''])]"

definition EXTERNAL_RUNTIME_TYPES :: "string list" where
  "EXTERNAL_RUNTIME_TYPES = [''external_worktree'', ''external_same_dir'', ''remote_session'']"

datatype external_error =
    ExternalRuntimeUnavailableError string
  | ExternalRuntimeBindingRevokedError
  | ExternalRuntimeTokenError
  | ExternalRuntimeInstallCodeError string
  | ExternalRuntimeConflictError
  | ExternalRuntimePlatformError
  | ExternalRuntimeNoDispatchError
  | ExternalHTTPException int string

subsection \<open>Text and versions\<close>

definition opt_text :: "string option \<Rightarrow> string" where
  "opt_text v = (case v of None \<Rightarrow> [] | Some s \<Rightarrow> s)"

text \<open>\<open>s or None\<close> on a string.\<close>

definition text_or_none :: "string \<Rightarrow> string option" where
  "text_or_none s = (if s = [] then None else Some s)"

text \<open>The leading chunks that are numbers.\<close>

fun version_parts :: "string list \<Rightarrow> int list" where
  "version_parts [] = []"
| "version_parts (chunk # chunks) =
     (case py_int10 chunk of None \<Rightarrow> [] | Some i \<Rightarrow> i # version_parts chunks)"

definition parse_version :: "string option \<Rightarrow> int list" where
  "parse_version value =
     (let raw = py_strip (opt_text value) in if raw = [] then [] else version_parts (py_split CHR ''.'' raw))"

definition is_version_less :: "string option \<Rightarrow> string \<Rightarrow> bool" where
  "is_version_less value baseline =
     (let parsed_value = parse_version value; parsed_baseline = parse_version (Some baseline)
      in if parsed_value = [] then True else parsed_value < parsed_baseline)"

definition is_external_runtime_type :: "string option \<Rightarrow> bool" where
  "is_external_runtime_type runtime_type \<longleftrightarrow> py_strip (opt_text runtime_type) \<in> set EXTERNAL_RUNTIME_TYPES"

definition validate_target_os :: "string \<Rightarrow> external_error + string" where
  "validate_target_os target_os =
     (let normalized = norm_str (Some target_os)
      in if normalized \<notin> set (dict_keys SUPPORTED_EXTERNAL_TARGETS) then Inl ExternalRuntimePlatformError
         else Inr normalized)"

definition is_runtime_compatible :: "string option \<Rightarrow> bool" where
  "is_runtime_compatible current_version \<longleftrightarrow>
     py_strip (opt_text current_version) = CURRENT_EXTERNAL_RUNTIME_VERSION"

definition build_compatibility_message :: "string option \<Rightarrow> string option" where
  "build_compatibility_message current_version =
     (if is_runtime_compatible current_version then None
      else if py_strip (opt_text current_version) = [] then
        Some ''Runtime Host must be reinstalled to enable native remote execution.''
      else Some (''Runtime Host upgrade required for native remote execution (current: ''
        @ opt_text current_version @ '', required: '' @ CURRENT_EXTERNAL_RUNTIME_VERSION @ '').''))"

subsection \<open>The rows\<close>

record install_token =
  it_token_id :: uuid
  it_agent_id :: uuid
  it_token_hash :: string
  it_token_prefix :: string
  it_status :: string
  it_expires_at :: timestamp
  it_used_at :: "timestamp option"
  it_created_by_user_id :: uuid
  it_created_at :: timestamp

record host_binding =
  hb_binding_id :: uuid
  hb_agent_id :: uuid
  hb_host_name :: "string option"
  hb_host_os :: "string option"
  hb_host_arch :: "string option"
  hb_host_fingerprint :: "string option"
  hb_machine_token_hash :: string
  hb_machine_token_prefix :: string
  hb_status :: string
  hb_current_version :: "string option"
  hb_last_seen_at :: "timestamp option"
  hb_bound_at :: timestamp
  hb_revoked_at :: "timestamp option"
  hb_last_error_message :: "string option"
  hb_binding_metadata :: "(string, pyval) dict"

record runtime_profile =
  xp_agent_id :: uuid
  xp_path_allowlist :: "string list"
  xp_install_channel :: string
  xp_desired_version :: string

record host_db =
  hd_agents :: "(uuid, string option) dict"
  hd_tokens :: "install_token list"
  hd_bindings :: "host_binding list"
  hd_profiles :: "runtime_profile list"

definition put_token :: "install_token \<Rightarrow> host_db \<Rightarrow> host_db" where
  "put_token t db = db\<lparr>hd_tokens := map (\<lambda>x. if it_token_id x = it_token_id t then t else x) (hd_tokens db)\<rparr>"

definition put_binding :: "host_binding \<Rightarrow> host_db \<Rightarrow> host_db" where
  "put_binding b db =
     db\<lparr>hd_bindings := map (\<lambda>x. if hb_binding_id x = hb_binding_id b then b else x) (hd_bindings db)\<rparr>"

definition put_profile :: "runtime_profile \<Rightarrow> host_db \<Rightarrow> host_db" where
  "put_profile p db =
     db\<lparr>hd_profiles := map (\<lambda>x. if xp_agent_id x = xp_agent_id p then p else x) (hd_profiles db)\<rparr>"

text \<open>\<open>with get_db_session() as session\<close>: an exception undoes what was flushed before it.\<close>

definition in_transaction :: "('s \<Rightarrow> ('e + 'a) \<times> 's) \<Rightarrow> 's \<Rightarrow> ('e + 'a) \<times> 's" where
  "in_transaction body s = (case body s of (Inl e, _) \<Rightarrow> (Inl e, s) | (Inr x, s') \<Rightarrow> (Inr x, s'))"

subsection \<open>Profiles and bindings\<close>

definition get_agent_row :: "uuid \<Rightarrow> host_db \<Rightarrow> external_error + string option" where
  "get_agent_row agent_id db =
     (case dict_get (hd_agents db) agent_id of
        None \<Rightarrow> Inl (ExternalHTTPException 404 ''Agent not found'')
      | Some pref \<Rightarrow> Inr pref)"

definition get_profile :: "uuid \<Rightarrow> host_db \<Rightarrow> runtime_profile option" where
  "get_profile agent_id db = find (\<lambda>p. xp_agent_id p = agent_id) (hd_profiles db)"

definition get_or_create_profile :: "uuid \<Rightarrow> host_db \<Rightarrow> runtime_profile \<times> host_db" where
  "get_or_create_profile agent_id db =
     (case get_profile agent_id db of
        Some p \<Rightarrow>
          if is_version_less (Some (xp_desired_version p)) CURRENT_EXTERNAL_RUNTIME_VERSION
          then (let p' = p\<lparr>xp_desired_version := CURRENT_EXTERNAL_RUNTIME_VERSION\<rparr> in (p', put_profile p' db))
          else (p, db)
      | None \<Rightarrow>
          (let p = \<lparr>xp_agent_id = agent_id, xp_path_allowlist = [], xp_install_channel = ''stable'',
                    xp_desired_version = CURRENT_EXTERNAL_RUNTIME_VERSION\<rparr>
           in (p, db\<lparr>hd_profiles := hd_profiles db @ [p]\<rparr>)))"

definition update_profile ::
    "uuid \<Rightarrow> string list option \<Rightarrow> string option \<Rightarrow> string option \<Rightarrow> host_db \<Rightarrow> runtime_profile \<times> host_db" where
  "update_profile agent_id path_allowlist install_channel desired_version db =
     (case get_or_create_profile agent_id db of
        (p, db1) \<Rightarrow>
          (let p1 = (case path_allowlist of None \<Rightarrow> p | Some xs \<Rightarrow> p\<lparr>xp_path_allowlist := xs\<rparr>);
               p2 = (case install_channel of None \<Rightarrow> p1
                     | Some c \<Rightarrow> p1\<lparr>xp_install_channel := if c = [] then ''stable'' else c\<rparr>);
               p3 = (case desired_version of None \<Rightarrow> p2
                     | Some v \<Rightarrow> p2\<lparr>xp_desired_version := if v = [] then CURRENT_EXTERNAL_RUNTIME_VERSION else v\<rparr>)
           in (p3, put_profile p3 db1)))"

definition get_active_binding :: "uuid \<Rightarrow> host_db \<Rightarrow> host_binding option" where
  "get_active_binding agent_id db =
     max_by hb_bound_at (filter (\<lambda>b. hb_agent_id b = agent_id \<and> hb_revoked_at b = None) (hd_bindings db))"

definition get_latest_binding :: "uuid \<Rightarrow> host_db \<Rightarrow> host_binding option" where
  "get_latest_binding agent_id db =
     max_by hb_bound_at (filter (\<lambda>b. hb_agent_id b = agent_id) (hd_bindings db))"

definition get_binding_by_machine_token ::
    "(string \<Rightarrow> string) \<Rightarrow> string \<Rightarrow> host_db \<Rightarrow> external_error + host_binding" where
  "get_binding_by_machine_token sha raw_token db =
     (case max_by hb_bound_at (filter (\<lambda>b. hb_machine_token_hash b = sha raw_token) (hd_bindings db)) of
        None \<Rightarrow> Inl ExternalRuntimeTokenError
      | Some b \<Rightarrow> if hb_revoked_at b \<noteq> None then Inl ExternalRuntimeBindingRevokedError else Inr b)"

subsection \<open>The state of a host\<close>

record runtime_state =
  rs_status :: string
  rs_bound :: bool
  rs_available_for_conversation :: bool
  rs_available_for_execution :: bool
  rs_host_name :: "string option"
  rs_host_os :: "string option"
  rs_host_arch :: "string option"
  rs_current_version :: "string option"
  rs_desired_version :: string
  rs_runtime_compatible :: bool
  rs_compatibility_message :: "string option"
  rs_last_seen_at :: "timestamp option"
  rs_bound_at :: "timestamp option"
  rs_last_error_message :: "string option"
  rs_update_available :: bool
  rs_local_status_url :: "string option"
  rs_local_status_port :: "int option"
  rs_last_dispatch_action :: "string option"
  rs_last_dispatch_status :: "string option"
  rs_last_dispatch_error_message :: "string option"

text \<open>\<open>int(value)\<close> on a value of a JSON column; \<open>TypeError\<close> and \<open>ValueError\<close> are \<open>None\<close>.\<close>

fun py_int_of :: "pyval \<Rightarrow> int option" where
  "py_int_of (PBool b) = Some (if b then 1 else 0)"
| "py_int_of (PInt i) = Some i"
| "py_int_of (PFloat x) = Some (if x < 0 then \<lceil>x\<rceil> else \<lfloor>x\<rfloor>)"
| "py_int_of (PStr s) = py_int10 s"
| "py_int_of _ = None"

text \<open>\<open>str(metadata.get(key) or "").strip() or None\<close>; \<open>txt\<close> is \<open>str\<close> on containers and floats.\<close>

definition metadata_text :: "(pyval \<Rightarrow> string) \<Rightarrow> (string, pyval) dict \<Rightarrow> string \<Rightarrow> string option" where
  "metadata_text txt md key =
     (case dict_get md key of
        None \<Rightarrow> None
      | Some v \<Rightarrow> text_or_none (py_strip (if py_truthy v then py_text txt v else [])))"

definition local_status_url :: "(pyval \<Rightarrow> string) \<Rightarrow> (string, pyval) dict \<Rightarrow> string option" where
  "local_status_url txt md =
     (case dict_get md ''local_status_url'' of
        None \<Rightarrow> None
      | Some v \<Rightarrow> if v = PNone then None else text_or_none (py_strip (py_text txt v)))"

definition local_status_port :: "(string, pyval) dict \<Rightarrow> int option" where
  "local_status_port md = (case dict_get md ''local_status_port'' of None \<Rightarrow> None | Some v \<Rightarrow> py_int_of v)"

definition effective_status :: "timestamp \<Rightarrow> host_binding \<Rightarrow> string" where
  "effective_status now b =
     (let s = norm_str (Some (if hb_status b = [] then ''offline'' else hb_status b));
          s = (if s = [] then ''offline'' else s);
          s = (if s = ''error'' then s
               else (case hb_last_seen_at b of
                       None \<Rightarrow> ''offline''
                     | Some seen \<Rightarrow>
                         if now - seen > usec EXTERNAL_RUNTIME_OFFLINE_SECONDS then ''offline'' else ''online''))
      in if s = ''online'' \<and> \<not> is_runtime_compatible (hb_current_version b) then ''upgrade_required'' else s)"

definition uninstalled_state :: "string \<Rightarrow> runtime_state" where
  "uninstalled_state desired =
     \<lparr>rs_status = ''uninstalled'', rs_bound = False, rs_available_for_conversation = False,
      rs_available_for_execution = False, rs_host_name = None, rs_host_os = None, rs_host_arch = None,
      rs_current_version = None, rs_desired_version = desired, rs_runtime_compatible = False,
      rs_compatibility_message = Some ''Install Runtime Host to enable native remote execution.'',
      rs_last_seen_at = None, rs_bound_at = None, rs_last_error_message = None, rs_update_available = False,
      rs_local_status_url = None, rs_local_status_port = None, rs_last_dispatch_action = None,
      rs_last_dispatch_status = None, rs_last_dispatch_error_message = None\<rparr>"

definition bound_state :: "(pyval \<Rightarrow> string) \<Rightarrow> timestamp \<Rightarrow> string \<Rightarrow> host_binding \<Rightarrow> runtime_state" where
  "bound_state txt now desired b =
     (let st = effective_status now b;
          compatible = is_runtime_compatible (hb_current_version b);
          message = build_compatibility_message (hb_current_version b);
          md = hb_binding_metadata b
      in \<lparr>rs_status = st, rs_bound = True,
          rs_available_for_conversation = (st = ''online'' \<and> compatible),
          rs_available_for_execution = (st = ''online'' \<and> compatible),
          rs_host_name = hb_host_name b, rs_host_os = hb_host_os b, rs_host_arch = hb_host_arch b,
          rs_current_version = hb_current_version b, rs_desired_version = desired,
          rs_runtime_compatible = compatible, rs_compatibility_message = message,
          rs_last_seen_at = hb_last_seen_at b, rs_bound_at = Some (hb_bound_at b),
          rs_last_error_message = (if st = ''upgrade_required'' then str_or (hb_last_error_message b) message
                                   else hb_last_error_message b),
          rs_update_available = (opt_text (hb_current_version b) \<noteq> [] \<and> desired \<noteq> []
                                 \<and> is_version_less (hb_current_version b) desired),
          rs_local_status_url = local_status_url txt md, rs_local_status_port = local_status_port md,
          rs_last_dispatch_action = metadata_text txt md ''last_dispatch_action'',
          rs_last_dispatch_status = metadata_text txt md ''last_dispatch_status'',
          rs_last_dispatch_error_message = metadata_text txt md ''last_dispatch_error_message''\<rparr>)"

definition summarize_state ::
    "(pyval \<Rightarrow> string) \<Rightarrow> timestamp \<Rightarrow> uuid \<Rightarrow> string option \<Rightarrow> host_db \<Rightarrow> runtime_state option" where
  "summarize_state txt now agent_id runtime_preference db =
     (if \<not> is_external_runtime_type runtime_preference then None
      else
        let desired = (case get_profile agent_id db of None \<Rightarrow> CURRENT_EXTERNAL_RUNTIME_VERSION
                       | Some p \<Rightarrow> xp_desired_version p)
        in (case get_active_binding agent_id db of
              None \<Rightarrow> Some (uninstalled_state desired)
            | Some b \<Rightarrow> Some (bound_state txt now desired b)))"

definition assert_agent_online ::
    "(pyval \<Rightarrow> string) \<Rightarrow> timestamp \<Rightarrow> uuid \<Rightarrow> string option \<Rightarrow> string \<Rightarrow> host_db
      \<Rightarrow> external_error + runtime_state option" where
  "assert_agent_online txt now agent_id runtime_preference error_detail db =
     (case summarize_state txt now agent_id runtime_preference db of
        None \<Rightarrow> Inr None
      | Some st \<Rightarrow>
          if rs_available_for_execution st then Inr (Some st)
          else if \<not> rs_runtime_compatible st
          then Inl (ExternalRuntimeUnavailableError ''external_agent_upgrade_required'')
          else Inl (ExternalRuntimeUnavailableError error_detail))"

subsection \<open>Install codes\<close>

definition invalidate_install_tokens :: "uuid \<Rightarrow> host_db \<Rightarrow> host_db" where
  "invalidate_install_tokens agent_id db =
     db\<lparr>hd_tokens := map (\<lambda>t. if it_agent_id t = agent_id \<and> it_status t = ''active''
                            then t\<lparr>it_status := ''revoked''\<rparr> else t) (hd_tokens db)\<rparr>"

text \<open>\<open>raw_token\<close> is the code with its prefix \<open>lxei_\<close>, \<open>token_id\<close> the id of its row.\<close>

definition create_install_token ::
    "(string \<Rightarrow> string) \<Rightarrow> timestamp \<Rightarrow> timestamp \<Rightarrow> uuid \<Rightarrow> string \<Rightarrow> uuid \<Rightarrow> uuid \<Rightarrow> host_db
      \<Rightarrow> (external_error + install_token) \<times> host_db" where
  "create_install_token sha now db_now token_id raw_token agent_id user_id db =
     (if get_active_binding agent_id db \<noteq> None then (Inl ExternalRuntimeConflictError, db)
      else
        let row = \<lparr>it_token_id = token_id, it_agent_id = agent_id, it_token_hash = sha raw_token,
              it_token_prefix = take 16 raw_token, it_status = ''active'',
              it_expires_at = now + usec (60 * EXTERNAL_INSTALL_CODE_TTL_MINUTES), it_used_at = None,
              it_created_by_user_id = user_id, it_created_at = db_now\<rparr>;
            db1 = invalidate_install_tokens agent_id db
        in (Inr row, db1\<lparr>hd_tokens := hd_tokens db1 @ [row]\<rparr>))"

definition find_install_token :: "(string \<Rightarrow> string) \<Rightarrow> uuid \<Rightarrow> string \<Rightarrow> host_db \<Rightarrow> install_token option" where
  "find_install_token sha agent_id raw_token db =
     max_by it_created_at
       (filter (\<lambda>t. it_agent_id t = agent_id \<and> it_token_hash t = sha raw_token) (hd_tokens db))"

definition consume_install_token ::
    "(string \<Rightarrow> string) \<Rightarrow> timestamp \<Rightarrow> uuid \<Rightarrow> string \<Rightarrow> host_db \<Rightarrow> (external_error + install_token) \<times> host_db" where
  "consume_install_token sha now agent_id raw_token db =
     (case find_install_token sha agent_id raw_token db of
        None \<Rightarrow> (Inl (ExternalRuntimeInstallCodeError ''external_agent_install_code_invalid''), db)
      | Some row \<Rightarrow>
          if it_status row \<noteq> ''active''
          then (Inl (ExternalRuntimeInstallCodeError ''external_agent_install_code_invalid''), db)
          else if it_expires_at row \<le> now
          then (Inl (ExternalRuntimeInstallCodeError ''external_agent_install_code_expired''),
                put_token (row\<lparr>it_status := ''expired''\<rparr>) db)
          else (let row' = row\<lparr>it_status := ''used'', it_used_at := Some now\<rparr> in (Inr row', put_token row' db)))"

text \<open>The commands a user runs on the host; \<open>sq\<close> and \<open>dq\<close> are the two quotation marks.\<close>

definition sq :: string where "sq = [CHR 39]"

definition dq :: string where "dq = [CHR 34]"

definition build_install_command :: "uuid \<Rightarrow> string \<Rightarrow> string \<Rightarrow> string \<Rightarrow> external_error + string" where
  "build_install_command agent_id target_os code base_url =
     (case validate_target_os target_os of
        Inl e \<Rightarrow> Inl e
      | Inr target \<Rightarrow>
          if target = ''windows'' then
            Inr (''powershell -NoProfile -ExecutionPolicy Bypass -Command '' @ dq @ ''iwr '' @ sq @ base_url
              @ ''/api/v1/agents/'' @ uuid_str agent_id @ ''/external-runtime/install.ps1?target=windows&code=''
              @ code @ sq @ '' -UseBasicParsing | iex'' @ dq)
          else
            Inr (''curl -fsSL '' @ sq @ base_url @ ''/api/v1/agents/'' @ uuid_str agent_id
              @ ''/external-runtime/install.sh?target='' @ target @ ''&code='' @ code @ sq @ '' | bash''))"

definition build_update_command :: "uuid \<Rightarrow> string \<Rightarrow> string \<Rightarrow> external_error + string" where
  "build_update_command agent_id target_os base_url =
     (case validate_target_os target_os of
        Inl e \<Rightarrow> Inl e
      | Inr target \<Rightarrow>
          if target = ''windows'' then
            Inr (''powershell -NoProfile -ExecutionPolicy Bypass -Command '' @ dq @ ''iwr '' @ sq @ base_url
              @ ''/api/v1/agents/'' @ uuid_str agent_id @ ''/external-runtime/update.ps1?target=windows''
              @ sq @ '' -UseBasicParsing | iex'' @ dq)
          else
            Inr (''curl -fsSL '' @ sq @ base_url @ ''/api/v1/agents/'' @ uuid_str agent_id
              @ ''/external-runtime/update.sh?target='' @ target @ sq @ '' | bash''))"

definition build_uninstall_command :: "uuid \<Rightarrow> string \<Rightarrow> string \<Rightarrow> external_error + string" where
  "build_uninstall_command agent_id target_os base_url =
     (case validate_target_os target_os of
        Inl e \<Rightarrow> Inl e
      | Inr target \<Rightarrow>
          if target = ''windows'' then
            Inr (''powershell -NoProfile -ExecutionPolicy Bypass -Command '' @ dq @ ''iwr '' @ sq @ base_url
              @ ''/api/v1/agents/'' @ uuid_str agent_id @ ''/external-runtime/uninstall.ps1?target=windows''
              @ sq @ '' -UseBasicParsing | iex'' @ dq)
          else
            Inr (''curl -fsSL '' @ sq @ base_url @ ''/api/v1/agents/'' @ uuid_str agent_id
              @ ''/external-runtime/uninstall.sh?target='' @ target @ sq @ '' | bash''))"

subsection \<open>Binding, heartbeat, unregistering\<close>

record host_report =
  hr_host_name :: "string option"
  hr_host_os :: "string option"
  hr_host_arch :: "string option"
  hr_host_fingerprint :: string
  hr_current_version :: "string option"
  hr_metadata :: "(string, pyval) dict"

definition bound_to :: "(string \<Rightarrow> string) \<Rightarrow> timestamp \<Rightarrow> string \<Rightarrow> host_report \<Rightarrow> host_binding \<Rightarrow> host_binding" where
  "bound_to sha now raw_machine_token h b =
     b\<lparr>hb_host_name := text_or_none (py_strip (opt_text (hr_host_name h))),
       hb_host_os := text_or_none (norm_str (hr_host_os h)),
       hb_host_arch := text_or_none (py_strip (opt_text (hr_host_arch h))),
       hb_host_fingerprint := text_or_none (py_strip (hr_host_fingerprint h)),
       hb_machine_token_hash := sha raw_machine_token,
       hb_machine_token_prefix := take 16 raw_machine_token,
       hb_status := ''offline'',
       hb_current_version := str_or (hr_current_version h) (Some CURRENT_EXTERNAL_RUNTIME_VERSION),
       hb_last_seen_at := None, hb_bound_at := now, hb_revoked_at := None, hb_last_error_message := None,
       hb_binding_metadata := hr_metadata h\<rparr>"

definition blank_binding :: "uuid \<Rightarrow> uuid \<Rightarrow> host_binding" where
  "blank_binding binding_id agent_id =
     \<lparr>hb_binding_id = binding_id, hb_agent_id = agent_id, hb_host_name = None, hb_host_os = None,
      hb_host_arch = None, hb_host_fingerprint = None, hb_machine_token_hash = [], hb_machine_token_prefix = [],
      hb_status = ''offline'', hb_current_version = None, hb_last_seen_at = None, hb_bound_at = 0,
      hb_revoked_at = None, hb_last_error_message = None, hb_binding_metadata = []\<rparr>"

definition bootstrap_binding ::
    "(string \<Rightarrow> string) \<Rightarrow> timestamp \<Rightarrow> uuid \<Rightarrow> string \<Rightarrow> uuid \<Rightarrow> string \<Rightarrow> host_report \<Rightarrow> host_db
      \<Rightarrow> (external_error + host_binding \<times> runtime_profile) \<times> host_db" where
  "bootstrap_binding sha now new_id raw_machine_token agent_id install_code h db =
     (if get_active_binding agent_id db \<noteq> None then (Inl ExternalRuntimeConflictError, db)
      else (case consume_install_token sha now agent_id install_code db of
              (Inl e, db1) \<Rightarrow> (Inl e, db1)
            | (Inr row, db1) \<Rightarrow>
                (case get_latest_binding agent_id db1 of
                   None \<Rightarrow>
                     (let b = bound_to sha now raw_machine_token h (blank_binding new_id agent_id);
                          (p, db2) = get_or_create_profile agent_id (db1\<lparr>hd_bindings := hd_bindings db1 @ [b]\<rparr>)
                      in (Inr (b, p), db2))
                 | Some b0 \<Rightarrow>
                     (let b = bound_to sha now raw_machine_token h b0;
                          (p, db2) = get_or_create_profile agent_id (put_binding b db1)
                      in (Inr (b, p), db2)))))"

definition revoke_binding :: "timestamp \<Rightarrow> string \<Rightarrow> host_binding \<Rightarrow> host_db \<Rightarrow> host_binding \<times> host_db" where
  "revoke_binding now reason b db =
     (let b' = b\<lparr>hb_status := ''revoked'', hb_revoked_at := Some now, hb_last_error_message := Some reason\<rparr>
      in (b', put_binding b' db))"

definition unbind_agent :: "timestamp \<Rightarrow> uuid \<Rightarrow> host_db \<Rightarrow> host_db" where
  "unbind_agent now agent_id db =
     (case get_active_binding agent_id db of
        None \<Rightarrow> db | Some b \<Rightarrow> snd (revoke_binding now ''Binding revoked'' b db))"

text \<open>\<open>f(str(new or old or "").strip()) or old\<close>.\<close>

definition text_or_old :: "(string \<Rightarrow> string) \<Rightarrow> string option \<Rightarrow> string option \<Rightarrow> string option" where
  "text_or_old f new old = (let s = f (py_strip (opt_text (str_or new old))) in if s = [] then old else Some s)"

definition merge_dict :: "(string, pyval) dict \<Rightarrow> (string, pyval) dict \<Rightarrow> (string, pyval) dict" where
  "merge_dict a b = fold (\<lambda>(k, v). dict_set k v) b a"

definition heartbeat ::
    "timestamp \<Rightarrow> string option \<Rightarrow> string option \<Rightarrow> host_report \<Rightarrow> host_binding \<Rightarrow> host_db
      \<Rightarrow> (external_error + host_binding) \<times> host_db" where
  "heartbeat now status_value last_error_message h b db =
     (let fp = py_strip (hr_host_fingerprint h); own = opt_text (hb_host_fingerprint b)
      in if own \<noteq> [] \<and> fp \<noteq> [] \<and> own \<noteq> fp
         then (Inl ExternalRuntimeBindingRevokedError,
               put_binding (b\<lparr>hb_status := ''error'', hb_last_error_message := Some ''Host fingerprint mismatch''\<rparr>) db)
         else
           let st = norm_str (str_or status_value (Some ''online''));
               st' = (if st = ''error'' then ''error'' else ''online'');
               b' = b\<lparr>hb_host_fingerprint := (if fp \<noteq> [] \<and> own = [] then Some fp else hb_host_fingerprint b),
                      hb_host_name := text_or_old id (hr_host_name h) (hb_host_name b),
                      hb_host_os := text_or_old py_lower (hr_host_os h) (hb_host_os b),
                      hb_host_arch := text_or_old id (hr_host_arch h) (hb_host_arch b),
                      hb_current_version := str_or (hr_current_version h) (hb_current_version b),
                      hb_last_seen_at := Some now, hb_status := st',
                      hb_last_error_message := (if st' = ''error'' then last_error_message else None),
                      hb_binding_metadata := merge_dict (hb_binding_metadata b) (hr_metadata h)\<rparr>
           in (Inr b', put_binding b' db))"

subsection \<open>Requests (\<open>api_gateway/routers/external_runtime.py\<close>)\<close>

record principal =
  pl_binding_id :: uuid
  pl_agent_id :: uuid

definition find_binding :: "uuid \<Rightarrow> host_db \<Rightarrow> host_binding option" where
  "find_binding binding_id db = find (\<lambda>b. hb_binding_id b = binding_id) (hd_bindings db)"

text \<open>\<open>get_current_external_agent_binding\<close>: both errors answer 401 with their own detail.\<close>

definition authenticate_host :: "(string \<Rightarrow> string) \<Rightarrow> string option \<Rightarrow> host_db \<Rightarrow> external_error + principal" where
  "authenticate_host sha credentials db =
     (case credentials of
        None \<Rightarrow> Inl (ExternalHTTPException 401 ''external_agent_machine_token_invalid'')
      | Some token \<Rightarrow>
          if token = [] then Inl (ExternalHTTPException 401 ''external_agent_machine_token_invalid'')
          else (case get_binding_by_machine_token sha token db of
                  Inl ExternalRuntimeBindingRevokedError \<Rightarrow>
                    Inl (ExternalHTTPException 401 ''external_agent_binding_revoked'')
                | Inl _ \<Rightarrow> Inl (ExternalHTTPException 401 ''external_agent_machine_token_invalid'')
                | Inr b \<Rightarrow> Inr \<lparr>pl_binding_id = hb_binding_id b, pl_agent_id = hb_agent_id b\<rparr>))"

text \<open>The agent was loaded, and found to be an external one, before these two requests draw a code.\<close>

definition request_install_command ::
    "(string \<Rightarrow> string) \<Rightarrow> timestamp \<Rightarrow> timestamp \<Rightarrow> uuid \<Rightarrow> string \<Rightarrow> uuid \<Rightarrow> uuid \<Rightarrow> string \<Rightarrow> string \<Rightarrow> host_db
      \<Rightarrow> (external_error + string) \<times> host_db" where
  "request_install_command sha now db_now token_id raw_token agent_id user_id target_os base_url =
     in_transaction (\<lambda>db.
       (case create_install_token sha now db_now token_id raw_token agent_id user_id db of
          (Inl e, db1) \<Rightarrow> (Inl e, db1)
        | (Inr row, db1) \<Rightarrow> (build_install_command agent_id target_os raw_token base_url, db1)))"

definition request_bootstrap ::
    "(string \<Rightarrow> string) \<Rightarrow> timestamp \<Rightarrow> uuid \<Rightarrow> string \<Rightarrow> uuid \<Rightarrow> string \<Rightarrow> host_report \<Rightarrow> host_db
      \<Rightarrow> (external_error + host_binding) \<times> host_db" where
  "request_bootstrap sha now new_id raw_machine_token agent_id install_code h =
     in_transaction (\<lambda>db.
       (case get_agent_row agent_id db of
          Inl e \<Rightarrow> (Inl e, db)
        | Inr pref \<Rightarrow>
            if \<not> is_external_runtime_type pref
            then (Inl (ExternalHTTPException 400 ''Agent is not an external runtime agent''), db)
            else (case bootstrap_binding sha now new_id raw_machine_token agent_id install_code h db of
                    (Inl e, db1) \<Rightarrow> (Inl e, db1)
                  | (Inr (b, p), db1) \<Rightarrow> heartbeat now (Some ''online'') None h b db1)))"

definition request_heartbeat ::
    "timestamp \<Rightarrow> principal \<Rightarrow> string option \<Rightarrow> string option \<Rightarrow> host_report \<Rightarrow> host_db
      \<Rightarrow> (external_error + host_binding) \<times> host_db" where
  "request_heartbeat now pl status_value last_error h =
     in_transaction (\<lambda>db.
       (case find_binding (pl_binding_id pl) db of
          None \<Rightarrow> (Inl (ExternalHTTPException 401 ''external_agent_machine_token_invalid''), db)
        | Some b \<Rightarrow> heartbeat now status_value last_error h b db))"

definition request_self_unregister ::
    "timestamp \<Rightarrow> principal \<Rightarrow> host_db \<Rightarrow> (external_error + host_binding) \<times> host_db" where
  "request_self_unregister now pl =
     in_transaction (\<lambda>db.
       (case find_binding (pl_binding_id pl) db of
          None \<Rightarrow> (Inl (ExternalHTTPException 401 ''external_agent_machine_token_invalid''), db)
        | Some b \<Rightarrow> (case revoke_binding now ''Runtime uninstalled'' b db of (b', db') \<Rightarrow> (Inr b', db'))))"

subsection \<open>Requests in any order\<close>

text \<open>
  A label is a request and whether it succeeded. The secrets and ids that a request draws are not in
  the tables yet; a host's request carries a principal that authenticated at some earlier time.
\<close>

datatype host_call =
    InstallCommand timestamp timestamp uuid string uuid uuid string string
  | Bootstrap timestamp uuid string uuid string host_report
  | Authenticate "string option"
  | Heartbeat timestamp principal "string option" "string option" host_report
  | SelfUnregister timestamp principal
  | UpdateProfile uuid "string list option" "string option" "string option"
  | Overview uuid

record host_system =
  hs_db :: host_db
  hs_principals :: "principal list"

inductive host_step :: "(string \<Rightarrow> string) \<Rightarrow> host_system \<Rightarrow> host_call \<times> bool \<Rightarrow> host_system \<Rightarrow> bool"
  for sha :: "string \<Rightarrow> string" where
  step_install:
    "request_install_command sha now db_now token_id raw_token agent_id user_id target_os base_url (hs_db s) = (r, db')
     \<Longrightarrow> token_id \<notin> it_token_id ` set (hd_tokens (hs_db s)) \<Longrightarrow> sha raw_token \<notin> it_token_hash ` set (hd_tokens (hs_db s))
     \<Longrightarrow> host_step sha s (InstallCommand now db_now token_id raw_token agent_id user_id target_os base_url, \<not> isl r)
          (s\<lparr>hs_db := db'\<rparr>)"
| step_bootstrap:
    "request_bootstrap sha now new_id raw_token agent_id install_code h (hs_db s) = (r, db')
     \<Longrightarrow> new_id \<notin> hb_binding_id ` set (hd_bindings (hs_db s))
     \<Longrightarrow> sha raw_token \<notin> hb_machine_token_hash ` set (hd_bindings (hs_db s))
     \<Longrightarrow> host_step sha s (Bootstrap now new_id raw_token agent_id install_code h, \<not> isl r) (s\<lparr>hs_db := db'\<rparr>)"
| step_authenticate:
    "authenticate_host sha credentials (hs_db s) = Inr pl
     \<Longrightarrow> host_step sha s (Authenticate credentials, True) (s\<lparr>hs_principals := pl # hs_principals s\<rparr>)"
| step_authenticate_fails:
    "authenticate_host sha credentials (hs_db s) = Inl e \<Longrightarrow> host_step sha s (Authenticate credentials, False) s"
| step_heartbeat:
    "pl \<in> set (hs_principals s) \<Longrightarrow> request_heartbeat now pl status_value last_error h (hs_db s) = (r, db')
     \<Longrightarrow> host_step sha s (Heartbeat now pl status_value last_error h, \<not> isl r)
          (s\<lparr>hs_db := db', hs_principals := remove1 pl (hs_principals s)\<rparr>)"
| step_unregister:
    "pl \<in> set (hs_principals s) \<Longrightarrow> request_self_unregister now pl (hs_db s) = (r, db')
     \<Longrightarrow> host_step sha s (SelfUnregister now pl, \<not> isl r)
          (s\<lparr>hs_db := db', hs_principals := remove1 pl (hs_principals s)\<rparr>)"
| step_profile:
    "host_step sha s (UpdateProfile agent_id allow chan ver, True)
       (s\<lparr>hs_db := snd (update_profile agent_id allow chan ver (hs_db s))\<rparr>)"
| step_overview:
    "host_step sha s (Overview agent_id, True) (s\<lparr>hs_db := snd (get_or_create_profile agent_id (hs_db s))\<rparr>)"

inductive_cases host_stepE: "host_step sha s (c, ok) s'"

definition new_host_system :: "(uuid, string option) dict \<Rightarrow> host_system" where
  "new_host_system agents =
     \<lparr>hs_db = \<lparr>hd_agents = agents, hd_tokens = [], hd_bindings = [], hd_profiles = []\<rparr>, hs_principals = []\<rparr>"

subsection \<open>One row per agent\<close>

lemma filter_unique:
  assumes "distinct (map f xs)" and "x \<in> set xs"
  shows "filter (\<lambda>y. f y = f x \<and> P y) xs = (if P x then [x] else [])"
  using assms by (induction xs) (auto simp: filter_empty_conv, (metis image_eqI)+)

lemma find_unique:
  assumes "distinct (map f xs)" and "x \<in> set xs"
  shows "find (\<lambda>y. f y = f x) xs = Some x"
  using assms by (induction xs) (auto simp: image_iff)

lemma find_Some_in: "find P xs = Some x \<Longrightarrow> x \<in> set xs \<and> P x"
  by (induction xs) (auto split: if_splits)

lemma max_by_single [simp]: "max_by f [x] = Some x"
  by simp

definition binding_of :: "uuid \<Rightarrow> host_db \<Rightarrow> host_binding option" where
  "binding_of a db = find (\<lambda>b. hb_agent_id b = a) (hd_bindings db)"

definition rows_ok :: "host_db \<Rightarrow> bool" where
  "rows_ok db \<longleftrightarrow> distinct (map hb_binding_id (hd_bindings db)) \<and> distinct (map hb_agent_id (hd_bindings db))
     \<and> distinct (map hb_machine_token_hash (hd_bindings db))
     \<and> distinct (map it_token_id (hd_tokens db)) \<and> distinct (map it_token_hash (hd_tokens db))"

lemma find_None_filter: "find P xs = None \<Longrightarrow> filter (\<lambda>x. P x \<and> Q x) xs = []"
  by (induction xs) (auto split: if_splits)

lemma binding_filter:
  assumes "distinct (map hb_agent_id (hd_bindings db))"
  shows "filter (\<lambda>b. hb_agent_id b = a \<and> P b) (hd_bindings db)
       = (case binding_of a db of None \<Rightarrow> [] | Some b \<Rightarrow> if P b then [b] else [])"
proof (cases "binding_of a db")
  case None
  then show ?thesis by (simp add: binding_of_def find_None_filter)
next
  case (Some b)
  then have "b \<in> set (hd_bindings db)" "hb_agent_id b = a" by (auto simp: binding_of_def dest: find_Some_in)
  with Some show ?thesis using filter_unique[OF assms, of b P] by simp
qed

lemma get_active_binding_eq:
  "distinct (map hb_agent_id (hd_bindings db)) \<Longrightarrow>
   get_active_binding a db = (case binding_of a db of None \<Rightarrow> None | Some b \<Rightarrow> if hb_revoked_at b = None then Some b else None)"
  unfolding get_active_binding_def by (subst binding_filter) (auto split: option.splits)

lemma get_latest_binding_eq:
  assumes "distinct (map hb_agent_id (hd_bindings db))"
  shows "get_latest_binding a db = binding_of a db"
  using binding_filter[OF assms, of a "\<lambda>_. True"] unfolding get_latest_binding_def by (simp split: option.splits)

lemma find_agent_row:
  assumes "distinct (map hb_agent_id bs)" and "distinct (map hb_binding_id bs)" and "b0 \<in> set bs"
    and "hb_binding_id b = hb_binding_id b0" and "hb_agent_id b = hb_agent_id b0"
  shows "find (\<lambda>x. hb_agent_id x = a) (map (\<lambda>x. if hb_binding_id x = hb_binding_id b then b else x) bs)
       = (if a = hb_agent_id b then Some b else find (\<lambda>x. hb_agent_id x = a) bs)"
  using assms
proof (induction bs)
  case (Cons c bs)
  show ?case
  proof (cases "c = b0")
    case True
    then have "\<forall>x \<in> set bs. hb_binding_id x \<noteq> hb_binding_id b" using Cons.prems by (auto simp: image_iff)
    then have "map (\<lambda>x. if hb_binding_id x = hb_binding_id b then b else x) bs = bs" by (intro map_idI) auto
    with True Cons.prems show ?thesis by auto
  next
    case False
    then have "b0 \<in> set bs" using Cons.prems by simp
    moreover have "hb_binding_id c \<noteq> hb_binding_id b" "hb_agent_id c \<noteq> hb_agent_id b"
      using Cons.prems \<open>b0 \<in> set bs\<close> by (auto simp: image_iff)
    ultimately show ?thesis using Cons by auto
  qed
qed simp

lemma map_row_keeps:
  assumes "b0 \<in> set bs" and "distinct (map k bs)" and "k b = k b0" and "f b = f b0"
  shows "map f (map (\<lambda>x. if k x = k b then b else x) bs) = map f bs"
proof -
  have "f (if k x = k b then b else x) = f x" if "x \<in> set bs" for x
    using that assms by (metis distinct_map inj_onD)
  then show ?thesis by simp
qed


subsection \<open>What the requests change\<close>

lemma profile_fields [simp]:
  "hd_bindings (snd (get_or_create_profile a db)) = hd_bindings db"
  "hd_tokens (snd (get_or_create_profile a db)) = hd_tokens db"
  "hd_agents (snd (get_or_create_profile a db)) = hd_agents db"
  by (auto simp: get_or_create_profile_def put_profile_def Let_def split: option.splits)

lemma update_profile_fields [simp]:
  "hd_bindings (snd (update_profile a x y z db)) = hd_bindings db"
  "hd_tokens (snd (update_profile a x y z db)) = hd_tokens db"
  by (simp_all add: update_profile_def put_profile_def Let_def case_prod_beta)

lemma in_transaction_Inl: "in_transaction f s = (Inl e, s') \<Longrightarrow> s' = s"
  by (auto simp: in_transaction_def split: prod.splits sum.splits)

lemma in_transaction_Inr: "in_transaction f s = (Inr x, s') \<longleftrightarrow> f s = (Inr x, s')"
  by (auto simp: in_transaction_def split: prod.splits sum.splits)

lemma heartbeat_ok:
  assumes "heartbeat now sv le h b db = (Inr b', db')"
  shows "hb_agent_id b' = hb_agent_id b \<and> hb_binding_id b' = hb_binding_id b
    \<and> hb_machine_token_hash b' = hb_machine_token_hash b \<and> hb_revoked_at b' = hb_revoked_at b
    \<and> db' = put_binding b' db"
  using assms by (auto simp: heartbeat_def Let_def split: if_splits)

lemma consume_ok:
  assumes "consume_install_token sha now a code db = (Inr row, db')"
  obtains t where "find_install_token sha a code db = Some t" "it_status t = ''active''" "now < it_expires_at t"
    "db' = put_token (t\<lparr>it_status := ''used'', it_used_at := Some now\<rparr>) db"
  using assms by (auto simp: consume_install_token_def Let_def split: option.splits if_splits)

lemma put_token_fields [simp]: "hd_bindings (put_token t db) = hd_bindings db"
  by (simp add: put_token_def)

lemma put_binding_fields [simp]: "hd_tokens (put_binding b db) = hd_tokens db"
  by (simp add: put_binding_def)

lemma bound_to_fields [simp]:
  "hb_agent_id (bound_to sha now m h b) = hb_agent_id b"
  "hb_binding_id (bound_to sha now m h b) = hb_binding_id b"
  "hb_machine_token_hash (bound_to sha now m h b) = sha m"
  "hb_revoked_at (bound_to sha now m h b) = None"
  by (simp_all add: bound_to_def)

lemma blank_binding_fields [simp]:
  "hb_agent_id (blank_binding i a) = a" "hb_binding_id (blank_binding i a) = i"
  by (simp_all add: blank_binding_def)

lemma bootstrap_binding_ok:
  assumes "bootstrap_binding sha now i m a code h db = (Inr (b, p), db')"
  obtains t where "get_active_binding a db = None"
    "find_install_token sha a code db = Some t" "it_status t = ''active''" "now < it_expires_at t"
    "hd_tokens db' = map (\<lambda>x. if it_token_id x = it_token_id t then t\<lparr>it_status := ''used'', it_used_at := Some now\<rparr> else x) (hd_tokens db)"
    "b = bound_to sha now m h (case get_latest_binding a db of None \<Rightarrow> blank_binding i a | Some b0 \<Rightarrow> b0)"
    "hd_bindings db' = (case get_latest_binding a db of None \<Rightarrow> hd_bindings db @ [b]
       | Some b0 \<Rightarrow> map (\<lambda>x. if hb_binding_id x = hb_binding_id b then b else x) (hd_bindings db))"
proof -
  obtain row db1 where free: "get_active_binding a db = None"
    and c: "consume_install_token sha now a code db = (Inr row, db1)"
    using assms by (auto simp: bootstrap_binding_def split: if_splits prod.splits sum.splits)
  obtain t where t: "find_install_token sha a code db = Some t" "it_status t = ''active''" "now < it_expires_at t"
    "db1 = put_token (t\<lparr>it_status := ''used'', it_used_at := Some now\<rparr>) db"
    using consume_ok[OF c] by blast
  have latest: "get_latest_binding a db1 = get_latest_binding a db"
    by (simp add: get_latest_binding_def t(4))
  define res where "res = (case get_latest_binding a db of
      None \<Rightarrow> get_or_create_profile a (db1\<lparr>hd_bindings := hd_bindings db1 @ [bound_to sha now m h (blank_binding i a)]\<rparr>)
    | Some b0 \<Rightarrow> get_or_create_profile a (put_binding (bound_to sha now m h b0) db1))"
  have b: "b = bound_to sha now m h (case get_latest_binding a db of None \<Rightarrow> blank_binding i a | Some b0 \<Rightarrow> b0)"
    and db': "db' = snd res"
    using assms free c latest unfolding res_def bootstrap_binding_def
    by (auto simp: Let_def split: option.splits prod.splits)
  show thesis
  proof (rule that[OF free t(1-3) _ b])
    show "hd_tokens db' = map (\<lambda>x. if it_token_id x = it_token_id t then t\<lparr>it_status := ''used'', it_used_at := Some now\<rparr> else x) (hd_tokens db)"
      unfolding db' res_def by (simp add: t(4) put_token_def split: option.splits)
    show "hd_bindings db' = (case get_latest_binding a db of None \<Rightarrow> hd_bindings db @ [b]
       | Some b0 \<Rightarrow> map (\<lambda>x. if hb_binding_id x = hb_binding_id b then b else x) (hd_bindings db))"
      unfolding db' res_def by (simp add: b t(4) put_binding_def split: option.splits)
  qed
qed

definition row_put :: "host_binding \<Rightarrow> host_binding list \<Rightarrow> host_binding list" where
  "row_put b bs = map (\<lambda>x. if hb_binding_id x = hb_binding_id b then b else x) bs"

lemma request_bootstrap_ok:
  assumes "request_bootstrap sha now i m a code h db = (Inr b', db')" and "distinct (map hb_agent_id (hd_bindings db))"
    and "i \<notin> hb_binding_id ` set (hd_bindings db)"
  obtains t where "find_install_token sha a code db = Some t" "it_status t = ''active''" "now < it_expires_at t"
    "hd_tokens db' = map (\<lambda>x. if it_token_id x = it_token_id t then t\<lparr>it_status := ''used'', it_used_at := Some now\<rparr> else x) (hd_tokens db)"
    "get_active_binding a db = None"
    "hb_agent_id b' = a" "hb_machine_token_hash b' = sha m" "hb_revoked_at b' = None"
    "hb_binding_id b' = (case binding_of a db of None \<Rightarrow> i | Some b0 \<Rightarrow> hb_binding_id b0)"
    "hd_bindings db' = (case binding_of a db of None \<Rightarrow> hd_bindings db @ [b'] | Some b0 \<Rightarrow> row_put b' (hd_bindings db))"
proof -
  obtain b p db1 where boot: "bootstrap_binding sha now i m a code h db = (Inr (b, p), db1)"
    and hb: "heartbeat now (Some ''online'') None h b db1 = (Inr b', db')"
    using assms(1) by (auto simp: request_bootstrap_def in_transaction_Inr split: sum.splits if_splits prod.splits)
  note latest = get_latest_binding_eq[OF assms(2), of a]
  from bootstrap_binding_ok[OF boot] obtain t where t:
    "get_active_binding a db = None"
    "find_install_token sha a code db = Some t" "it_status t = ''active''" "now < it_expires_at t"
    "hd_tokens db1 = map (\<lambda>x. if it_token_id x = it_token_id t then t\<lparr>it_status := ''used'', it_used_at := Some now\<rparr> else x) (hd_tokens db)"
    "b = bound_to sha now m h (case get_latest_binding a db of None \<Rightarrow> blank_binding i a | Some b0 \<Rightarrow> b0)"
    "hd_bindings db1 = (case get_latest_binding a db of None \<Rightarrow> hd_bindings db @ [b]
       | Some b0 \<Rightarrow> map (\<lambda>x. if hb_binding_id x = hb_binding_id b then b else x) (hd_bindings db))" .
  from heartbeat_ok[OF hb] have h: "hb_agent_id b' = hb_agent_id b" "hb_binding_id b' = hb_binding_id b"
    "hb_machine_token_hash b' = hb_machine_token_hash b" "hb_revoked_at b' = hb_revoked_at b" "db' = put_binding b' db1"
    by auto
  have owner: "hb_agent_id b0 = a" if "binding_of a db = Some b0" for b0
    using that by (auto simp: binding_of_def dest: find_Some_in)
  have id: "hb_binding_id b' = (case binding_of a db of None \<Rightarrow> i | Some b0 \<Rightarrow> hb_binding_id b0)"
    by (simp add: h t(6) latest split: option.splits)
  have rows: "hd_bindings db' = (case binding_of a db of None \<Rightarrow> hd_bindings db @ [b'] | Some b0 \<Rightarrow> row_put b' (hd_bindings db))"
  proof (cases "binding_of a db")
    case None
    then have "hb_binding_id b' = i" by (simp add: id)
    then have "map (\<lambda>x. if hb_binding_id x = hb_binding_id b' then b' else x) (hd_bindings db) = hd_bindings db"
      using assms(3) by (intro map_idI) (metis image_eqI)
    with None show ?thesis by (simp add: h(2,5) put_binding_def t(7) latest)
  next
    case (Some b0)
    then show ?thesis by (simp add: h(2,5) put_binding_def t(7) latest row_put_def o_def cong: if_cong)
  qed
  show thesis
    by (rule that[OF t(2-4) _ t(1) _ _ _ id rows])
      (simp_all add: h t(5,6) latest owner split: option.splits)
qed


subsection \<open>The credentials of the agents\<close>

lemma row_put_update:
  assumes "distinct (map hb_binding_id bs)" and "b0 \<in> set bs" and "hb_binding_id b = hb_binding_id b0"
  shows "\<exists>j < length bs. bs ! j = b0 \<and> row_put b bs = bs[j := b]"
proof -
  obtain j where j: "j < length bs" "bs ! j = b0" using assms(2) by (auto simp: in_set_conv_nth)
  have "row_put b bs = bs[j := b]"
  proof (rule nth_equalityI)
    fix k assume "k < length (row_put b bs)"
    then have k: "k < length bs" by (simp add: row_put_def)
    then have "hb_binding_id (bs ! k) = hb_binding_id b \<longleftrightarrow> k = j"
      using assms j nth_eq_iff_index_eq[OF assms(1), of k j] by simp
    then show "row_put b bs ! k = bs[j := b] ! k" using k by (auto simp: row_put_def nth_list_update)
  qed (simp add: row_put_def)
  with j show ?thesis by blast
qed

lemma row_put_distinct:
  assumes "distinct (map hb_binding_id bs)" and "b0 \<in> set bs" and "hb_binding_id b = hb_binding_id b0"
    and "distinct (map f bs)" and "f b = f b0 \<or> f b \<notin> f ` set bs"
  shows "distinct (map f (row_put b bs))"
proof -
  obtain j where j: "j < length bs" "bs ! j = b0" "row_put b bs = bs[j := b]"
    using row_put_update[OF assms(1-3)] by blast
  from assms(5) have "distinct ((map f bs)[j := f b])"
  proof
    assume "f b = f b0"
    then have "(map f bs)[j := f b] = map f bs" using j by (metis list_update_id map_update)
    with assms(4) show ?thesis by simp
  next
    assume "f b \<notin> f ` set bs"
    then show ?thesis using assms(4) by (intro distinct_list_update) auto
  qed
  with j(3) show ?thesis by (simp add: map_update)
qed

definition credentials :: "host_db \<Rightarrow> uuid \<Rightarrow> string option" where
  "credentials db a = map_option hb_machine_token_hash (get_active_binding a db)"

definition credential_event ::
    "(string \<Rightarrow> string) \<Rightarrow> host_call \<times> bool \<Rightarrow> (uuid \<Rightarrow> string option) \<Rightarrow> uuid \<Rightarrow> string option" where
  "credential_event sha e c =
     (case e of
        (Bootstrap now i m a code h, True) \<Rightarrow> c(a := Some (sha m))
      | (SelfUnregister now pl, True) \<Rightarrow> c(pl_agent_id pl := None)
      | _ \<Rightarrow> c)"

definition host_inv :: "host_system \<Rightarrow> bool" where
  "host_inv s \<longleftrightarrow> rows_ok (hs_db s)
     \<and> (\<forall>pl \<in> set (hs_principals s). \<exists>b \<in> set (hd_bindings (hs_db s)).
           hb_binding_id b = pl_binding_id pl \<and> hb_agent_id b = pl_agent_id pl)"

lemma credentials_eq:
  "rows_ok db \<Longrightarrow> credentials db a = (case binding_of a db of None \<Rightarrow> None
     | Some b \<Rightarrow> if hb_revoked_at b = None then Some (hb_machine_token_hash b) else None)"
  by (auto simp: credentials_def get_active_binding_eq rows_ok_def split: option.splits)

text \<open>The three ways a request changes the bindings.\<close>

lemma bindings_put:
  assumes "rows_ok db" and "b0 \<in> set (hd_bindings db)"
    and "hb_binding_id b = hb_binding_id b0" and "hb_agent_id b = hb_agent_id b0"
    and "hb_machine_token_hash b = hb_machine_token_hash b0 \<or> hb_machine_token_hash b \<notin> hb_machine_token_hash ` set (hd_bindings db)"
    and "hd_bindings db' = row_put b (hd_bindings db)"
    and "distinct (map it_token_id (hd_tokens db'))" "distinct (map it_token_hash (hd_tokens db'))"
  shows "rows_ok db'"
    and "credentials db' = (credentials db)(hb_agent_id b := if hb_revoked_at b = None then Some (hb_machine_token_hash b) else None)"
    and "x \<in> set (hd_bindings db) \<Longrightarrow> \<exists>y \<in> set (hd_bindings db'). hb_binding_id y = hb_binding_id x \<and> hb_agent_id y = hb_agent_id x"
proof -
  have d: "distinct (map hb_binding_id (hd_bindings db))" "distinct (map hb_agent_id (hd_bindings db))"
    "distinct (map hb_machine_token_hash (hd_bindings db))" using assms(1) by (auto simp: rows_ok_def)
  note put = row_put_distinct[OF d(1) assms(2,3)]
  show ok: "rows_ok db'"
    unfolding rows_ok_def assms(6) using assms(3-5,7,8) by (intro conjI put d) auto
  have "binding_of a db' = (if a = hb_agent_id b then Some b else binding_of a db)" for a
    unfolding binding_of_def assms(6) row_put_def by (rule find_agent_row[OF d(2,1) assms(2-4)])
  then show "credentials db' = (credentials db)(hb_agent_id b := if hb_revoked_at b = None then Some (hb_machine_token_hash b) else None)"
    by (auto simp: fun_eq_iff credentials_eq ok assms(1))
  show "\<exists>y \<in> set (hd_bindings db'). hb_binding_id y = hb_binding_id x \<and> hb_agent_id y = hb_agent_id x"
    if "x \<in> set (hd_bindings db)"
  proof (cases "hb_binding_id x = hb_binding_id b")
    case True
    then have "x = b0" using that assms(2,3) d(1) by (metis distinct_map inj_onD)
    moreover have "b \<in> set (hd_bindings db')" using that True by (force simp: assms(6) row_put_def)
    ultimately show ?thesis using assms(3,4) by metis
  next
    case False
    then have "x \<in> set (hd_bindings db')" using that by (force simp: assms(6) row_put_def)
    then show ?thesis by blast
  qed
qed

lemma bindings_append:
  assumes "rows_ok db" and "binding_of (hb_agent_id b) db = None"
    and "hb_binding_id b \<notin> hb_binding_id ` set (hd_bindings db)"
    and "hb_machine_token_hash b \<notin> hb_machine_token_hash ` set (hd_bindings db)"
    and "hd_bindings db' = hd_bindings db @ [b]"
    and "distinct (map it_token_id (hd_tokens db'))" "distinct (map it_token_hash (hd_tokens db'))"
  shows "rows_ok db'"
    and "credentials db' = (credentials db)(hb_agent_id b := if hb_revoked_at b = None then Some (hb_machine_token_hash b) else None)"
proof -
  have new: "hb_agent_id b \<notin> hb_agent_id ` set (hd_bindings db)"
    using assms(2) by (auto simp: binding_of_def find_None_iff)
  then show ok: "rows_ok db'" using assms by (simp add: rows_ok_def)
  have app: "find P (xs @ [y]) = (case find P xs of None \<Rightarrow> if P y then Some y else None | r \<Rightarrow> r)" for P xs and y :: host_binding
    by (induction xs) auto
  have "binding_of a db' = (if a = hb_agent_id b then Some b else binding_of a db)" for a
    using assms(2) by (auto simp: binding_of_def assms(5) app split: option.splits)
  then show "credentials db' = (credentials db)(hb_agent_id b := if hb_revoked_at b = None then Some (hb_machine_token_hash b) else None)"
    by (auto simp: fun_eq_iff credentials_eq ok assms(1))
qed

lemma bindings_same:
  "hd_bindings db' = hd_bindings db \<Longrightarrow> credentials db' = credentials db"
  by (simp add: fun_eq_iff credentials_def get_active_binding_def)


lemma invalidate_ids:
  "map it_token_id (hd_tokens (invalidate_install_tokens a db)) = map it_token_id (hd_tokens db)"
  "it_token_id ` set (hd_tokens (invalidate_install_tokens a db)) = it_token_id ` set (hd_tokens db)"
proof -
  show "map it_token_id (hd_tokens (invalidate_install_tokens a db)) = map it_token_id (hd_tokens db)"
    by (simp add: invalidate_install_tokens_def)
  then show "it_token_id ` set (hd_tokens (invalidate_install_tokens a db)) = it_token_id ` set (hd_tokens db)"
    by (metis list.set_map)
qed

lemma invalidate_hashes:
  "map it_token_hash (hd_tokens (invalidate_install_tokens a db)) = map it_token_hash (hd_tokens db)"
  "it_token_hash ` set (hd_tokens (invalidate_install_tokens a db)) = it_token_hash ` set (hd_tokens db)"
proof -
  show "map it_token_hash (hd_tokens (invalidate_install_tokens a db)) = map it_token_hash (hd_tokens db)"
    by (simp add: invalidate_install_tokens_def)
  then show "it_token_hash ` set (hd_tokens (invalidate_install_tokens a db)) = it_token_hash ` set (hd_tokens db)"
    by (metis list.set_map)
qed

lemma request_install_cases:
  assumes "request_install_command sha now db_now tid raw a u tos url db = (r, db')"
  shows "(isl r \<and> db' = db) \<or> (\<not> isl r \<and> hd_bindings db' = hd_bindings db
    \<and> hd_tokens db' = hd_tokens (invalidate_install_tokens a db)
        @ [\<lparr>it_token_id = tid, it_agent_id = a, it_token_hash = sha raw, it_token_prefix = take 16 raw,
            it_status = ''active'', it_expires_at = now + usec (60 * EXTERNAL_INSTALL_CODE_TTL_MINUTES),
            it_used_at = None, it_created_by_user_id = u, it_created_at = db_now\<rparr>])"
proof (cases r)
  case (Inl e)
  with assms show ?thesis by (auto simp: request_install_command_def dest: in_transaction_Inl)
next
  case (Inr c)
  with assms show ?thesis
    by (auto simp: request_install_command_def in_transaction_Inr create_install_token_def Let_def
        invalidate_install_tokens_def split: if_splits sum.splits prod.splits)
qed

lemma find_token_in:
  "find_install_token sha a code db = Some t \<Longrightarrow>
   t \<in> set (hd_tokens db) \<and> it_agent_id t = a \<and> it_token_hash t = sha code"
  unfolding find_install_token_def by (auto dest: max_by_in)

lemma request_bootstrap_step:
  assumes "request_bootstrap sha now i m a code h db = (Inr b', db')" and ok: "rows_ok db"
    and "i \<notin> hb_binding_id ` set (hd_bindings db)" and "sha m \<notin> hb_machine_token_hash ` set (hd_bindings db)"
  shows "rows_ok db'" and "credentials db' = (credentials db)(a := Some (sha m))"
    and "x \<in> set (hd_bindings db) \<Longrightarrow> \<exists>y \<in> set (hd_bindings db'). hb_binding_id y = hb_binding_id x \<and> hb_agent_id y = hb_agent_id x"
proof -
  have d: "distinct (map hb_agent_id (hd_bindings db))" using ok by (simp add: rows_ok_def)
  from request_bootstrap_ok[OF assms(1) d assms(3)] obtain t where t:
    "find_install_token sha a code db = Some t" "it_status t = ''active''" "now < it_expires_at t"
    "hd_tokens db' = map (\<lambda>x. if it_token_id x = it_token_id t then t\<lparr>it_status := ''used'', it_used_at := Some now\<rparr> else x) (hd_tokens db)"
    "get_active_binding a db = None"
    "hb_agent_id b' = a" "hb_machine_token_hash b' = sha m" "hb_revoked_at b' = None"
    "hb_binding_id b' = (case binding_of a db of None \<Rightarrow> i | Some b0 \<Rightarrow> hb_binding_id b0)"
    "hd_bindings db' = (case binding_of a db of None \<Rightarrow> hd_bindings db @ [b'] | Some b0 \<Rightarrow> row_put b' (hd_bindings db))" .
  let ?t = "t\<lparr>it_status := ''used'', it_used_at := Some now\<rparr>"
  have tin: "t \<in> set (hd_tokens db)" using find_token_in[OF t(1)] by simp
  have "map it_token_id (hd_tokens db') = map it_token_id (hd_tokens db)"
    and "map it_token_hash (hd_tokens db') = map it_token_hash (hd_tokens db)"
    using map_row_keeps[OF tin, of it_token_id ?t it_token_id] map_row_keeps[OF tin, of it_token_id ?t it_token_hash] ok
    by (simp_all add: t(4) rows_ok_def)
  then have toks: "distinct (map it_token_id (hd_tokens db'))" "distinct (map it_token_hash (hd_tokens db'))"
    using ok by (simp_all only: rows_ok_def)
  have "rows_ok db' \<and> credentials db' = (credentials db)(a := Some (sha m))
    \<and> (\<forall>x \<in> set (hd_bindings db). \<exists>y \<in> set (hd_bindings db'). hb_binding_id y = hb_binding_id x \<and> hb_agent_id y = hb_agent_id x)"
  proof (cases "binding_of a db")
    case None
    then have "binding_of (hb_agent_id b') db = None" "hb_binding_id b' \<notin> hb_binding_id ` set (hd_bindings db)"
      "hb_machine_token_hash b' \<notin> hb_machine_token_hash ` set (hd_bindings db)" "hd_bindings db' = hd_bindings db @ [b']"
      using t assms(3,4) by simp_all
    from bindings_append[OF ok this toks] show ?thesis using None t by auto
  next
    case (Some b0)
    then have b0: "b0 \<in> set (hd_bindings db)" "hb_agent_id b0 = a" by (auto simp: binding_of_def dest: find_Some_in)
    have "hb_binding_id b' = hb_binding_id b0" "hb_agent_id b' = hb_agent_id b0"
      "hb_machine_token_hash b' = hb_machine_token_hash b0 \<or> hb_machine_token_hash b' \<notin> hb_machine_token_hash ` set (hd_bindings db)"
      "hd_bindings db' = row_put b' (hd_bindings db)"
      using Some t b0 assms(4) by simp_all
    from bindings_put[OF ok b0(1) this toks] show ?thesis using t by simp
  qed
  then show "rows_ok db'" and "credentials db' = (credentials db)(a := Some (sha m))"
    and "x \<in> set (hd_bindings db) \<Longrightarrow> \<exists>y \<in> set (hd_bindings db'). hb_binding_id y = hb_binding_id x \<and> hb_agent_id y = hb_agent_id x"
    by blast+
qed

lemma put_binding_step:
  assumes "rows_ok db" and "b0 \<in> set (hd_bindings db)" and "hb_binding_id b = hb_binding_id b0"
    and "hb_agent_id b = hb_agent_id b0" and "hb_machine_token_hash b = hb_machine_token_hash b0"
  shows "rows_ok (put_binding b db)"
    and "credentials (put_binding b db) = (credentials db)(hb_agent_id b0 := if hb_revoked_at b = None then Some (hb_machine_token_hash b0) else None)"
    and "x \<in> set (hd_bindings db) \<Longrightarrow> \<exists>y \<in> set (hd_bindings (put_binding b db)). hb_binding_id y = hb_binding_id x \<and> hb_agent_id y = hb_agent_id x"
  using bindings_put[OF assms(1-4) disjI1[OF assms(5)], of "put_binding b db"] assms
  by (simp_all add: put_binding_def row_put_def rows_ok_def)

lemma find_binding_in:
  "find_binding i db = Some b \<Longrightarrow> b \<in> set (hd_bindings db) \<and> hb_binding_id b = i"
  unfolding find_binding_def by (auto dest: find_Some_in)

lemma credentials_row:
  assumes "rows_ok db" and "b \<in> set (hd_bindings db)"
  shows "credentials db (hb_agent_id b) = (if hb_revoked_at b = None then Some (hb_machine_token_hash b) else None)"
  using assms find_unique[of hb_agent_id "hd_bindings db" b]
  by (simp add: credentials_eq binding_of_def rows_ok_def)

lemma principal_row:
  assumes "host_inv s" and "pl \<in> set (hs_principals s)" and "find_binding (pl_binding_id pl) (hs_db s) = Some b"
  shows "hb_agent_id b = pl_agent_id pl"
  using assms find_binding_in[OF assms(3)] unfolding host_inv_def rows_ok_def by (metis distinct_map inj_onD)

lemma authenticated_row:
  assumes "rows_ok db"
  shows "get_binding_by_machine_token sha token db = Inr b \<longleftrightarrow>
    b \<in> set (hd_bindings db) \<and> hb_machine_token_hash b = sha token \<and> hb_revoked_at b = None"
proof -
  have d: "distinct (map hb_machine_token_hash (hd_bindings db))" using assms by (simp add: rows_ok_def)
  show ?thesis
  proof (cases "\<exists>c \<in> set (hd_bindings db). hb_machine_token_hash c = sha token")
    case True
    then obtain c where c: "c \<in> set (hd_bindings db)" "hb_machine_token_hash c = sha token" by blast
    then have "filter (\<lambda>b. hb_machine_token_hash b = sha token) (hd_bindings db) = [c]"
      using filter_unique[OF d c(1), of "\<lambda>_. True"] by simp
    moreover have "b = c" if "b \<in> set (hd_bindings db)" "hb_machine_token_hash b = sha token"
      using that c d by (metis distinct_map inj_onD)
    ultimately show ?thesis using c by (auto simp: get_binding_by_machine_token_def)
  next
    case False
    then have "filter (\<lambda>b. hb_machine_token_hash b = sha token) (hd_bindings db) = []" by (simp add: filter_empty_conv)
    with False show ?thesis by (auto simp: get_binding_by_machine_token_def)
  qed
qed

lemma authenticate_host_Inr:
  "authenticate_host sha cr db = Inr pl \<longleftrightarrow> (\<exists>token b. cr = Some token \<and> token \<noteq> []
     \<and> get_binding_by_machine_token sha token db = Inr b \<and> pl = \<lparr>pl_binding_id = hb_binding_id b, pl_agent_id = hb_agent_id b\<rparr>)"
  by (auto simp: authenticate_host_def split: option.splits sum.splits external_error.splits)

lemma host_step_credentials:
  assumes inv: "host_inv s" and "host_step sha s e s'"
  shows "host_inv s' \<and> credentials (hs_db s') = credential_event sha e (credentials (hs_db s))"
proof -
  have ok: "rows_ok (hs_db s)" using inv by (simp add: host_inv_def)
  have keep: "host_inv (s\<lparr>hs_db := db, hs_principals := ps\<rparr>)"
    if "rows_ok db" and "set ps \<subseteq> set (hs_principals s)"
      and "\<And>x. x \<in> set (hd_bindings (hs_db s)) \<Longrightarrow> \<exists>y \<in> set (hd_bindings db). hb_binding_id y = hb_binding_id x \<and> hb_agent_id y = hb_agent_id x"
    for db ps using that inv unfolding host_inv_def by simp (metis subsetD)
  from assms(2) show ?thesis
  proof cases
    case (step_install now db_now tid raw a u tos url r db')
    from request_install_cases[OF step_install(3)] show ?thesis
    proof
      assume "isl r \<and> db' = hs_db s"
      with inv step_install show ?thesis by (simp add: credential_event_def)
    next
      assume r: "\<not> isl r \<and> hd_bindings db' = hd_bindings (hs_db s)
        \<and> hd_tokens db' = hd_tokens (invalidate_install_tokens a (hs_db s))
        @ [\<lparr>it_token_id = tid, it_agent_id = a, it_token_hash = sha raw, it_token_prefix = take 16 raw,
            it_status = ''active'', it_expires_at = now + usec (60 * EXTERNAL_INSTALL_CODE_TTL_MINUTES),
            it_used_at = None, it_created_by_user_id = u, it_created_at = db_now\<rparr>]"
      have "rows_ok db'" using ok r step_install(4,5) by (simp add: rows_ok_def invalidate_ids invalidate_hashes)
      then have "host_inv (s\<lparr>hs_db := db', hs_principals := hs_principals s\<rparr>)" using r by (intro keep) auto
      moreover have "credentials db' = credentials (hs_db s)" using r by (intro bindings_same) simp
      ultimately show ?thesis using step_install(1,2) by (simp add: credential_event_def)
    qed
  next
    case (step_bootstrap now i m a code h r db')
    show ?thesis
    proof (cases r)
      case (Inl err)
      then have "db' = hs_db s" using step_bootstrap(3) unfolding request_bootstrap_def by (auto dest: in_transaction_Inl)
      with Inl inv step_bootstrap show ?thesis by (simp add: credential_event_def)
    next
      case (Inr b)
      note boot = request_bootstrap_step[OF step_bootstrap(3)[unfolded Inr] ok step_bootstrap(4,5)]
      have "host_inv (s\<lparr>hs_db := db', hs_principals := hs_principals s\<rparr>)" using boot by (intro keep) auto
      with step_bootstrap Inr boot(2) show ?thesis by (simp add: credential_event_def)
    qed
  next
    case (step_authenticate cr pl)
    then obtain b where "b \<in> set (hd_bindings (hs_db s))" "pl = \<lparr>pl_binding_id = hb_binding_id b, pl_agent_id = hb_agent_id b\<rparr>"
      by (auto simp: authenticate_host_Inr authenticated_row[OF ok])
    with inv step_authenticate show ?thesis by (auto simp: host_inv_def credential_event_def)
  next
    case (step_authenticate_fails cr err)
    with inv show ?thesis by (simp add: credential_event_def)
  next
    case (step_heartbeat pl now sv le h r db')
    show ?thesis
    proof (cases r)
      case (Inl err)
      then have "db' = hs_db s" using step_heartbeat(4) unfolding request_heartbeat_def by (auto dest: in_transaction_Inl)
      moreover have "host_inv (s\<lparr>hs_db := hs_db s, hs_principals := remove1 pl (hs_principals s)\<rparr>)"
        using ok by (intro keep) (auto dest: notin_set_remove1 set_remove1_subset[THEN subsetD])
      ultimately show ?thesis using Inl step_heartbeat by (simp add: credential_event_def)
    next
      case (Inr b')
      then obtain b where b: "find_binding (pl_binding_id pl) (hs_db s) = Some b" "heartbeat now sv le h b (hs_db s) = (Inr b', db')"
        using step_heartbeat(4) by (auto simp: request_heartbeat_def in_transaction_Inr split: option.splits)
      from heartbeat_ok[OF b(2)] have h: "hb_agent_id b' = hb_agent_id b" "hb_binding_id b' = hb_binding_id b"
        "hb_machine_token_hash b' = hb_machine_token_hash b" "hb_revoked_at b' = hb_revoked_at b" "db' = put_binding b' (hs_db s)"
        by auto
      have bin: "b \<in> set (hd_bindings (hs_db s))" using find_binding_in[OF b(1)] by simp
      note put = put_binding_step[OF ok bin h(2,1,3)]
      have "host_inv (s\<lparr>hs_db := db', hs_principals := remove1 pl (hs_principals s)\<rparr>)"
        unfolding h(5) using put(1,3) by (intro keep) (auto dest: set_remove1_subset[THEN subsetD])
      moreover have "credentials db' = credentials (hs_db s)"
        using put(2) credentials_row[OF ok bin] by (auto simp: h fun_eq_iff)
      ultimately show ?thesis using Inr step_heartbeat by (simp add: credential_event_def)
    qed
  next
    case (step_unregister pl now r db')
    show ?thesis
    proof (cases "find_binding (pl_binding_id pl) (hs_db s)")
      case None
      then have "isl r \<and> db' = hs_db s"
        using step_unregister(4) by (auto simp: request_self_unregister_def in_transaction_def)
      moreover have "host_inv (s\<lparr>hs_db := hs_db s, hs_principals := remove1 pl (hs_principals s)\<rparr>)"
        using ok by (intro keep) (auto dest: set_remove1_subset[THEN subsetD])
      ultimately show ?thesis using step_unregister by (simp add: credential_event_def)
    next
      case (Some b)
      define b' where "b' = b\<lparr>hb_status := ''revoked'', hb_revoked_at := Some now, hb_last_error_message := Some ''Runtime uninstalled''\<rparr>"
      have r: "r = Inr b'" "db' = put_binding b' (hs_db s)"
        using step_unregister(4) Some by (auto simp: request_self_unregister_def in_transaction_def revoke_binding_def b'_def Let_def)
      have bin: "b \<in> set (hd_bindings (hs_db s))" using find_binding_in[OF Some] by simp
      have "hb_binding_id b' = hb_binding_id b" "hb_agent_id b' = hb_agent_id b" "hb_machine_token_hash b' = hb_machine_token_hash b"
        "hb_revoked_at b' \<noteq> None" by (simp_all add: b'_def)
      note put = put_binding_step[OF ok bin this(1-3)] and gone = this(4)
      have "host_inv (s\<lparr>hs_db := db', hs_principals := remove1 pl (hs_principals s)\<rparr>)"
        unfolding r(2) using put(1,3) by (intro keep) (auto dest: set_remove1_subset[THEN subsetD])
      then show ?thesis using put(2) gone principal_row[OF inv step_unregister(3) Some] step_unregister r
        by (simp add: credential_event_def)
    qed
  next
    case (step_profile a x y z)
    have "host_inv (s\<lparr>hs_db := snd (update_profile a x y z (hs_db s)), hs_principals := hs_principals s\<rparr>)"
      using ok by (intro keep) (auto simp: rows_ok_def)
    moreover have "credentials (snd (update_profile a x y z (hs_db s))) = credentials (hs_db s)" by (intro bindings_same) simp
    ultimately show ?thesis using step_profile by (simp add: credential_event_def)
  next
    case (step_overview a)
    have "host_inv (s\<lparr>hs_db := snd (get_or_create_profile a (hs_db s)), hs_principals := hs_principals s\<rparr>)"
      using ok by (intro keep) (auto simp: rows_ok_def)
    moreover have "credentials (snd (get_or_create_profile a (hs_db s))) = credentials (hs_db s)" by (intro bindings_same) simp
    ultimately show ?thesis using step_overview by (simp add: credential_event_def)
  qed
qed


interpretation hosts: invariant_machine "host_step sha" host_inv for sha
  by unfold_locales (blast dest: host_step_credentials)

lemma new_system_inv [simp]: "host_inv (new_host_system agents)"
  by (simp add: new_host_system_def host_inv_def rows_ok_def)

lemma run_credentials:
  "run_of (host_step sha) (new_host_system agents) es s \<Longrightarrow>
   credentials (hs_db s) = fold (credential_event sha) es (\<lambda>_. None)"
proof (induction es arbitrary: s rule: rev_induct)
  case Nil
  then show ?case by (simp add: new_host_system_def fun_eq_iff credentials_def get_active_binding_def)
next
  case (snoc e es)
  then obtain s0 where s0: "run_of (host_step sha) (new_host_system agents) es s0" "host_step sha s0 e s"
    by (auto simp: run_of_snoc)
  then have "host_inv s0" by (auto intro: hosts.run_inv)
  with s0 snoc.IH show ?case using host_step_credentials[of s0 sha e s] by simp
qed

subsection \<open>What becomes of an install code\<close>

definition drawn_by :: "(string \<Rightarrow> string) \<Rightarrow> install_token \<Rightarrow> host_call \<times> bool \<Rightarrow> bool" where
  "drawn_by sha t e \<longleftrightarrow> (\<exists>now db_now tid raw u tos url.
     e = (InstallCommand now db_now tid raw (it_agent_id t) u tos url, True) \<and> it_token_hash t = sha raw
     \<and> it_expires_at t = now + usec (60 * EXTERNAL_INSTALL_CODE_TTL_MINUTES))"

definition same_code :: "install_token \<Rightarrow> install_token \<Rightarrow> bool" where
  "same_code t t' \<longleftrightarrow> it_agent_id t' = it_agent_id t \<and> it_token_hash t' = it_token_hash t
     \<and> it_expires_at t' = it_expires_at t"

definition tokens_step :: "(string \<Rightarrow> string) \<Rightarrow> host_call \<times> bool \<Rightarrow> install_token list \<Rightarrow> install_token list \<Rightarrow> bool" where
  "tokens_step sha e ts ts' \<longleftrightarrow> (\<forall>t' \<in> set ts'. (\<exists>t \<in> set ts. same_code t t') \<or> drawn_by sha t' e)
     \<and> (\<forall>t \<in> set ts. it_status t \<noteq> ''active'' \<longrightarrow> t \<in> set ts')"

lemma tokens_same [simp]: "tokens_step sha e ts ts"
  by (auto simp: tokens_step_def same_code_def)

lemma tokens_drawn:
  assumes "drawn_by sha row e"
  shows "tokens_step sha e (hd_tokens db) (hd_tokens (invalidate_install_tokens a db) @ [row])"
  using assms unfolding tokens_step_def by (auto simp: invalidate_install_tokens_def same_code_def)

lemma tokens_used:
  assumes "rows_ok db" and "t0 \<in> set (hd_tokens db)" and "it_status t0 = ''active''"
  shows "tokens_step sha e (hd_tokens db)
    (map (\<lambda>x. if it_token_id x = it_token_id t0 then t0\<lparr>it_status := ''used'', it_used_at := Some now\<rparr> else x) (hd_tokens db))"
proof -
  have "t = t0" if "t \<in> set (hd_tokens db)" "it_token_id t = it_token_id t0" for t
    using that assms(1,2) unfolding rows_ok_def by (metis distinct_map inj_onD)
  then have "\<forall>t \<in> set (hd_tokens db). it_status t \<noteq> ''active'' \<longrightarrow> it_token_id t \<noteq> it_token_id t0"
    using assms(3) by auto
  then show ?thesis using assms(2) unfolding tokens_step_def same_code_def by (force simp: image_iff)
qed

lemma host_step_tokens:
  assumes inv: "host_inv s" and "host_step sha s e s'"
  shows "tokens_step sha e (hd_tokens (hs_db s)) (hd_tokens (hs_db s'))"
proof -
  have ok: "rows_ok (hs_db s)" using inv by (simp add: host_inv_def)
  from assms(2) show ?thesis
  proof cases
    case (step_install now db_now tid raw a u tos url r db')
    show ?thesis
      using request_install_cases[OF step_install(3)]
    proof
      assume "isl r \<and> db' = hs_db s"
      with step_install show ?thesis by simp
    next
      assume r: "\<not> isl r \<and> hd_bindings db' = hd_bindings (hs_db s)
        \<and> hd_tokens db' = hd_tokens (invalidate_install_tokens a (hs_db s))
        @ [\<lparr>it_token_id = tid, it_agent_id = a, it_token_hash = sha raw, it_token_prefix = take 16 raw,
            it_status = ''active'', it_expires_at = now + usec (60 * EXTERNAL_INSTALL_CODE_TTL_MINUTES),
            it_used_at = None, it_created_by_user_id = u, it_created_at = db_now\<rparr>]"
      define row where "row = \<lparr>it_token_id = tid, it_agent_id = a, it_token_hash = sha raw, it_token_prefix = take 16 raw,
            it_status = ''active'', it_expires_at = now + usec (60 * EXTERNAL_INSTALL_CODE_TTL_MINUTES),
            it_used_at = None, it_created_by_user_id = u, it_created_at = db_now\<rparr>"
      have "hd_tokens (hs_db s') = hd_tokens (invalidate_install_tokens a (hs_db s)) @ [row]"
        using step_install(2) r by (simp add: row_def)
      moreover have "drawn_by sha row e" using r step_install(1) by (auto simp: drawn_by_def row_def)
      ultimately show ?thesis using tokens_drawn[of sha row e "hs_db s" a] by simp
    qed
  next
    case (step_bootstrap now i m a code h r db')
    show ?thesis
    proof (cases r)
      case (Inl err)
      then have "db' = hs_db s" using step_bootstrap(3) unfolding request_bootstrap_def by (auto dest: in_transaction_Inl)
      with step_bootstrap show ?thesis by simp
    next
      case (Inr b)
      have d: "distinct (map hb_agent_id (hd_bindings (hs_db s)))" using ok by (simp add: rows_ok_def)
      from request_bootstrap_ok[OF step_bootstrap(3)[unfolded Inr] d step_bootstrap(4)] obtain t where
        "find_install_token sha a code (hs_db s) = Some t" "it_status t = ''active''"
        "hd_tokens db' = map (\<lambda>x. if it_token_id x = it_token_id t then t\<lparr>it_status := ''used'', it_used_at := Some now\<rparr> else x) (hd_tokens (hs_db s))"
        by blast
      then show ?thesis using step_bootstrap(2) tokens_used[OF ok] find_token_in by simp
    qed
  next
    case (step_heartbeat pl now sv le h r db')
    have "hd_tokens db' = hd_tokens (hs_db s)"
      using step_heartbeat(4) by (auto simp: request_heartbeat_def in_transaction_def heartbeat_def Let_def
          split: option.splits prod.splits sum.splits if_splits)
    with step_heartbeat show ?thesis by simp
  next
    case (step_unregister pl now r db')
    have "hd_tokens db' = hd_tokens (hs_db s)"
      using step_unregister(4) by (auto simp: request_self_unregister_def in_transaction_def revoke_binding_def Let_def
          split: option.splits prod.splits sum.splits)
    with step_unregister show ?thesis by simp
  qed simp_all
qed

lemma run_tokens_drawn:
  "run_of (host_step sha) (new_host_system agents) es s \<Longrightarrow>
   \<forall>t \<in> set (hd_tokens (hs_db s)). \<exists>e \<in> set es. drawn_by sha t e"
proof (induction es arbitrary: s rule: rev_induct)
  case Nil
  then show ?case by (simp add: new_host_system_def)
next
  case (snoc e es)
  then obtain s0 where s0: "run_of (host_step sha) (new_host_system agents) es s0" "host_step sha s0 e s"
    by (auto simp: run_of_snoc)
  then have "tokens_step sha e (hd_tokens (hs_db s0)) (hd_tokens (hs_db s))"
    using hosts.run_inv[OF s0(1) new_system_inv] s0(2) by (intro host_step_tokens)
  moreover have "drawn_by sha t e'" if "same_code t0 t" "drawn_by sha t0 e'" for t0 t e'
    using that by (auto simp: drawn_by_def same_code_def)
  ultimately show ?case using snoc.IH[OF s0(1)] unfolding tokens_step_def
    by (metis UnCI list.set_intros(1) set_append)
qed

lemma used_code_stays:
  assumes "run_of (host_step sha) s es s'" and "host_inv s" and "t \<in> set (hd_tokens (hs_db s))" and "it_status t \<noteq> ''active''"
  shows "t \<in> set (hd_tokens (hs_db s'))"
  using assms
proof (induction es arbitrary: s' rule: rev_induct)
  case (snoc e es)
  then obtain s0 where s0: "run_of (host_step sha) s es s0" "host_step sha s0 e s'" by (auto simp: run_of_snoc)
  then have "tokens_step sha e (hd_tokens (hs_db s0)) (hd_tokens (hs_db s'))"
    using snoc.prems(2) by (auto intro: host_step_tokens hosts.run_inv)
  then show ?case using snoc.IH[OF s0(1) snoc.prems(2-4)] snoc.prems(4) by (simp add: tokens_step_def)
qed simp

lemma bootstrap_step_uses:
  assumes "host_inv s" and "host_step sha s (Bootstrap now i m a code h, True) s'"
  obtains t where "t \<in> set (hd_tokens (hs_db s))" "it_agent_id t = a" "it_token_hash t = sha code" "it_status t = ''active''"
    "now < it_expires_at t" "t\<lparr>it_status := ''used'', it_used_at := Some now\<rparr> \<in> set (hd_tokens (hs_db s'))"
proof -
  have d: "distinct (map hb_agent_id (hd_bindings (hs_db s)))" using assms(1) by (simp add: host_inv_def rows_ok_def)
  from assms(2) obtain b db' where r: "request_bootstrap sha now i m a code h (hs_db s) = (Inr b, db')"
    "i \<notin> hb_binding_id ` set (hd_bindings (hs_db s))" "s' = s\<lparr>hs_db := db'\<rparr>"
    by (auto elim!: host_stepE simp: isl_def) (metis sum.exhaust)
  from request_bootstrap_ok[OF r(1) d r(2)] obtain t where
    t: "find_install_token sha a code (hs_db s) = Some t" "it_status t = ''active''" "now < it_expires_at t"
    "hd_tokens db' = map (\<lambda>x. if it_token_id x = it_token_id t then t\<lparr>it_status := ''used'', it_used_at := Some now\<rparr> else x) (hd_tokens (hs_db s))"
    by blast
  then show thesis using that[of t] find_token_in[OF t(1)] by (force simp: r(3))
qed


text \<open>A refused request changes no row, so what the code flushed before it raised is lost: the status
  \<open>expired\<close> of a code and the status \<open>error\<close> of a host with a foreign fingerprint are never stored.\<close>

lemma refused_heartbeat_unrecorded:
  "request_heartbeat now pl status_value last_error h db = (Inl e, db') \<Longrightarrow> db' = db"
  unfolding request_heartbeat_def by (rule in_transaction_Inl)

lemma refused_bootstrap_unrecorded:
  "request_bootstrap sha now i m a code h db = (Inl e, db') \<Longrightarrow> db' = db"
  unfolding request_bootstrap_def by (rule in_transaction_Inl)

subsection \<open>Properties\<close>

text \<open>C21: A machine token authenticates a host as an agent exactly when the last successful bootstrap of that
  agent drew this token and no host of the agent has unregistered since: an older token of the agent, a token
  of an unregistered host and a foreign token are rejected, whatever requests of whatever hosts are interleaved.\<close>

theorem host_credentials:
  assumes "run_of (host_step sha) (new_host_system agents) es s"
  shows "(\<exists>pl. authenticate_host sha (Some token) (hs_db s) = Inr pl \<and> pl_agent_id pl = a)
    \<longleftrightarrow> token \<noteq> [] \<and> fold (credential_event sha) es (\<lambda>_. None) a = Some (sha token)"
proof -
  have ok: "rows_ok (hs_db s)" using hosts.run_inv[OF assms new_system_inv] by (simp add: host_inv_def)
  have "credentials (hs_db s) a = Some (sha token) \<longleftrightarrow>
    (\<exists>b \<in> set (hd_bindings (hs_db s)). hb_agent_id b = a \<and> hb_machine_token_hash b = sha token \<and> hb_revoked_at b = None)"
  proof
    assume "credentials (hs_db s) a = Some (sha token)"
    then show "\<exists>b \<in> set (hd_bindings (hs_db s)). hb_agent_id b = a \<and> hb_machine_token_hash b = sha token \<and> hb_revoked_at b = None"
      by (auto simp: credentials_eq[OF ok] binding_of_def dest!: find_Some_in split: option.splits if_splits)
  qed (use credentials_row[OF ok] in auto)
  then show ?thesis
    unfolding run_credentials[OF assms, symmetric] by (auto simp: authenticate_host_Inr authenticated_row[OF ok])
qed

definition sample_report :: host_report where
  "sample_report = \<lparr>hr_host_name = Some ''box'', hr_host_os = Some ''Linux'', hr_host_arch = Some ''amd64'',
     hr_host_fingerprint = ''f'', hr_current_version = Some ''0.2.0'', hr_metadata = []\<rparr>"

definition sample_binding_calls :: "(host_call \<times> bool) list" where
  "sample_binding_calls = [(InstallCommand 0 0 1 ''code'' 5 2 ''linux'' ''http://x'', True),
     (Bootstrap 1 3 ''machine'' 5 ''code'' sample_report, True)]"

definition sample_bound_system :: host_system where
  "sample_bound_system =
     (let s0 = new_host_system [(5, Some ''remote_session'')];
          db1 = snd (request_install_command id 0 0 1 ''code'' 5 2 ''linux'' ''http://x'' (hs_db s0));
          db2 = snd (request_bootstrap id 1 3 ''machine'' 5 ''code'' sample_report db1)
      in s0\<lparr>hs_db := db2\<rparr>)"

lemma sample_binding_run:
  "run_of (host_step id) (new_host_system [(5, Some ''remote_session'')]) sample_binding_calls sample_bound_system"
proof -
  define s0 where "s0 = new_host_system [(5, Some ''remote_session'')]"
  define i where "i = request_install_command id 0 0 1 ''code'' 5 2 ''linux'' ''http://x'' (hs_db s0)"
  define b where "b = request_bootstrap id 1 3 ''machine'' 5 ''code'' sample_report (snd i)"
  have "\<not> isl (fst i) \<and> hd_bindings (snd i) = []" unfolding i_def s0_def by code_simp
  moreover have "\<not> isl (fst b)" unfolding b_def i_def s0_def by code_simp
  moreover have "host_step id s0 (InstallCommand 0 0 1 ''code'' 5 2 ''linux'' ''http://x'', \<not> isl (fst i)) (s0\<lparr>hs_db := snd i\<rparr>)"
    by (rule step_install) (simp_all add: i_def s0_def new_host_system_def)
  moreover have "host_step id (s0\<lparr>hs_db := snd i\<rparr>) (Bootstrap 1 3 ''machine'' 5 ''code'' sample_report, \<not> isl (fst b))
      (s0\<lparr>hs_db := snd i, hs_db := snd b\<rparr>)"
    using calculation(1) by (intro step_bootstrap) (simp_all add: b_def)
  moreover have "sample_bound_system = s0\<lparr>hs_db := snd i, hs_db := snd b\<rparr>"
    by (simp add: sample_bound_system_def Let_def b_def i_def s0_def)
  ultimately show ?thesis
    unfolding sample_binding_calls_def s0_def[symmetric] by (auto intro!: run_ConsI)
qed

theorem host_credentials_witness:
  "(\<exists>pl. authenticate_host id (Some ''machine'') (hs_db sample_bound_system) = Inr pl \<and> pl_agent_id pl = 5)
   \<and> \<not> (\<exists>pl. authenticate_host id (Some ''other'') (hs_db sample_bound_system) = Inr pl \<and> pl_agent_id pl = 5)"
  by (simp add: host_credentials[OF sample_binding_run] sample_binding_calls_def credential_event_def)

text \<open>C22: An install code binds at most one host: a successful bootstrap redeems a code that was drawn for
  that very agent less than fifteen minutes before, and no later bootstrap with that code succeeds.\<close>

theorem install_code_single_use:
  assumes "run_of (host_step sha) (new_host_system agents) (es @ (Bootstrap now i m a code h, True) # fs) s"
  shows "(\<exists>drawn db_now tid raw u tos url. (InstallCommand drawn db_now tid raw a u tos url, True) \<in> set es
            \<and> sha raw = sha code \<and> now < drawn + usec (15 * 60))
    \<and> (\<forall>now' i' m' a' code' h'. sha code' = sha code \<longrightarrow> (Bootstrap now' i' m' a' code' h', True) \<notin> set fs)"
proof -
  from assms obtain s1 s2 where run1: "run_of (host_step sha) (new_host_system agents) es s1"
    and use: "host_step sha s1 (Bootstrap now i m a code h, True) s2" and run2: "run_of (host_step sha) s2 fs s"
    by (auto simp: run_of_append run_of_Cons)
  have inv: "host_inv s1" "host_inv s2"
    using hosts.run_inv[OF run1 new_system_inv] use by (auto intro: hosts.step_inv)
  from bootstrap_step_uses[OF inv(1) use] obtain t where
    t: "t \<in> set (hd_tokens (hs_db s1))" "it_agent_id t = a" "it_token_hash t = sha code" "now < it_expires_at t"
    and used: "t\<lparr>it_status := ''used'', it_used_at := Some now\<rparr> \<in> set (hd_tokens (hs_db s2))" by blast
  from run_tokens_drawn[OF run1] t(1) obtain e where "e \<in> set es" "drawn_by sha t e" by blast
  then have "\<exists>drawn db_now tid raw u tos url. (InstallCommand drawn db_now tid raw a u tos url, True) \<in> set es
      \<and> sha raw = sha code \<and> now < drawn + usec (15 * 60)"
    using t(2-4) by (auto simp: drawn_by_def EXTERNAL_INSTALL_CODE_TTL_MINUTES_def) (metis mult.commute)
  moreover have "(Bootstrap now' i' m' a' code' h', True) \<notin> set fs" if c: "sha code' = sha code" for now' i' m' a' code' h'
  proof
    assume "(Bootstrap now' i' m' a' code' h', True) \<in> set fs"
    then obtain fs1 fs2 where "fs = fs1 @ (Bootstrap now' i' m' a' code' h', True) # fs2" by (meson split_list)
    with run2 obtain s3 s4 where run3: "run_of (host_step sha) s2 fs1 s3"
      and again: "host_step sha s3 (Bootstrap now' i' m' a' code' h', True) s4"
      by (auto simp: run_of_append run_of_Cons)
    have inv3: "host_inv s3" using hosts.run_inv[OF run3 inv(2)] .
    from bootstrap_step_uses[OF inv3 again] obtain t' where
      t': "t' \<in> set (hd_tokens (hs_db s3))" "it_token_hash t' = sha code'" "it_status t' = ''active''" by blast
    let ?t = "t\<lparr>it_status := ''used'', it_used_at := Some now\<rparr>"
    have "?t \<in> set (hd_tokens (hs_db s3))" using used_code_stays[OF run3 inv(2) used] by simp
    moreover have "it_token_hash ?t = it_token_hash t'" using t(3) t'(2) c by simp
    ultimately have "?t = t'" using t'(1) inv3 unfolding host_inv_def rows_ok_def by (metis distinct_map inj_onD)
    with t'(3) show False by auto
  qed
  ultimately show ?thesis by blast
qed

theorem install_code_single_use_witness:
  "\<exists>drawn db_now tid raw u tos url.
     (InstallCommand drawn db_now tid raw 5 u tos url, True) \<in> set [(InstallCommand 0 0 1 ''code'' 5 2 ''linux'' ''http://x'', True)]
     \<and> id raw = id ''code'' \<and> 1 < drawn + usec (15 * 60)"
proof -
  have "run_of (host_step id) (new_host_system [(5, Some ''remote_session'')])
    ([(InstallCommand 0 0 1 ''code'' 5 2 ''linux'' ''http://x'', True)]
      @ (Bootstrap 1 3 ''machine'' 5 ''code'' sample_report, True) # []) sample_bound_system"
    using sample_binding_run by (simp add: sample_binding_calls_def)
  from conjunct1[OF install_code_single_use[OF this]] show ?thesis .
qed

lemma effective_status_online:
  "effective_status now b = ''online'' \<longleftrightarrow> norm_str (Some (hb_status b)) \<noteq> ''error''
     \<and> (\<exists>seen. hb_last_seen_at b = Some seen \<and> now - seen \<le> usec 90)
     \<and> py_strip (opt_text (hb_current_version b)) = ''0.2.0''"
proof -
  have "norm_str (Some []) = []" "norm_str (Some ''offline'') = ''offline''" by code_simp+
  then show ?thesis
    by (cases "hb_status b = []"; cases "hb_last_seen_at b")
      (simp_all add: effective_status_def Let_def is_runtime_compatible_def EXTERNAL_RUNTIME_OFFLINE_SECONDS_def
        CURRENT_EXTERNAL_RUNTIME_VERSION_def not_le)
qed

text \<open>Work is handed to an external agent exactly when its host is bound, sent a heartbeat in the last
  ninety seconds, reports no error and runs the required version; any other host is refused with the error
  that names the reason.\<close>

theorem agent_online_exact:
  assumes "is_external_runtime_type pref"
  shows "(case assert_agent_online render now a pref detail db of
      Inr st \<Rightarrow> (\<exists>b seen. get_active_binding a db = Some b \<and> norm_str (Some (hb_status b)) \<noteq> ''error''
        \<and> hb_last_seen_at b = Some seen \<and> now - seen \<le> usec 90
        \<and> py_strip (opt_text (hb_current_version b)) = ''0.2.0'')
    | Inl e \<Rightarrow> (\<nexists>b seen. get_active_binding a db = Some b \<and> norm_str (Some (hb_status b)) \<noteq> ''error''
        \<and> hb_last_seen_at b = Some seen \<and> now - seen \<le> usec 90
        \<and> py_strip (opt_text (hb_current_version b)) = ''0.2.0'')
      \<and> e = ExternalRuntimeUnavailableError
          (if \<exists>b. get_active_binding a db = Some b \<and> py_strip (opt_text (hb_current_version b)) = ''0.2.0''
           then detail else ''external_agent_upgrade_required''))"
proof (cases "get_active_binding a db")
  case None
  with assms show ?thesis by (simp add: assert_agent_online_def summarize_state_def uninstalled_state_def)
next
  case (Some b)
  with assms Some show ?thesis
    by (auto simp: assert_agent_online_def summarize_state_def bound_state_def Let_def is_runtime_compatible_def
        CURRENT_EXTERNAL_RUNTIME_VERSION_def effective_status_online)
qed

lemma sample_bound_row:
  "case get_active_binding 5 (hs_db sample_bound_system) of None \<Rightarrow> False
   | Some b \<Rightarrow> norm_str (Some (hb_status b)) \<noteq> ''error'' \<and> hb_last_seen_at b = Some 1
       \<and> py_strip (opt_text (hb_current_version b)) = ''0.2.0''"
  by code_simp

theorem agent_online_exact_witness:
  "\<not> isl (assert_agent_online (\<lambda>_. []) 2 5 (Some ''remote_session'') ''d'' (hs_db sample_bound_system))
   \<and> assert_agent_online (\<lambda>_. []) (2 + usec 90) 5 (Some ''remote_session'') ''d'' (hs_db sample_bound_system)
       = Inl (ExternalRuntimeUnavailableError ''d'')"
proof -
  have "is_external_runtime_type (Some ''remote_session'')" by code_simp
  note exact = agent_online_exact[OF this, where render = "\<lambda>_. []" and a = "5" and detail = "''d''" and db = "hs_db sample_bound_system"]
  obtain b where b: "get_active_binding 5 (hs_db sample_bound_system) = Some b" "norm_str (Some (hb_status b)) \<noteq> ''error''"
    "hb_last_seen_at b = Some 1" "py_strip (opt_text (hb_current_version b)) = ''0.2.0''"
    using sample_bound_row by (auto split: option.splits)
  show ?thesis
    using exact[where now = "2"] exact[where now = "2 + usec 90"] b by (auto simp: usec_def split: sum.splits)
qed

end
