(* ===== verification/Runtime_Dispatch.thy ===== *)
theory Runtime_Dispatch
  imports Runtime_Binding Run_State
begin

section \<open>Work for external agents (\<open>project_execution/external_runtime_service.py\<close>, second half)\<close>

text \<open>
  A dispatch is one piece of work for the host of an external agent: it is created pending, the host
  polls for it, acknowledges it, reports progress and events, and completes or fails it. Each report
  is copied to the execution node, task and run the dispatch belongs to, and the run is reconciled
  (\<open>Run_State\<close>). The database adds the dispatches and their events to the rows of the hosts and of
  the runs. \<open>now\<close> is the process clock of the request and \<open>db_now\<close> its transaction time, which
  \<open>flush\<close> writes to \<open>updated_at\<close> of a row that changed. Payload columns hold JSON objects.
\<close>

definition EXTERNAL_DISPATCH_ACK_TIMEOUT_SECONDS :: int where
  "EXTERNAL_DISPATCH_ACK_TIMEOUT_SECONDS = 60"

record dispatch =
  dp_dispatch_id :: uuid
  dp_agent_id :: uuid
  dp_binding_id :: uuid
  dp_project_id :: "uuid option"
  dp_run_id :: "uuid option"
  dp_node_id :: "uuid option"
  dp_source_type :: string
  dp_source_id :: string
  dp_runtime_type :: string
  dp_request_payload :: "(string, pyval) dict"
  dp_result_payload :: "(string, pyval) dict"
  dp_status :: string
  dp_error_message :: "string option"
  dp_acked_at :: "timestamp option"
  dp_started_at :: "timestamp option"
  dp_completed_at :: "timestamp option"
  dp_expires_at :: "timestamp option"
  dp_created_at :: timestamp

record dispatch_event =
  ev_dispatch_id :: uuid
  ev_sequence_number :: nat
  ev_event_type :: string
  ev_payload :: "(string, pyval) dict"

record dispatch_db =
  xd_hosts :: host_db
  xd_runs :: run_db
  xd_dispatches :: "dispatch list"
  xd_events :: "dispatch_event list"

definition put_dispatch :: "dispatch \<Rightarrow> dispatch_db \<Rightarrow> dispatch_db" where
  "put_dispatch d db = db\<lparr>xd_dispatches :=
     map (\<lambda>x. if dp_dispatch_id x = dp_dispatch_id d then d else x) (xd_dispatches db)\<rparr>"

text \<open>An attribute assignment and the flush that writes it.\<close>

definition save_node :: "timestamp \<Rightarrow> uuid \<Rightarrow> (exec_node \<Rightarrow> exec_node) \<Rightarrow> run_db \<Rightarrow> run_db" where
  "save_node db_now i f r = r\<lparr>rd_nodes := map (\<lambda>n. if en_id n = i
     then (if f n = n then n else (f n)\<lparr>en_updated_at := db_now\<rparr>) else n) (rd_nodes r)\<rparr>"

definition save_task :: "timestamp \<Rightarrow> uuid \<Rightarrow> (run_task \<Rightarrow> run_task) \<Rightarrow> run_db \<Rightarrow> run_db" where
  "save_task db_now i f r = r\<lparr>rd_tasks := map (\<lambda>t. if tk_id t = i
     then (if f t = t then t else (f t)\<lparr>tk_updated_at := db_now\<rparr>) else t) (rd_tasks r)\<rparr>"

definition save_run :: "timestamp \<Rightarrow> uuid \<Rightarrow> (project_run \<Rightarrow> project_run) \<Rightarrow> run_db \<Rightarrow> run_db" where
  "save_run db_now i f r = r\<lparr>rd_runs := map (\<lambda>x. if pr_id x = i
     then (if f x = x then x else (f x)\<lparr>pr_updated_at := db_now\<rparr>) else x) (rd_runs r)\<rparr>"

definition payload_items :: "pyval \<Rightarrow> (string, pyval) dict" where
  "payload_items v = (case v of PDict d \<Rightarrow> d | _ \<Rightarrow> [])"

text \<open>\<open>{**(column or {}), **(result or {})}\<close>.\<close>

definition merge_payload :: "pyval \<Rightarrow> (string, pyval) dict \<Rightarrow> pyval" where
  "merge_payload v new = PDict (merge_dict (payload_items v) new)"

subsection \<open>Creating dispatches\<close>

definition new_dispatch ::
    "timestamp \<Rightarrow> timestamp \<Rightarrow> uuid \<Rightarrow> uuid \<Rightarrow> uuid \<Rightarrow> string \<Rightarrow> string \<Rightarrow> string \<Rightarrow> (string, pyval) dict
      \<Rightarrow> uuid option \<Rightarrow> uuid option \<Rightarrow> uuid option \<Rightarrow> dispatch" where
  "new_dispatch now db_now new_id agent_id binding_id source_type source_id runtime_type request_payload
       project_id run_id node_id =
     \<lparr>dp_dispatch_id = new_id, dp_agent_id = agent_id, dp_binding_id = binding_id, dp_project_id = project_id,
      dp_run_id = run_id, dp_node_id = node_id, dp_source_type = source_type, dp_source_id = source_id,
      dp_runtime_type = runtime_type, dp_request_payload = request_payload, dp_result_payload = [],
      dp_status = ''pending'', dp_error_message = None, dp_acked_at = None, dp_started_at = None,
      dp_completed_at = None, dp_expires_at = Some (now + usec EXTERNAL_DISPATCH_ACK_TIMEOUT_SECONDS),
      dp_created_at = db_now\<rparr>"

definition create_dispatch ::
    "(pyval \<Rightarrow> string) \<Rightarrow> timestamp \<Rightarrow> timestamp \<Rightarrow> uuid \<Rightarrow> uuid \<Rightarrow> string \<Rightarrow> string \<Rightarrow> string
      \<Rightarrow> (string, pyval) dict \<Rightarrow> uuid option \<Rightarrow> uuid option \<Rightarrow> uuid option \<Rightarrow> dispatch_db
      \<Rightarrow> (external_error + dispatch) \<times> dispatch_db" where
  "create_dispatch txt now db_now new_id agent_id source_type source_id runtime_type request_payload
       project_id run_id node_id db =
     (case get_active_binding agent_id (xd_hosts db) of
        None \<Rightarrow> (Inl (ExternalRuntimeUnavailableError ''external_agent_not_online''), db)
      | Some b \<Rightarrow>
          (case get_agent_row agent_id (xd_hosts db) of
             Inl e \<Rightarrow> (Inl e, db)
           | Inr pref \<Rightarrow>
               (case summarize_state txt now agent_id pref (xd_hosts db) of
                  None \<Rightarrow> (Inl (ExternalRuntimeUnavailableError ''external_agent_not_online''), db)
                | Some st \<Rightarrow>
                    if \<not> rs_available_for_execution st
                    then (Inl (ExternalRuntimeUnavailableError
                           (if \<not> rs_runtime_compatible st then ''external_agent_upgrade_required''
                            else ''external_agent_not_online'')), db)
                    else (let d = new_dispatch now db_now new_id agent_id (hb_binding_id b) source_type source_id
                                    runtime_type request_payload project_id run_id node_id
                          in (Inr d, db\<lparr>xd_dispatches := xd_dispatches db @ [d]\<rparr>)))))"

definition create_maintenance_dispatch ::
    "(pyval \<Rightarrow> string) \<Rightarrow> timestamp \<Rightarrow> timestamp \<Rightarrow> uuid \<Rightarrow> uuid \<Rightarrow> string \<Rightarrow> (string, pyval) dict \<Rightarrow> dispatch_db
      \<Rightarrow> (external_error + dispatch) \<times> dispatch_db" where
  "create_maintenance_dispatch txt now db_now new_id agent_id action request_payload db =
     (case get_active_binding agent_id (xd_hosts db) of
        None \<Rightarrow> (Inl (ExternalRuntimeUnavailableError ''external_agent_not_online''), db)
      | Some b \<Rightarrow>
          (case get_agent_row agent_id (xd_hosts db) of
             Inl e \<Rightarrow> (Inl e, db)
           | Inr pref \<Rightarrow>
               (case summarize_state txt now agent_id pref (xd_hosts db) of
                  None \<Rightarrow> (Inl (ExternalRuntimeUnavailableError ''external_agent_not_online''), db)
                | Some st \<Rightarrow>
                    if rs_status st \<noteq> ''online'' \<and> rs_status st \<noteq> ''upgrade_required''
                    then (Inl (ExternalRuntimeUnavailableError
                           (if \<not> rs_runtime_compatible st then ''external_agent_upgrade_required''
                            else ''external_agent_not_online'')), db)
                    else (let d = new_dispatch now db_now new_id agent_id (hb_binding_id b) ''maintenance'' action
                                    (if opt_text pref = [] then ''external_worktree'' else opt_text pref)
                                    (merge_dict [(''control_action'', PStr action)] request_payload) None None None
                          in (Inr d, db\<lparr>xd_dispatches := xd_dispatches db @ [d]\<rparr>)))))"

subsection \<open>Polling and events\<close>

definition get_next_dispatch :: "uuid \<Rightarrow> dispatch_db \<Rightarrow> external_error + dispatch" where
  "get_next_dispatch binding_id db =
     (case min_by dp_created_at (filter (\<lambda>d. dp_binding_id d = binding_id \<and> dp_status d = ''pending'') (xd_dispatches db)) of
        None \<Rightarrow> Inl ExternalRuntimeNoDispatchError
      | Some d \<Rightarrow> Inr d)"

definition get_dispatch_for_binding :: "uuid \<Rightarrow> uuid \<Rightarrow> dispatch_db \<Rightarrow> external_error + dispatch" where
  "get_dispatch_for_binding binding_id dispatch_id db =
     (case find (\<lambda>d. dp_dispatch_id d = dispatch_id \<and> dp_binding_id d = binding_id) (xd_dispatches db) of
        None \<Rightarrow> Inl (ExternalHTTPException 404 ''Dispatch not found'')
      | Some d \<Rightarrow> Inr d)"

definition append_dispatch_event ::
    "uuid \<Rightarrow> string \<Rightarrow> (string, pyval) dict \<Rightarrow> dispatch_db \<Rightarrow> dispatch_event \<times> dispatch_db" where
  "append_dispatch_event dispatch_id event_type payload db =
     (let next_sequence = length (filter (\<lambda>e. ev_dispatch_id e = dispatch_id) (xd_events db)) + 1;
          t = py_strip (if event_type = [] then ''info'' else event_type);
          event = \<lparr>ev_dispatch_id = dispatch_id, ev_sequence_number = next_sequence,
                   ev_event_type = (if t = [] then ''info'' else t), ev_payload = payload\<rparr>
      in (event, db\<lparr>xd_events := xd_events db @ [event]\<rparr>))"

definition list_dispatch_events :: "uuid \<Rightarrow> int \<Rightarrow> dispatch_db \<Rightarrow> dispatch_event list" where
  "list_dispatch_events dispatch_id after_sequence db =
     sort_key ev_sequence_number
       (filter (\<lambda>e. ev_dispatch_id e = dispatch_id \<and> int (ev_sequence_number e) > max after_sequence 0) (xd_events db))"

subsection \<open>Reports of the host\<close>

text \<open>\<open>_sync_dispatch_targets\<close>: the node, the task of the node, and the run.\<close>

definition find_node :: "uuid \<Rightarrow> run_db \<Rightarrow> exec_node option" where
  "find_node i r = find (\<lambda>n. en_id n = i) (rd_nodes r)"

definition find_run_task :: "uuid \<Rightarrow> run_db \<Rightarrow> run_task option" where
  "find_run_task i r = find (\<lambda>t. tk_id t = i) (rd_tasks r)"

definition dispatch_node :: "dispatch \<Rightarrow> run_db \<Rightarrow> exec_node option" where
  "dispatch_node d r =
     (case Option.bind (dp_node_id d) (\<lambda>i. find_node i r) of
        Some n \<Rightarrow> Some n
      | None \<Rightarrow> if dp_source_type d = ''execution_node''
                then Option.bind (parse_uuid (dp_source_id d)) (\<lambda>i. find_node i r) else None)"

definition sync_dispatch_targets ::
    "dispatch \<Rightarrow> run_db \<Rightarrow> exec_node option \<times> run_task option \<times> project_run option" where
  "sync_dispatch_targets d r =
     (let node = dispatch_node d r
      in (node, Option.bind (Option.bind node en_task) (\<lambda>i. find_run_task i r),
          Option.bind (dp_run_id d) (\<lambda>i. find_run i r)))"

definition if_some :: "'a option \<Rightarrow> ('a \<Rightarrow> 's \<Rightarrow> 's) \<Rightarrow> 's \<Rightarrow> 's" where
  "if_some x f s = (case x of None \<Rightarrow> s | Some a \<Rightarrow> f a s)"

definition ack_dispatch ::
    "timestamp \<Rightarrow> timestamp \<Rightarrow> (string, pyval) dict \<Rightarrow> dispatch \<Rightarrow> dispatch_db \<Rightarrow> dispatch \<times> dispatch_db" where
  "ack_dispatch now db_now result d db =
     (let d' = d\<lparr>dp_status := ''acked'', dp_acked_at := Some now,
                 dp_result_payload := merge_dict (dp_result_payload d) result\<rparr>;
          (node, task, run) = sync_dispatch_targets d' (xd_runs db);
          r1 = if_some node (\<lambda>n. save_node db_now (en_id n) (\<lambda>n. n\<lparr>en_status := ''assigned'',
                 en_result_payload := merge_payload (en_result_payload n) result\<rparr>)) (xd_runs db);
          r2 = if_some task (\<lambda>t. save_task db_now (tk_id t) (\<lambda>t. t\<lparr>tk_status := ''assigned'', tk_error_message := None\<rparr>)) r1;
          r3 = if_some run (\<lambda>x. if pr_status x \<in> {''running'', ''completed'', ''failed'', ''blocked''} then id
                 else save_run db_now (pr_id x) (\<lambda>x. x\<lparr>pr_status := ''scheduled'', pr_error_message := None,
                        pr_completed_at := None\<rparr>)) r2
      in (d', put_dispatch d' (db\<lparr>xd_runs := r3\<rparr>)))"

definition progress_dispatch ::
    "timestamp \<Rightarrow> timestamp \<Rightarrow> (string, pyval) dict \<Rightarrow> string option \<Rightarrow> string \<Rightarrow> dispatch \<Rightarrow> dispatch_db
      \<Rightarrow> dispatch \<times> dispatch_db" where
  "progress_dispatch now db_now result error_message status_value d db =
     (let s = norm_str (Some (if status_value = [] then ''running'' else status_value));
          normalized_status = (if s = [] then ''running'' else s);
          d' = d\<lparr>dp_status := normalized_status,
                 dp_started_at := (if dp_started_at d = None then Some now else dp_started_at d),
                 dp_result_payload := merge_dict (dp_result_payload d) result, dp_error_message := error_message\<rparr>;
          (node, task, run) = sync_dispatch_targets d' (xd_runs db);
          r1 = if_some node (\<lambda>n. save_node db_now (en_id n) (\<lambda>n. n\<lparr>en_status := normalized_status,
                 en_result_payload := merge_payload (en_result_payload n) result, en_error_message := error_message,
                 en_started_at := (if en_started_at n = None then Some now else en_started_at n)\<rparr>)) (xd_runs db);
          r2 = if_some task (\<lambda>t. save_task db_now (tk_id t)
                 (\<lambda>t. t\<lparr>tk_status := normalized_status, tk_error_message := error_message\<rparr>)) r1;
          r3 = if_some run (\<lambda>x. if normalized_status \<noteq> ''running'' then id
                 else save_run db_now (pr_id x) (\<lambda>x. x\<lparr>pr_status := ''running'', pr_error_message := None,
                        pr_completed_at := None\<rparr>)) r2
      in (d', put_dispatch d' (db\<lparr>xd_runs := r3\<rparr>)))"

definition complete_dispatch ::
    "timestamp \<Rightarrow> timestamp \<Rightarrow> (string, pyval) dict \<Rightarrow> dispatch \<Rightarrow> dispatch_db \<Rightarrow> dispatch \<times> dispatch_db" where
  "complete_dispatch now db_now result d db =
     (let d' = d\<lparr>dp_status := ''completed'', dp_completed_at := Some now,
                 dp_started_at := (if dp_started_at d = None then Some now else dp_started_at d),
                 dp_result_payload := merge_dict (dp_result_payload d) result\<rparr>;
          (node, task, run) = sync_dispatch_targets d' (xd_runs db);
          r1 = if_some node (\<lambda>n. save_node db_now (en_id n) (\<lambda>n. n\<lparr>en_status := ''completed'', en_completed_at := Some now,
                 en_started_at := (if en_started_at n = None then dp_started_at d' else en_started_at n),
                 en_result_payload := merge_payload (en_result_payload n) result\<rparr>)) (xd_runs db);
          r2 = if_some task (\<lambda>t. save_task db_now (tk_id t)
                 (\<lambda>t. t\<lparr>tk_output_payload := merge_payload (tk_output_payload t) result\<rparr>)) r1;
          r3 = if_some run (\<lambda>x r. snd (reconcile_run_state now db_now (pr_id x)
                 (save_run db_now (pr_id x) (\<lambda>x. x\<lparr>pr_error_message := None\<rparr>) r))) r2
      in (d', put_dispatch d' (db\<lparr>xd_runs := r3\<rparr>)))"

definition fail_dispatch ::
    "timestamp \<Rightarrow> timestamp \<Rightarrow> (string, pyval) dict \<Rightarrow> string option \<Rightarrow> dispatch \<Rightarrow> dispatch_db \<Rightarrow> dispatch \<times> dispatch_db" where
  "fail_dispatch now db_now result error_message d db =
     (let message = str_or (str_or error_message (dp_error_message d)) (Some ''External runtime reported failure'');
          d' = d\<lparr>dp_status := ''failed'', dp_completed_at := Some now, dp_error_message := message,
                 dp_result_payload := merge_dict (dp_result_payload d) result\<rparr>;
          (node, task, run) = sync_dispatch_targets d' (xd_runs db);
          r1 = if_some node (\<lambda>n. save_node db_now (en_id n) (\<lambda>n. n\<lparr>en_status := ''failed'', en_completed_at := Some now,
                 en_error_message := message, en_result_payload := merge_payload (en_result_payload n) result\<rparr>)) (xd_runs db);
          r2 = if_some task (\<lambda>t. save_task db_now (tk_id t) (\<lambda>t. t\<lparr>tk_status := ''failed'', tk_error_message := message,
                 tk_output_payload := merge_payload (tk_output_payload t) result\<rparr>)) r1;
          r3 = if_some run (\<lambda>x r. snd (reconcile_run_state now db_now (pr_id x)
                 (save_run db_now (pr_id x) (\<lambda>x. x\<lparr>pr_status := ''failed'', pr_completed_at := Some now,
                    pr_error_message := message\<rparr>) r))) r2
      in (d', put_dispatch d' (db\<lparr>xd_runs := r3\<rparr>)))"

subsection \<open>Requests (\<open>api_gateway/routers/external_runtime.py\<close>)\<close>

text \<open>The report endpoints look up the dispatch among those of the principal's binding.\<close>

definition with_dispatch ::
    "principal \<Rightarrow> uuid \<Rightarrow> (dispatch \<Rightarrow> dispatch_db \<Rightarrow> 'a \<times> dispatch_db) \<Rightarrow> dispatch_db
      \<Rightarrow> (external_error + 'a) \<times> dispatch_db" where
  "with_dispatch pl dispatch_id f =
     in_transaction (\<lambda>db.
       (case find_binding (pl_binding_id pl) (xd_hosts db) of
          None \<Rightarrow> (Inl (ExternalHTTPException 500 ''Internal Server Error''), db)
        | Some b \<Rightarrow>
            (case get_dispatch_for_binding (hb_binding_id b) dispatch_id db of
               Inl e \<Rightarrow> (Inl e, db)
             | Inr d \<Rightarrow> (case f d db of (x, db') \<Rightarrow> (Inr x, db')))))"

definition request_next :: "principal \<Rightarrow> dispatch_db \<Rightarrow> external_error + dispatch" where
  "request_next pl db =
     (case find_binding (pl_binding_id pl) (xd_hosts db) of
        None \<Rightarrow> Inl (ExternalHTTPException 401 ''external_agent_machine_token_invalid'')
      | Some b \<Rightarrow>
          (case get_next_dispatch (hb_binding_id b) db of
             Inl _ \<Rightarrow> Inl (ExternalHTTPException 404 ''external_agent_no_dispatch_available'')
           | Inr d \<Rightarrow> Inr d))"

definition request_ack ::
    "timestamp \<Rightarrow> timestamp \<Rightarrow> principal \<Rightarrow> uuid \<Rightarrow> (string, pyval) dict \<Rightarrow> dispatch_db
      \<Rightarrow> (external_error + dispatch) \<times> dispatch_db" where
  "request_ack now db_now pl i result = with_dispatch pl i (ack_dispatch now db_now result)"

definition request_event ::
    "principal \<Rightarrow> uuid \<Rightarrow> string \<Rightarrow> (string, pyval) dict \<Rightarrow> dispatch_db
      \<Rightarrow> (external_error + dispatch_event) \<times> dispatch_db" where
  "request_event pl i event_type payload =
     with_dispatch pl i (\<lambda>d. append_dispatch_event (dp_dispatch_id d) event_type payload)"

definition request_progress ::
    "timestamp \<Rightarrow> timestamp \<Rightarrow> principal \<Rightarrow> uuid \<Rightarrow> (string, pyval) dict \<Rightarrow> string option \<Rightarrow> string \<Rightarrow> dispatch_db
      \<Rightarrow> (external_error + dispatch) \<times> dispatch_db" where
  "request_progress now db_now pl i result error_message status_value =
     with_dispatch pl i (progress_dispatch now db_now result error_message status_value)"

text \<open>A finished conversation turn is stored in the conversation, which may generate a title for it:
  \<open>persist\<close> is \<open>persist_external_conversation_completion\<close>. An unreadable id skips both.\<close>

definition conversation_title_event ::
    "(uuid \<Rightarrow> (string, pyval) dict \<Rightarrow> (string, pyval) dict \<Rightarrow> string option) \<Rightarrow> (pyval \<Rightarrow> string) \<Rightarrow> dispatch
      \<Rightarrow> dispatch_db \<Rightarrow> dispatch_db" where
  "conversation_title_event persist txt d db =
     (let raw = opt_text (metadata_text txt (dp_request_payload d) ''conversation_id'')
      in if dp_source_type d \<noteq> ''conversation_turn'' \<or> raw = [] then db
         else (case parse_uuid raw of
                 None \<Rightarrow> db
               | Some c \<Rightarrow>
                   (case persist c (dp_request_payload d) (dp_result_payload d) of
                      None \<Rightarrow> db
                    | Some title \<Rightarrow>
                        if title = [] then db
                        else snd (append_dispatch_event (dp_dispatch_id d) ''conversation_title''
                               [(''type'', PStr ''conversation_title''), (''conversation_id'', PStr raw),
                                (''title'', PStr title)] db))))"

definition request_complete ::
    "(uuid \<Rightarrow> (string, pyval) dict \<Rightarrow> (string, pyval) dict \<Rightarrow> string option) \<Rightarrow> (pyval \<Rightarrow> string)
      \<Rightarrow> timestamp \<Rightarrow> timestamp \<Rightarrow> principal \<Rightarrow> uuid \<Rightarrow> (string, pyval) dict \<Rightarrow> dispatch_db
      \<Rightarrow> (external_error + dispatch) \<times> dispatch_db" where
  "request_complete persist txt now db_now pl i result =
     with_dispatch pl i (\<lambda>d db. (case complete_dispatch now db_now result d db of
        (d', db') \<Rightarrow> (d', conversation_title_event persist txt d' db')))"

definition request_fail ::
    "timestamp \<Rightarrow> timestamp \<Rightarrow> principal \<Rightarrow> uuid \<Rightarrow> (string, pyval) dict \<Rightarrow> string option \<Rightarrow> dispatch_db
      \<Rightarrow> (external_error + dispatch) \<times> dispatch_db" where
  "request_fail now db_now pl i result error_message = with_dispatch pl i (fail_dispatch now db_now result error_message)"

text \<open>\<open>request_external_runtime_update\<close> and \<open>request_external_runtime_uninstall\<close>, for an agent already loaded.\<close>

definition request_update ::
    "(pyval \<Rightarrow> string) \<Rightarrow> timestamp \<Rightarrow> timestamp \<Rightarrow> uuid \<Rightarrow> uuid \<Rightarrow> string option \<Rightarrow> dispatch_db
      \<Rightarrow> (external_error + dispatch) \<times> dispatch_db" where
  "request_update txt now db_now new_id agent_id pref =
     in_transaction (\<lambda>db. create_maintenance_dispatch txt now db_now new_id agent_id ''update_runtime''
       [(''desired_version'', PStr (case summarize_state txt now agent_id pref (xd_hosts db) of
            Some st \<Rightarrow> rs_desired_version st | None \<Rightarrow> CURRENT_EXTERNAL_RUNTIME_VERSION))] db)"

definition request_uninstall ::
    "(pyval \<Rightarrow> string) \<Rightarrow> timestamp \<Rightarrow> timestamp \<Rightarrow> uuid \<Rightarrow> uuid \<Rightarrow> dispatch_db
      \<Rightarrow> (external_error + dispatch) \<times> dispatch_db" where
  "request_uninstall txt now db_now new_id agent_id =
     in_transaction (create_maintenance_dispatch txt now db_now new_id agent_id ''uninstall_runtime'' [])"

subsection \<open>Reports and the run\<close>

lemma find_map_keep:
  "(\<And>x. k (f x) = k x) \<Longrightarrow> find (\<lambda>x. k x = i) (map f xs) = map_option f (find (\<lambda>x. k x = i) xs)"
  by (induction xs) auto

lemma save_fields [simp]:
  "rd_runs (save_node n i f r) = rd_runs r" "rd_tasks (save_node n i f r) = rd_tasks r" "rd_nodes (save_task n i g r) = rd_nodes r"
  "rd_runs (save_task n i g r) = rd_runs r" "rd_nodes (save_run n i h r) = rd_nodes r" "rd_tasks (save_run n i h r) = rd_tasks r"
  by (simp_all add: save_node_def save_task_def save_run_def)

lemma find_run_saved [simp]: "find_run i (save_node n j f r) = find_run i r" "find_run i (save_task n j g r) = find_run i r"
  by (simp_all add: find_run_def)

lemma find_save_run:
  assumes "find_run i r = Some x" and "\<And>y. pr_id (f y) = pr_id y"
  shows "find_run i (save_run n i f r) = Some (if f x = x then x else (f x)\<lparr>pr_updated_at := n\<rparr>)"
proof -
  let ?g = "\<lambda>x. if pr_id x = i then (if f x = x then x else (f x)\<lparr>pr_updated_at := n\<rparr>) else x"
  have "find (\<lambda>x. pr_id x = i) (map ?g (rd_runs r)) = map_option ?g (find (\<lambda>x. pr_id x = i) (rd_runs r))"
    using assms(2) by (intro find_map_keep) simp
  with assms(1) find_run_id[OF assms(1)] show ?thesis by (simp add: find_run_def save_run_def)
qed

lemma find_save_node:
  assumes "find_node i r = Some x" and "\<And>y. en_id (f y) = en_id y"
  shows "find_node i (save_node n i f r) = Some (if f x = x then x else (f x)\<lparr>en_updated_at := n\<rparr>)"
proof -
  let ?g = "\<lambda>x. if en_id x = i then (if f x = x then x else (f x)\<lparr>en_updated_at := n\<rparr>) else x"
  have "find (\<lambda>x. en_id x = i) (map ?g (rd_nodes r)) = map_option ?g (find (\<lambda>x. en_id x = i) (rd_nodes r))"
    using assms(2) by (intro find_map_keep) simp
  with assms(1) show ?thesis by (auto simp: find_node_def save_node_def find_Some_iff)
qed

lemma reconcile_result:
  assumes "find_run rid r = Some run0"
  obtains run r' where "reconcile_run_state now db_now rid r = (Some run, r')" "find_run rid r' = Some run"
    "pr_error_message run = pr_error_message run0" "rd_nodes r' = rd_nodes r"
    "rd_tasks r' = rd_tasks (reconcile_run_tasks db_now rid r)"
proof -
  obtain run r' where e: "reconcile_run_state now db_now rid r = (Some run, r')"
    using reconcile_returns_run[OF assms] by blast
  have "find_run rid r' = Some run" using reconcile_decides[OF assms e] by (simp add: Let_def)
  moreover have "pr_error_message run = pr_error_message run0" "rd_nodes r' = rd_nodes r"
    "rd_tasks r' = rd_tasks (reconcile_run_tasks db_now rid r)"
    using e assms by (auto simp: reconcile_run_state_def Let_def split: if_splits)
  ultimately show thesis using that e by blast
qed

lemma dispatch_node_in:
  "dispatch_node d r = Some n \<Longrightarrow> find_node (en_id n) r = Some n"
  by (auto simp: dispatch_node_def find_node_def find_Some_iff bind_eq_Some_conv split: option.splits if_splits)

lemma dispatch_node_same [simp]:
  "dispatch_node (d\<lparr>dp_status := s\<rparr>) r = dispatch_node d r" "dispatch_node (d\<lparr>dp_completed_at := c\<rparr>) r = dispatch_node d r"
  "dispatch_node (d\<lparr>dp_error_message := m\<rparr>) r = dispatch_node d r" "dispatch_node (d\<lparr>dp_result_payload := p\<rparr>) r = dispatch_node d r"
  "dispatch_node (d\<lparr>dp_started_at := c\<rparr>) r = dispatch_node d r" "dispatch_node (d\<lparr>dp_acked_at := c\<rparr>) r = dispatch_node d r"
  by (simp_all add: dispatch_node_def cong: option.case_cong)

lemma if_some_simps [simp]: "if_some None f s = s" "if_some (Some a) f s = f a s"
  by (simp_all add: if_some_def)

lemma if_some_fields:
  "(\<And>a s. f (g a s) = f s) \<Longrightarrow> f (if_some x g s) = f s"
  by (simp add: if_some_def split: option.splits)

lemma save_node_status:
  assumes "find_node i r = Some n" and "\<And>y. en_id (f y) = en_id y" and "en_status (f n) = s"
  shows "\<exists>n'. find_node i (save_node db_now i f r) = Some n' \<and> en_status n' = s"
  using find_save_node[OF assms(1,2), of db_now] assms(3) by auto

lemma find_node_cong: "rd_nodes r = rd_nodes r' \<Longrightarrow> find_node i r = find_node i r'"
  by (simp add: find_node_def)

lemma failed_terminal: "normalize_status ''failed'' \<in> set TERMINAL_RUN_STATUSES"
  by (simp add: normalize_result terminal_results)

lemma fail_dispatch_result:
  assumes "dp_run_id d = Some rid" and "find_run rid (xd_runs db) = Some run" and "fail_dispatch now db_now result msg d db = (d', db')"
  shows "dp_status d' = ''failed''
    \<and> (\<exists>run'. find_run rid (xd_runs db') = Some run' \<and> pr_status run' = ''failed'' \<and> pr_completed_at run' \<noteq> None
          \<and> pr_error_message run' = dp_error_message d')
    \<and> (\<forall>n. dispatch_node d (xd_runs db) = Some n \<longrightarrow>
          (\<exists>n'. find_node (en_id n) (xd_runs db') = Some n' \<and> en_status n' = ''failed''))"
proof -
  define message where "message = str_or (str_or msg (dp_error_message d)) (Some ''External runtime reported failure'')"
  define node where "node = dispatch_node d (xd_runs db)"
  define r1 where "r1 = if_some node (\<lambda>n. save_node db_now (en_id n) (\<lambda>n. n\<lparr>en_status := ''failed'', en_completed_at := Some now,
                 en_error_message := message, en_result_payload := merge_payload (en_result_payload n) result\<rparr>)) (xd_runs db)"
  define r2 where "r2 = if_some (Option.bind (Option.bind node en_task) (\<lambda>i. find_run_task i (xd_runs db)))
      (\<lambda>t. save_task db_now (tk_id t) (\<lambda>t. t\<lparr>tk_status := ''failed'', tk_error_message := message,
                 tk_output_payload := merge_payload (tk_output_payload t) result\<rparr>)) r1"
  define g where "g = (\<lambda>x::project_run. x\<lparr>pr_status := ''failed'', pr_completed_at := Some now, pr_error_message := message\<rparr>)"
  have res: "d' = fst (fail_dispatch now db_now result msg d db)" "db' = snd (fail_dispatch now db_now result msg d db)"
    using assms(3) by simp_all
  have db': "xd_runs db' = snd (reconcile_run_state now db_now rid (save_run db_now rid g r2))"
    and d': "dp_status d' = ''failed''" "dp_error_message d' = message"
    using assms(1,2) find_run_id[OF assms(2)]
    by (simp_all add: res fail_dispatch_def sync_dispatch_targets_def Let_def put_dispatch_def message_def node_def r1_def r2_def g_def)
  have "rd_runs r2 = rd_runs r1" "rd_runs r1 = rd_runs (xd_runs db)" and nodes: "rd_nodes r2 = rd_nodes r1"
    unfolding r1_def r2_def by (intro if_some_fields; simp)+
  then have "find_run rid r2 = Some run" using assms(2) by (simp add: find_run_def)
  then have saved: "find_run rid (save_run db_now rid g r2) = Some (if g run = run then run else (g run)\<lparr>pr_updated_at := db_now\<rparr>)"
    by (rule find_save_run) (simp add: g_def)
  define run0 where "run0 = (if g run = run then run else (g run)\<lparr>pr_updated_at := db_now\<rparr>)"
  have "pr_status (g run) = ''failed''" "pr_error_message (g run) = message" by (simp_all add: g_def)
  then have run0: "find_run rid (save_run db_now rid g r2) = Some run0" "pr_status run0 = ''failed''" "pr_error_message run0 = message"
    using saved by (auto simp: run0_def)
  from reconcile_result[OF run0(1), of now db_now] obtain run' r' where
    rec: "reconcile_run_state now db_now rid (save_run db_now rid g r2) = (Some run', r')" "find_run rid r' = Some run'"
    "pr_error_message run' = pr_error_message run0" "rd_nodes r' = rd_nodes (save_run db_now rid g r2)" .
  have "pr_status run' = ''failed'' \<and> pr_completed_at run' \<noteq> None"
    using reconcile_decides[OF run0(1) rec(1)] run0(2) failed_terminal by (simp add: Let_def)
  moreover have "\<exists>n'. find_node (en_id n) (xd_runs db') = Some n' \<and> en_status n' = ''failed''"
    if "dispatch_node d (xd_runs db) = Some n" for n
  proof -
    have "find_node (en_id n) (xd_runs db) = Some n" using dispatch_node_in[OF that] .
    then have "\<exists>n'. find_node (en_id n) r1 = Some n' \<and> en_status n' = ''failed''"
      using that unfolding r1_def node_def if_some_def by (simp, intro save_node_status) auto
    moreover have "rd_nodes (xd_runs db') = rd_nodes r1" by (simp add: db' rec nodes)
    ultimately show ?thesis by (metis find_node_cong)
  qed
  ultimately show ?thesis using rec run0(3) d' by (auto simp: db')
qed

lemma completed_literals:
  "list_all (\<lambda>s. s \<notin> set svc_FAILED_STATUSES \<and> \<not> py_substr ''fail'' s \<and> normalize_status s = s
     \<and> s \<notin> set TASK_ACTIVE_STEP_STATUSES \<and> s \<notin> set TASK_ASSIGNED_STEP_STATUSES
     \<and> s \<notin> set TASK_PENDING_STEP_STATUSES) svc_COMPLETED_STATUSES"
  by code_simp

lemma completed_facts:
  assumes "is_completed_status s"
  shows "\<not> is_failed_status s" and "\<not> is_failed_status (normalize_status s)" and "is_completed_status (normalize_status s)"
    and "normalize_status s \<notin> set TASK_ACTIVE_STEP_STATUSES" and "normalize_status s \<notin> set TASK_ASSIGNED_STEP_STATUSES"
    and "normalize_status s \<notin> set TASK_PENDING_STEP_STATUSES"
  using completed_literals assms
  by (auto simp: list_all_iff is_completed_status_def is_failed_status_def Let_def)

lemma resolve_all_completed:
  assumes "recs \<noteq> []" and "\<And>r. r \<in> set recs \<Longrightarrow> is_completed_status (en_status r)"
  shows "resolve_task_status c recs = ''completed''"
  using assms completed_facts
  by (auto simp: resolve_task_status_def Let_def list_ex_iff list_all_iff)

lemma completed_literal [simp]: "is_completed_status ''completed''"
  by code_simp

text \<open>
  What the run becomes, given its row before and the rows after: a terminal run keeps its status; a run with an
  unfinished task (or without tasks and never started) stays as it is; any other is failed or completed.
\<close>

definition run_decided :: "uuid \<Rightarrow> project_run \<Rightarrow> project_run \<Rightarrow> run_db \<Rightarrow> bool" where
  "run_decided rid run run' r \<longleftrightarrow>
     (let tasks = filter (\<lambda>t. tk_run t = Some rid) (rd_tasks r);
          failed = list_ex (\<lambda>t. is_failed_status (tk_status t)) tasks
                 \<or> list_ex (\<lambda>n. is_failed_status (en_status n)) (filter (\<lambda>n. en_run n = rid) (rd_nodes r))
      in (if normalize_status (pr_status run) \<in> set TERMINAL_RUN_STATUSES
          then pr_status run' = pr_status run \<and> pr_completed_at run' \<noteq> None
          else if list_ex (\<lambda>t. \<not> is_terminal_task_status (tk_status t)) tasks
               \<or> tasks = [] \<and> pr_started_at run = None
          then pr_status run' = pr_status run \<and> pr_completed_at run' = None
          else pr_status run' = (if failed then ''failed'' else ''completed'') \<and> pr_completed_at run' \<noteq> None))"

text \<open>The run has a node for the task; for every one of its tasks; every node of the run but \<open>n\<close> is completed.\<close>

definition has_node :: "uuid \<Rightarrow> uuid \<Rightarrow> run_db \<Rightarrow> bool" where
  "has_node rid i r \<longleftrightarrow> (\<exists>m \<in> set (rd_nodes r). en_run m = rid \<and> en_task m = Some i)"

definition run_covered :: "uuid \<Rightarrow> run_db \<Rightarrow> bool" where
  "run_covered rid r \<longleftrightarrow> (\<forall>t \<in> set (rd_tasks r). tk_run t = Some rid \<longrightarrow> has_node rid (tk_id t) r)"

definition others_completed :: "uuid \<Rightarrow> exec_node \<Rightarrow> run_db \<Rightarrow> bool" where
  "others_completed rid n r \<longleftrightarrow>
     (\<forall>m \<in> set (rd_nodes r). en_run m = rid \<and> en_id m \<noteq> en_id n \<longrightarrow> is_completed_status (en_status m))"

lemma has_node_rows:
  "map (\<lambda>n. (en_run n, en_task n)) (rd_nodes r') = map (\<lambda>n. (en_run n, en_task n)) (rd_nodes r) \<Longrightarrow> has_node rid i r' = has_node rid i r"
proof -
  assume same: "map (\<lambda>n. (en_run n, en_task n)) (rd_nodes r') = map (\<lambda>n. (en_run n, en_task n)) (rd_nodes r)"
  have rows: "has_node rid i q \<longleftrightarrow> (rid, Some i) \<in> set (map (\<lambda>n. (en_run n, en_task n)) (rd_nodes q))" for q
    by (force simp: has_node_def)
  show ?thesis unfolding rows same ..
qed

lemma run_covered_rows:
  assumes "map (\<lambda>n. (en_run n, en_task n)) (rd_nodes r') = map (\<lambda>n. (en_run n, en_task n)) (rd_nodes r)"
    and "map (\<lambda>t. (tk_id t, tk_run t)) (rd_tasks r') = map (\<lambda>t. (tk_id t, tk_run t)) (rd_tasks r)"
  shows "run_covered rid r' = run_covered rid r"
proof -
  have rows: "run_covered rid q \<longleftrightarrow> (\<forall>(i, x) \<in> set (map (\<lambda>t. (tk_id t, tk_run t)) (rd_tasks q)). x = Some rid \<longrightarrow> has_node rid i q)" for q
    by (auto simp: run_covered_def)
  show ?thesis unfolding rows assms(2) has_node_rows[OF assms(1)] ..
qed

lemma reconciled_task_completed:
  assumes nodes: "\<And>m. m \<in> set (rd_nodes r) \<Longrightarrow> en_run m = rid \<Longrightarrow> is_completed_status (en_status m)"
    and t: "t \<in> set (rd_tasks (reconcile_run_tasks db_now rid r))" "tk_run t = Some rid" and node: "has_node rid (tk_id t) r"
  shows "tk_status t = ''completed''"
proof -
  let ?nodes = "node_order (filter (\<lambda>n. en_run n = rid) (rd_nodes r))"
  from t(1) obtain t0 where t0: "t0 \<in> set (rd_tasks r)" "t = (if tk_run t0 = Some rid
      then set_task_status db_now (resolve_task_status (tk_status t0) (nodes_of_task (tk_id t0) ?nodes)) t0 else t0)"
    by (auto simp: reconcile_run_tasks_def Let_def)
  then have run0: "tk_run t0 = Some rid" "tk_id t = tk_id t0" using t(2) by (auto split: if_splits)
  then have "nodes_of_task (tk_id t0) ?nodes \<noteq> []"
    using node by (auto simp: nodes_of_task_def filter_empty_conv has_node_def)
  then have "resolve_task_status (tk_status t0) (nodes_of_task (tk_id t0) ?nodes) = ''completed''"
    by (rule resolve_all_completed) (auto simp: nodes_of_task_def nodes)
  with t0(2) run0(1) show ?thesis by (simp add: set_task_status_def)
qed

lemma decided_completed:
  assumes "run_decided rid run run' r" and "normalize_status (pr_status run) \<notin> set TERMINAL_RUN_STATUSES"
    and "\<And>t. t \<in> set (rd_tasks r) \<Longrightarrow> tk_run t = Some rid \<Longrightarrow> tk_status t = ''completed''"
    and "\<And>m. m \<in> set (rd_nodes r) \<Longrightarrow> en_run m = rid \<Longrightarrow> is_completed_status (en_status m)"
    and "pr_started_at run \<noteq> None \<or> (\<exists>t \<in> set (rd_tasks r). tk_run t = Some rid)"
  shows "pr_status run' = ''completed'' \<and> pr_completed_at run' \<noteq> None"
proof -
  have "\<not> list_ex (\<lambda>t. \<not> is_terminal_task_status (tk_status t)) (filter (\<lambda>t. tk_run t = Some rid) (rd_tasks r))"
    "\<not> list_ex (\<lambda>t. is_failed_status (tk_status t)) (filter (\<lambda>t. tk_run t = Some rid) (rd_tasks r))"
    "\<not> list_ex (\<lambda>n. is_failed_status (en_status n)) (filter (\<lambda>n. en_run n = rid) (rd_nodes r))"
    using assms(3,4) completed_facts(1) by (auto simp: list_ex_iff is_terminal_task_status_def)
  moreover have "\<not> (filter (\<lambda>t. tk_run t = Some rid) (rd_tasks r) = [] \<and> pr_started_at run = None)"
    using assms(5) by (auto simp: filter_empty_conv)
  ultimately show ?thesis using assms(1,2) unfolding run_decided_def Let_def by (simp split: if_splits)
qed

lemma save_node_in:
  assumes "m \<in> set (rd_nodes (save_node db_now i f r))"
  shows "\<exists>m0 \<in> set (rd_nodes r). (en_id m0 \<noteq> i \<and> m = m0) \<or> (en_id m0 = i \<and> en_status m = en_status (f m0))"
proof -
  from assms obtain m0 where m0: "m0 \<in> set (rd_nodes r)"
    "m = (if en_id m0 = i then (if f m0 = m0 then m0 else (f m0)\<lparr>en_updated_at := db_now\<rparr>) else m0)"
    by (auto simp: save_node_def)
  then show ?thesis by (intro bexI[OF _ m0(1)]) auto
qed

lemma save_node_refs:
  "(\<And>x. en_run (f x) = en_run x) \<Longrightarrow> (\<And>x. en_task (f x) = en_task x) \<Longrightarrow>
   map (\<lambda>n. (en_run n, en_task n)) (rd_nodes (save_node db_now i f r)) = map (\<lambda>n. (en_run n, en_task n)) (rd_nodes r)"
  by (simp add: save_node_def)

text \<open>The rows that \<open>complete_dispatch\<close> leaves to \<open>reconcile_run_state\<close>.\<close>

lemma complete_dispatch_parts:
  assumes run: "dp_run_id d = Some rid" "find_run rid (xd_runs db) = Some run"
    and res: "complete_dispatch now db_now result d db = (d', db')"
  obtains r3 run0 f where "xd_runs db' = snd (reconcile_run_state now db_now rid r3)" and "find_run rid r3 = Some run0"
    and "pr_status run0 = pr_status run" and "pr_started_at run0 = pr_started_at run"
    and "rd_nodes r3 = rd_nodes (if_some (dispatch_node d (xd_runs db)) (\<lambda>n. save_node db_now (en_id n) f) (xd_runs db))"
    and "\<And>x. en_id (f x) = en_id x" and "\<And>x. en_run (f x) = en_run x" and "\<And>x. en_task (f x) = en_task x"
    and "\<And>x. en_status (f x) = ''completed''" and "\<And>x. en_completed_at (f x) = Some now"
    and "map (\<lambda>t. (tk_id t, tk_run t)) (rd_tasks r3) = map (\<lambda>t. (tk_id t, tk_run t)) (rd_tasks (xd_runs db))"
    and "dp_status d' = ''completed''" and "dp_completed_at d' = Some now"
proof -
  define d2 where "d2 = d\<lparr>dp_status := ''completed'', dp_completed_at := Some now,
                 dp_started_at := (if dp_started_at d = None then Some now else dp_started_at d),
                 dp_result_payload := merge_dict (dp_result_payload d) result\<rparr>"
  define f where "f = (\<lambda>n::exec_node. n\<lparr>en_status := ''completed'', en_completed_at := Some now,
                 en_started_at := (if en_started_at n = None then dp_started_at d2 else en_started_at n),
                 en_result_payload := merge_payload (en_result_payload n) result\<rparr>)"
  define r1 where "r1 = if_some (dispatch_node d (xd_runs db)) (\<lambda>n. save_node db_now (en_id n) f) (xd_runs db)"
  define h where "h = (\<lambda>t::run_task. t\<lparr>tk_output_payload := merge_payload (tk_output_payload t) result\<rparr>)"
  define r2 where "r2 = if_some (Option.bind (Option.bind (dispatch_node d (xd_runs db)) en_task) (\<lambda>i. find_run_task i (xd_runs db)))
      (\<lambda>t. save_task db_now (tk_id t) h) r1"
  define g where "g = (\<lambda>x::project_run. x\<lparr>pr_error_message := None\<rparr>)"
  let ?r3 = "save_run db_now rid g r2"
  have res': "d' = fst (complete_dispatch now db_now result d db)" "db' = snd (complete_dispatch now db_now result d db)"
    using res by simp_all
  have "xd_runs db' = snd (reconcile_run_state now db_now rid ?r3)"
    and d': "dp_status d' = ''completed''" "dp_completed_at d' = Some now"
    using run find_run_id[OF run(2)]
    by (simp_all add: res' complete_dispatch_def sync_dispatch_targets_def Let_def put_dispatch_def d2_def r1_def r2_def f_def h_def
        g_def cong: if_cong)
  moreover have "rd_runs r2 = rd_runs r1" "rd_runs r1 = rd_runs (xd_runs db)" and nodes: "rd_nodes r2 = rd_nodes r1"
    unfolding r1_def r2_def by (intro if_some_fields; simp)+
  then have "find_run rid r2 = Some run" using run(2) by (simp add: find_run_def)
  then have "find_run rid ?r3 = Some (if g run = run then run else (g run)\<lparr>pr_updated_at := db_now\<rparr>)"
    by (rule find_save_run) (simp add: g_def)
  moreover have "map (\<lambda>t. (tk_id t, tk_run t)) (rd_tasks ?r3) = map (\<lambda>t. (tk_id t, tk_run t)) (rd_tasks (xd_runs db))"
  proof -
    have "map (\<lambda>t. (tk_id t, tk_run t)) (rd_tasks (save_task db_now i h r)) = map (\<lambda>t. (tk_id t, tk_run t)) (rd_tasks r)" for i r
      by (simp add: save_task_def h_def)
    moreover have "rd_tasks r1 = rd_tasks (xd_runs db)" unfolding r1_def by (intro if_some_fields) simp
    ultimately show ?thesis by (simp add: r2_def if_some_def split: option.split)
  qed
  moreover have "rd_nodes ?r3 = rd_nodes r1" using nodes by simp
  ultimately show thesis
    by (intro that[of ?r3 "if g run = run then run else (g run)\<lparr>pr_updated_at := db_now\<rparr>" f]) (auto simp: r1_def f_def g_def)
qed

lemma complete_dispatch_result:
  assumes run: "dp_run_id d = Some rid" "find_run rid (xd_runs db) = Some run"
    and res: "complete_dispatch now db_now result d db = (d', db')"
  shows "dp_status d' = ''completed'' \<and> dp_completed_at d' = Some now
    \<and> (\<forall>n. dispatch_node d (xd_runs db) = Some n \<longrightarrow>
         (\<exists>n'. find_node (en_id n) (xd_runs db') = Some n' \<and> en_status n' = ''completed'' \<and> en_completed_at n' = Some now))
    \<and> (\<exists>run'. find_run rid (xd_runs db') = Some run' \<and> run_decided rid run run' (xd_runs db')
         \<and> (\<forall>n. dispatch_node d (xd_runs db) = Some n \<and> others_completed rid n (xd_runs db) \<longrightarrow>
              (\<forall>t \<in> set (rd_tasks (xd_runs db')). tk_run t = Some rid \<and> has_node rid (tk_id t) (xd_runs db) \<longrightarrow>
                 tk_status t = ''completed'')
              \<and> (normalize_status (pr_status run) \<notin> set TERMINAL_RUN_STATUSES \<and> run_covered rid (xd_runs db)
                 \<and> (pr_started_at run \<noteq> None \<or> (\<exists>t \<in> set (rd_tasks (xd_runs db)). tk_run t = Some rid)) \<longrightarrow>
                   pr_status run' = ''completed'' \<and> pr_completed_at run' \<noteq> None)))"
proof -
  let ?r = "xd_runs db" and ?r' = "xd_runs db'"
  obtain r3 run0 f where r3: "?r' = snd (reconcile_run_state now db_now rid r3)" "find_run rid r3 = Some run0"
      "pr_status run0 = pr_status run" "pr_started_at run0 = pr_started_at run"
      "rd_nodes r3 = rd_nodes (if_some (dispatch_node d ?r) (\<lambda>n. save_node db_now (en_id n) f) ?r)"
    and f: "\<And>x. en_id (f x) = en_id x" "\<And>x. en_run (f x) = en_run x" "\<And>x. en_task (f x) = en_task x"
      "\<And>x. en_status (f x) = ''completed''" "\<And>x. en_completed_at (f x) = Some now"
    and t3: "map (\<lambda>t. (tk_id t, tk_run t)) (rd_tasks r3) = map (\<lambda>t. (tk_id t, tk_run t)) (rd_tasks ?r)"
    and d': "dp_status d' = ''completed''" "dp_completed_at d' = Some now"
    by (rule complete_dispatch_parts[OF run res]) (rule that; assumption)
  obtain run' r' where rec: "reconcile_run_state now db_now rid r3 = (Some run', r')" "find_run rid r' = Some run'"
    "rd_nodes r' = rd_nodes r3" "rd_tasks r' = rd_tasks (reconcile_run_tasks db_now rid r3)"
    using reconcile_result[OF r3(2)] by metis
  then have r': "?r' = r'" using r3(1) by simp
  have decided: "run_decided rid run run' ?r'"
    using reconcile_decides[OF r3(2) rec(1)] r3(3,4) unfolding run_decided_def r' Let_def by simp
  have refs: "map (\<lambda>n. (en_run n, en_task n)) (rd_nodes r3) = map (\<lambda>n. (en_run n, en_task n)) (rd_nodes ?r)"
    using save_node_refs[of f] f(2,3) by (simp add: r3(5) if_some_def split: option.split)
  have node: "\<exists>n'. find_node (en_id n) ?r' = Some n' \<and> en_status n' = ''completed'' \<and> en_completed_at n' = Some now"
    if "dispatch_node d ?r = Some n" for n
  proof -
    have "rd_nodes ?r' = rd_nodes (save_node db_now (en_id n) f ?r)" using that by (simp add: r' rec(3) r3(5))
    then show ?thesis
      using find_save_node[OF dispatch_node_in[OF that], of f db_now] f(1,4,5)[of n] f(1) find_node_cong[of ?r' _ "en_id n"]
      by (cases "f n = n") auto
  qed
  have last_node: "(\<forall>t \<in> set (rd_tasks ?r'). tk_run t = Some rid \<and> has_node rid (tk_id t) ?r \<longrightarrow> tk_status t = ''completed'')
      \<and> (normalize_status (pr_status run) \<notin> set TERMINAL_RUN_STATUSES \<and> run_covered rid ?r
         \<and> (pr_started_at run \<noteq> None \<or> (\<exists>t \<in> set (rd_tasks ?r). tk_run t = Some rid)) \<longrightarrow>
           pr_status run' = ''completed'' \<and> pr_completed_at run' \<noteq> None)"
    if n: "dispatch_node d ?r = Some n" and others: "others_completed rid n ?r" for n
  proof -
    have nodes: "is_completed_status (en_status m)" if m: "m \<in> set (rd_nodes r3)" "en_run m = rid" for m
    proof -
      have "m \<in> set (rd_nodes (save_node db_now (en_id n) f ?r))" using m(1) n by (simp add: r3(5))
      from save_node_in[OF this] obtain m0 where "m0 \<in> set (rd_nodes ?r)"
        "(en_id m0 \<noteq> en_id n \<and> m = m0) \<or> en_status m = ''completed''" using f(4) by auto
      with others m(2) show ?thesis unfolding others_completed_def by (metis completed_literal)
    qed
    have tasks: "tk_status t = ''completed''"
      if "t \<in> set (rd_tasks ?r')" "tk_run t = Some rid" "has_node rid (tk_id t) ?r" for t
      using that reconciled_task_completed[OF nodes] has_node_rows[OF refs] by (simp add: r' rec(4))
    have same: "map (\<lambda>t. (tk_id t, tk_run t)) (rd_tasks ?r') = map (\<lambda>t. (tk_id t, tk_run t)) (rd_tasks ?r)"
      unfolding r' rec(4) t3[symmetric] by (simp add: reconcile_run_tasks_def Let_def)
    have cov: "has_node rid (tk_id t) ?r" if "run_covered rid ?r" "t \<in> set (rd_tasks ?r')" "tk_run t = Some rid" for t
    proof -
      have "(tk_id t, Some rid) \<in> set (map (\<lambda>t. (tk_id t, tk_run t)) (rd_tasks ?r'))" using that(2,3) by force
      then show ?thesis using that(1) unfolding same run_covered_def by auto
    qed
    have some: "\<exists>t \<in> set (rd_tasks ?r'). tk_run t = Some rid" if "t \<in> set (rd_tasks ?r)" "tk_run t = Some rid" for t
    proof -
      have "(tk_id t, Some rid) \<in> set (map (\<lambda>t. (tk_id t, tk_run t)) (rd_tasks ?r))" using that by force
      then show ?thesis unfolding same[symmetric] by auto
    qed
    have "pr_status run' = ''completed'' \<and> pr_completed_at run' \<noteq> None"
      if "normalize_status (pr_status run) \<notin> set TERMINAL_RUN_STATUSES" "run_covered rid ?r"
        "pr_started_at run \<noteq> None \<or> (\<exists>t \<in> set (rd_tasks ?r). tk_run t = Some rid)"
    proof (rule decided_completed[OF decided that(1)])
      show "tk_status t = ''completed''" if "t \<in> set (rd_tasks ?r')" "tk_run t = Some rid" for t
        using tasks[OF that cov[OF \<open>run_covered rid ?r\<close> that]] .
      show "is_completed_status (en_status m)" if "m \<in> set (rd_nodes ?r')" "en_run m = rid" for m
        using nodes that by (simp add: r' rec(3))
      show "pr_started_at run \<noteq> None \<or> (\<exists>t \<in> set (rd_tasks ?r'). tk_run t = Some rid)" using that(3) some by blast
    qed
    with tasks show ?thesis by blast
  qed
  from d' node rec(2) decided last_node show ?thesis unfolding r' by blast
qed

subsection \<open>The event stream\<close>

definition dispatch_log :: "uuid \<Rightarrow> dispatch_db \<Rightarrow> dispatch_event list" where
  "dispatch_log i db = filter (\<lambda>e. ev_dispatch_id e = i) (xd_events db)"

text \<open>The events of each dispatch are numbered from one in the order they were appended.\<close>

definition events_ok :: "dispatch_db \<Rightarrow> bool" where
  "events_ok db \<longleftrightarrow> (\<forall>i. map ev_sequence_number (dispatch_log i db) = [1..<length (dispatch_log i db) + 1])"

datatype dispatch_call =
    Create "pyval \<Rightarrow> string" timestamp timestamp uuid uuid string string string "(string, pyval) dict"
      "uuid option" "uuid option" "uuid option"
  | Update "pyval \<Rightarrow> string" timestamp timestamp uuid uuid "string option"
  | Uninstall "pyval \<Rightarrow> string" timestamp timestamp uuid uuid
  | Ack timestamp timestamp principal uuid "(string, pyval) dict"
  | Event principal uuid string "(string, pyval) dict"
  | Progress timestamp timestamp principal uuid "(string, pyval) dict" "string option" string
  | Complete "uuid \<Rightarrow> (string, pyval) dict \<Rightarrow> (string, pyval) dict \<Rightarrow> string option" "pyval \<Rightarrow> string"
      timestamp timestamp principal uuid "(string, pyval) dict"
  | Fail timestamp timestamp principal uuid "(string, pyval) dict" "string option"

fun serve :: "dispatch_call \<Rightarrow> dispatch_db \<Rightarrow> dispatch_db" where
  "serve (Create txt n m i a st si rt p pr ru no) db = snd (create_dispatch txt n m i a st si rt p pr ru no db)"
| "serve (Update txt n m i a pref) db = snd (request_update txt n m i a pref db)"
| "serve (Uninstall txt n m i a) db = snd (request_uninstall txt n m i a db)"
| "serve (Ack n m pl i r) db = snd (request_ack n m pl i r db)"
| "serve (Event pl i t p) db = snd (request_event pl i t p db)"
| "serve (Progress n m pl i r e s) db = snd (request_progress n m pl i r e s db)"
| "serve (Complete persist txt n m pl i r) db = snd (request_complete persist txt n m pl i r db)"
| "serve (Fail n m pl i r e) db = snd (request_fail n m pl i r e db)"

text \<open>Every call leaves the events or appends one event of one dispatch.\<close>

definition events_step :: "dispatch_db \<Rightarrow> dispatch_db \<Rightarrow> bool" where
  "events_step db db' \<longleftrightarrow> xd_events db' = xd_events db
     \<or> (\<exists>i t p db1. xd_events db1 = xd_events db \<and> xd_events db' = xd_events (snd (append_dispatch_event i t p db1)))"

lemma with_dispatch_events:
  assumes "\<And>d db. events_step db (snd (f d db))"
  shows "events_step db (snd (with_dispatch pl i f db))"
proof -
  have "events_step db db" by (simp add: events_step_def)
  with assms show ?thesis
    by (auto simp: with_dispatch_def in_transaction_def split: option.splits sum.splits prod.splits) (metis snd_conv)
qed

lemma report_events [simp]:
  "xd_events (snd (ack_dispatch n m r d db)) = xd_events db"
  "xd_events (snd (progress_dispatch n m r e s d db)) = xd_events db"
  "xd_events (snd (complete_dispatch n m r d db)) = xd_events db"
  "xd_events (snd (fail_dispatch n m r e d db)) = xd_events db"
  by (simp_all add: ack_dispatch_def progress_dispatch_def complete_dispatch_def fail_dispatch_def Let_def put_dispatch_def
      sync_dispatch_targets_def)

lemma title_events: "events_step db (conversation_title_event persist txt d db)"
  by (auto simp: conversation_title_event_def events_step_def Let_def split: option.splits)

lemma create_events [simp]:
  "xd_events (snd (create_dispatch txt n m i a st si rt p pr ru no db)) = xd_events db"
  "xd_events (snd (create_maintenance_dispatch txt n m i a act p db)) = xd_events db"
  by (auto simp: create_dispatch_def create_maintenance_dispatch_def Let_def split: option.splits sum.splits)

lemma in_transaction_keeps:
  "(\<And>s. g (snd (f s)) = g s) \<Longrightarrow> g (snd (in_transaction f s)) = g s"
  by (auto simp: in_transaction_def split: prod.splits sum.splits) (metis snd_conv)

lemma serve_events: "events_step db (serve c db)"
proof (cases c)
  case (Complete persist str_of n m pl i r)
  have "events_step db (snd (case complete_dispatch n m r d db of (d', db') \<Rightarrow> (d', conversation_title_event persist str_of d' db')))"
    for d db
    using title_events[of "snd (complete_dispatch n m r d db)" persist str_of "fst (complete_dispatch n m r d db)"]
      report_events(3)[of n m r d db]
    by (auto simp: events_step_def case_prod_beta)
  then show ?thesis using Complete by (simp add: request_complete_def with_dispatch_events)
next
  case (Event pl i t p)
  have "events_step db (snd (append_dispatch_event i t p db))" for i t p db by (auto simp: events_step_def)
  then show ?thesis using Event by (simp add: request_event_def with_dispatch_events)
qed (auto simp: request_ack_def request_progress_def request_fail_def request_update_def request_uninstall_def
    events_step_def in_transaction_keeps[of xd_events] intro!: with_dispatch_events[unfolded events_step_def])

lemma append_event_ok:
  assumes "events_ok db" and "xd_events db1 = xd_events db"
    and "xd_events db' = xd_events (snd (append_dispatch_event i t p db1))"
  shows "events_ok db'"
proof -
  have log: "dispatch_log j db' = dispatch_log j db @ (if j = i then [fst (append_dispatch_event i t p db1)] else [])" for j
    using assms(2,3) by (simp add: dispatch_log_def append_dispatch_event_def Let_def)
  have seq: "ev_sequence_number (fst (append_dispatch_event i t p db1)) = length (dispatch_log i db) + 1"
    using assms(2) by (simp add: dispatch_log_def append_dispatch_event_def Let_def)
  show ?thesis using assms(1) by (simp add: events_ok_def log seq)
qed

interpretation event_stream: invariant_machine "fun_step serve" events_ok
proof unfold_locales
  fix db c db' assume ok: "events_ok db" and "fun_step serve db c db'"
  then have "events_step db db'" using serve_events[of db c] by (simp add: fun_step_def)
  then show "events_ok db'" unfolding events_step_def
  proof (elim disjE exE conjE)
    assume "xd_events db' = xd_events db"
    with ok show ?thesis by (simp add: events_ok_def dispatch_log_def)
  qed (rule append_event_ok[OF ok])
qed

lemma run_events_prefix:
  "run_of (fun_step serve) db calls db' \<Longrightarrow> \<exists>new. xd_events db' = xd_events db @ new"
proof (induction rule: run_of.induct)
  case (run_snoc s es s' e s'')
  then have "events_step s' s''" using serve_events[of s' e] by (simp add: fun_step_def)
  then have "\<exists>new. xd_events s'' = xd_events s' @ new"
    by (auto simp: events_step_def append_dispatch_event_def Let_def)
  with run_snoc.IH show ?case by force
qed simp

lemma list_events_drop:
  assumes "events_ok db"
  shows "list_dispatch_events i k db = drop (nat k) (dispatch_log i db)"
proof -
  let ?l = "dispatch_log i db"
  have seq: "map ev_sequence_number ?l = [1..<length ?l + 1]" using assms by (simp add: events_ok_def)
  have nth: "ev_sequence_number (?l ! j) = j + 1" if "j < length ?l" for j
    using that arg_cong[OF seq, of "\<lambda>xs. xs ! j"] by (simp del: upt_Suc)
  have "filter (\<lambda>e. int (ev_sequence_number e) > max k 0) ?l = drop (nat k) ?l"
  proof -
    have split: "filter P ?l = filter P (take (nat k) ?l) @ filter P (drop (nat k) ?l)" for P
      by (metis append_take_drop_id filter_append)
    have "filter (\<lambda>e. int (ev_sequence_number e) > max k 0) (take (nat k) ?l) = []"
      using nth by (auto simp: filter_empty_conv in_set_conv_nth)
    moreover have "filter (\<lambda>e. int (ev_sequence_number e) > max k 0) (drop (nat k) ?l) = drop (nat k) ?l"
      using nth by (auto simp: filter_id_conv in_set_conv_nth)
    ultimately show ?thesis by (simp add: split)
  qed
  moreover have "sorted (map ev_sequence_number (drop (nat k) ?l))"
    unfolding drop_map[symmetric] seq by (simp del: upt_Suc)
  moreover have "list_dispatch_events i k db = sort_key ev_sequence_number (filter (\<lambda>e. int (ev_sequence_number e) > max k 0) ?l)"
    by (simp add: list_dispatch_events_def dispatch_log_def conj_commute)
  ultimately show ?thesis by (simp add: sort_key_id_if_sorted)
qed
text \<open>A host cannot report on a dispatch of another binding.\<close>

lemma foreign_dispatch_rejected:
  assumes "distinct (map dp_dispatch_id (xd_dispatches db))" and "d \<in> set (xd_dispatches db)"
    and "dp_binding_id d \<noteq> pl_binding_id pl"
  shows "\<exists>code detail. with_dispatch pl (dp_dispatch_id d) f db = (Inl (ExternalHTTPException code detail), db)"
proof -
  have "x = d" if "x \<in> set (xd_dispatches db)" "dp_dispatch_id x = dp_dispatch_id d" for x
    using that assms(1,2) by (metis distinct_map inj_onD)
  then have "get_dispatch_for_binding (pl_binding_id pl) (dp_dispatch_id d) db = Inl (ExternalHTTPException 404 ''Dispatch not found'')"
    using assms(3) by (auto simp: get_dispatch_for_binding_def find_None_iff split: option.splits dest!: find_Some_in)
  then show ?thesis
    by (auto simp: with_dispatch_def in_transaction_def split: option.splits dest!: find_binding_in)
qed

subsection \<open>Concrete rows\<close>

definition sample_dispatch :: dispatch where
  "sample_dispatch = new_dispatch 10 11 8 5 3 ''execution_node'' (uuid_str 5) ''remote_session'' [] (Some 9) (Some 1) (Some 5)"

definition sample_dispatch_db :: dispatch_db where
  "sample_dispatch_db = \<lparr>xd_hosts = hs_db sample_bound_system, xd_runs = sample_run_db ''running'' ''assigned'',
     xd_dispatches = [sample_dispatch], xd_events = []\<rparr>"

lemma sample_dispatch_node [simp]: "dispatch_node sample_dispatch (xd_runs sample_dispatch_db) = Some (sample_node 5 3 ''assigned'')"
  by (simp add: dispatch_node_def sample_dispatch_def new_dispatch_def sample_dispatch_db_def find_node_def sample_run_db_def
      sample_node_def)

lemma sample_dispatch_run [simp]: "find_run 1 (xd_runs sample_dispatch_db) = Some (sample_run ''running'')"
  "dp_run_id sample_dispatch = Some 1"
  by (simp_all add: sample_dispatch_db_def sample_dispatch_def new_dispatch_def del: One_nat_def)

text \<open>A progress report that arrives after the completion reopens the run and the dispatch.\<close>

lemma late_progress_reopens:
  "let (d, db) = complete_dispatch 50 51 [] sample_dispatch sample_dispatch_db;
       (d', db') = progress_dispatch 60 61 [] None ''running'' d db
   in map_option pr_status (find_run 1 (xd_runs db)) = Some ''completed'' \<and> dp_status d' = ''running''
    \<and> map_option pr_status (find_run 1 (xd_runs db')) = Some ''running''"
  by code_simp

subsection \<open>Properties\<close>

text \<open>C23: When a host reports the completion of a dispatch, the dispatch and its node are completed. Its run keeps its
  status if it is terminal (cancelled, say), if some task of it is unfinished, or if it has no task and was never
  started; otherwise it ends as failed when a task or a node of it failed, and as completed when none did. If the
  node was the last unfinished one of the run, every task of the run that has a node is completed, and so is the
  run, with a completion time, unless it was terminal, has a task without a node, or has no task and was never
  started.\<close>

theorem last_completion_finishes_run:
  assumes "dp_run_id d = Some rid" and "find_run rid (xd_runs db) = Some run"
    and "complete_dispatch now db_now result d db = (d', db')"
  shows "dp_status d' = ''completed'' \<and> dp_completed_at d' = Some now
    \<and> (\<forall>n. dispatch_node d (xd_runs db) = Some n \<longrightarrow>
         (\<exists>n'. find_node (en_id n) (xd_runs db') = Some n' \<and> en_status n' = ''completed'' \<and> en_completed_at n' = Some now))
    \<and> (\<exists>run'. find_run rid (xd_runs db') = Some run' \<and> run_decided rid run run' (xd_runs db')
         \<and> (\<forall>n. dispatch_node d (xd_runs db) = Some n \<and> others_completed rid n (xd_runs db) \<longrightarrow>
              (\<forall>t \<in> set (rd_tasks (xd_runs db')). tk_run t = Some rid \<and> has_node rid (tk_id t) (xd_runs db) \<longrightarrow>
                 tk_status t = ''completed'')
              \<and> (normalize_status (pr_status run) \<notin> set TERMINAL_RUN_STATUSES \<and> run_covered rid (xd_runs db)
                 \<and> (pr_started_at run \<noteq> None \<or> (\<exists>t \<in> set (rd_tasks (xd_runs db)). tk_run t = Some rid)) \<longrightarrow>
                   pr_status run' = ''completed'' \<and> pr_completed_at run' \<noteq> None)))"
  by (rule complete_dispatch_result[OF assms])

theorem last_completion_finishes_run_witness:
  "\<exists>run'. find_run 1 (xd_runs (snd (complete_dispatch 50 51 [] sample_dispatch sample_dispatch_db))) = Some run'
     \<and> pr_status run' = ''completed''"
proof -
  have "normalize_status (pr_status (sample_run ''running'')) \<notin> set TERMINAL_RUN_STATUSES" by code_simp
  moreover have "others_completed 1 (sample_node 5 3 ''assigned'') (xd_runs sample_dispatch_db)"
    "run_covered 1 (xd_runs sample_dispatch_db)" "\<exists>t \<in> set (rd_tasks (xd_runs sample_dispatch_db)). tk_run t = Some 1"
    by code_simp+
  ultimately show ?thesis
    using last_completion_finishes_run[OF sample_dispatch_run(2,1) prod.collapse[symmetric], of 50 51 "[]"] sample_dispatch_node
    by blast
qed

text \<open>C24: When a host reports a failure, the dispatch, its node and its run are failed, whatever their state was,
  and the run carries the error message of the dispatch.\<close>

theorem failure_report_fails_run:
  assumes "dp_run_id d = Some rid" and "find_run rid (xd_runs db) = Some run"
    and "fail_dispatch now db_now result msg d db = (d', db')"
  shows "dp_status d' = ''failed''
    \<and> (\<exists>run'. find_run rid (xd_runs db') = Some run' \<and> pr_status run' = ''failed'' \<and> pr_completed_at run' \<noteq> None
          \<and> pr_error_message run' = dp_error_message d')
    \<and> (\<forall>n. dispatch_node d (xd_runs db) = Some n \<longrightarrow>
          (\<exists>n'. find_node (en_id n) (xd_runs db') = Some n' \<and> en_status n' = ''failed''))"
  by (rule fail_dispatch_result[OF assms])

theorem failure_report_fails_run_witness:
  "\<exists>run'. find_run 1 (xd_runs (snd (fail_dispatch 50 51 [] (Some ''boom'') sample_dispatch sample_dispatch_db))) = Some run'
     \<and> pr_status run' = ''failed''"
  using failure_report_fails_run[OF sample_dispatch_run(2,1) prod.collapse[symmetric], of 50 51 "[]" "Some ''boom''"] by blast

text \<open>A reader of the events of a dispatch who asks for those after the last one it has seen misses none
  and sees none twice, whatever requests are served in between.\<close>

theorem event_stream_resumes:
  assumes "events_ok db" and "run_of (fun_step serve) db calls db'"
  shows "list_dispatch_events i 0 db @ list_dispatch_events i (int (length (list_dispatch_events i 0 db))) db'
    = list_dispatch_events i 0 db'"
proof -
  note ok' = event_stream.run_inv[OF assms(2,1)]
  obtain new where "xd_events db' = xd_events db @ new" using run_events_prefix[OF assms(2)] by blast
  then show ?thesis by (simp add: list_events_drop assms(1) ok' dispatch_log_def)
qed

theorem event_stream_resumes_witness:
  "let db = sample_dispatch_db; pl = \<lparr>pl_binding_id = 3, pl_agent_id = 5\<rparr>;
       db' = fold serve [Event pl 8 ''log'' [], Event pl 8 [] []] db
   in list_dispatch_events 8 0 db @ list_dispatch_events 8 (int (length (list_dispatch_events 8 0 db))) db'
      = list_dispatch_events 8 0 db' \<and> map ev_event_type (list_dispatch_events 8 0 db') = [''log'', ''info'']"
proof -
  let ?calls = "[Event \<lparr>pl_binding_id = 3, pl_agent_id = 5\<rparr> 8 ''log'' [], Event \<lparr>pl_binding_id = 3, pl_agent_id = 5\<rparr> 8 [] []]"
  have "events_ok sample_dispatch_db" by (simp add: events_ok_def dispatch_log_def sample_dispatch_db_def)
  moreover have "run_of (fun_step serve) sample_dispatch_db ?calls (fold serve ?calls sample_dispatch_db)"
    by (simp only: run_of_fun_step)
  moreover have "map ev_event_type (list_dispatch_events 8 0 (fold serve ?calls sample_dispatch_db)) = [''log'', ''info'']"
    by code_simp
  ultimately show ?thesis using event_stream_resumes unfolding Let_def by blast
qed

end
