(* ===== verification/Agent_Provisioning.thy ===== *)
theory Agent_Provisioning
  imports Assignment Runtime_Binding
begin

section \<open>Choosing or creating the agent of a step (\<open>project_execution/agent_provisioner.py\<close>)\<close>

text \<open>
  A step of a run needs an agent. The provisioner scores the agents of the project's pool that the
  user may execute and whose runtime suits the step, and takes the best; a step that needs an
  external runtime only takes an agent whose host is online. When the pool offers none it creates a
  temporary agent, unless the step needs an external runtime. The scores combine the skills
  (\<open>capability_mapper.py\<close>), the load (\<open>load_balancer.py\<close>, a copy of the module of the same name in
  \<open>task_manager\<close>, whose model \<open>Assignment.select_agent\<close> is used), the type, the runtime and the
  binding. \<open>rank\<close> is the collation of the database, \<open>txt\<close> the text of a float or container, \<open>fmt1\<close> the
  text of a score with one decimal. The rows of the agents hold the columns the modelled code
  reads or writes.
\<close>

subsection \<open>Capabilities (\<open>capability_mapper.py\<close>)\<close>

definition project_capability_synonyms :: "(string, string list) dict" where
  "project_capability_synonyms =
     [(''data_analysis'', [''data_analyst'', ''analyst'', ''statistics'', ''data_processing'']),
      (''content_writing'', [''writer'', ''content_writer'', ''copywriter'', ''editor'']),
      (''code_generation'', [''coder'', ''programmer'', ''developer'', ''code_assistant'']),
      (''research'', [''researcher'', ''research_assistant'', ''information_gathering'']),
      (''sql_query'', [''database'', ''sql'', ''data_query'']),
      (''implementation'', [''implementation'', ''coding'', ''developer'', ''code_generation'']),
      (''review'', [''review'', ''qa'', ''verification'', ''testing'']),
      (''ops'', [''ops'', ''shell'', ''deployment'', ''host_execution''])]"

definition standard_project_capability :: "(pyval \<Rightarrow> string) \<Rightarrow> pyval \<Rightarrow> string option" where
  "standard_project_capability txt req =
     (let req_lower = py_strip (py_lower (if py_truthy req then py_text txt req else []))
      in if req_lower = [] then None
         else case find (\<lambda>(standard, synonyms). req_lower = standard \<or> req_lower \<in> set synonyms)
                project_capability_synonyms of
                Some (standard, _) \<Rightarrow> Some standard
              | None \<Rightarrow> Some req_lower)"

definition map_project_capabilities :: "(pyval \<Rightarrow> string) \<Rightarrow> pyval list \<Rightarrow> string list" where
  "map_project_capabilities txt reqs = dedup (List.map_filter (standard_project_capability txt) reqs)"

definition project_match_score :: "(pyval \<Rightarrow> string) \<Rightarrow> pyval list \<Rightarrow> pyval list \<Rightarrow> real" where
  "project_match_score txt required available =
     (if required = [] then 1
      else let required_set = set (map_project_capabilities txt required);
               available_set = set (map_project_capabilities txt available)
           in if required_set = {} then 1
              else if available_set = {} then 0
              else real (card (required_set \<inter> available_set)) / real (card required_set))"

subsection \<open>Tables\<close>

record project_agent =
  pa_id :: uuid
  pa_name :: string
  pa_type :: string
  pa_owner :: uuid
  pa_capabilities :: pyval
  pa_status :: string
  pa_llm_provider :: "string option"
  pa_llm_model :: "string option"
  pa_system_prompt :: "string option"
  pa_temperature :: "real option"
  pa_max_tokens :: "int option"
  pa_access_level :: "string option"
  pa_department :: "uuid option"
  pa_is_ephemeral :: bool
  pa_lifecycle_scope :: "string option"
  pa_runtime_preference :: "string option"
  pa_project_scope :: "uuid option"
  pa_retired_at :: "timestamp option"
  pa_created_at :: timestamp

record pool_binding =
  pb_project :: uuid
  pb_agent :: uuid
  pb_status :: string
  pb_allowed_step_kinds :: "string list"

record provisioning_profile =
  pf_project :: uuid
  pf_step_kind :: string
  pf_agent_type :: string
  pf_default_skill_ids :: "string list"
  pf_default_provider :: "string option"
  pf_default_model :: "string option"
  pf_runtime_type :: string
  pf_temperature :: "real option"
  pf_max_tokens :: "int option"
  pf_created_at :: timestamp

record pool_db =
  po_agents :: "project_agent list"
  po_departments :: "department_row list"
  po_users :: "user_row list"
  po_projects :: "(uuid, string) dict"
  po_bindings :: "pool_binding list"
  po_profiles :: "provisioning_profile list"
  po_tasks :: "task_row list"

text \<open>The columns of an agent that \<open>access_control/agent_access.py\<close> reads.\<close>

definition access_row :: "project_agent \<Rightarrow> agent_row" where
  "access_row a =
     \<lparr>ag_id = pa_id a, ag_name = pa_name a, ag_owner = pa_owner a, ag_capabilities = pa_capabilities a,
      ag_status = pa_status a, ag_access_level = pa_access_level a, ag_department = pa_department a,
      ag_retired_at = pa_retired_at a, ag_created_at = pa_created_at a\<rparr>"

definition access_view :: "pool_db \<Rightarrow> access_db" where
  "access_view db =
     \<lparr>adb_departments = po_departments db, adb_users = po_users db, adb_agents = map access_row (po_agents db)\<rparr>"

definition find_agent :: "uuid \<Rightarrow> pool_db \<Rightarrow> project_agent option" where
  "find_agent i db = find (\<lambda>a. pa_id a = i) (po_agents db)"

text \<open>\<open>list_accessible_agents\<close> returns rows of the agents table; here, the rows it is a view of.\<close>

definition accessible_agents :: "(string \<Rightarrow> int) \<Rightarrow> pool_db \<Rightarrow> current_user \<Rightarrow> string list \<Rightarrow> project_agent list" where
  "accessible_agents rank db u statuses =
     List.map_filter (\<lambda>r. find_agent (ag_id r) db)
       (list_accessible_agents rank (access_view db) u AccessExecute statuses [] False)"

datatype provision_error =
    ProjectExternalRuntimeUnavailableError string
  | ProvisionPyError py_error
  | ProvisionExternalError external_error

record selection =
  se_agent_id :: uuid
  se_agent_name :: string
  se_score :: real
  se_selection_reason :: string
  se_provisioned_agent :: bool
  se_step_kind :: string
  se_required_capabilities :: "pyval list"
  se_runtime_type :: string

definition INTERNAL_RUNTIME_TYPES :: "string list" where
  "INTERNAL_RUNTIME_TYPES = [''project_sandbox'']"

definition DEFAULT_STEP_SKILLS :: "(string, string list) dict" where
  "DEFAULT_STEP_SKILLS =
     [(''research'', [''research'', ''knowledge_retrieval'', ''planning'']),
      (''writing'', [''writing'', ''documentation'', ''planning'']),
      (''implementation'', [''implementation'', ''code_execution'', ''planning'']),
      (''review'', [''review'', ''qa'', ''planning'']),
      (''qa'', [''qa'', ''verification'', ''planning'']),
      (''ops'', [''ops'', ''shell'', ''planning'']),
      (''host_action'', [''ops'', ''shell'', ''host_execution''])]"

definition DEFAULT_AGENT_TYPE :: "(string, string) dict" where
  "DEFAULT_AGENT_TYPE =
     [(''research'', ''project_research_agent''), (''writing'', ''project_writing_agent''),
      (''implementation'', ''project_implementation_agent''), (''review'', ''project_review_agent''),
      (''qa'', ''project_qa_agent''), (''ops'', ''project_ops_agent''),
      (''host_action'', ''project_external_ops_agent'')]"

definition DEFAULT_RUNTIME_TYPE :: "(string, string) dict" where
  "DEFAULT_RUNTIME_TYPE = [(''host_action'', ''external_worktree'')]"

definition default_required_capabilities :: "string \<Rightarrow> string list" where
  "default_required_capabilities step_kind =
     (case dict_get DEFAULT_STEP_SKILLS step_kind of
        Some s \<Rightarrow> s
      | None \<Rightarrow> [''implementation'', ''code_execution'', ''planning''])"

subsection \<open>Selecting an agent of the pool\<close>

definition requires_external_runtime :: "string list \<Rightarrow> bool" where
  "requires_external_runtime desired \<longleftrightarrow> list_ex (\<lambda>t. t \<in> set EXTERNAL_RUNTIME_TYPES) desired"

definition default_runtime_types_for_step :: "string \<Rightarrow> string list" where
  "default_runtime_types_for_step step_kind =
     (if step_kind = ''host_action'' then [''external_worktree'', ''external_same_dir'', ''remote_session'']
      else [''project_sandbox''])"

text \<open>\<open>str(agent.runtime_preference or fallback)\<close>.\<close>

definition preference_or :: "string \<Rightarrow> project_agent \<Rightarrow> string" where
  "preference_or fallback a = (if opt_text (pa_runtime_preference a) = [] then fallback else opt_text (pa_runtime_preference a))"

definition agent_runtime_compatible :: "project_agent \<Rightarrow> string list \<Rightarrow> bool" where
  "agent_runtime_compatible a desired =
     (let stripped = py_strip (preference_or ''project_sandbox'' a);
          runtime_preference = (if stripped = [] then ''project_sandbox'' else stripped)
      in if runtime_preference \<in> set desired then True
         else runtime_preference = ''project_sandbox'' \<and> list_ex (\<lambda>t. t \<in> set INTERNAL_RUNTIME_TYPES) desired)"

definition agent_state :: "(pyval \<Rightarrow> string) \<Rightarrow> timestamp \<Rightarrow> host_db \<Rightarrow> project_agent \<Rightarrow> runtime_state option" where
  "agent_state txt now hosts a = summarize_state txt now (pa_id a) (pa_runtime_preference a) hosts"

definition runtime_available :: "(pyval \<Rightarrow> string) \<Rightarrow> timestamp \<Rightarrow> host_db \<Rightarrow> string list \<Rightarrow> project_agent \<Rightarrow> bool" where
  "runtime_available txt now hosts desired a \<longleftrightarrow>
     \<not> requires_external_runtime desired
     \<or> (case agent_state txt now hosts a of None \<Rightarrow> False | Some st \<Rightarrow> rs_available_for_execution st)"

definition project_bindings :: "uuid \<Rightarrow> pool_db \<Rightarrow> pool_binding list" where
  "project_bindings project_id db =
     filter (\<lambda>b. pb_project b = project_id \<and> pb_status b = ''active'') (po_bindings db)"

definition binding_map :: "pool_binding list \<Rightarrow> (uuid, pool_binding) dict" where
  "binding_map bs = fold (\<lambda>b d. dict_set (pb_agent b) b d) bs []"

definition bound_runtime_candidates ::
    "(string \<Rightarrow> int) \<Rightarrow> uuid \<Rightarrow> current_user \<Rightarrow> string list \<Rightarrow> pool_db \<Rightarrow> project_agent list" where
  "bound_runtime_candidates rank project_id u desired db =
     filter (\<lambda>a. dict_get (binding_map (project_bindings project_id db)) (pa_id a) \<noteq> None
                 \<and> agent_runtime_compatible a desired)
       (accessible_agents rank db u [''idle'', ''active'', ''working'', ''busy''])"

definition normalized_suggestions :: "string list \<Rightarrow> string list" where
  "normalized_suggestions ids = filter (\<lambda>s. s \<noteq> []) (map py_strip ids)"

definition preferred_candidates :: "string list \<Rightarrow> project_agent list \<Rightarrow> project_agent list" where
  "preferred_candidates suggested candidates =
     (let ids = normalized_suggestions suggested;
          preferred = filter (\<lambda>a. uuid_str (pa_id a) \<in> set ids) candidates
      in if ids \<noteq> [] \<and> preferred \<noteq> [] then preferred else candidates)"

text \<open>The bonus for the load: a failing load balancer does not fail the selection.\<close>

definition load_bonus ::
    "timestamp \<Rightarrow> task_row list \<Rightarrow> current_user \<Rightarrow> uuid \<Rightarrow> load_balancer \<Rightarrow> real \<times> load_balancer" where
  "load_bonus now tasks u agent_id lb =
     (case parse_uuid (cu_user_id u) of
        None \<Rightarrow> (6/10, lb)
      | Some _ \<Rightarrow>
          (case select_agent now tasks lb [agent_id] of
             (Inl _, lb') \<Rightarrow> (6/10, lb')
           | (Inr load_pick, lb') \<Rightarrow> (if load_pick = Some agent_id then 1 else 4/10, lb')))"

definition capability_values :: "pyval \<Rightarrow> pyval list" where
  "capability_values v = (case v of PList xs \<Rightarrow> xs | _ \<Rightarrow> [])"

text \<open>The score but for the load: what the step, the agent and its binding give.\<close>

definition suitability ::
    "(pyval \<Rightarrow> string) \<Rightarrow> string \<Rightarrow> pyval list \<Rightarrow> string list \<Rightarrow> pool_binding \<Rightarrow> project_agent \<Rightarrow> real" where
  "suitability txt step_kind required desired b a =
     (let skill_score = project_match_score txt required (capability_values (pa_capabilities a));
          type_bonus = (if py_substr step_kind (pa_type a) then 1 else 0);
          history_success = 1/2;
          runtime_bonus = (if preference_or ''project_sandbox'' a \<in> set desired then 1 else 1/2);
          binding_bonus = (if pb_allowed_step_kinds b = [] \<or> step_kind \<in> set (pb_allowed_step_kinds b)
                           then 1 else 2/10)
      in skill_score * 35 + type_bonus * 20 + history_success * 15 + runtime_bonus * 10 + binding_bonus * 10)"

fun score_agents ::
    "timestamp \<Rightarrow> task_row list \<Rightarrow> current_user \<Rightarrow> (project_agent \<Rightarrow> real) \<Rightarrow> load_balancer
      \<Rightarrow> project_agent list \<Rightarrow> (real \<times> project_agent) list" where
  "score_agents now tasks u suits lb [] = []"
| "score_agents now tasks u suits lb (a # as) =
     (case load_bonus now tasks u (pa_id a) lb of
        (bonus, lb') \<Rightarrow> (suits a + bonus * 10, a) # score_agents now tasks u suits lb' as)"

text \<open>No host of the candidates can take the step; the first check that applies is reported.\<close>

definition unavailable_error :: "runtime_state option list \<Rightarrow> provision_error option" where
  "unavailable_error states =
     (if list_ex (\<lambda>s. case s of None \<Rightarrow> False | Some st \<Rightarrow> \<not> rs_runtime_compatible st) states
      then Some (ProjectExternalRuntimeUnavailableError
             ''External Runtime Host must be upgraded before this host-action step can run.'')
      else if list_ex (\<lambda>s. case s of None \<Rightarrow> False
                        | Some st \<Rightarrow> rs_status st \<in> {''offline'', ''error'', ''uninstalled''}) states
      then Some (ProjectExternalRuntimeUnavailableError
             ''External Runtime Host is bound for this host-action step but is not currently available.'')
      else None)"

definition select_bound_agent ::
    "(pyval \<Rightarrow> string) \<Rightarrow> (real \<Rightarrow> string) \<Rightarrow> (string \<Rightarrow> int) \<Rightarrow> timestamp \<Rightarrow> host_db \<Rightarrow> uuid \<Rightarrow> string
      \<Rightarrow> pyval list \<Rightarrow> current_user \<Rightarrow> string list \<Rightarrow> string list \<Rightarrow> pool_db
      \<Rightarrow> provision_error + selection option" where
  "select_bound_agent txt fmt1 rank now hosts project_id step_kind required u desired suggested db =
     (if project_bindings project_id db = [] then Inr None
      else
        let bmap = binding_map (project_bindings project_id db);
            bound = bound_runtime_candidates rank project_id u desired db;
            candidates = filter (runtime_available txt now hosts desired) bound
        in if candidates = [] then
             (if requires_external_runtime desired \<and> bound \<noteq> []
              then (case unavailable_error (map (agent_state txt now hosts) bound) of
                      Some e \<Rightarrow> Inl e | None \<Rightarrow> Inr None)
              else Inr None)
           else
             let chosen = preferred_candidates suggested candidates;
                 suits = (\<lambda>a. case dict_get bmap (pa_id a) of None \<Rightarrow> 0
                            | Some b \<Rightarrow> suitability txt step_kind required desired b a);
                 scored = sort_key (\<lambda>x. - fst x)
                   (score_agents now (po_tasks db) u suits (new_load_balancer 3) chosen);
                 (best_score, best_agent) = hd scored
             in Inr (Some \<lparr>se_agent_id = pa_id best_agent, se_agent_name = pa_name best_agent,
                  se_score = best_score,
                  se_selection_reason = ''Selected from project binding pool for '' @ step_kind
                    @ '' with score '' @ fmt1 best_score,
                  se_provisioned_agent = False, se_step_kind = step_kind,
                  se_required_capabilities = required,
                  se_runtime_type = preference_or (hd desired) best_agent\<rparr>))"

subsection \<open>Creating a temporary agent\<close>

definition find_profile :: "uuid \<Rightarrow> string \<Rightarrow> pool_db \<Rightarrow> provisioning_profile option" where
  "find_profile project_id step_kind db =
     max_by pf_created_at (filter (\<lambda>p. pf_project p = project_id \<and> pf_step_kind p = step_kind) (po_profiles db))"

definition provision_runtime_type :: "provisioning_profile option \<Rightarrow> string \<Rightarrow> string list \<Rightarrow> string" where
  "provision_runtime_type profile step_kind desired =
     (let fallback = (case dict_get DEFAULT_RUNTIME_TYPE step_kind of Some t \<Rightarrow> t | None \<Rightarrow> hd desired)
      in case profile of None \<Rightarrow> fallback
         | Some p \<Rightarrow> if pf_runtime_type p = [] then fallback else pf_runtime_type p)"

text \<open>The row that \<open>AgentRegistry.register_agent\<close> stores, and the update to \<open>idle\<close> that follows.\<close>

definition ephemeral_agent ::
    "timestamp \<Rightarrow> uuid \<Rightarrow> uuid \<Rightarrow> uuid \<Rightarrow> string \<Rightarrow> string \<Rightarrow> pyval list \<Rightarrow> string \<Rightarrow> provisioning_profile option
      \<Rightarrow> project_agent" where
  "ephemeral_agent db_now new_id owner project_id name step_kind capabilities runtime_type profile =
     \<lparr>pa_id = new_id, pa_name = name,
      pa_type = (let t = (case profile of None \<Rightarrow> [] | Some p \<Rightarrow> pf_agent_type p)
                 in if t \<noteq> [] then t
                    else case dict_get DEFAULT_AGENT_TYPE step_kind of Some d \<Rightarrow> d | None \<Rightarrow> ''project_temp_agent''),
      pa_owner = owner, pa_capabilities = PList capabilities, pa_status = ''idle'',
      pa_llm_provider = Option.bind profile pf_default_provider,
      pa_llm_model = Option.bind profile pf_default_model,
      pa_system_prompt = Some (''You are a temporary '' @ step_kind
        @ '' agent for the LinX project execution platform. '' @ ''Your runtime type is '' @ runtime_type
        @ ''. '' @ ''Complete the assigned step and leave concrete outputs and summaries.''),
      pa_temperature = Some (case Option.bind profile pf_temperature of Some t \<Rightarrow> t | None \<Rightarrow> 2/10),
      pa_max_tokens = Some (case Option.bind profile pf_max_tokens of Some m \<Rightarrow> m | None \<Rightarrow> 4000),
      pa_access_level = Some (normalize_agent_access_level (Some ''private'')), pa_department = None,
      pa_is_ephemeral = True, pa_lifecycle_scope = Some ''current_run'',
      pa_runtime_preference = Some runtime_type, pa_project_scope = Some project_id,
      pa_retired_at = None, pa_created_at = db_now\<rparr>"

text \<open>\<open>new_id\<close> is the id of the new row; the middle dot of the name is code point 183.\<close>

definition ephemeral_agent_name :: "uuid \<Rightarrow> string \<Rightarrow> string \<Rightarrow> uuid \<Rightarrow> pool_db \<Rightarrow> string" where
  "ephemeral_agent_name project_id step_kind scope_label run_id db =
     (let dot = CHR '' '' # char_of (183 :: nat) # '' ''
      in (case dict_get (po_projects db) project_id of Some n \<Rightarrow> n | None \<Rightarrow> ''Project'')
         @ dot @ step_kind @ dot @ ''temp'' @ dot @ scope_label @ dot @ take 8 (uuid_str run_id))"

definition provision_ephemeral_agent ::
    "timestamp \<Rightarrow> uuid \<Rightarrow> uuid \<Rightarrow> string \<Rightarrow> pyval list \<Rightarrow> current_user \<Rightarrow> uuid \<Rightarrow> string list \<Rightarrow> pool_db
      \<Rightarrow> (provision_error + selection) \<times> pool_db" where
  "provision_ephemeral_agent db_now new_id project_id step_kind required u run_id desired db =
     (let profile = find_profile project_id step_kind db;
          runtime_type = provision_runtime_type profile step_kind desired
      in if runtime_type \<in> set EXTERNAL_RUNTIME_TYPES
         then (Inl (ProjectExternalRuntimeUnavailableError
                 (''No external runtime is configured for this host-action step. ''
                  @ ''Bind an external agent in the Project Agent Pool and install a Runtime Host.'')), db)
         else
           let capabilities = (case profile of None \<Rightarrow> required
                               | Some p \<Rightarrow> if pf_default_skill_ids p \<noteq> [] then map PStr (pf_default_skill_ids p)
                                           else required);
               scope_label = (if runtime_type \<in> set EXTERNAL_RUNTIME_TYPES then ''external'' else ''internal'');
               name = ephemeral_agent_name project_id step_kind scope_label run_id db
           in case parse_uuid (cu_user_id u) of
                None \<Rightarrow> (Inl (ProvisionPyError (ValueError ''badly formed hexadecimal UUID string'')), db)
              | Some owner \<Rightarrow>
                  (Inr \<lparr>se_agent_id = new_id, se_agent_name = name, se_score = 100,
                        se_selection_reason = ''Provisioned temporary '' @ scope_label @ '' '' @ step_kind
                          @ '' agent for this run'',
                        se_provisioned_agent = True, se_step_kind = step_kind,
                        se_required_capabilities = required, se_runtime_type = runtime_type\<rparr>,
                   db\<lparr>po_agents := po_agents db @
                     [ephemeral_agent db_now new_id owner project_id name step_kind capabilities runtime_type profile]\<rparr>))"

definition select_or_provision_agent ::
    "(pyval \<Rightarrow> string) \<Rightarrow> (real \<Rightarrow> string) \<Rightarrow> (string \<Rightarrow> int) \<Rightarrow> timestamp \<Rightarrow> timestamp \<Rightarrow> uuid \<Rightarrow> host_db \<Rightarrow> uuid
      \<Rightarrow> string \<Rightarrow> pyval list \<Rightarrow> current_user \<Rightarrow> uuid \<Rightarrow> string list option \<Rightarrow> string list \<Rightarrow> pool_db
      \<Rightarrow> (provision_error + selection) \<times> pool_db" where
  "select_or_provision_agent txt fmt1 rank now db_now new_id hosts project_id step_kind required u run_id
       required_runtime_types suggested db =
     (let desired = (case required_runtime_types of
                       Some (t # ts) \<Rightarrow> t # ts
                     | _ \<Rightarrow> default_runtime_types_for_step step_kind)
      in case select_bound_agent txt fmt1 rank now hosts project_id step_kind required u desired suggested db of
           Inl e \<Rightarrow> (Inl e, db)
         | Inr (Some selected) \<Rightarrow> (Inr selected, db)
         | Inr None \<Rightarrow> provision_ephemeral_agent db_now new_id project_id step_kind required u run_id desired db)"

subsection \<open>The scores\<close>

lemma insort_key_hd: "hd (insort_key f x ys) = (case ys of [] \<Rightarrow> x | y # _ \<Rightarrow> if f x \<le> f y then x else y)"
  by (cases ys) auto

lemma min_by_sort: "xs \<noteq> [] \<Longrightarrow> min_by f xs = Some (hd (sort_key f xs))"
proof (induction xs)
  case (Cons x xs)
  show ?case
  proof (cases "xs = []")
    case False
    with Cons.IH have "min_by f xs = Some (hd (sort_key f xs))" by simp
    moreover have "sort_key f xs \<noteq> []" using False by (metis length_0_conv length_sort)
    ultimately show ?thesis by (cases "sort_key f xs") (auto simp: insort_key_hd)
  qed simp
qed simp

lemma update_one_load:
  "update_agent_loads now tasks lb [i] =
     (case agent_load_of now tasks lb i of Inl e \<Rightarrow> (Some e, lb)
      | Inr l \<Rightarrow> (None, lb\<lparr>lb_agent_loads := dict_set i l (lb_agent_loads lb)\<rparr>))"
  by (simp split: sum.splits)

lemma agent_load_capacity:
  "lb_max_tasks_per_agent lb = lb_max_tasks_per_agent lb' \<Longrightarrow> agent_load_of now tasks lb i = agent_load_of now tasks lb' i"
  by (simp only: agent_load_of_def calculate_load_score_def)

lemma load_bonus_capacity:
  assumes "lb_max_tasks_per_agent lb = m"
  shows "fst (load_bonus now tasks u i lb) = fst (load_bonus now tasks u i (new_load_balancer m))"
    and "lb_max_tasks_per_agent (snd (load_bonus now tasks u i lb)) = m"
proof -
  have "agent_load_of now tasks lb i = agent_load_of now tasks (new_load_balancer m) i"
    using assms by (intro agent_load_capacity) (simp add: new_load_balancer_def)
  then show "fst (load_bonus now tasks u i lb) = fst (load_bonus now tasks u i (new_load_balancer m))"
    using assms by (simp add: load_bonus_def select_agent_def update_one_load load_or_default_def new_load_balancer_def
        split: option.splits sum.splits)
  show "lb_max_tasks_per_agent (snd (load_bonus now tasks u i lb)) = m"
    using assms by (simp add: load_bonus_def select_agent_def update_one_load split: option.splits sum.splits)
qed

text \<open>The total score of an agent, which does not depend on the agents scored before it.\<close>

definition total_score ::
    "timestamp \<Rightarrow> task_row list \<Rightarrow> current_user \<Rightarrow> (project_agent \<Rightarrow> real) \<Rightarrow> project_agent \<Rightarrow> real" where
  "total_score now tasks u suits a = suits a + fst (load_bonus now tasks u (pa_id a) (new_load_balancer 3)) * 10"

lemma score_agents_map:
  "lb_max_tasks_per_agent lb = 3 \<Longrightarrow>
     score_agents now tasks u suits lb as = map (\<lambda>a. (total_score now tasks u suits a, a)) as"
proof (induction as arbitrary: lb)
  case (Cons a as)
  obtain bonus lb' where p: "load_bonus now tasks u (pa_id a) lb = (bonus, lb')" by fastforce
  with load_bonus_capacity[OF Cons.prems, of now tasks u "pa_id a"]
  have "bonus = fst (load_bonus now tasks u (pa_id a) (new_load_balancer 3))" "lb_max_tasks_per_agent lb' = 3" by auto
  with Cons.IH show ?case by (simp only: score_agents.simps p prod.case list.map total_score_def)
qed simp

lemma load_bonus_range: "fst (load_bonus now tasks u i lb) \<in> {4/10, 6/10, 1}"
  by (auto simp: load_bonus_def split: option.splits prod.splits sum.splits)

lemma best_of_scores:
  assumes "as \<noteq> []"
    and "(best, a) = hd (sort_key (\<lambda>x. - fst x) (score_agents now tasks u suits (new_load_balancer 3) as))"
  shows "a \<in> set as" and "best = total_score now tasks u suits a"
    and "\<And>b. b \<in> set as \<Longrightarrow> total_score now tasks u suits b \<le> best"
proof -
  let ?sc = "map (\<lambda>a. (total_score now tasks u suits a, a)) as"
  have "score_agents now tasks u suits (new_load_balancer 3) as = ?sc"
    by (rule score_agents_map) (simp add: new_load_balancer_def)
  with assms(2) have "(best, a) = hd (sort_key (\<lambda>x. - fst x) ?sc)" by simp
  moreover have "?sc \<noteq> []" using assms(1) by simp
  ultimately have m: "min_by (\<lambda>x. - fst x) ?sc = Some (best, a)" by (metis min_by_sort)
  from min_by_in[OF m] show "a \<in> set as" and "best = total_score now tasks u suits a" by auto
  show "total_score now tasks u suits b \<le> best" if "b \<in> set as" for b
    using min_by_le[OF m, of "(total_score now tasks u suits b, b)"] that by auto
qed

subsection \<open>The candidates\<close>

lemma binding_map_agents: "dict_get (binding_map bs) i \<noteq> None \<longleftrightarrow> i \<in> pb_agent ` set bs"
proof -
  have "dict_get (fold (\<lambda>b d. dict_set (pb_agent b) b d) bs d) i \<noteq> None
      \<longleftrightarrow> i \<in> pb_agent ` set bs \<or> dict_get d i \<noteq> None" for d
    by (induction bs arbitrary: d) auto
  then show ?thesis by (simp add: binding_map_def)
qed

lemma binding_map_binding: "dict_get (binding_map bs) i = Some b \<Longrightarrow> b \<in> set bs \<and> pb_agent b = i"
proof -
  have "dict_get (fold (\<lambda>b d. dict_set (pb_agent b) b d) bs d) i = Some b \<Longrightarrow>
      b \<in> set bs \<and> pb_agent b = i \<or> dict_get d i = Some b" for d
    by (induction bs arbitrary: d) (fastforce split: if_splits)+
  then show "dict_get (binding_map bs) i = Some b \<Longrightarrow> b \<in> set bs \<and> pb_agent b = i"
    by (fastforce simp: binding_map_def)
qed

definition pool_ok :: "pool_db \<Rightarrow> bool" where
  "pool_ok db \<longleftrightarrow> distinct (map pa_id (po_agents db))"

lemma find_agent_in:
  assumes "pool_ok db" and "a \<in> set (po_agents db)"
  shows "find_agent (pa_id a) db = Some a"
  using find_unique[of pa_id "po_agents db" a] assms by (simp add: pool_ok_def find_agent_def)

text \<open>Whom the user may give work to: the query's condition and the filters on the row.\<close>

definition may_work_for :: "pool_db \<Rightarrow> current_user \<Rightarrow> project_agent \<Rightarrow> bool" where
  "may_work_for db u a \<longleftrightarrow> a \<in> set (po_agents db)
     \<and> query_condition (build_agent_access_context (access_view db) u) AccessExecute (access_row a)
     \<and> pa_retired_at a = None \<and> pa_status a \<in> {''idle'', ''active'', ''working'', ''busy''}"

lemma access_row_simps [simp]:
  "ag_id (access_row a) = pa_id a" "ag_status (access_row a) = pa_status a" "ag_retired_at (access_row a) = pa_retired_at a"
  by (simp_all add: access_row_def)

lemma set_accessible_agents:
  assumes "pool_ok db"
  shows "set (accessible_agents rank db u [''idle'', ''active'', ''working'', ''busy'']) = {a. may_work_for db u a}"
proof -
  have "find_agent (ag_id (access_row a)) db = Some a" if "a \<in> set (po_agents db)" for a
    using find_agent_in[OF assms that] by simp
  then show ?thesis
    unfolding accessible_agents_def map_filter_def
    by (force simp: set_list_accessible_agents may_work_for_def access_view_def build_agent_access_context_def)
qed

definition bound_to_project :: "pool_db \<Rightarrow> uuid \<Rightarrow> project_agent \<Rightarrow> bool" where
  "bound_to_project db project_id a \<longleftrightarrow>
     (\<exists>b \<in> set (po_bindings db). pb_project b = project_id \<and> pb_status b = ''active'' \<and> pb_agent b = pa_id a)"

lemma set_bound_candidates:
  assumes "pool_ok db"
  shows "set (bound_runtime_candidates rank project_id u desired db)
    = {a. may_work_for db u a \<and> bound_to_project db project_id a \<and> agent_runtime_compatible a desired}"
  by (auto simp: bound_runtime_candidates_def set_accessible_agents[OF assms] binding_map_agents project_bindings_def
      bound_to_project_def image_iff simp del: not_None_eq)

lemma set_preferred:
  "set (preferred_candidates suggested cs) = {a \<in> set cs.
     (\<exists>c \<in> set cs. uuid_str (pa_id c) \<in> set (normalized_suggestions suggested))
       \<longrightarrow> uuid_str (pa_id a) \<in> set (normalized_suggestions suggested)}"
  by (auto simp: preferred_candidates_def Let_def filter_empty_conv)

lemma preferred_nonempty: "cs \<noteq> [] \<Longrightarrow> preferred_candidates suggested cs \<noteq> []"
  by (simp add: preferred_candidates_def Let_def)

subsection \<open>Hosts\<close>

text \<open>When a host takes work, and when its software is recent enough.\<close>

definition host_online :: "timestamp \<Rightarrow> host_db \<Rightarrow> uuid \<Rightarrow> bool" where
  "host_online now hosts i \<longleftrightarrow>
     (\<exists>b seen. get_active_binding i hosts = Some b \<and> norm_str (Some (hb_status b)) \<noteq> ''error''
        \<and> hb_last_seen_at b = Some seen \<and> now - seen \<le> usec 90
        \<and> py_strip (opt_text (hb_current_version b)) = ''0.2.0'')"

definition host_up_to_date :: "host_db \<Rightarrow> uuid \<Rightarrow> bool" where
  "host_up_to_date hosts i \<longleftrightarrow>
     (\<exists>b. get_active_binding i hosts = Some b \<and> py_strip (opt_text (hb_current_version b)) = ''0.2.0'')"

lemma effective_status_compatible:
  "is_runtime_compatible (hb_current_version b) \<Longrightarrow> effective_status now b \<in> {''online'', ''offline'', ''error''}"
  by (auto simp: effective_status_def Let_def split: option.splits)

text \<open>What the state of an agent of an external runtime says about its host.\<close>

lemma state_simps [simp]:
  "rs_status (bound_state txt now desired b) = effective_status now b"
  "rs_runtime_compatible (bound_state txt now desired b) = is_runtime_compatible (hb_current_version b)"
  "rs_available_for_execution (bound_state txt now desired b)
     = (effective_status now b = ''online'' \<and> is_runtime_compatible (hb_current_version b))"
  "\<not> rs_runtime_compatible (uninstalled_state desired)" "\<not> rs_available_for_execution (uninstalled_state desired)"
  by (simp_all add: bound_state_def uninstalled_state_def Let_def)

lemma summarized_host:
  assumes "summarize_state txt now i pref hosts = Some st"
  shows "rs_available_for_execution st \<longleftrightarrow> host_online now hosts i"
    and "rs_runtime_compatible st \<longleftrightarrow> host_up_to_date hosts i"
    and "rs_runtime_compatible st \<Longrightarrow> \<not> rs_available_for_execution st \<Longrightarrow> rs_status st \<in> {''offline'', ''error''}"
proof -
  from assms consider desired where "get_active_binding i hosts = None" "st = uninstalled_state desired"
    | desired b where "get_active_binding i hosts = Some b" "st = bound_state txt now desired b"
    by (auto simp: summarize_state_def Let_def split: if_splits option.splits)
  then have "(rs_available_for_execution st \<longleftrightarrow> host_online now hosts i) \<and> (rs_runtime_compatible st \<longleftrightarrow> host_up_to_date hosts i)
    \<and> (rs_runtime_compatible st \<longrightarrow> \<not> rs_available_for_execution st \<longrightarrow> rs_status st \<in> {''offline'', ''error''})"
  proof cases
    case (2 desired b)
    have v: "is_runtime_compatible (hb_current_version b) \<longleftrightarrow> py_strip (opt_text (hb_current_version b)) = ''0.2.0''"
      by (simp add: is_runtime_compatible_def CURRENT_EXTERNAL_RUNTIME_VERSION_def)
    have "effective_status now b = ''online'' \<and> is_runtime_compatible (hb_current_version b) \<longleftrightarrow> host_online now hosts i"
      by (auto simp: host_online_def 2(1) effective_status_online v)
    moreover have "is_runtime_compatible (hb_current_version b) \<longleftrightarrow> host_up_to_date hosts i"
      by (simp add: host_up_to_date_def 2(1) v)
    ultimately show ?thesis using effective_status_compatible[of b now] by (simp add: 2(2)) blast
  qed (simp add: host_online_def host_up_to_date_def)
  then show "rs_available_for_execution st \<longleftrightarrow> host_online now hosts i" "rs_runtime_compatible st \<longleftrightarrow> host_up_to_date hosts i"
    "rs_runtime_compatible st \<Longrightarrow> \<not> rs_available_for_execution st \<Longrightarrow> rs_status st \<in> {''offline'', ''error''}" by blast+
qed

lemma external_state:
  assumes "is_external_runtime_type (pa_runtime_preference a)"
  obtains st where "agent_state txt now hosts a = Some st"
    and "rs_available_for_execution st \<longleftrightarrow> host_online now hosts (pa_id a)"
    and "rs_runtime_compatible st \<longleftrightarrow> host_up_to_date hosts (pa_id a)"
    and "rs_runtime_compatible st \<Longrightarrow> \<not> rs_available_for_execution st \<Longrightarrow> rs_status st \<in> {''offline'', ''error''}"
proof -
  obtain st where st: "summarize_state txt now (pa_id a) (pa_runtime_preference a) hosts = Some st"
    using assms by (cases "get_active_binding (pa_id a) hosts") (auto simp: summarize_state_def Let_def)
  show ?thesis by (rule that[OF _ summarized_host[OF st]]) (simp_all add: agent_state_def st)
qed

subsection \<open>The selected agent\<close>

definition pool_score ::
    "(pyval \<Rightarrow> string) \<Rightarrow> timestamp \<Rightarrow> uuid \<Rightarrow> string \<Rightarrow> pyval list \<Rightarrow> current_user \<Rightarrow> string list \<Rightarrow> pool_db
      \<Rightarrow> project_agent \<Rightarrow> real" where
  "pool_score txt now project_id step_kind required u desired db =
     total_score now (po_tasks db) u
       (\<lambda>a. case dict_get (binding_map (project_bindings project_id db)) (pa_id a) of None \<Rightarrow> 0
          | Some b \<Rightarrow> suitability txt step_kind required desired b a)"

text \<open>The agents a step may be given to.\<close>

definition eligible ::
    "(pyval \<Rightarrow> string) \<Rightarrow> timestamp \<Rightarrow> host_db \<Rightarrow> uuid \<Rightarrow> current_user \<Rightarrow> string list \<Rightarrow> pool_db \<Rightarrow> project_agent \<Rightarrow> bool" where
  "eligible txt now hosts project_id u desired db a \<longleftrightarrow>
     may_work_for db u a \<and> bound_to_project db project_id a \<and> agent_runtime_compatible a desired
     \<and> runtime_available txt now hosts desired a"

lemma set_candidates:
  "pool_ok db \<Longrightarrow> set (filter (runtime_available txt now hosts desired) (bound_runtime_candidates rank project_id u desired db))
     = {a. eligible txt now hosts project_id u desired db a}"
  by (auto simp: eligible_def set_bound_candidates)

lemma project_bindings_empty:
  "project_bindings project_id db = [] \<Longrightarrow> \<not> bound_to_project db project_id a"
  by (auto simp: project_bindings_def bound_to_project_def filter_empty_conv)

lemma select_bound_Some:
  assumes "pool_ok db"
    and "select_bound_agent txt fmt1 rank now hosts project_id step_kind required u desired suggested db = Inr (Some sel)"
  obtains a where "eligible txt now hosts project_id u desired db a"
    and "(\<exists>c. eligible txt now hosts project_id u desired db c \<and> uuid_str (pa_id c) \<in> set (normalized_suggestions suggested))
        \<longrightarrow> uuid_str (pa_id a) \<in> set (normalized_suggestions suggested)"
    and "\<And>b. eligible txt now hosts project_id u desired db b \<Longrightarrow>
        (\<exists>c. eligible txt now hosts project_id u desired db c \<and> uuid_str (pa_id c) \<in> set (normalized_suggestions suggested))
        \<longrightarrow> uuid_str (pa_id b) \<in> set (normalized_suggestions suggested) \<Longrightarrow>
        pool_score txt now project_id step_kind required u desired db b
          \<le> pool_score txt now project_id step_kind required u desired db a"
    and "se_agent_id sel = pa_id a" and "se_agent_name sel = pa_name a" and "\<not> se_provisioned_agent sel"
    and "se_score sel = pool_score txt now project_id step_kind required u desired db a"
    and "se_runtime_type sel = preference_or (hd desired) a"
proof -
  let ?bound = "bound_runtime_candidates rank project_id u desired db"
  let ?cs = "filter (runtime_available txt now hosts desired) ?bound"
  let ?suits = "\<lambda>a. case dict_get (binding_map (project_bindings project_id db)) (pa_id a) of None \<Rightarrow> 0
     | Some b \<Rightarrow> suitability txt step_kind required desired b a"
  let ?pref = "preferred_candidates suggested ?cs"
  obtain best a where ba: "(best, a) = hd (sort_key (\<lambda>x. - fst x)
      (score_agents now (po_tasks db) u ?suits (new_load_balancer 3) ?pref))"
    by (metis surj_pair)
  have ne: "project_bindings project_id db \<noteq> []" "?cs \<noteq> []"
    using assms(2) by (auto simp: select_bound_agent_def Let_def split: if_splits option.splits)
  have sel: "sel = \<lparr>se_agent_id = pa_id a, se_agent_name = pa_name a, se_score = best,
      se_selection_reason = ''Selected from project binding pool for '' @ step_kind @ '' with score '' @ fmt1 best,
      se_provisioned_agent = False, se_step_kind = step_kind, se_required_capabilities = required,
      se_runtime_type = preference_or (hd desired) a\<rparr>"
    using assms(2) ne ba[symmetric] by (simp add: select_bound_agent_def Let_def)
  note best = best_of_scores[OF preferred_nonempty[OF ne(2)] ba]
  note sets = set_preferred[of suggested ?cs] set_candidates[OF assms(1), of "txt" now hosts desired rank project_id u]
  show ?thesis
    by (rule that[of a]) (use best sets in \<open>auto simp: sel pool_score_def\<close>)
qed

lemma select_bound_nobody:
  assumes "pool_ok db" and "\<And>a. \<not> eligible txt now hosts project_id u desired db a"
  shows "select_bound_agent txt fmt1 rank now hosts project_id step_kind required u desired suggested db
    = (if requires_external_runtime desired \<and> bound_runtime_candidates rank project_id u desired db \<noteq> []
       then case unavailable_error (map (agent_state txt now hosts) (bound_runtime_candidates rank project_id u desired db)) of
              Some e \<Rightarrow> Inl e | None \<Rightarrow> Inr None
       else Inr None)"
proof (cases "project_bindings project_id db = []")
  case True
  then have "bound_runtime_candidates rank project_id u desired db = []"
    using project_bindings_empty[OF True] set_bound_candidates[OF assms(1), of rank project_id u desired]
    by (auto simp flip: set_empty2)
  with True show ?thesis by (simp add: select_bound_agent_def)
next
  case False
  have "filter (runtime_available txt now hosts desired) (bound_runtime_candidates rank project_id u desired db) = []"
    using set_candidates[OF assms(1), of "txt" now hosts desired rank project_id u] assms(2) by (auto simp flip: set_empty2)
  with False show ?thesis by (simp add: select_bound_agent_def Let_def cong: if_cong)
qed

lemma select_bound_somebody:
  assumes "pool_ok db" and "eligible txt now hosts project_id u desired db a"
  shows "\<exists>sel. select_bound_agent txt fmt1 rank now hosts project_id step_kind required u desired suggested db = Inr (Some sel)"
proof -
  have "filter (runtime_available txt now hosts desired) (bound_runtime_candidates rank project_id u desired db) \<noteq> []"
    using set_candidates[OF assms(1), of "txt" now hosts desired rank project_id u] assms(2) by force
  moreover have "project_bindings project_id db \<noteq> []"
    using assms(2) project_bindings_empty[of project_id db a] by (auto simp: eligible_def)
  ultimately show ?thesis by (simp add: select_bound_agent_def Let_def split: prod.splits)
qed

subsection \<open>Steps for external runtimes\<close>

lemma external_candidate:
  assumes "set desired \<subseteq> set EXTERNAL_RUNTIME_TYPES" and "agent_runtime_compatible a desired"
  shows "is_external_runtime_type (pa_runtime_preference a)"
proof -
  let ?raw = "opt_text (pa_runtime_preference a)"
  have "''project_sandbox'' \<notin> set EXTERNAL_RUNTIME_TYPES"
    "py_strip ''project_sandbox'' = ''project_sandbox''" by code_simp+
  with assms have "py_strip ?raw \<in> set desired"
    by (auto simp: agent_runtime_compatible_def preference_or_def Let_def INTERNAL_RUNTIME_TYPES_def list_ex_iff
        split: if_splits)
  then show ?thesis using assms(1) by (auto simp: is_external_runtime_type_def)
qed

lemma external_eligible:
  assumes "set desired \<subseteq> set EXTERNAL_RUNTIME_TYPES" and "desired \<noteq> []"
  shows "eligible txt now hosts project_id u desired db a \<longleftrightarrow>
    may_work_for db u a \<and> bound_to_project db project_id a \<and> agent_runtime_compatible a desired
    \<and> host_online now hosts (pa_id a)"
proof (cases "agent_runtime_compatible a desired")
  case True
  have "requires_external_runtime desired"
    using assms by (cases desired) (auto simp: requires_external_runtime_def)
  moreover obtain st where "agent_state txt now hosts a = Some st"
    and "rs_available_for_execution st \<longleftrightarrow> host_online now hosts (pa_id a)"
    using external_state[OF external_candidate[OF assms(1) True]] by metis
  ultimately show ?thesis by (simp add: eligible_def runtime_available_def)
qed (simp add: eligible_def)

definition upgrade_message :: string where
  "upgrade_message = ''External Runtime Host must be upgraded before this host-action step can run.''"

definition offline_message :: string where
  "offline_message = ''External Runtime Host is bound for this host-action step but is not currently available.''"

definition unbound_message :: string where
  "unbound_message = ''No external runtime is configured for this host-action step. ''
     @ ''Bind an external agent in the Project Agent Pool and install a Runtime Host.''"

lemma external_unavailable:
  assumes ext: "set desired \<subseteq> set EXTERNAL_RUNTIME_TYPES"
    and as: "as \<noteq> []" "\<And>a. a \<in> set as \<Longrightarrow> agent_runtime_compatible a desired \<and> \<not> host_online now hosts (pa_id a)"
  shows "unavailable_error (map (agent_state txt now hosts) as)
    = Some (ProjectExternalRuntimeUnavailableError
        (if \<exists>a \<in> set as. \<not> host_up_to_date hosts (pa_id a) then upgrade_message else offline_message))"
proof -
  have st: "\<exists>st. agent_state txt now hosts a = Some st
      \<and> (rs_runtime_compatible st \<longleftrightarrow> host_up_to_date hosts (pa_id a))
      \<and> (rs_runtime_compatible st \<longrightarrow> rs_status st \<in> {''offline'', ''error'', ''uninstalled''})" if "a \<in> set as" for a
    using external_state[OF external_candidate[OF ext], of a "txt" now hosts] as(2)[OF that]
    by (metis insertCI insertE singletonD)
  have old: "list_ex (\<lambda>s. case s of None \<Rightarrow> False | Some st \<Rightarrow> \<not> rs_runtime_compatible st)
      (map (agent_state txt now hosts) as) \<longleftrightarrow> (\<exists>a \<in> set as. \<not> host_up_to_date hosts (pa_id a))"
    unfolding list_ex_iff set_map using st by force
  have off: "list_ex (\<lambda>s. case s of None \<Rightarrow> False | Some st \<Rightarrow> rs_status st \<in> {''offline'', ''error'', ''uninstalled''})
      (map (agent_state txt now hosts) as)" if "\<forall>a \<in> set as. host_up_to_date hosts (pa_id a)"
  proof -
    have "hd as \<in> set as" using as(1) by simp
    with that st[OF this] show ?thesis unfolding list_ex_iff set_map by force
  qed
  show ?thesis using old off by (simp add: unavailable_error_def upgrade_message_def offline_message_def)
qed

definition host_runtime_types :: "string list" where
  "host_runtime_types = [''external_worktree'', ''external_same_dir'', ''remote_session'']"

text \<open>The pool's agents for host actions: the ones whose host is asked.\<close>

definition host_candidate :: "pool_db \<Rightarrow> uuid \<Rightarrow> current_user \<Rightarrow> project_agent \<Rightarrow> bool" where
  "host_candidate db project_id u a \<longleftrightarrow>
     may_work_for db u a \<and> bound_to_project db project_id a \<and> agent_runtime_compatible a host_runtime_types"

lemma host_types: "set host_runtime_types \<subseteq> set EXTERNAL_RUNTIME_TYPES" "host_runtime_types \<noteq> []"
    "requires_external_runtime host_runtime_types"
  by (simp_all add: host_runtime_types_def EXTERNAL_RUNTIME_TYPES_def requires_external_runtime_def)

lemma select_host_nobody:
  assumes "pool_ok db" and "\<And>a. host_candidate db project_id u a \<Longrightarrow> \<not> host_online now hosts (pa_id a)"
  shows "select_bound_agent txt fmt1 rank now hosts project_id step_kind required u host_runtime_types suggested db
    = (if \<exists>a. host_candidate db project_id u a
       then Inl (ProjectExternalRuntimeUnavailableError
         (if \<exists>a. host_candidate db project_id u a \<and> \<not> host_up_to_date hosts (pa_id a)
          then upgrade_message else offline_message))
       else Inr None)"
proof -
  let ?bound = "bound_runtime_candidates rank project_id u host_runtime_types db"
  have set_bound: "set ?bound = {a. host_candidate db project_id u a}"
    by (simp add: set_bound_candidates[OF assms(1)] host_candidate_def)
  then have ne: "?bound \<noteq> [] \<longleftrightarrow> (\<exists>a. host_candidate db project_id u a)" by (metis Collect_empty_eq set_empty)
  have nobody: "\<not> eligible txt now hosts project_id u host_runtime_types db a" for a
    using assms(2)[of a] by (auto simp: external_eligible[OF host_types(1,2)] host_candidate_def)
  have un: "unavailable_error (map (agent_state txt now hosts) ?bound) = Some (ProjectExternalRuntimeUnavailableError
        (if \<exists>a \<in> set ?bound. \<not> host_up_to_date hosts (pa_id a) then upgrade_message else offline_message))" if "?bound \<noteq> []"
    using that set_bound assms(2) by (intro external_unavailable[OF host_types(1)]) (auto simp: host_candidate_def)
  show ?thesis
    unfolding select_bound_nobody[OF assms(1) nobody] using un ne host_types(3) set_bound
    by (cases "?bound = []") simp_all
qed

text \<open>
  The project's profile for host actions, if it names a runtime that is not a host's. It does unless it was created
  with an external runtime: \<open>project_sandbox\<close> is the default of the API.
\<close>

definition internal_host_profile :: "uuid \<Rightarrow> pool_db \<Rightarrow> provisioning_profile option" where
  "internal_host_profile project_id db =
     (case find_profile project_id ''host_action'' db of
        None \<Rightarrow> None
      | Some p \<Rightarrow> if pf_runtime_type p \<in> set ([] # EXTERNAL_RUNTIME_TYPES) then None else Some p)"

lemma host_provision_runtime:
  "(case internal_host_profile project_id db of None \<Rightarrow> rt \<in> set EXTERNAL_RUNTIME_TYPES
    | Some p \<Rightarrow> rt = pf_runtime_type p \<and> rt \<notin> set EXTERNAL_RUNTIME_TYPES)"
  if "rt = provision_runtime_type (find_profile project_id ''host_action'' db) ''host_action'' host_runtime_types"
  using that by (auto simp: internal_host_profile_def provision_runtime_type_def DEFAULT_RUNTIME_TYPE_def dict_get_def
      EXTERNAL_RUNTIME_TYPES_def split: option.split)

lemma select_host_runtimes:
  "select_or_provision_agent txt fmt1 rank now db_now new_id hosts project_id step_kind required u run_id
     (Some host_runtime_types) suggested db =
   (case select_bound_agent txt fmt1 rank now hosts project_id step_kind required u host_runtime_types suggested db of
      Inl e \<Rightarrow> (Inl e, db)
    | Inr (Some selected) \<Rightarrow> (Inr selected, db)
    | Inr None \<Rightarrow> provision_ephemeral_agent db_now new_id project_id step_kind required u run_id host_runtime_types db)"
  by (simp add: select_or_provision_agent_def host_runtime_types_def Let_def split: sum.split option.split)

lemma ephemeral_agent_fields:
  "pa_id (ephemeral_agent db_now new_id owner project_id name step_kind caps rt profile) = new_id"
  "pa_owner (ephemeral_agent db_now new_id owner project_id name step_kind caps rt profile) = owner"
  "pa_is_ephemeral (ephemeral_agent db_now new_id owner project_id name step_kind caps rt profile)"
  "pa_runtime_preference (ephemeral_agent db_now new_id owner project_id name step_kind caps rt profile) = Some rt"
  by (simp_all add: ephemeral_agent_def)

lemma host_step_online:
  assumes "pool_ok db" and ex: "\<exists>a. host_candidate db project_id u a \<and> host_online now hosts (pa_id a)"
  obtains sel a where "select_or_provision_agent render fmt1 rank now db_now new_id hosts project_id ''host_action''
           required u run_id (Some host_runtime_types) suggested db = (Inr sel, db)"
    and "\<not> se_provisioned_agent sel" and "pa_id a = se_agent_id sel"
    and "host_candidate db project_id u a" and "host_online now hosts (pa_id a)"
proof -
  obtain a where "eligible render now hosts project_id u host_runtime_types db a"
    using ex by (auto simp: external_eligible[OF host_types(1,2)] host_candidate_def)
  then obtain sel where sel: "select_bound_agent render fmt1 rank now hosts project_id ''host_action'' required u
      host_runtime_types suggested db = Inr (Some sel)"
    using select_bound_somebody[OF assms(1)] by blast
  obtain b where b: "eligible render now hosts project_id u host_runtime_types db b" "pa_id b = se_agent_id sel"
    "\<not> se_provisioned_agent sel"
    by (rule select_bound_Some[OF assms(1) sel]) auto
  show ?thesis
    by (rule that[of sel b]) (use sel b external_eligible[OF host_types(1,2)] in
        \<open>auto simp: select_host_runtimes host_candidate_def\<close>)
qed

text \<open>Without a suitable agent the step is provisioned like any other: from the profile, when it names an internal runtime.\<close>

lemma host_step_unbound:
  assumes "pool_ok db" and "\<nexists>a. host_candidate db project_id u a"
    and "select_or_provision_agent render fmt1 rank now db_now new_id hosts project_id ''host_action''
           required u run_id (Some host_runtime_types) suggested db = (r, db')"
  shows "case internal_host_profile project_id db of
           None \<Rightarrow> db' = db \<and> r = Inl (ProjectExternalRuntimeUnavailableError unbound_message)
         | Some p \<Rightarrow>
             (case parse_uuid (cu_user_id u) of
                None \<Rightarrow> db' = db \<and> r = Inl (ProvisionPyError (ValueError ''badly formed hexadecimal UUID string''))
              | Some owner \<Rightarrow>
                  (\<exists>sel a. r = Inr sel \<and> se_provisioned_agent sel \<and> se_agent_id sel = new_id
                     \<and> se_runtime_type sel = pf_runtime_type p \<and> db' = db\<lparr>po_agents := po_agents db @ [a]\<rparr>
                     \<and> pa_id a = new_id \<and> pa_owner a = owner \<and> pa_is_ephemeral a
                     \<and> pa_runtime_preference a = Some (pf_runtime_type p)))"
proof -
  have "select_bound_agent render fmt1 rank now hosts project_id ''host_action'' required u host_runtime_types suggested db = Inr None"
    using select_host_nobody[OF assms(1), of project_id u now hosts render fmt1 rank "''host_action''" required suggested] assms(2)
    by auto
  then have "provision_ephemeral_agent db_now new_id project_id ''host_action'' required u run_id host_runtime_types db = (r, db')"
    using assms(3) by (simp add: select_host_runtimes)
  note provided = this host_provision_runtime[OF refl, of project_id db]
  show ?thesis
  proof (cases "internal_host_profile project_id db"; cases "parse_uuid (cu_user_id u)")
    fix p owner assume p: "internal_host_profile project_id db = Some p" and owner: "parse_uuid (cu_user_id u) = Some owner"
    show ?thesis
      unfolding p owner option.case
      by (rule exI[of _ "projr r"], rule exI[of _ "last (po_agents db')"])
        (use provided p owner in \<open>auto simp: provision_ephemeral_agent_def Let_def ephemeral_agent_fields\<close>)
  qed (use provided in \<open>auto simp: provision_ephemeral_agent_def Let_def unbound_message_def\<close>)
qed

lemma host_step_result:
  assumes "pool_ok db"
  shows "let (r, db') = select_or_provision_agent render fmt1 rank now db_now new_id hosts project_id ''host_action''
           required u run_id (Some host_runtime_types) suggested db
    in if \<exists>a. host_candidate db project_id u a \<and> host_online now hosts (pa_id a)
       then db' = db \<and> (\<exists>sel a. r = Inr sel \<and> \<not> se_provisioned_agent sel \<and> pa_id a = se_agent_id sel
              \<and> host_candidate db project_id u a \<and> host_online now hosts (pa_id a))
       else if \<exists>a. host_candidate db project_id u a
       then db' = db \<and> r = Inl (ProjectExternalRuntimeUnavailableError
              (if \<exists>a. host_candidate db project_id u a \<and> \<not> host_up_to_date hosts (pa_id a)
               then upgrade_message else offline_message))
       else case internal_host_profile project_id db of
              None \<Rightarrow> db' = db \<and> r = Inl (ProjectExternalRuntimeUnavailableError unbound_message)
            | Some p \<Rightarrow>
                (case parse_uuid (cu_user_id u) of
                   None \<Rightarrow> db' = db \<and> r = Inl (ProvisionPyError (ValueError ''badly formed hexadecimal UUID string''))
                 | Some owner \<Rightarrow>
                     (\<exists>sel a. r = Inr sel \<and> se_provisioned_agent sel \<and> se_agent_id sel = new_id
                        \<and> se_runtime_type sel = pf_runtime_type p \<and> db' = db\<lparr>po_agents := po_agents db @ [a]\<rparr>
                        \<and> pa_id a = new_id \<and> pa_owner a = owner \<and> pa_is_ephemeral a
                        \<and> pa_runtime_preference a = Some (pf_runtime_type p)))"
proof -
  obtain r db' where e: "select_or_provision_agent render fmt1 rank now db_now new_id hosts project_id ''host_action''
           required u run_id (Some host_runtime_types) suggested db = (r, db')"
    by fastforce
  show ?thesis
  proof (cases "\<exists>a. host_candidate db project_id u a \<and> host_online now hosts (pa_id a)")
    case True
    obtain sel a where "r = Inr sel" "db' = db" "\<not> se_provisioned_agent sel" "pa_id a = se_agent_id sel"
      "host_candidate db project_id u a" "host_online now hosts (pa_id a)"
      by (rule host_step_online[OF assms True, where render = render and ?fmt1.0 = fmt1 and rank = rank and db_now = db_now
            and new_id = new_id and required = required and run_id = run_id and suggested = suggested])
        (use e in auto)
    then show ?thesis unfolding e Let_def prod.case if_P[OF True] by blast
  next
    case nobody: False
    show ?thesis
    proof (cases "\<exists>a. host_candidate db project_id u a")
      case True
      have "\<not> host_online now hosts (pa_id a)" if "host_candidate db project_id u a" for a using nobody that by blast
      from select_host_nobody[where project_id = project_id and u = u and ?txt = render and ?fmt1.0 = fmt1 and rank = rank
          and step_kind = "''host_action''" and required = required and suggested = suggested, OF assms this] have chosen: "select_bound_agent render fmt1 rank now hosts project_id ''host_action'' required u
          host_runtime_types suggested db = Inl (ProjectExternalRuntimeUnavailableError
            (if \<exists>a. host_candidate db project_id u a \<and> \<not> host_up_to_date hosts (pa_id a)
             then upgrade_message else offline_message))"
        unfolding if_P[OF True] .
      have "db' = db \<and> r = Inl (ProjectExternalRuntimeUnavailableError
            (if \<exists>a. host_candidate db project_id u a \<and> \<not> host_up_to_date hosts (pa_id a)
             then upgrade_message else offline_message))"
        using e unfolding select_host_runtimes chosen sum.case prod.inject by - (elim conjE, intro conjI; erule sym)
      then show ?thesis unfolding e Let_def prod.case if_not_P[OF nobody] if_P[OF True] .
    next
      case False
      show ?thesis
        unfolding e Let_def prod.case if_not_P[OF nobody] if_not_P[OF False] by (rule host_step_unbound[OF assms False e])
    qed
  qed
qed

text \<open>C25: The agent taken from a project's pool is one the user may give work to, bound to the project, of a
  runtime that suits the step and, where the step needs an external runtime, with an available host. If the
  plan suggests such agents it is one of these, and no competitor scores higher.\<close>

theorem selected_agent_best:
  assumes "pool_ok db"
    and "select_bound_agent render fmt1 rank now hosts project_id step_kind required u desired suggested db = Inr (Some sel)"
  shows "\<exists>a. pa_id a = se_agent_id sel \<and> \<not> se_provisioned_agent sel
    \<and> se_score sel = pool_score render now project_id step_kind required u desired db a
    \<and> eligible render now hosts project_id u desired db a
    \<and> ((\<exists>c. eligible render now hosts project_id u desired db c
            \<and> uuid_str (pa_id c) \<in> set (normalized_suggestions suggested))
         \<longrightarrow> uuid_str (pa_id a) \<in> set (normalized_suggestions suggested))
    \<and> (\<forall>b. eligible render now hosts project_id u desired db b
         \<and> (uuid_str (pa_id b) \<in> set (normalized_suggestions suggested)
            \<or> (\<nexists>c. eligible render now hosts project_id u desired db c
                  \<and> uuid_str (pa_id c) \<in> set (normalized_suggestions suggested)))
         \<longrightarrow> pool_score render now project_id step_kind required u desired db b \<le> se_score sel)"
  by (rule select_bound_Some[OF assms]) (intro exI conjI; fastforce)


subsection \<open>A pool\<close>

definition pool_agent :: "uuid \<Rightarrow> string option \<Rightarrow> string list \<Rightarrow> project_agent" where
  "pool_agent i preference skills =
     \<lparr>pa_id = i, pa_name = ''a'', pa_type = ''ops'', pa_owner = 2, pa_capabilities = PList (map PStr skills),
      pa_status = ''idle'', pa_llm_provider = None, pa_llm_model = None, pa_system_prompt = None,
      pa_temperature = None, pa_max_tokens = None, pa_access_level = None, pa_department = None,
      pa_is_ephemeral = False, pa_lifecycle_scope = None, pa_runtime_preference = preference,
      pa_project_scope = None, pa_retired_at = None, pa_created_at = 0\<rparr>"

definition sample_pool :: pool_db where
  "sample_pool =
     \<lparr>po_agents = [pool_agent 5 (Some ''remote_session'') [''shell''], pool_agent 6 None [''coding''],
        pool_agent 7 None [''qa'']],
      po_departments = [], po_users = [], po_projects = [(50, ''web'')],
      po_bindings = map (\<lambda>i. \<lparr>pb_project = 50, pb_agent = i, pb_status = ''active'', pb_allowed_step_kinds = []\<rparr>) [5, 6, 7],
      po_profiles = [], po_tasks = []\<rparr>"

definition sample_user :: current_user where
  "sample_user = CurrentUser (uuid_str 2) ''ann'' ''user'' None None"

lemma sample_pool_ok: "pool_ok sample_pool"
  by (simp add: pool_ok_def sample_pool_def pool_agent_def)


lemma sample_candidates:
  "a \<in> set (po_agents sample_pool) \<Longrightarrow>
     eligible (\<lambda>_. []) 2 hosts 50 sample_user [''project_sandbox''] sample_pool a \<longleftrightarrow> pa_id a \<in> {6, 7}"
proof -
  have "map (eligible (\<lambda>_. []) 2 hosts 50 sample_user [''project_sandbox''] sample_pool) (po_agents sample_pool)
      = [False, True, True]" by code_simp
  then show "a \<in> set (po_agents sample_pool) \<Longrightarrow>
     eligible (\<lambda>_. []) 2 hosts 50 sample_user [''project_sandbox''] sample_pool a \<longleftrightarrow> pa_id a \<in> {6, 7}"
    by (auto simp: sample_pool_def pool_agent_def)
qed

lemma sample_scores:
  "map (pool_score (\<lambda>_. []) 2 50 ''implementation'' [PStr ''qa''] sample_user [''project_sandbox''] sample_pool)
     (tl (po_agents sample_pool)) = [75/2, 145/2]"
  by code_simp

theorem selected_agent_best_witness:
  "\<exists>sel. select_bound_agent (\<lambda>_. []) (\<lambda>_. []) (\<lambda>_. 0) 2 (hs_db sample_bound_system)
     50 ''implementation'' [PStr ''qa''] sample_user [''project_sandbox''] [] sample_pool = Inr (Some sel)
     \<and> se_agent_id sel = 7"
proof -
  let ?e = "eligible (\<lambda>_. []) 2 (hs_db sample_bound_system) 50 sample_user [''project_sandbox''] sample_pool"
  let ?score = "pool_score (\<lambda>_. []) 2 50 ''implementation'' [PStr ''qa''] sample_user [''project_sandbox''] sample_pool"
  let ?a = "pool_agent 6 None [''coding'']" and ?b = "pool_agent 7 None [''qa'']"
  have e: "?e ?a" "?e ?b" "\<And>c. ?e c \<Longrightarrow> c = ?a \<or> c = ?b"
  proof -
    have "a \<in> {pool_agent 5 (Some ''remote_session'') [''shell''], ?a, ?b}" if "?e a" for a
      using that by (simp add: eligible_def may_work_for_def sample_pool_def)
    then show "?e ?a" "?e ?b" "\<And>c. ?e c \<Longrightarrow> c = ?a \<or> c = ?b"
      using sample_candidates by (fastforce simp: sample_pool_def pool_agent_def)+
  qed
  have scores: "?score ?a = 75/2" "?score ?b = 145/2" using sample_scores by (simp_all add: sample_pool_def)
  obtain sel where sel: "select_bound_agent (\<lambda>_. []) (\<lambda>_. []) (\<lambda>_. 0) 2 (hs_db sample_bound_system)
     50 ''implementation'' [PStr ''qa''] sample_user [''project_sandbox''] [] sample_pool = Inr (Some sel)"
    using select_bound_somebody[OF sample_pool_ok e(2)] by blast
  obtain c where c: "pa_id c = se_agent_id sel" "se_score sel = ?score c" "?e c" "?score ?b \<le> se_score sel"
    using selected_agent_best[OF sample_pool_ok sel] e(2) by (auto simp: normalized_suggestions_def)
  from e(3)[OF c(3)] have "c = ?b" using c(2,4) scores by auto
  then have "se_agent_id sel = 7" using c(1) by (simp add: pool_agent_def)
  with sel show ?thesis by blast
qed

lemma sample_host_candidates: "host_candidate sample_pool 50 sample_user a \<longleftrightarrow> a = pool_agent 5 (Some ''remote_session'') [''shell'']"
proof -
  have "map (host_candidate sample_pool 50 sample_user) (po_agents sample_pool) = [True, False, False]" by code_simp
  moreover have "host_candidate sample_pool 50 sample_user a \<Longrightarrow> a \<in> set (po_agents sample_pool)"
    by (simp add: host_candidate_def may_work_for_def)
  ultimately show ?thesis by (auto simp: sample_pool_def)
qed

lemma sample_host_online:
  "host_online now (hs_db sample_bound_system) 5 \<longleftrightarrow> now - 1 \<le> usec 90" "host_up_to_date (hs_db sample_bound_system) 5"
  using sample_bound_row by (auto simp: host_online_def host_up_to_date_def split: option.splits)

text \<open>The same pool without its host agent, with a profile for host actions as the API creates it by default.\<close>

definition sandbox_host_profile :: provisioning_profile where
  "sandbox_host_profile =
     \<lparr>pf_project = 50, pf_step_kind = ''host_action'', pf_agent_type = ''ops'', pf_default_skill_ids = [],
      pf_default_provider = None, pf_default_model = None, pf_runtime_type = ''project_sandbox'',
      pf_temperature = None, pf_max_tokens = None, pf_created_at = 0\<rparr>"

definition sandbox_pool :: pool_db where
  "sandbox_pool = sample_pool\<lparr>po_agents := tl (po_agents sample_pool), po_profiles := [sandbox_host_profile]\<rparr>"

lemma sandbox_pool_facts:
  "pool_ok sandbox_pool" "internal_host_profile 50 sandbox_pool = Some sandbox_host_profile"
  "\<not> host_candidate sandbox_pool 50 sample_user a" "parse_uuid (cu_user_id sample_user) = Some 2"
proof -
  show "pool_ok sandbox_pool" by (simp add: pool_ok_def sandbox_pool_def sample_pool_def pool_agent_def)
  show "internal_host_profile 50 sandbox_pool = Some sandbox_host_profile" by code_simp
  have "map (host_candidate sandbox_pool 50 sample_user) (po_agents sandbox_pool) = [False, False]" by code_simp
  then show "\<not> host_candidate sandbox_pool 50 sample_user a"
    by (auto simp: host_candidate_def may_work_for_def sandbox_pool_def sample_pool_def)
qed code_simp


end
