(* ===== verification/Run_Scheduler.thy ===== *)
theory Run_Scheduler
  imports Agent_Provisioning Runtime_Dispatch
begin

section \<open>Scheduling the steps of a run (\<open>project_execution/scheduler.py\<close>, \<open>planning.py\<close>)\<close>

text \<open>
  Scheduling a run gives every ready node an agent (\<open>Agent_Provisioning\<close>): an agent of an external
  runtime gets a dispatch (\<open>Runtime_Dispatch\<close>), another one is assigned and executes the node in the
  sandbox of the run. One scheduling call is one transaction over the rows of the runs, but the provisioner
  and the agent registry use sessions of their own: the state has the committed rows \<open>sc_pool\<close> that
  these see and write, and the rows \<open>sc_work\<close> of the scheduling session. New agents are committed at
  once and visible to both; the agents a reconciliation retires are written back on commit. When an
  exception leaves the call the transaction is rolled back and the new agents stay. Not modelled are the
  audit trail, the workspace directories and the conversation in which a sandbox agent works: its
  result or error is an argument.
\<close>

subsection \<open>Kinds of steps (\<open>planning.py\<close>)\<close>

text \<open>The Chinese keywords contain characters that no string of this model has, so they match nothing here.\<close>

definition normalize_execution_mode :: "string \<Rightarrow> string" where
  "normalize_execution_mode v =
     (let normalized = norm_str (Some v)
      in if normalized \<in> {''project_sandbox'', ''external_runtime''} then normalized else ''auto'')"

definition any_keyword :: "string list \<Rightarrow> string \<Rightarrow> bool" where
  "any_keyword keywords s \<longleftrightarrow> list_ex (\<lambda>k. py_substr k s) keywords"

definition infer_step_kind :: "string \<Rightarrow> string option \<Rightarrow> string \<Rightarrow> string" where
  "infer_step_kind title description execution_mode =
     (let mode = normalize_execution_mode execution_mode;
          combined = py_lower (title @ '' '' @ opt_text description)
      in if mode = ''external_runtime'' then ''host_action''
         else if mode \<noteq> ''project_sandbox''
              \<and> any_keyword [''deploy'', ''docker'', ''ssh'', ''terminal'', ''browser''] combined then ''host_action''
         else if any_keyword [''review'', ''verify''] combined then ''review''
         else if any_keyword [''write'', ''plan''] combined then ''writing''
         else if any_keyword [''research''] combined then ''research''
         else ''implementation'')"

definition is_complex_task :: "string \<Rightarrow> string option \<Rightarrow> bool" where
  "is_complex_task title description \<longleftrightarrow>
     (let combined = title @ '' '' @ opt_text description
      in length combined > 120 \<or> any_keyword [''review'', ''research''] (py_lower combined))"

record step_definition =
  sd_name :: string
  sd_step_kind :: string
  sd_executor_kind :: string
  sd_sequence :: nat
  sd_execution_mode :: string

definition build_step_definitions :: "string \<Rightarrow> string option \<Rightarrow> string \<Rightarrow> step_definition list" where
  "build_step_definitions title description execution_mode =
     (let mode = normalize_execution_mode execution_mode;
          first_kind = infer_step_kind title description mode;
          step = (\<lambda>name kind executor sequence. \<lparr>sd_name = name, sd_step_kind = kind, sd_executor_kind = executor,
                    sd_sequence = sequence, sd_execution_mode = mode\<rparr>)
      in if first_kind = ''host_action'' then [step title ''host_action'' ''execution_node'' 0]
         else if \<not> is_complex_task title description then [step title first_kind ''agent'' 0]
         else
           let middle_kind = (if first_kind = ''research'' then ''writing'' else first_kind)
           in [step (''Research: '' @ title) ''research'' ''agent'' 0, step title middle_kind ''agent'' 1,
               step (''Review: '' @ title) ''review'' ''agent'' 2])"

lemma normalized_modes:
  "normalize_execution_mode ''project_sandbox'' = ''project_sandbox''"
  "normalize_execution_mode ''external_runtime'' = ''external_runtime''" "normalize_execution_mode ''auto'' = ''auto''"
  by code_simp+

lemma normalize_mode_again: "normalize_execution_mode (normalize_execution_mode v) = normalize_execution_mode v"
  using normalized_modes by (auto simp: normalize_execution_mode_def[of v] Let_def)

text \<open>The steps of a task are numbered from zero; a task of the sandbox has no step for a host, one of an external
  runtime has nothing else.\<close>

lemma step_definitions:
  "map sd_sequence (build_step_definitions title description mode) = [0..<length (build_step_definitions title description mode)]"
  "normalize_execution_mode mode = ''project_sandbox'' \<Longrightarrow>
     ''host_action'' \<notin> sd_step_kind ` set (build_step_definitions title description mode)"
  "normalize_execution_mode mode = ''external_runtime'' \<Longrightarrow>
     map sd_step_kind (build_step_definitions title description mode) = [''host_action'']"
  by (auto simp: build_step_definitions_def infer_step_kind_def normalize_mode_again normalized_modes Let_def)

subsection \<open>Prompts\<close>

abbreviation newline :: string where
  "newline \<equiv> [CHR 0x0A]"

definition text_or :: "string \<Rightarrow> string option \<Rightarrow> string" where
  "text_or fallback v = (if opt_text v = [] then fallback else opt_text v)"

definition build_external_agent_prompt ::
    "string \<Rightarrow> string \<Rightarrow> string option \<Rightarrow> string \<Rightarrow> string \<Rightarrow> string \<Rightarrow> string \<Rightarrow> string \<Rightarrow> string" where
  "build_external_agent_prompt project_title task_title task_description step_name step_kind selection_reason
       runtime_type run_workspace_root =
     ''Project: '' @ project_title @ newline @ ''Task: '' @ task_title @ newline
     @ ''Task description: '' @ text_or ''N/A'' task_description @ newline
     @ ''Current step: '' @ step_name @ newline @ ''Step kind: '' @ step_kind @ newline
     @ ''Runtime type: '' @ runtime_type @ newline @ ''Selection reason: '' @ selection_reason @ newline @ newline
     @ ''You are an external LinX agent running on a host-backed runtime.'' @ newline
     @ ''Use the working directory provided by the host node. Expected workspace root: '' @ run_workspace_root @ newline
     @ ''Prefer making deterministic, host-safe changes and report exact artifacts/diffs.'' @ newline
     @ ''If you need to use shell, git, browser, or host tools, do so inside the assigned runtime working directory ''
     @ ''and summarize the outcome clearly.''"

definition build_project_execution_prompt ::
    "string \<Rightarrow> string \<Rightarrow> string option \<Rightarrow> string \<Rightarrow> string \<Rightarrow> string \<Rightarrow> string \<Rightarrow> string" where
  "build_project_execution_prompt project_title task_title task_description step_name step_kind selection_reason
       run_workspace_root =
     ''Project: '' @ project_title @ newline @ ''Task: '' @ task_title @ newline
     @ ''Task description: '' @ text_or ''N/A'' task_description @ newline
     @ ''Current step: '' @ step_name @ newline @ ''Step kind: '' @ step_kind @ newline
     @ ''Selection reason: '' @ selection_reason @ newline @ newline
     @ ''You are executing a project task step inside the LinX run sandbox.'' @ newline
     @ ''Work only inside /workspace, which is the current run workspace.'' @ newline
     @ ''Use these shared directories when appropriate:'' @ newline
     @ ''- /workspace/.linx/shared'' @ newline @ ''- /workspace/.linx/scratchpad'' @ newline
     @ ''- /workspace/.linx/artifacts'' @ newline @ newline
     @ ''The underlying run workspace root on the host is: '' @ run_workspace_root @ newline
     @ ''Deliver concrete files and a concise final summary. If you create artifacts, place them under /workspace ''
     @ ''or /workspace/.linx/artifacts.''"

subsection \<open>State and surroundings of a scheduling call\<close>

record sched_db =
  sc_pool :: pool_db
  sc_work :: dispatch_db

text \<open>
  The clock, the transaction time, the user, the ids that new rows get (by the node they are made for) and
  the workspace of the run.
\<close>

record sched_env =
  env_txt :: "pyval \<Rightarrow> string"
  env_fmt1 :: "real \<Rightarrow> string"
  env_rank :: "string \<Rightarrow> int"
  env_now :: timestamp
  env_db_now :: timestamp
  env_user :: current_user
  env_new_agent :: "uuid \<Rightarrow> uuid"
  env_new_dispatch :: "uuid \<Rightarrow> uuid"
  env_workspace_root :: string

definition run_row :: "project_agent \<Rightarrow> Run_State.agent_row" where
  "run_row a =
     \<lparr>Run_State.agent_row.ag_id = pa_id a, Run_State.agent_row.ag_status = pa_status a, Run_State.agent_row.ag_is_ephemeral = pa_is_ephemeral a,
      Run_State.agent_row.ag_lifecycle_scope = pa_lifecycle_scope a, Run_State.agent_row.ag_retired_at = pa_retired_at a\<rparr>"

text \<open>A committed agent becomes visible to the scheduling session.\<close>

definition show_agent :: "project_agent \<Rightarrow> dispatch_db \<Rightarrow> dispatch_db" where
  "show_agent a w =
     w\<lparr>xd_hosts := (xd_hosts w)\<lparr>hd_agents := hd_agents (xd_hosts w) @ [(pa_id a, pa_runtime_preference a)]\<rparr>,
       xd_runs := (xd_runs w)\<lparr>rd_agents := rd_agents (xd_runs w) @ [run_row a]\<rparr>\<rparr>"

definition new_agents :: "pool_db \<Rightarrow> pool_db \<Rightarrow> project_agent list" where
  "new_agents old new = drop (length (po_agents old)) (po_agents new)"

text \<open>The columns a reconciliation writes, taken over on commit.\<close>

definition commit_agents :: "sched_db \<Rightarrow> sched_db" where
  "commit_agents s =
     s\<lparr>sc_pool := (sc_pool s)\<lparr>po_agents := map (\<lambda>a.
         case find (\<lambda>r. Run_State.ag_id r = pa_id a) (rd_agents (xd_runs (sc_work s))) of
           None \<Rightarrow> a
         | Some r \<Rightarrow> a\<lparr>pa_status := Run_State.ag_status r, pa_retired_at := Run_State.ag_retired_at r\<rparr>)
         (po_agents (sc_pool s))\<rparr>\<rparr>"

definition map_runs :: "(run_db \<Rightarrow> run_db) \<Rightarrow> sched_db \<Rightarrow> sched_db" where
  "map_runs f s = s\<lparr>sc_work := (sc_work s)\<lparr>xd_runs := f (xd_runs (sc_work s))\<rparr>\<rparr>"

record assignment =
  as_agent_id :: "uuid option"
  as_node_id :: "uuid option"
  as_dispatch_id :: "uuid option"
  as_selection_reason :: string
  as_provisioned_agent :: bool
  as_runtime_type :: "string option"
  as_external_dispatch :: "dispatch option"

text \<open>The assignment that the runtime context of the run keeps.\<close>

definition assignment_payload :: "selection \<Rightarrow> (string, pyval) dict \<Rightarrow> pyval" where
  "assignment_payload sel extra =
     PDict ([(''executor_kind'', PStr ''agent''), (''agent_id'', PStr (uuid_str (se_agent_id sel)))] @ extra
       @ [(''selection_reason'', PStr (se_selection_reason sel)),
          (''provisioned_agent'', PBool (se_provisioned_agent sel)), (''runtime_type'', PStr (se_runtime_type sel))])"

definition selection_payload :: "selection \<Rightarrow> (string, pyval) dict" where
  "selection_payload sel =
     [(''assigned_agent_id'', PStr (uuid_str (se_agent_id sel))), (''assigned_agent_name'', PStr (se_agent_name sel)),
      (''selection_reason'', PStr (se_selection_reason sel)), (''runtime_type'', PStr (se_runtime_type sel))]"

definition update_input :: "(string, pyval) dict \<Rightarrow> run_task \<Rightarrow> run_task" where
  "update_input new t = t\<lparr>tk_input_payload := merge_payload (tk_input_payload t) new\<rparr>"

definition update_node_payload :: "(string, pyval) dict \<Rightarrow> exec_node \<Rightarrow> exec_node" where
  "update_node_payload new n = n\<lparr>en_node_payload := merge_payload (en_node_payload n) new\<rparr>"

definition update_context :: "(string, pyval) dict \<Rightarrow> project_run \<Rightarrow> project_run" where
  "update_context new x = x\<lparr>pr_runtime_context := merge_payload (pr_runtime_context x) new\<rparr>"

subsection \<open>Blocking a node\<close>

definition block_pending_node ::
    "sched_env \<Rightarrow> uuid \<Rightarrow> uuid \<Rightarrow> uuid \<Rightarrow> string \<Rightarrow> selection option \<Rightarrow> run_db \<Rightarrow> assignment \<times> run_db" where
  "block_pending_node env rid node_id task_id reason sel r0 =
     (let d = env_db_now env;
          payload = (case sel of None \<Rightarrow> [] | Some x \<Rightarrow> selection_payload x);
          context = (case sel of None \<Rightarrow> [] | Some x \<Rightarrow> [(''agent_assignment'', assignment_payload x [])]);
          r1 = save_task d task_id (\<lambda>t. (case sel of None \<Rightarrow> t
                   | Some x \<Rightarrow> update_input payload (t\<lparr>tk_assignee_agent := Some (se_agent_id x)\<rparr>))
                 \<lparr>Run_State.run_task.tk_status := ''blocked'', tk_error_message := Some reason\<rparr>) r0;
          r2 = save_node d node_id (\<lambda>n. (case sel of None \<Rightarrow> n | Some x \<Rightarrow> update_node_payload payload n)
                 \<lparr>en_status := ''blocked'', en_error_message := Some reason\<rparr>) r1;
          r3 = save_run d rid (\<lambda>x. (case sel of None \<Rightarrow> x | Some _ \<Rightarrow> update_context context x)
                 \<lparr>pr_status := ''blocked'', pr_error_message := Some reason\<rparr>) r2;
          r4 = (case (find_run rid r3, find_run_task task_id r3) of
                  (Some run, Some task) \<Rightarrow> snd (retire_ephemeral_run_agents (env_now env) run [task] r3)
                | _ \<Rightarrow> r3);
          r5 = snd (reconcile_run_state (env_now env) d rid r4)
      in (\<lparr>as_agent_id = map_option se_agent_id sel, as_node_id = Some node_id, as_dispatch_id = None,
           as_selection_reason = (case sel of None \<Rightarrow> reason | Some x \<Rightarrow> se_selection_reason x),
           as_provisioned_agent = (case sel of None \<Rightarrow> False | Some x \<Rightarrow> se_provisioned_agent x),
           as_runtime_type = map_option se_runtime_type sel, as_external_dispatch = None\<rparr>, r5))"

subsection \<open>Handing a node to an external agent\<close>

definition dispatch_request ::
    "sched_env \<Rightarrow> selection \<Rightarrow> project_run \<Rightarrow> exec_node \<Rightarrow> run_task \<Rightarrow> string \<Rightarrow> string \<Rightarrow> (string, pyval) dict" where
  "dispatch_request env sel run node task project_title step_kind =
     [(''selection_reason'', PStr (se_selection_reason sel)), (''project_id'', PStr (uuid_str (pr_project run))),
      (''run_id'', PStr (uuid_str (pr_id run))), (''node_id'', PStr (uuid_str (en_id node))),
      (''task_id'', PStr (uuid_str (Run_State.run_task.tk_id task))), (''task_title'', PStr (tk_title task)),
      (''task_description'', case tk_description task of None \<Rightarrow> PNone | Some t \<Rightarrow> PStr t),
      (''step_name'', PStr (en_name node)), (''step_kind'', PStr step_kind),
      (''runtime_type'', PStr (se_runtime_type sel)), (''run_workspace_root'', PStr (env_workspace_root env)),
      (''project_title'', PStr project_title),
      (''execution_prompt'', PStr (build_external_agent_prompt project_title (tk_title task) (tk_description task)
         (en_name node) step_kind (se_selection_reason sel) (se_runtime_type sel) (env_workspace_root env)))]"

definition queue_external_agent_dispatch ::
    "sched_env \<Rightarrow> selection \<Rightarrow> project_run \<Rightarrow> exec_node \<Rightarrow> run_task \<Rightarrow> string \<Rightarrow> string \<Rightarrow> dispatch_db
      \<Rightarrow> (provision_error + assignment) \<times> dispatch_db" where
  "queue_external_agent_dispatch env sel run node task project_title step_kind w =
     (let d = env_db_now env; i = en_id node; ti = Run_State.run_task.tk_id task; rid = pr_id run in
      case create_dispatch (env_txt env) (env_now env) d (env_new_dispatch env i) (se_agent_id sel) ''execution_node''
             (uuid_str i) (se_runtime_type sel) (dispatch_request env sel run node task project_title step_kind)
             (Some (pr_project run)) (Some rid) (Some i) w of
        (Inl (ExternalRuntimeUnavailableError detail), w1) \<Rightarrow>
          (case block_pending_node env rid i ti
                  (if detail = ''external_agent_upgrade_required'' then ''External agent Runtime Host must be upgraded''
                   else ''External agent is not online'') (Some sel) (xd_runs w1) of
             (a, r) \<Rightarrow> (Inr a, w1\<lparr>xd_runs := r\<rparr>))
      | (Inl e, w1) \<Rightarrow> (Inl (ProvisionExternalError e), w1)
      | (Inr dispatch, w1) \<Rightarrow>
          (let dispatch_id = [(''dispatch_id'', PStr (uuid_str (dp_dispatch_id dispatch)))];
               payload = selection_payload sel @ dispatch_id;
               r1 = save_task d ti (\<lambda>t. update_input payload (t\<lparr>tk_assignee_agent := Some (se_agent_id sel),
                      Run_State.run_task.tk_status := ''assigned'', tk_error_message := None\<rparr>)) (xd_runs w1);
               r2 = save_node d i (\<lambda>n. update_node_payload payload (n\<lparr>en_status := ''queued'', en_error_message := None\<rparr>)) r1;
               r3 = save_run d rid (\<lambda>x. update_context
                      [(''agent_assignment'', assignment_payload sel dispatch_id),
                       (''external_dispatch'', PDict (dispatch_id @
                          [(''binding_id'', PStr (uuid_str (dp_binding_id dispatch))),
                           (''status'', PStr (dp_status dispatch)), (''runtime_type'', PStr (dp_runtime_type dispatch))]))]
                      (x\<lparr>pr_status := ''scheduled'', pr_error_message := None, pr_completed_at := None\<rparr>)) r2
           in (Inr \<lparr>as_agent_id = Some (se_agent_id sel), as_node_id = Some i,
                    as_dispatch_id = Some (dp_dispatch_id dispatch), as_selection_reason = se_selection_reason sel,
                    as_provisioned_agent = se_provisioned_agent sel, as_runtime_type = Some (se_runtime_type sel),
                    as_external_dispatch = Some dispatch\<rparr>, w1\<lparr>xd_runs := r3\<rparr>)))"

subsection \<open>Assigning a node to an agent of the sandbox\<close>

definition assign_to_agent :: "sched_env \<Rightarrow> selection \<Rightarrow> uuid \<Rightarrow> uuid \<Rightarrow> uuid \<Rightarrow> run_db \<Rightarrow> assignment \<times> run_db" where
  "assign_to_agent env sel rid node_id task_id r0 =
     (let d = env_db_now env;
          r1 = save_task d task_id (\<lambda>t. update_input (selection_payload sel) (t\<lparr>tk_assignee_agent := Some (se_agent_id sel),
                 Run_State.run_task.tk_status := ''assigned'', tk_error_message := None\<rparr>)) r0;
          r2 = save_node d node_id (\<lambda>n. update_node_payload (take 3 (selection_payload sel))
                 (n\<lparr>en_status := ''assigned'', en_error_message := None\<rparr>)) r1;
          r3 = save_run d rid (\<lambda>x. update_context [(''agent_assignment'', assignment_payload sel [])]
                 (x\<lparr>pr_status := ''scheduled'', pr_error_message := None, pr_completed_at := None\<rparr>)) r2
      in (\<lparr>as_agent_id = Some (se_agent_id sel), as_node_id = Some node_id, as_dispatch_id = None,
           as_selection_reason = se_selection_reason sel, as_provisioned_agent = se_provisioned_agent sel,
           as_runtime_type = Some (se_runtime_type sel), as_external_dispatch = None\<rparr>, r3))"

subsection \<open>Scheduling one node\<close>

text \<open>What a step asks for: the values of its payload, or defaults.\<close>

record step_request =
  sr_step_kind :: string
  sr_executor_kind :: string
  sr_execution_mode :: string
  sr_required :: "pyval list"
  sr_suggested :: "string list"

definition text_value :: "(pyval \<Rightarrow> string) \<Rightarrow> pyval \<Rightarrow> string \<Rightarrow> string" where
  "text_value txt v fallback = (if py_truthy v then py_text txt v else fallback)"

definition list_value :: "pyval \<Rightarrow> pyval list \<Rightarrow> py_error + pyval list" where
  "list_value v fallback = (if py_truthy v then py_iter v else Inr fallback)"

definition read_step :: "(pyval \<Rightarrow> string) \<Rightarrow> exec_node \<Rightarrow> run_task \<Rightarrow> py_error + step_request" where
  "read_step txt node task =
     (let step_payload = payload_items (en_node_payload node);
          task_payload = payload_items (tk_input_payload task);
          mode = normalize_execution_mode
            (text_value txt (payload_get ''execution_mode'' step_payload)
              (text_value txt (payload_get ''execution_mode'' task_payload) ''auto''));
          step_kind = text_value txt (payload_get ''step_kind'' step_payload)
            (infer_step_kind (tk_title task) (tk_description task) mode);
          executor_kind = text_value txt (payload_get ''executor_kind'' step_payload) ''agent''
      in case list_value (payload_get ''required_capabilities'' step_payload)
                (map PStr (default_required_capabilities step_kind)) of
           Inl e \<Rightarrow> Inl e
         | Inr required \<Rightarrow>
             (case list_value (payload_get ''suggested_agent_ids'' step_payload) [] of
                Inl e \<Rightarrow> Inl e
              | Inr ids \<Rightarrow>
                  Inr \<lparr>sr_step_kind = step_kind, sr_executor_kind = executor_kind, sr_execution_mode = mode,
                       sr_required = required,
                       sr_suggested = filter (\<lambda>s. s \<noteq> []) (map (\<lambda>v. py_strip (py_text txt v)) ids)\<rparr>))"

definition step_fields :: "step_request \<Rightarrow> (string, pyval) dict" where
  "step_fields q =
     [(''step_kind'', PStr (sr_step_kind q)), (''executor_kind'', PStr (sr_executor_kind q)),
      (''execution_mode'', PStr (sr_execution_mode q)), (''required_capabilities'', PList (sr_required q)),
      (''suggested_agent_ids'', PList (map PStr (sr_suggested q)))]"

definition task_fields :: "step_request \<Rightarrow> (string, pyval) dict" where
  "task_fields q =
     [(''step_kind'', PStr (sr_step_kind q)), (''execution_mode'', PStr (sr_execution_mode q)),
      (''required_capabilities'', PList (sr_required q)),
      (''suggested_agent_ids'', PList (map PStr (sr_suggested q))),
      (''assignment_source'', PStr ''project_execution_scheduler'')]"

definition provision_for_step ::
    "sched_env \<Rightarrow> project_run \<Rightarrow> exec_node \<Rightarrow> step_request \<Rightarrow> sched_db \<Rightarrow> (provision_error + selection) \<times> sched_db" where
  "provision_for_step env run node q s =
     (case select_or_provision_agent (env_txt env) (env_fmt1 env) (env_rank env) (env_now env) (env_db_now env)
             (env_new_agent env (en_id node)) (xd_hosts (sc_work s)) (pr_project run) (sr_step_kind q) (sr_required q)
             (env_user env) (pr_id run) (if sr_step_kind q = ''host_action'' then Some host_runtime_types else None)
             (sr_suggested q) (sc_pool s) of
        (r, pool) \<Rightarrow>
          (r, s\<lparr>sc_pool := pool, sc_work := fold show_agent (new_agents (sc_pool s) pool) (sc_work s)\<rparr>))"

definition schedule_ready_node ::
    "sched_env \<Rightarrow> uuid \<Rightarrow> uuid \<Rightarrow> sched_db \<Rightarrow> (provision_error + assignment \<times> uuid option) \<times> sched_db" where
  "schedule_ready_node env rid node_id s =
     (let r = xd_runs (sc_work s) in
      case (find_run rid r, find_node node_id r) of
        (Some run, Some node) \<Rightarrow>
          (case Option.bind (en_task node) (\<lambda>i. find_run_task i r) of
             None \<Rightarrow> (Inr (\<lparr>as_agent_id = None, as_node_id = None, as_dispatch_id = None,
                           as_selection_reason = ''Task not found'', as_provisioned_agent = False,
                           as_runtime_type = None, as_external_dispatch = None\<rparr>, None), s)
           | Some task \<Rightarrow>
               (case read_step (env_txt env) node task of
                  Inl e \<Rightarrow> (Inl (ProvisionPyError e), s)
                | Inr q \<Rightarrow>
                    (let ti = Run_State.run_task.tk_id task;
                         title = (case dict_get (po_projects (sc_pool s)) (pr_project run) of
                                    Some n \<Rightarrow> n | None \<Rightarrow> ''Project'');
                         s1 = map_runs (save_task (env_db_now env) ti (update_input (task_fields q))
                                \<circ> save_node (env_db_now env) node_id (update_node_payload (step_fields q))) s
                     in case provision_for_step env run node q s1 of
                          (Inl (ProjectExternalRuntimeUnavailableError reason), s2) \<Rightarrow>
                            if sr_step_kind q = ''host_action''
                            then (case block_pending_node env rid node_id ti reason None (xd_runs (sc_work s2)) of
                                    (a, r') \<Rightarrow> (Inr (a, None), map_runs (\<lambda>_. r') s2))
                            else (Inl (ProjectExternalRuntimeUnavailableError reason), s2)
                        | (Inl e, s2) \<Rightarrow> (Inl e, s2)
                        | (Inr sel, s2) \<Rightarrow>
                            if sr_step_kind q = ''host_action'' \<or> se_runtime_type sel \<in> set EXTERNAL_RUNTIME_TYPES
                            then (case queue_external_agent_dispatch env sel run node task title (sr_step_kind q) (sc_work s2) of
                                    (Inl e, w) \<Rightarrow> (Inl e, s2\<lparr>sc_work := w\<rparr>)
                                  | (Inr a, w) \<Rightarrow> (Inr (a, None), s2\<lparr>sc_work := w\<rparr>))
                            else (case assign_to_agent env sel rid node_id ti (xd_runs (sc_work s2)) of
                                    (a, r') \<Rightarrow> (Inr (a, Some node_id), map_runs (\<lambda>_. r') s2)))))
      | _ \<Rightarrow> (Inl (ProvisionPyError AttributeError), s))"

subsection \<open>Scheduling a run\<close>

fun schedule_nodes ::
    "sched_env \<Rightarrow> uuid \<Rightarrow> uuid list \<Rightarrow> sched_db \<Rightarrow> (provision_error + (assignment \<times> uuid option) list) \<times> sched_db" where
  "schedule_nodes env rid [] s = (Inr [], s)"
| "schedule_nodes env rid (i # is) s =
     (case schedule_ready_node env rid i s of
        (Inl e, s1) \<Rightarrow> (Inl e, s1)
      | (Inr a, s1) \<Rightarrow>
          (case schedule_nodes env rid is s1 of
             (Inl e, s2) \<Rightarrow> (Inl e, s2)
           | (Inr as, s2) \<Rightarrow> (Inr (a # as), s2)))"

text \<open>
  \<open>_schedule_next_pending_step\<close>: the first assignment and, when execution is on, the nodes that tasks
  of their own execute next.
\<close>

definition schedule_next_step ::
    "sched_env \<Rightarrow> bool \<Rightarrow> uuid \<Rightarrow> sched_db \<Rightarrow> (provision_error + assignment option \<times> uuid list) \<times> sched_db" where
  "schedule_next_step env auto_execute rid s =
     (case schedule_next_pending_step (env_now env) (env_db_now env) rid (xd_runs (sc_work s)) of
        (ready, r) \<Rightarrow>
          (case schedule_nodes env rid (map en_id ready) (map_runs (\<lambda>_. r) s) of
             (Inl e, s1) \<Rightarrow>
               (Inl e, s\<lparr>sc_pool := sc_pool s1,
                         sc_work := fold show_agent (new_agents (sc_pool s) (sc_pool s1)) (sc_work s)\<rparr>)
           | (Inr as, s1) \<Rightarrow>
               (Inr (case as of [] \<Rightarrow> None | a # _ \<Rightarrow> Some (fst a),
                     if auto_execute then List.map_filter snd as else []), commit_agents s1)))"

subsection \<open>Executing an assigned node\<close>

text \<open>\<open>registry.update_agent\<close>, in a transaction of its own.\<close>

definition set_agent_status :: "uuid \<Rightarrow> string \<Rightarrow> sched_db \<Rightarrow> sched_db" where
  "set_agent_status i st s =
     map_runs (\<lambda>r. r\<lparr>rd_agents := map (\<lambda>a. if Run_State.ag_id a = i then a\<lparr>Run_State.agent_row.ag_status := st\<rparr> else a) (rd_agents r)\<rparr>)
       (s\<lparr>sc_pool := (sc_pool s)\<lparr>po_agents := map (\<lambda>a. if pa_id a = i then a\<lparr>pa_status := st\<rparr> else a) (po_agents (sc_pool s))\<rparr>\<rparr>)"

text \<open>The run and the task of a node.\<close>

definition node_targets :: "uuid \<Rightarrow> run_db \<Rightarrow> exec_node option \<times> project_run option \<times> run_task option" where
  "node_targets node_id r =
     (let node = find_node node_id r
      in (node, Option.bind node (\<lambda>n. find_run (en_run n) r),
          Option.bind (Option.bind node en_task) (\<lambda>i. find_run_task i r)))"

definition start_assigned_node :: "sched_env \<Rightarrow> uuid \<Rightarrow> uuid \<Rightarrow> run_db \<Rightarrow> uuid option \<times> run_db" where
  "start_assigned_node env conversation_id node_id r0 =
     (case node_targets node_id r0 of
        (Some node, Some run, Some task) \<Rightarrow>
          (case tk_assignee_agent task of
             None \<Rightarrow> (None, r0)
           | Some agent_id \<Rightarrow>
               (let d = env_db_now env; now = env_now env;
                    conversation = (''conversation_id'', PStr (uuid_str conversation_id));
                    r1 = save_run d (pr_id run) (\<lambda>x. update_context [conversation, (''run_workspace'',
                           PDict [(''workspace_id'', PStr (uuid_str (pr_id run))), (''root_path'', PStr (env_workspace_root env)),
                                  (''sandbox_mode'', PStr ''run_shared'')])]
                           (x\<lparr>pr_status := ''running'',
                              pr_started_at := (if pr_started_at x = None then Some now else pr_started_at x)\<rparr>)) r0;
                    r2 = save_node d node_id (\<lambda>n. update_node_payload
                           [conversation, (''run_workspace_root'', PStr (env_workspace_root env))]
                           (n\<lparr>en_status := ''running'', en_started_at := Some now\<rparr>)) r1;
                    r3 = save_task d (Run_State.run_task.tk_id task)
                           (\<lambda>t. t\<lparr>Run_State.run_task.tk_status := ''running''\<rparr>) r2
                in (Some agent_id, r3)))
      | _ \<Rightarrow> (None, r0))"

text \<open>The result of a turn; the flag tells whether the three rows were still there.\<close>

definition complete_assigned_node ::
    "sched_env \<Rightarrow> uuid \<Rightarrow> uuid \<Rightarrow> uuid \<Rightarrow> (string, pyval) dict \<Rightarrow> run_db \<Rightarrow> bool \<times> run_db" where
  "complete_assigned_node env conversation_id rid node_id result r0 =
     (case (find_node node_id r0, find_run rid r0,
            Option.bind (Option.bind (find_node node_id r0) en_task) (\<lambda>i. find_run_task i r0)) of
        (Some node, Some run, Some task) \<Rightarrow>
          (let d = env_db_now env;
               conversation = (''conversation_id'', PStr (uuid_str conversation_id));
               delta = payload_get ''artifact_delta'' result;
               listed = payload_get ''artifacts'' result;
               artifacts = (if py_truthy delta then delta else if py_truthy listed then listed else PList []);
               r1 = save_node d node_id (\<lambda>n. n\<lparr>en_status := ''completed'', en_completed_at := Some (env_now env),
                      en_result_payload := merge_payload (en_result_payload n)
                        [conversation, (''output'', payload_get ''output'' result), (''artifacts'', artifacts)]\<rparr>) r0;
               r2 = save_task d (Run_State.run_task.tk_id task) (\<lambda>t. t\<lparr>tk_output_payload := merge_payload (tk_output_payload t)
                      [(''last_output'', payload_get ''output'' result), conversation,
                       (''run_workspace_root'', PStr (env_workspace_root env))]\<rparr>) r1
           in (True, snd (reconcile_run_state (env_now env) d rid r2)))
      | _ \<Rightarrow> (False, r0))"

definition fail_assigned_node :: "sched_env \<Rightarrow> uuid \<Rightarrow> uuid \<Rightarrow> string \<Rightarrow> run_db \<Rightarrow> run_db" where
  "fail_assigned_node env rid node_id message r0 =
     (let d = env_db_now env; now = env_now env;
          node = find_node node_id r0;
          task = Option.bind (Option.bind node en_task) (\<lambda>i. find_run_task i r0);
          r1 = if_some node (\<lambda>_. save_node d node_id (\<lambda>n. n\<lparr>en_status := ''failed'', en_error_message := Some message,
                 en_completed_at := Some now\<rparr>)) r0;
          r2 = if_some task (\<lambda>t. save_task d (Run_State.run_task.tk_id t)
                 (\<lambda>t. t\<lparr>Run_State.run_task.tk_status := ''failed'', tk_error_message := Some message\<rparr>)) r1
      in if_some (find_run rid r0) (\<lambda>_ r. snd (reconcile_run_state now d rid
           (save_run d rid (\<lambda>x. x\<lparr>pr_status := ''failed'', pr_error_message := Some message, pr_completed_at := Some now\<rparr>) r)))
           r2)"

text \<open>
  \<open>execute_assigned_node\<close>, whose conversation turn answers \<open>turn\<close> (\<open>Inl\<close> the text of its exception).
  The scheduling of the next step is inside the same \<open>try\<close>: \<open>show_error\<close> is the text of its exception. The
  second component lists the nodes to execute next.
\<close>

definition execute_assigned_node ::
    "sched_env \<Rightarrow> sched_env \<Rightarrow> (provision_error \<Rightarrow> string) \<Rightarrow> uuid \<Rightarrow> uuid \<Rightarrow> (string + (string, pyval) dict)
      \<Rightarrow> sched_db \<Rightarrow> uuid list \<times> sched_db" where
  "execute_assigned_node env1 env2 show_error conversation_id node_id turn s0 =
     (case start_assigned_node env1 conversation_id node_id (xd_runs (sc_work s0)) of
        (None, _) \<Rightarrow> ([], s0)
      | (Some agent_id, r1) \<Rightarrow>
          (let rid = (case find_node node_id r1 of Some n \<Rightarrow> en_run n | None \<Rightarrow> 0);
               s1 = map_runs (\<lambda>_. r1) s0;
               failed = (\<lambda>message s. ([], commit_agents (map_runs (fail_assigned_node env2 rid node_id message)
                          (set_agent_status agent_id ''idle'' s))))
           in case turn of
                Inl message \<Rightarrow> failed message (set_agent_status agent_id ''working'' s1)
              | Inr result \<Rightarrow>
                  (case complete_assigned_node env2 conversation_id rid node_id result
                          (xd_runs (sc_work (set_agent_status agent_id ''working'' s1))) of
                     (False, _) \<Rightarrow> ([], set_agent_status agent_id ''working'' s1)
                   | (True, r2) \<Rightarrow>
                       (let s2 = set_agent_status agent_id ''idle''
                                  (commit_agents (map_runs (\<lambda>_. r2) (set_agent_status agent_id ''working'' s1)))
                        in case schedule_next_step env2 True rid s2 of
                             (Inl e, s3) \<Rightarrow> failed (show_error e) s3
                           | (Inr (_, next), s3) \<Rightarrow> (next, s3)))))"

subsection \<open>What scheduling a run leaves alone\<close>

text \<open>
  The tasks that nodes of the run refer to. A task that has been launched again belongs to its new run, while the
  nodes of the old run still refer to it.
\<close>

definition run_task_ids :: "uuid \<Rightarrow> run_db \<Rightarrow> uuid set" where
  "run_task_ids rid r = set (List.map_filter en_task (filter (\<lambda>n. en_run n = rid) (rd_nodes r)))"

text \<open>
  The nodes and runs of other runs are the same in \<open>r\<close> and \<open>r'\<close>, and so are the tasks that neither belong to the
  run nor are referred to by its nodes; no row appears, disappears or moves to another run or task.
\<close>

definition within_run :: "uuid \<Rightarrow> run_db \<Rightarrow> run_db \<Rightarrow> bool" where
  "within_run rid r r' \<longleftrightarrow>
     filter (\<lambda>n. en_run n \<noteq> rid) (rd_nodes r') = filter (\<lambda>n. en_run n \<noteq> rid) (rd_nodes r)
     \<and> filter (\<lambda>x. pr_id x \<noteq> rid) (rd_runs r') = filter (\<lambda>x. pr_id x \<noteq> rid) (rd_runs r)
     \<and> filter (\<lambda>t. tk_run t \<noteq> Some rid \<and> Run_State.run_task.tk_id t \<notin> run_task_ids rid r) (rd_tasks r')
         = filter (\<lambda>t. tk_run t \<noteq> Some rid \<and> Run_State.run_task.tk_id t \<notin> run_task_ids rid r) (rd_tasks r)
     \<and> map (\<lambda>n. (en_id n, en_run n, en_task n)) (rd_nodes r') = map (\<lambda>n. (en_id n, en_run n, en_task n)) (rd_nodes r)
     \<and> map (\<lambda>t. (Run_State.run_task.tk_id t, tk_run t)) (rd_tasks r') = map (\<lambda>t. (Run_State.run_task.tk_id t, tk_run t)) (rd_tasks r)
     \<and> map pr_id (rd_runs r') = map pr_id (rd_runs r)"

lemma within_run_refl [simp]: "within_run rid r r"
  by (simp add: within_run_def)

lemma run_task_ids_iff:
  "t \<in> run_task_ids rid r \<longleftrightarrow> (\<exists>x \<in> set (map (\<lambda>n. (en_id n, en_run n, en_task n)) (rd_nodes r)). snd x = (rid, Some t))"
  by (auto simp: run_task_ids_def map_filter_def intro: rev_image_eqI)

lemma run_task_ids_within: "within_run rid r r' \<Longrightarrow> run_task_ids rid r' = run_task_ids rid r"
  by (rule set_eqI) (simp only: run_task_ids_iff within_run_def)

lemma within_run_trans:
  assumes "within_run rid a b" and "within_run rid b c"
  shows "within_run rid a c"
  using assms run_task_ids_within[OF assms(1)] by (simp add: within_run_def)

lemma within_run_rows:
  "rd_nodes r' = rd_nodes r \<Longrightarrow> rd_tasks r' = rd_tasks r \<Longrightarrow> rd_runs r' = rd_runs r \<Longrightarrow> within_run rid r r'"
  by (simp add: within_run_def)

text \<open>The rows with this id belong to the run.\<close>

definition node_in :: "uuid \<Rightarrow> uuid \<Rightarrow> run_db \<Rightarrow> bool" where
  "node_in rid i r \<longleftrightarrow> (\<forall>x \<in> set (map (\<lambda>n. (en_id n, en_run n, en_task n)) (rd_nodes r)). fst x = i \<longrightarrow> fst (snd x) = rid)"

definition task_in :: "uuid \<Rightarrow> uuid \<Rightarrow> run_db \<Rightarrow> bool" where
  "task_in rid i r \<longleftrightarrow> (\<forall>x \<in> set (map (\<lambda>t. (Run_State.run_task.tk_id t, tk_run t)) (rd_tasks r)). fst x = i \<longrightarrow> snd x = Some rid)
     \<or> i \<in> run_task_ids rid r"

lemma rows_in_within:
  "within_run rid r r' \<Longrightarrow> node_in rid i r' = node_in rid i r" "within_run rid r r' \<Longrightarrow> task_in rid i r' = task_in rid i r"
  by (simp_all only: within_run_def node_in_def task_in_def run_task_ids_iff)

text \<open>The id of a node is its primary key.\<close>

definition node_ids_ok :: "run_db \<Rightarrow> bool" where
  "node_ids_ok r \<longleftrightarrow> distinct (map en_id (rd_nodes r))"

lemma node_ids_rows: "node_ids_ok r \<longleftrightarrow> distinct (map fst (map (\<lambda>n. (en_id n, en_run n, en_task n)) (rd_nodes r)))"
  by (simp add: node_ids_ok_def comp_def)

lemma node_ids_within: "within_run rid r r' \<Longrightarrow> node_ids_ok r' \<longleftrightarrow> node_ids_ok r"
  unfolding node_ids_rows by (simp only: within_run_def)

lemma found_node_in:
  assumes "node_ids_ok r" and "find_node i r = Some n" and "en_run n = rid"
  shows "node_in rid i r"
proof -
  have "n \<in> set (rd_nodes r)" "en_id n = i" using assms(2) by (auto simp: find_node_def find_Some_iff)
  then have "m = n" if "m \<in> set (rd_nodes r)" "en_id m = i" for m
    using that assms(1) by (metis distinct_map inj_on_contraD node_ids_ok_def)
  then show ?thesis using assms(3) by (fastforce simp: node_in_def)
qed

lemma found_task_in:
  assumes "find_node i r = Some n" and "en_run n = rid"
    and "Option.bind (en_task n) (\<lambda>i. find_run_task i r) = Some t"
  shows "task_in rid (Run_State.run_task.tk_id t) r"
proof -
  have "n \<in> set (rd_nodes r)" using assms(1) by (auto simp: find_node_def find_Some_iff)
  moreover have "en_task n = Some (Run_State.run_task.tk_id t)"
    using assms(3) by (auto simp: bind_eq_Some_conv find_run_task_def find_Some_iff)
  ultimately have "Run_State.run_task.tk_id t \<in> run_task_ids rid r"
    unfolding run_task_ids_iff using assms(2) by (auto intro!: bexI[of _ n])
  then show ?thesis by (simp add: task_in_def)
qed

lemma filter_map_other:
  "(\<And>x. x \<in> set xs \<Longrightarrow> P (f x) = P x) \<Longrightarrow> (\<And>x. x \<in> set xs \<Longrightarrow> P x \<Longrightarrow> f x = x) \<Longrightarrow> filter P (map f xs) = filter P xs"
  by (induction xs) auto

lemma save_run_within [linx_step]:
  assumes "within_run rid r0 r" and "\<And>x. pr_id (f x) = pr_id x"
  shows "within_run rid r0 (save_run d rid f r)"
proof -
  define g where "g = (\<lambda>x. if pr_id x = rid then (if f x = x then x else (f x)\<lparr>pr_updated_at := d\<rparr>) else x)"
  have g: "pr_id (g x) = pr_id x" for x using assms(2) by (simp add: g_def)
  have "filter (\<lambda>x. pr_id x \<noteq> rid) (map g (rd_runs r)) = filter (\<lambda>x. pr_id x \<noteq> rid) (rd_runs r)"
    by (rule filter_map_other) (simp add: g, simp add: g_def)
  moreover have "rd_runs (save_run d rid f r) = map g (rd_runs r)" by (simp add: save_run_def g_def)
  ultimately have "within_run rid r (save_run d rid f r)" by (simp add: within_run_def g comp_def)
  with assms(1) show ?thesis by (rule within_run_trans)
qed

lemma save_node_within [linx_step]:
  assumes "within_run rid r0 r" and "node_in rid i r0"
    and "\<And>x. en_id (f x) = en_id x" and "\<And>x. en_run (f x) = en_run x" and "\<And>x. en_task (f x) = en_task x"
  shows "within_run rid r0 (save_node d i f r)"
proof -
  have other: "m \<in> set (rd_nodes r) \<Longrightarrow> en_run m \<noteq> rid \<Longrightarrow> en_id m \<noteq> i" for m
    using assms(2) unfolding rows_in_within(1)[OF assms(1), symmetric] by (auto simp: node_in_def)
  define g where "g = (\<lambda>n. if en_id n = i then (if f n = n then n else (f n)\<lparr>en_updated_at := d\<rparr>) else n)"
  have g: "en_id (g x) = en_id x" "en_run (g x) = en_run x" "en_task (g x) = en_task x" for x
    using assms(3-5) by (simp_all add: g_def)
  have "filter (\<lambda>n. en_run n \<noteq> rid) (map g (rd_nodes r)) = filter (\<lambda>n. en_run n \<noteq> rid) (rd_nodes r)"
    by (rule filter_map_other) (use other in \<open>simp_all add: g\<close>, auto simp: g_def)
  moreover have "rd_nodes (save_node d i f r) = map g (rd_nodes r)" by (simp add: save_node_def g_def)
  ultimately have "within_run rid r (save_node d i f r)" by (simp add: within_run_def g comp_def)
  with assms(1) show ?thesis by (rule within_run_trans)
qed

lemma save_task_within [linx_step]:
  assumes "within_run rid r0 r" and "task_in rid i r0"
    and "\<And>x. Run_State.run_task.tk_id (f x) = Run_State.run_task.tk_id x" and "\<And>x. tk_run (f x) = tk_run x"
  shows "within_run rid r0 (save_task d i f r)"
proof -
  have other: "m \<in> set (rd_tasks r) \<Longrightarrow> tk_run m \<noteq> Some rid \<Longrightarrow> Run_State.run_task.tk_id m \<notin> run_task_ids rid r
      \<Longrightarrow> Run_State.run_task.tk_id m \<noteq> i" for m
    using assms(2) unfolding rows_in_within(2)[OF assms(1), symmetric] by (auto simp: task_in_def)
  define g where "g = (\<lambda>n. if Run_State.run_task.tk_id n = i then (if f n = n then n else (f n)\<lparr>tk_updated_at := d\<rparr>) else n)"
  have g: "Run_State.run_task.tk_id (g x) = Run_State.run_task.tk_id x" "tk_run (g x) = tk_run x" for x
    using assms(3,4) by (simp_all add: g_def)
  let ?other = "\<lambda>t. tk_run t \<noteq> Some rid \<and> Run_State.run_task.tk_id t \<notin> run_task_ids rid r"
  have "filter ?other (map g (rd_tasks r)) = filter ?other (rd_tasks r)"
    by (rule filter_map_other) (use other in \<open>simp_all add: g\<close>, auto simp: g_def)
  moreover have "rd_tasks (save_task d i f r) = map g (rd_tasks r)" by (simp add: save_task_def g_def)
  ultimately have "within_run rid r (save_task d i f r)" by (simp add: within_run_def g comp_def)
  with assms(1) show ?thesis by (rule within_run_trans)
qed

lemma retire_within [linx_step]:
  "within_run rid r0 r \<Longrightarrow> within_run rid r0 (snd (retire_ephemeral_run_agents now run tasks r))"
  by (erule within_run_trans) (rule within_run_rows; simp)

lemma reconcile_within [linx_step]:
  assumes "within_run rid r0 r"
  shows "within_run rid r0 (snd (reconcile_run_state now d rid r))"
proof (cases "find_run rid r")
  case None
  with assms show ?thesis by (simp add: reconcile_run_state_def)
next
  case (Some run0)
  obtain run r' where e: "reconcile_run_state now d rid r = (Some run, r')"
    using reconcile_returns_run[OF Some] by blast
  obtain tasks where parts: "pr_id run = rid"
    "r' = reconcile_project_state d (pr_project run)
        (snd (retire_ephemeral_run_agents now run tasks (put_run run (reconcile_run_tasks d rid r))))"
    by (rule reconcile_run_state_parts[OF e])
  have "within_run rid r (reconcile_run_tasks d rid r)"
    unfolding within_run_def reconcile_run_tasks_def Let_def by (auto intro!: filter_map_other split: if_splits)
  moreover have "within_run rid x (put_run run x)" for x
    unfolding within_run_def put_run_def using parts(1) by (auto intro!: filter_map_other)
  moreover have "within_run rid x (snd (retire_ephemeral_run_agents now run tasks x))" for x
    by (rule within_run_rows) simp_all
  moreover have "within_run rid x (reconcile_project_state d (pr_project run) x)" for x
    by (rule within_run_rows) simp_all
  ultimately show ?thesis using within_run_trans assms unfolding e parts(2) snd_conv by metis
qed

lemma update_keeps [simp]:
  "Run_State.run_task.tk_id (update_input p t) = Run_State.run_task.tk_id t" "tk_run (update_input p t) = tk_run t"
  "en_id (update_node_payload p n) = en_id n" "en_run (update_node_payload p n) = en_run n"
  "en_task (update_node_payload p n) = en_task n" "pr_id (update_context p x) = pr_id x"
  by (simp_all add: update_input_def update_node_payload_def update_context_def)

lemma block_within [linx_step]:
  assumes "within_run rid r0 r" and "node_in rid i r0" and "task_in rid j r0"
  shows "within_run rid r0 (snd (block_pending_node env rid i j reason sel r))"
  unfolding block_pending_node_def Let_def snd_conv
  using assms by (auto intro!: linx_step split: option.splits)

lemma assign_within [linx_step]:
  assumes "within_run rid r0 r" and "node_in rid i r0" and "task_in rid j r0"
  shows "within_run rid r0 (snd (assign_to_agent env sel rid i j r))"
  unfolding assign_to_agent_def Let_def snd_conv
  using assms by (auto intro!: linx_step)

text \<open>The database as a whole: new dispatches are added for the run, nothing else changes.\<close>

definition schedule_effect :: "uuid \<Rightarrow> dispatch_db \<Rightarrow> dispatch_db \<Rightarrow> bool" where
  "schedule_effect rid w w' \<longleftrightarrow> within_run rid (xd_runs w) (xd_runs w')
     \<and> (\<exists>ds. xd_dispatches w' = xd_dispatches w @ ds
          \<and> (\<forall>d \<in> set ds. dp_run_id d = Some rid \<and> dp_status d = ''pending'' \<and> dp_source_type d = ''execution_node''))
     \<and> xd_events w' = xd_events w \<and> hd_tokens (xd_hosts w') = hd_tokens (xd_hosts w)
     \<and> hd_bindings (xd_hosts w') = hd_bindings (xd_hosts w) \<and> hd_profiles (xd_hosts w') = hd_profiles (xd_hosts w)"

lemma schedule_effect_refl [simp]: "schedule_effect rid w w"
  by (simp add: schedule_effect_def)

lemma schedule_effect_trans:
  assumes "schedule_effect rid a b" and "schedule_effect rid b c"
  shows "schedule_effect rid a c"
proof -
  obtain ds where "xd_dispatches b = xd_dispatches a @ ds"
    "\<forall>d \<in> set ds. dp_run_id d = Some rid \<and> dp_status d = ''pending'' \<and> dp_source_type d = ''execution_node''"
    using assms(1) by (auto simp: schedule_effect_def)
  moreover obtain es where "xd_dispatches c = xd_dispatches b @ es"
    "\<forall>d \<in> set es. dp_run_id d = Some rid \<and> dp_status d = ''pending'' \<and> dp_source_type d = ''execution_node''"
    using assms(2) by (auto simp: schedule_effect_def)
  ultimately have "\<exists>fs. xd_dispatches c = xd_dispatches a @ fs
      \<and> (\<forall>d \<in> set fs. dp_run_id d = Some rid \<and> dp_status d = ''pending'' \<and> dp_source_type d = ''execution_node'')"
    by (intro exI[of _ "ds @ es"]) auto
  then show ?thesis
    using assms within_run_trans[of rid "xd_runs a" "xd_runs b" "xd_runs c"] by (simp add: schedule_effect_def)
qed

lemma effect_runs: "within_run rid (xd_runs w) r \<Longrightarrow> schedule_effect rid w (w\<lparr>xd_runs := r\<rparr>)"
  by (simp add: schedule_effect_def)

lemma show_agent_effect: "schedule_effect rid w (show_agent a w)"
  by (auto simp: schedule_effect_def show_agent_def intro: within_run_rows)

lemma show_agents_effect: "schedule_effect rid w (fold show_agent as w)"
proof (induction as arbitrary: w)
  case (Cons a as)
  have "schedule_effect rid w (show_agent a w)" by (rule show_agent_effect)
  moreover have "schedule_effect rid (show_agent a w) (fold show_agent as (show_agent a w))" by (rule Cons.IH)
  ultimately show ?case unfolding fold_Cons comp_def by (rule schedule_effect_trans)
qed simp

lemma create_dispatch_cases:
  assumes "create_dispatch render now d new_id a st si rt rp p rn n w = (res, w')"
  shows "(\<exists>e. res = Inl e \<and> w' = w)
    \<or> (\<exists>b. get_active_binding a (xd_hosts w) = Some b
        \<and> (\<exists>pref s. dict_get (hd_agents (xd_hosts w)) a = Some pref \<and> summarize_state render now a pref (xd_hosts w) = Some s
             \<and> rs_available_for_execution s)
        \<and> res = Inr (new_dispatch now d new_id a (hb_binding_id b) st si rt rp p rn n)
        \<and> w' = w\<lparr>xd_dispatches := xd_dispatches w @ [new_dispatch now d new_id a (hb_binding_id b) st si rt rp p rn n]\<rparr>)"
  using assms by (auto simp: create_dispatch_def get_agent_row_def Let_def split: option.splits if_splits)

lemma queue_effect:
  assumes "node_in (pr_id run) (en_id node) (xd_runs w)" and "task_in (pr_id run) (Run_State.run_task.tk_id task) (xd_runs w)"
  shows "schedule_effect (pr_id run) w (snd (queue_external_agent_dispatch env sel run node task title kind w))"
proof -
  obtain res w1 where c: "create_dispatch (env_txt env) (env_now env) (env_db_now env) (env_new_dispatch env (en_id node))
      (se_agent_id sel) ''execution_node'' (uuid_str (en_id node)) (se_runtime_type sel)
      (dispatch_request env sel run node task title kind) (Some (pr_project run)) (Some (pr_id run)) (Some (en_id node)) w = (res, w1)"
    by fastforce
  note block = block_within[OF within_run_refl assms]
  from create_dispatch_cases[OF c] show ?thesis
  proof (elim disjE exE conjE)
    fix e assume e: "res = Inl e" "w1 = w"
    then show ?thesis
    proof (cases e)
      case (ExternalRuntimeUnavailableError detail)
      then show ?thesis
        using effect_runs[OF block] c e by (simp add: queue_external_agent_dispatch_def Let_def split_beta)
    qed (use c e in \<open>simp_all add: queue_external_agent_dispatch_def Let_def\<close>)
  next
    fix b assume res: "res = Inr (new_dispatch (env_now env) (env_db_now env) (env_new_dispatch env (en_id node)) (se_agent_id sel)
        (hb_binding_id b) ''execution_node'' (uuid_str (en_id node)) (se_runtime_type sel)
        (dispatch_request env sel run node task title kind) (Some (pr_project run)) (Some (pr_id run)) (Some (en_id node)))"
      "w1 = w\<lparr>xd_dispatches := xd_dispatches w @ [new_dispatch (env_now env) (env_db_now env) (env_new_dispatch env (en_id node))
        (se_agent_id sel) (hb_binding_id b) ''execution_node'' (uuid_str (en_id node)) (se_runtime_type sel)
        (dispatch_request env sel run node task title kind) (Some (pr_project run)) (Some (pr_id run)) (Some (en_id node))]\<rparr>"
    have "schedule_effect (pr_id run) w w1" by (simp add: res schedule_effect_def new_dispatch_def)
    moreover have "\<exists>r. snd (queue_external_agent_dispatch env sel run node task title kind w) = w1\<lparr>xd_runs := r\<rparr>
        \<and> within_run (pr_id run) (xd_runs w1) r"
      unfolding queue_external_agent_dispatch_def Let_def c res(1) prod.case sum.case snd_conv
      using assms by (intro exI conjI refl) (auto simp: res(2) intro!: linx_step)
    ultimately show ?thesis using schedule_effect_trans effect_runs by metis
  qed
qed

lemma provision_effect: "schedule_effect rid (sc_work s) (sc_work (snd (provision_for_step env run node q s)))"
  by (simp add: provision_for_step_def show_agents_effect split: prod.splits)

lemma map_runs_simps [simp]:
  "sc_work (map_runs f s) = (sc_work s)\<lparr>xd_runs := f (xd_runs (sc_work s))\<rparr>" "sc_pool (map_runs f s) = sc_pool s"
  by (simp_all add: map_runs_def)

lemma effect_within: "schedule_effect rid w w' \<Longrightarrow> within_run rid (xd_runs w) (xd_runs w')"
  by (simp add: schedule_effect_def)

lemma schedule_ready_node_effect:
  assumes "node_ids_ok (xd_runs (sc_work s))"
    and "\<And>n. find_node i (xd_runs (sc_work s)) = Some n \<Longrightarrow> en_run n = rid"
  shows "schedule_effect rid (sc_work s) (sc_work (snd (schedule_ready_node env rid i s)))"
proof (cases "find_run rid (xd_runs (sc_work s))"; cases "find_node i (xd_runs (sc_work s))")
  fix run node assume run: "find_run rid (xd_runs (sc_work s)) = Some run" and node: "find_node i (xd_runs (sc_work s)) = Some node"
  note rid = find_run_id[OF run] and in_run = assms(2)[OF node]
  have i: "en_id node = i" using node by (auto simp: find_node_def find_Some_iff)
  note node_ok = found_node_in[OF assms(1) node in_run]
  show ?thesis
  proof (cases "Option.bind (en_task node) (\<lambda>i. find_run_task i (xd_runs (sc_work s)))")
    case None
    then show ?thesis by (simp add: schedule_ready_node_def Let_def run node)
  next
    case (Some task)
    note task_ok = found_task_in[OF node in_run Some]
    show ?thesis
    proof (cases "read_step (env_txt env) node task")
      case (Inl e)
      then show ?thesis by (simp add: schedule_ready_node_def Let_def run node Some)
    next
      case (Inr q)
      define s1 where "s1 = map_runs (save_task (env_db_now env) (Run_State.run_task.tk_id task) (update_input (task_fields q))
             \<circ> save_node (env_db_now env) i (update_node_payload (step_fields q))) s"
      obtain res s2 where p: "provision_for_step env run node q s1 = (res, s2)" by fastforce
      have e1: "schedule_effect rid (sc_work s) (sc_work s1)"
        unfolding s1_def map_runs_simps comp_def using node_ok task_ok by (intro effect_runs linx_step) auto
      moreover have "schedule_effect rid (sc_work s1) (sc_work s2)" using provision_effect[of rid s1 env run node q] p by simp
      ultimately have e2: "schedule_effect rid (sc_work s) (sc_work s2)" by (rule schedule_effect_trans)
      have ok2: "node_in rid i (xd_runs (sc_work s2))" "task_in rid (Run_State.run_task.tk_id task) (xd_runs (sc_work s2))"
        using node_ok task_ok rows_in_within[OF effect_within[OF e2]] by simp_all
      note block = effect_runs[OF block_within[OF within_run_refl ok2]] and assign = effect_runs[OF assign_within[OF within_run_refl ok2]]
      note queue = queue_effect[of run node "sc_work s2" task, unfolded rid i, OF ok2]
      note unfold = schedule_ready_node_def Let_def run node Some Inr s1_def[symmetric] p
      let ?title = "case dict_get (po_projects (sc_pool s)) (pr_project run) of None \<Rightarrow> ''Project'' | Some n \<Rightarrow> n"
      have "schedule_effect rid (sc_work s2) (sc_work (snd (schedule_ready_node env rid i s)))"
      proof (cases res)
        case (Inl e)
        then show ?thesis
          using block by (cases e) (simp_all add: unfold split_beta)
      next
        case (Inr sel)
        then show ?thesis
          using queue[of env sel ?title "sr_step_kind q"] assign
          by (auto simp: unfold split_beta split: sum.split)
      qed
      with e2 show ?thesis by (rule schedule_effect_trans)
    qed
  qed
qed (simp_all add: schedule_ready_node_def Let_def)

lemma schedule_nodes_effect:
  assumes "node_ids_ok (xd_runs (sc_work s))" and "\<And>i. i \<in> set is \<Longrightarrow> node_in rid i (xd_runs (sc_work s))"
  shows "schedule_effect rid (sc_work s) (sc_work (snd (schedule_nodes env rid is s)))"
  using assms
proof (induction "is" arbitrary: s)
  case (Cons i "is")
  obtain res s1 where one: "schedule_ready_node env rid i s = (res, s1)" by fastforce
  have "en_run n = rid" if "find_node i (xd_runs (sc_work s)) = Some n" for n
    using Cons.prems(2)[of i] that by (auto simp: node_in_def find_node_def find_Some_iff)
  then have e: "schedule_effect rid (sc_work s) (sc_work s1)"
    using schedule_ready_node_effect[OF Cons.prems(1), of i rid env] one by simp
  have "schedule_effect rid (sc_work s1) (sc_work (snd (schedule_nodes env rid is s1)))"
    using Cons.prems node_ids_within[OF effect_within[OF e]] rows_in_within[OF effect_within[OF e]] by (intro Cons.IH) simp_all
  with e have "schedule_effect rid (sc_work s) (sc_work (snd (schedule_nodes env rid is s1)))" by (rule schedule_effect_trans)
  with e one show ?case by (simp add: split_beta split: sum.split)
qed simp

lemma provision_pool:
  "\<exists>as. po_agents (snd (select_or_provision_agent render fmt1 rank now d new_id hosts pid kind req u run_id types sug db))
      = po_agents db @ as \<and> (\<forall>a \<in> set as. pa_is_ephemeral a)"
  by (auto simp: select_or_provision_agent_def provision_ephemeral_agent_def Let_def ephemeral_agent_def
      split: sum.split option.split list.split)

lemma schedule_ready_node_pool:
  "\<exists>as. po_agents (sc_pool (snd (schedule_ready_node env rid i s))) = po_agents (sc_pool s) @ as \<and> (\<forall>a \<in> set as. pa_is_ephemeral a)"
proof -
  have "\<exists>as. po_agents (sc_pool (snd (provision_for_step env run node q (map_runs f s)))) = po_agents (sc_pool s) @ as
      \<and> (\<forall>a \<in> set as. pa_is_ephemeral a)" for run node q f
    using provision_pool by (simp add: provision_for_step_def split_beta)
  then show ?thesis
    by (simp add: schedule_ready_node_def Let_def split_beta split: option.split sum.split provision_error.split)
qed

lemma schedule_nodes_pool:
  "\<exists>as. po_agents (sc_pool (snd (schedule_nodes env rid is s))) = po_agents (sc_pool s) @ as \<and> (\<forall>a \<in> set as. pa_is_ephemeral a)"
proof (induction "is" arbitrary: s)
  case (Cons i "is")
  obtain res s1 where one: "schedule_ready_node env rid i s = (res, s1)" by fastforce
  then obtain as where "po_agents (sc_pool s1) = po_agents (sc_pool s) @ as" "\<forall>a \<in> set as. pa_is_ephemeral a"
    using schedule_ready_node_pool[of env rid i s] by auto
  moreover obtain bs where "po_agents (sc_pool (snd (schedule_nodes env rid is s1))) = po_agents (sc_pool s1) @ bs"
    "\<forall>a \<in> set bs. pa_is_ephemeral a"
    using Cons.IH by blast
  ultimately have "po_agents (sc_pool (snd (schedule_nodes env rid is s1))) = po_agents (sc_pool s) @ (as @ bs)"
    "\<forall>a \<in> set (as @ bs). pa_is_ephemeral a" by auto
  with \<open>po_agents (sc_pool s1) = _\<close> \<open>\<forall>a \<in> set as. _\<close> one show ?case
    by (auto simp: split_beta split: sum.split)
qed simp

lemma ready_within:
  assumes "node_ids_ok r" and "schedule_next_pending_step now d rid r = (ready, r')"
  shows "within_run rid r r' \<and> (\<forall>n \<in> set ready. node_in rid (en_id n) r')"
proof (cases "find_run rid r")
  case None
  with assms(2) show ?thesis by (simp add: schedule_next_pending_step_def)
next
  case (Some run)
  note rid = find_run_id[OF Some]
  have put: "within_run rid r (put_run x r)" if "pr_id x = rid" for x
    unfolding within_run_def put_run_def using that by (auto intro!: filter_map_other)
  have "node_in rid (en_id n) r" if "n \<in> set (get_ready_execution_nodes_for_run rid r)" for n
  proof -
    have n: "n \<in> set (rd_nodes r)" "en_run n = rid"
      using that by (auto simp: get_ready_execution_nodes_for_run_def list_execution_nodes_for_run_def Let_def)
    then have "find_node (en_id n) r = Some n"
      using assms(1) unfolding find_node_def node_ids_ok_def by (intro find_unique) auto
    then show ?thesis by (rule found_node_in[OF assms(1) _ n(2)])
  qed
  then show ?thesis
    using assms(2) Some put[of "run\<lparr>pr_status := ''completed'', pr_completed_at := Some now, pr_updated_at := d\<rparr>"] rid
    by (auto simp: schedule_next_pending_step_def Let_def split: if_splits intro!: linx_step)
qed

lemma schedule_next_step_effect:
  assumes "node_ids_ok (xd_runs (sc_work s))" and "schedule_next_step env auto rid s = (res, s')"
  shows "schedule_effect rid (sc_work s) (sc_work s')"
proof -
  obtain ready r where n: "schedule_next_pending_step (env_now env) (env_db_now env) rid (xd_runs (sc_work s)) = (ready, r)" by fastforce
  note ready = ready_within[OF assms(1) n]
  let ?s = "map_runs (\<lambda>_. r) s"
  have e0: "schedule_effect rid (sc_work s) (sc_work ?s)" using ready by (simp add: effect_runs)
  have "schedule_effect rid (sc_work ?s) (sc_work (snd (schedule_nodes env rid (map en_id ready) ?s)))"
    using ready assms(1) node_ids_within[of rid "xd_runs (sc_work s)" r] by (intro schedule_nodes_effect) auto
  with e0 have "schedule_effect rid (sc_work s) (sc_work (snd (schedule_nodes env rid (map en_id ready) ?s)))"
    by (rule schedule_effect_trans)
  with assms(2) show ?thesis
    by (auto simp: schedule_next_step_def n split_beta commit_agents_def show_agents_effect split: sum.splits)
qed

text \<open>The tasks of a run's nodes are those of the run.\<close>

definition refers_to_own_tasks :: "uuid \<Rightarrow> run_db \<Rightarrow> bool" where
  "refers_to_own_tasks rid r \<longleftrightarrow>
     (\<forall>t \<in> set (rd_tasks r). Run_State.run_task.tk_id t \<in> run_task_ids rid r \<longrightarrow> tk_run t = Some rid)"

lemma filter_same_sub:
  "filter Q xs = filter Q ys \<Longrightarrow> (\<And>x. x \<in> set xs \<Longrightarrow> P x \<Longrightarrow> Q x) \<Longrightarrow> (\<And>x. x \<in> set ys \<Longrightarrow> P x \<Longrightarrow> Q x)
   \<Longrightarrow> filter P xs = filter P ys"
proof -
  assume same: "filter Q xs = filter Q ys" and "\<And>x. x \<in> set xs \<Longrightarrow> P x \<Longrightarrow> Q x" and "\<And>x. x \<in> set ys \<Longrightarrow> P x \<Longrightarrow> Q x"
  then have "filter P xs = filter P (filter Q xs)" "filter P ys = filter P (filter Q ys)"
    unfolding filter_filter by (auto intro!: filter_cong)
  with same show ?thesis by metis
qed

lemma own_tasks_only:
  assumes "within_run rid r r'" and "refers_to_own_tasks rid r"
  shows "filter (\<lambda>t. tk_run t \<noteq> Some rid) (rd_tasks r') = filter (\<lambda>t. tk_run t \<noteq> Some rid) (rd_tasks r)"
proof (rule filter_same_sub)
  show "filter (\<lambda>t. tk_run t \<noteq> Some rid \<and> Run_State.run_task.tk_id t \<notin> run_task_ids rid r) (rd_tasks r')
      = filter (\<lambda>t. tk_run t \<noteq> Some rid \<and> Run_State.run_task.tk_id t \<notin> run_task_ids rid r) (rd_tasks r)"
    using assms(1) by (simp add: within_run_def)
  have "(\<lambda>t. (Run_State.run_task.tk_id t, tk_run t)) ` set (rd_tasks r') = (\<lambda>t. (Run_State.run_task.tk_id t, tk_run t)) ` set (rd_tasks r)"
    using assms(1) unfolding within_run_def by (metis set_map)
  then have "\<exists>u \<in> set (rd_tasks r). Run_State.run_task.tk_id u = Run_State.run_task.tk_id t \<and> tk_run u = tk_run t"
    if "t \<in> set (rd_tasks r')" for t
    using imageI[OF that, of "\<lambda>t. (Run_State.run_task.tk_id t, tk_run t)"] by auto
  then show "tk_run t \<noteq> Some rid \<and> Run_State.run_task.tk_id t \<notin> run_task_ids rid r"
    if "t \<in> set (rd_tasks r')" "tk_run t \<noteq> Some rid" for t
    using that assms(2) unfolding refers_to_own_tasks_def by metis
qed (use assms(2) in \<open>auto simp: refers_to_own_tasks_def\<close>)

lemma schedule_next_step_rollback:
  assumes "schedule_next_step env auto rid s = (Inl e, s')"
  shows "\<exists>as. po_agents (sc_pool s') = po_agents (sc_pool s) @ as \<and> (\<forall>a \<in> set as. pa_is_ephemeral a)
    \<and> sc_work s' = fold show_agent as (sc_work s)"
proof -
  obtain ready r where n: "schedule_next_pending_step (env_now env) (env_db_now env) rid (xd_runs (sc_work s)) = (ready, r)" by fastforce
  obtain as where "po_agents (sc_pool (snd (schedule_nodes env rid (map en_id ready) (map_runs (\<lambda>_. r) s)))) = po_agents (sc_pool s) @ as"
    "\<forall>a \<in> set as. pa_is_ephemeral a"
    using schedule_nodes_pool[of env rid "map en_id ready" "map_runs (\<lambda>_. r) s"] by auto
  then show ?thesis
    using assms by (intro exI[of _ as]) (auto simp: schedule_next_step_def n split_beta new_agents_def split: sum.splits)
qed

subsection \<open>Where a node goes\<close>

lemma host_online_bindings: "hd_bindings hosts' = hd_bindings hosts \<Longrightarrow> host_online now hosts' i = host_online now hosts i"
  by (simp add: host_online_def get_active_binding_def)

lemma reconcile_nodes [simp]: "rd_nodes (snd (reconcile_run_state now d rid r)) = rd_nodes r"
proof (cases "find_run rid r")
  case (Some run)
  then show ?thesis using reconcile_result[OF Some, of now d] by (metis snd_conv)
qed (simp add: reconcile_run_state_def)

lemma node_saved:
  assumes "find_node i r = Some n" and "rd_nodes r' = rd_nodes (save_node d i f r)" and "\<And>y. en_id (f y) = en_id y"
  obtains n' where "find_node i r' = Some n'" and "en_status n' = en_status (f n)" and "en_error_message n' = en_error_message (f n)"
  using find_save_node[OF assms(1,3), of d] find_node_cong[OF assms(2), of i] that by auto

lemma update_node_simps [simp]:
  "en_status (update_node_payload p n) = en_status n" "en_error_message (update_node_payload p n) = en_error_message n"
  by (simp_all add: update_node_payload_def)

lemma block_node:
  assumes "find_node i r = Some n"
  shows "\<exists>n'. find_node i (snd (block_pending_node env rid i j reason sel r)) = Some n' \<and> en_status n' = ''blocked''
    \<and> en_error_message n' = Some reason"
proof -
  define f where "f = (\<lambda>n. (case sel of None \<Rightarrow> n | Some x \<Rightarrow> update_node_payload (case sel of None \<Rightarrow> [] | Some x \<Rightarrow> selection_payload x) n)
                 \<lparr>en_status := ''blocked'', en_error_message := Some reason\<rparr>)"
  let ?t = "save_task (env_db_now env) j (\<lambda>t. (case sel of None \<Rightarrow> t
                   | Some x \<Rightarrow> update_input (case sel of None \<Rightarrow> [] | Some x \<Rightarrow> selection_payload x) (t\<lparr>tk_assignee_agent := Some (se_agent_id x)\<rparr>))
                 \<lparr>Run_State.run_task.tk_status := ''blocked'', tk_error_message := Some reason\<rparr>) r"
  have "find_node i ?t = Some n" using assms by (simp add: find_node_def)
  moreover have "rd_nodes (snd (block_pending_node env rid i j reason sel r)) = rd_nodes (save_node (env_db_now env) i f ?t)"
    by (simp add: block_pending_node_def Let_def f_def split: option.split)
  ultimately obtain n' where "find_node i (snd (block_pending_node env rid i j reason sel r)) = Some n'"
    "en_status n' = en_status (f n)" "en_error_message n' = en_error_message (f n)"
    by (rule node_saved) (simp add: f_def split: option.split)
  then show ?thesis by (simp add: f_def split: option.split)
qed

lemma assign_node:
  assumes "find_node i r = Some n"
  shows "\<exists>n'. find_node i (snd (assign_to_agent env sel rid i j r)) = Some n' \<and> en_status n' = ''assigned''"
proof -
  define f where "f = (\<lambda>n. update_node_payload (take 3 (selection_payload sel)) (n\<lparr>en_status := ''assigned'', en_error_message := None\<rparr>))"
  let ?t = "save_task (env_db_now env) j (\<lambda>t. update_input (selection_payload sel) (t\<lparr>tk_assignee_agent := Some (se_agent_id sel),
                 Run_State.run_task.tk_status := ''assigned'', tk_error_message := None\<rparr>)) r"
  have "find_node i ?t = Some n" using assms by (simp add: find_node_def)
  moreover have "rd_nodes (snd (assign_to_agent env sel rid i j r)) = rd_nodes (save_node (env_db_now env) i f ?t)"
    by (simp add: assign_to_agent_def Let_def f_def)
  ultimately obtain n' where "find_node i (snd (assign_to_agent env sel rid i j r)) = Some n'" "en_status n' = en_status (f n)"
    by (rule node_saved) (simp add: f_def)
  then show ?thesis by (simp add: f_def)
qed

text \<open>The three ends of scheduling a node.\<close>

definition node_dispatched :: "sched_env \<Rightarrow> uuid \<Rightarrow> assignment \<Rightarrow> dispatch_db \<Rightarrow> dispatch_db \<Rightarrow> bool" where
  "node_dispatched env i a w w' \<longleftrightarrow>
     (\<exists>n d. find_node i (xd_runs w') = Some n \<and> en_status n = ''queued'' \<and> xd_dispatches w' = xd_dispatches w @ [d]
        \<and> dp_node_id d = Some i \<and> dp_status d = ''pending'' \<and> as_dispatch_id a = Some (dp_dispatch_id d)
        \<and> as_agent_id a = Some (dp_agent_id d) \<and> host_online (env_now env) (xd_hosts w) (dp_agent_id d))"

definition node_blocked :: "uuid \<Rightarrow> dispatch_db \<Rightarrow> dispatch_db \<Rightarrow> bool" where
  "node_blocked i w w' \<longleftrightarrow>
     (\<exists>n. find_node i (xd_runs w') = Some n \<and> en_status n = ''blocked'' \<and> en_error_message n \<noteq> None)
     \<and> xd_dispatches w' = xd_dispatches w"

definition node_assigned :: "uuid \<Rightarrow> assignment \<Rightarrow> dispatch_db \<Rightarrow> dispatch_db \<Rightarrow> bool" where
  "node_assigned i a w w' \<longleftrightarrow>
     (\<exists>n. find_node i (xd_runs w') = Some n \<and> en_status n = ''assigned'')
     \<and> (\<exists>t. as_runtime_type a = Some t \<and> t \<notin> set EXTERNAL_RUNTIME_TYPES) \<and> xd_dispatches w' = xd_dispatches w"

lemma queue_node:
  assumes "find_node (en_id node) (xd_runs w) = Some n"
    and "queue_external_agent_dispatch env sel run node task title kind w = (Inr a, w')"
  shows "node_dispatched env (en_id node) a w w' \<or> node_blocked (en_id node) w w'"
proof -
  let ?i = "en_id node" and ?j = "Run_State.run_task.tk_id task"
  obtain res w1 where c: "create_dispatch (env_txt env) (env_now env) (env_db_now env) (env_new_dispatch env ?i)
      (se_agent_id sel) ''execution_node'' (uuid_str ?i) (se_runtime_type sel)
      (dispatch_request env sel run node task title kind) (Some (pr_project run)) (Some (pr_id run)) (Some ?i) w = (res, w1)"
    by fastforce
  from create_dispatch_cases[OF c] show ?thesis
  proof (elim disjE exE conjE)
    fix e assume e: "res = Inl e" "w1 = w"
    then obtain detail where "e = ExternalRuntimeUnavailableError detail"
      using assms(2) c by (cases e) (simp_all add: queue_external_agent_dispatch_def Let_def)
    then have "\<exists>reason. w' = w\<lparr>xd_runs := snd (block_pending_node env (pr_id run) ?i ?j reason (Some sel) (xd_runs w))\<rparr>"
      using assms(2) c e by (auto simp: queue_external_agent_dispatch_def Let_def split_beta)
    then show ?thesis using block_node[OF assms(1)] by (fastforce simp: node_blocked_def)
  next
    fix b pref st assume b: "summarize_state (env_txt env) (env_now env) (se_agent_id sel) pref (xd_hosts w) = Some st"
        "rs_available_for_execution st"
      and res: "res = Inr (new_dispatch (env_now env) (env_db_now env) (env_new_dispatch env ?i) (se_agent_id sel)
        (hb_binding_id b) ''execution_node'' (uuid_str ?i) (se_runtime_type sel)
        (dispatch_request env sel run node task title kind) (Some (pr_project run)) (Some (pr_id run)) (Some ?i))"
      "w1 = w\<lparr>xd_dispatches := xd_dispatches w @ [new_dispatch (env_now env) (env_db_now env) (env_new_dispatch env ?i)
        (se_agent_id sel) (hb_binding_id b) ''execution_node'' (uuid_str ?i) (se_runtime_type sel)
        (dispatch_request env sel run node task title kind) (Some (pr_project run)) (Some (pr_id run)) (Some ?i)]\<rparr>"
    define d where "d = new_dispatch (env_now env) (env_db_now env) (env_new_dispatch env ?i) (se_agent_id sel)
        (hb_binding_id b) ''execution_node'' (uuid_str ?i) (se_runtime_type sel)
        (dispatch_request env sel run node task title kind) (Some (pr_project run)) (Some (pr_id run)) (Some ?i)"
    define f where "f = (\<lambda>n. update_node_payload (selection_payload sel @ [(''dispatch_id'', PStr (uuid_str (dp_dispatch_id d)))])
        (n\<lparr>en_status := ''queued'', en_error_message := None\<rparr>))"
    define t where "t = save_task (env_db_now env) ?j (\<lambda>t. update_input
        (selection_payload sel @ [(''dispatch_id'', PStr (uuid_str (dp_dispatch_id d)))])
        (t\<lparr>tk_assignee_agent := Some (se_agent_id sel), Run_State.run_task.tk_status := ''assigned'', tk_error_message := None\<rparr>)) (xd_runs w)"
    have t: "find_node ?i t = Some n" using assms(1) by (simp add: find_node_def t_def)
    have w': "rd_nodes (xd_runs w') = rd_nodes (save_node (env_db_now env) ?i f t)" "xd_dispatches w' = xd_dispatches w @ [d]"
      and a: "as_dispatch_id a = Some (dp_dispatch_id d)" "as_agent_id a = Some (se_agent_id sel)"
      using assms(2) unfolding queue_external_agent_dispatch_def Let_def c res
      by (auto simp: f_def t_def d_def)
    obtain n' where "find_node ?i (xd_runs w') = Some n'" "en_status n' = en_status (f n)"
      by (rule node_saved[OF t w'(1)]) (simp add: f_def)
    then have "node_dispatched env ?i a w w'"
      using w'(2) a summarized_host(1)[OF b(1)] b(2) by (auto simp: node_dispatched_def f_def d_def new_dispatch_def)
    then show ?thesis by blast
  qed
qed

lemma assign_runtime: "as_runtime_type (fst (assign_to_agent env sel rid i j r)) = Some (se_runtime_type sel)"
  by (simp add: assign_to_agent_def Let_def)

lemma show_agents_rows:
  "rd_nodes (xd_runs (fold show_agent as w)) = rd_nodes (xd_runs w)" "xd_dispatches (fold show_agent as w) = xd_dispatches w"
  "hd_bindings (xd_hosts (fold show_agent as w)) = hd_bindings (xd_hosts w)"
  by (induction as arbitrary: w) (simp_all add: show_agent_def)

lemma show_agents_runs: "rd_runs (xd_runs (fold show_agent as w)) = rd_runs (xd_runs w)"
  by (induction as arbitrary: w) (simp_all add: show_agent_def)

lemma scheduled_outcome:
  assumes "find_run rid (xd_runs (sc_work s)) = Some run" and "find_node i (xd_runs (sc_work s)) = Some node"
    and "Option.bind (en_task node) (\<lambda>i. find_run_task i (xd_runs (sc_work s))) = Some task"
    and "schedule_ready_node env rid i s = (Inr (a, x), s')"
  shows "(case x of
      Some j \<Rightarrow> j = i \<and> node_assigned i a (sc_work s) (sc_work s')
        \<and> map_sum id sr_step_kind (read_step (env_txt env) node task) \<noteq> Inr ''host_action''
    | None \<Rightarrow> node_dispatched env i a (sc_work s) (sc_work s') \<or> node_blocked i (sc_work s) (sc_work s'))"
proof -
  obtain q where q: "read_step (env_txt env) node task = Inr q"
    using assms by (cases "read_step (env_txt env) node task") (simp_all add: schedule_ready_node_def)
  have i: "en_id node = i" using assms(2) by (auto simp: find_node_def find_Some_iff)
  define s1 where "s1 = map_runs (save_task (env_db_now env) (Run_State.run_task.tk_id task) (update_input (task_fields q))
         \<circ> save_node (env_db_now env) i (update_node_payload (step_fields q))) s"
  obtain res s2 where p: "provision_for_step env run node q s1 = (res, s2)" by fastforce
  have "sc_work s2 = fold show_agent (new_agents (sc_pool s1) (sc_pool s2)) (sc_work s1)"
    using p by (auto simp: provision_for_step_def split: prod.splits)
  note w2 = show_agents_rows[of "new_agents (sc_pool s1) (sc_pool s2)" "sc_work s1", folded this]
  obtain n1 where "find_node i (xd_runs (sc_work s1)) = Some n1"
    by (rule node_saved[OF assms(2), of "xd_runs (sc_work s1)" "env_db_now env" "update_node_payload (step_fields q)"])
      (simp_all add: s1_def save_task_def)
  then have n1: "find_node i (xd_runs (sc_work s2)) = Some n1" using find_node_cong[OF w2(1)] by simp
  have w1: "xd_dispatches (sc_work s1) = xd_dispatches (sc_work s)" "xd_hosts (sc_work s1) = xd_hosts (sc_work s)"
    by (simp_all add: s1_def)
  have same: "node_dispatched env i a (sc_work s2) w \<Longrightarrow> node_dispatched env i a (sc_work s) w"
    "node_blocked i (sc_work s2) w \<Longrightarrow> node_blocked i (sc_work s) w" "node_assigned i a (sc_work s2) w \<Longrightarrow> node_assigned i a (sc_work s) w" for a w
    using w1 w2(2) host_online_bindings[OF w2(3)] by (auto simp: node_dispatched_def node_blocked_def node_assigned_def)
  note unfold = schedule_ready_node_def Let_def assms(1-3) q s1_def[symmetric] p
  show ?thesis
  proof (cases res)
    case (Inl e)
    with assms(4) obtain reason where "e = ProjectExternalRuntimeUnavailableError reason" "x = None"
      "s' = map_runs (\<lambda>_. snd (block_pending_node env rid i (Run_State.run_task.tk_id task) reason None (xd_runs (sc_work s2)))) s2"
      by (cases e) (auto simp: unfold split_beta split: if_splits)
    then show ?thesis
      using same(2)[of "sc_work s'"] block_node[OF n1, of env rid "Run_State.run_task.tk_id task" reason None]
      by (force simp: node_blocked_def)
  next
    case (Inr sel)
    let ?title = "case dict_get (po_projects (sc_pool s)) (pr_project run) of None \<Rightarrow> ''Project'' | Some n \<Rightarrow> n"
    show ?thesis
    proof (cases "sr_step_kind q = ''host_action'' \<or> se_runtime_type sel \<in> set EXTERNAL_RUNTIME_TYPES")
      case True
      with assms(4) Inr have "queue_external_agent_dispatch env sel run node task ?title (sr_step_kind q) (sc_work s2)
          = (Inr a, sc_work s')" "x = None"
        by (auto simp: unfold split_beta prod_eq_iff split: sum.splits if_splits)
      then show ?thesis using queue_node[of node "sc_work s2" n1, unfolded i, OF n1] same by fastforce
    next
      case False
      with assms(4) Inr have "x = Some i" "a = fst (assign_to_agent env sel rid i (Run_State.run_task.tk_id task) (xd_runs (sc_work s2)))"
        "s' = map_runs (\<lambda>_. snd (assign_to_agent env sel rid i (Run_State.run_task.tk_id task) (xd_runs (sc_work s2)))) s2"
        by (auto simp: unfold split_beta)
      then show ?thesis
        using False q same(3)[of a "sc_work s'"] assign_node[OF n1, of env sel rid "Run_State.run_task.tk_id task"] assign_runtime
        by (force simp: node_assigned_def)
    qed
  qed
qed

subsection \<open>Host steps reach their host\<close>

text \<open>The agents the dispatching session sees are those of the pool.\<close>

definition agents_agree :: "sched_db \<Rightarrow> bool" where
  "agents_agree s \<longleftrightarrow> pool_ok (sc_pool s)
     \<and> (\<forall>a \<in> set (po_agents (sc_pool s)). dict_get (hd_agents (xd_hosts (sc_work s))) (pa_id a) = Some (pa_runtime_preference a))"

lemma online_summary:
  assumes "is_external_runtime_type pref" and "host_online now hosts i"
  obtains b st where "get_active_binding i hosts = Some b" and "summarize_state render now i pref hosts = Some st"
    and "rs_available_for_execution st"
proof -
  obtain b where b: "get_active_binding i hosts = Some b" using assms(2) by (auto simp: host_online_def)
  then obtain st where st: "summarize_state render now i pref hosts = Some st"
    using assms(1) by (simp add: summarize_state_def)
  then show ?thesis using that b summarized_host(1)[OF st] assms(2) by blast
qed

lemma create_dispatch_online:
  assumes "host_online now (xd_hosts w) a" and "dict_get (hd_agents (xd_hosts w)) a = Some pref" and "is_external_runtime_type pref"
  shows "\<exists>d w'. create_dispatch render now db_now new_id a st si rt rp p rn n w = (Inr d, w')"
proof -
  obtain b s where "get_active_binding a (xd_hosts w) = Some b" "summarize_state render now a pref (xd_hosts w) = Some s"
    "rs_available_for_execution s"
    by (rule online_summary[OF assms(3,1)])
  then show ?thesis using assms(2) by (simp add: create_dispatch_def get_agent_row_def Let_def)
qed

lemma host_node_dispatched:
  assumes "agents_agree s" and "find_run rid (xd_runs (sc_work s)) = Some run" and "find_node i (xd_runs (sc_work s)) = Some node"
    and "Option.bind (en_task node) (\<lambda>i. find_run_task i (xd_runs (sc_work s))) = Some task"
    and "read_step (env_txt env) node task = Inr q" and "sr_step_kind q = ''host_action''"
    and "host_candidate (sc_pool s) (pr_project run) (env_user env) c" and "host_online (env_now env) (xd_hosts (sc_work s)) (pa_id c)"
  shows "\<exists>a s'. schedule_ready_node env rid i s = (Inr (a, None), s') \<and> node_dispatched env i a (sc_work s) (sc_work s')"
proof -
  define s1 where "s1 = map_runs (save_task (env_db_now env) (Run_State.run_task.tk_id task) (update_input (task_fields q))
         \<circ> save_node (env_db_now env) i (update_node_payload (step_fields q))) s"
  have s1: "sc_pool s1 = sc_pool s" "xd_hosts (sc_work s1) = xd_hosts (sc_work s)" by (simp_all add: s1_def)
  have i: "en_id node = i" using assms(3) by (auto simp: find_node_def find_Some_iff)
  have ex: "\<exists>a. host_candidate (sc_pool s) (pr_project run) (env_user env) a \<and> host_online (env_now env) (xd_hosts (sc_work s)) (pa_id a)"
    using assms(7,8) by blast
  have "pool_ok (sc_pool s)" using assms(1) by (simp add: agents_agree_def)
  define sr where "sr = select_or_provision_agent (env_txt env) (env_fmt1 env) (env_rank env) (env_now env) (env_db_now env)
      (env_new_agent env i) (xd_hosts (sc_work s)) (pr_project run) ''host_action'' (sr_required q) (env_user env) (pr_id run)
      (Some host_runtime_types) (sr_suggested q) (sc_pool s)"
  obtain sel a where r: "sr = (Inr sel, sc_pool s)"
    and a: "pa_id a = se_agent_id sel" "host_candidate (sc_pool s) (pr_project run) (env_user env) a"
      "host_online (env_now env) (xd_hosts (sc_work s)) (pa_id a)"
    unfolding sr_def by (rule host_step_online[OF \<open>pool_ok (sc_pool s)\<close> ex])
  have p: "provision_for_step env run node q s1 = (Inr sel, s1)"
    using r by (simp add: provision_for_step_def assms(6) s1 i new_agents_def sr_def)
  have "is_external_runtime_type (pa_runtime_preference a)"
    using a(2) external_candidate[OF host_types(1)] by (simp add: host_candidate_def)
  moreover have "dict_get (hd_agents (xd_hosts (sc_work s1))) (se_agent_id sel) = Some (pa_runtime_preference a)"
    using assms(1) a by (auto simp: agents_agree_def host_candidate_def may_work_for_def s1)
  ultimately obtain d w where c: "create_dispatch (env_txt env) (env_now env) (env_db_now env) (env_new_dispatch env i)
      (se_agent_id sel) ''execution_node'' (uuid_str i) (se_runtime_type sel)
      (dispatch_request env sel run node task (case dict_get (po_projects (sc_pool s)) (pr_project run) of
         None \<Rightarrow> ''Project'' | Some n \<Rightarrow> n) ''host_action'')
      (Some (pr_project run)) (Some (pr_id run)) (Some i) (sc_work s1) = (Inr d, w)"
    using create_dispatch_online[of "env_now env" "sc_work s1" "se_agent_id sel"] a s1 by metis
  then have grown: "xd_dispatches w \<noteq> xd_dispatches (sc_work s)"
    using create_dispatch_cases[OF c] by (auto simp: s1_def)
  obtain as s' where res: "schedule_ready_node env rid i s = (Inr (as, None), s')" "xd_dispatches (sc_work s') = xd_dispatches w"
    using c by (simp add: schedule_ready_node_def Let_def assms(2-6) s1_def[symmetric] p queue_external_agent_dispatch_def i)
  then have "\<not> node_blocked i (sc_work s) (sc_work s')" using grown by (simp add: node_blocked_def)
  with scheduled_outcome[OF assms(2-4) res(1)] res(1) show ?thesis by auto
qed

text \<open>A node that waits for its host counts as pending: the next scheduling call dispatches it again.\<close>

lemma dispatched_node_ready_again:
  assumes "node_dispatched env i a w w'" and "find_node i (xd_runs w') = Some n" and "en_run n = rid"
    and "as_payload_list (en_dependency_node_ids n) = []"
  shows "n \<in> set (get_ready_execution_nodes_for_run rid (xd_runs w'))"
proof -
  have "en_status n = ''queued''" using assms(1,2) by (auto simp: node_dispatched_def)
  moreover have "normalize_status ''queued'' \<in> set PENDING_NODE_STATUSES" by code_simp
  moreover have "n \<in> set (rd_nodes (xd_runs w'))" using assms(2) by (auto simp: find_node_def find_Some_iff)
  ultimately show ?thesis
    using assms(3,4) by (simp add: get_ready_execution_nodes_for_run_def list_execution_nodes_for_run_def Let_def node_is_ready_def)
qed

subsection \<open>Failing steps\<close>

definition step_failed :: "uuid \<Rightarrow> uuid \<Rightarrow> string \<Rightarrow> run_db \<Rightarrow> bool" where
  "step_failed i rid message r \<longleftrightarrow>
     (\<exists>n. find_node i r = Some n \<and> en_status n = ''failed'' \<and> en_error_message n = Some message)
     \<and> (\<exists>run. find_run rid r = Some run \<and> pr_status run = ''failed'' \<and> pr_error_message run = Some message
          \<and> pr_completed_at run \<noteq> None)"

lemma fail_assigned_result:
  assumes "find_node i r = Some n" and "find_run rid r = Some run"
  shows "step_failed i rid message (fail_assigned_node env rid i message r)"
proof -
  let ?d = "env_db_now env"
  define f where "f = (\<lambda>n::exec_node. n\<lparr>en_status := ''failed'', en_error_message := Some message, en_completed_at := Some (env_now env)\<rparr>)"
  define g where "g = (\<lambda>x::project_run. x\<lparr>pr_status := ''failed'', pr_error_message := Some message, pr_completed_at := Some (env_now env)\<rparr>)"
  define r2 where "r2 = if_some (Option.bind (Option.bind (find_node i r) en_task) (\<lambda>i. find_run_task i r))
      (\<lambda>t. save_task ?d (Run_State.run_task.tk_id t)
           (\<lambda>t. t\<lparr>Run_State.run_task.tk_status := ''failed'', tk_error_message := Some message\<rparr>)) (save_node ?d i f r)"
  have res: "fail_assigned_node env rid i message r = snd (reconcile_run_state (env_now env) ?d rid (save_run ?d rid g r2))"
    using assms by (simp add: fail_assigned_node_def Let_def f_def g_def r2_def)
  have "rd_runs r2 = rd_runs (save_node ?d i f r)" and nodes: "rd_nodes r2 = rd_nodes (save_node ?d i f r)"
    unfolding r2_def by (intro if_some_fields; simp)+
  then have "find_run rid r2 = Some run" using assms(2) by (simp add: find_run_def)
  then have saved: "find_run rid (save_run ?d rid g r2) = Some (if g run = run then run else (g run)\<lparr>pr_updated_at := ?d\<rparr>)"
    by (rule find_save_run) (simp add: g_def)
  define run0 where "run0 = (if g run = run then run else (g run)\<lparr>pr_updated_at := ?d\<rparr>)"
  have "pr_status (g run) = ''failed''" "pr_error_message (g run) = Some message" by (simp_all add: g_def)
  then have run0: "find_run rid (save_run ?d rid g r2) = Some run0" "pr_status run0 = ''failed''" "pr_error_message run0 = Some message"
    using saved by (auto simp: run0_def)
  obtain run' r' where rec: "reconcile_run_state (env_now env) ?d rid (save_run ?d rid g r2) = (Some run', r')"
    "find_run rid r' = Some run'" "pr_error_message run' = pr_error_message run0" "rd_nodes r' = rd_nodes (save_run ?d rid g r2)"
    by (rule reconcile_result[OF run0(1)])
  have "pr_status run' = ''failed'' \<and> pr_completed_at run' \<noteq> None"
    using reconcile_decides[OF run0(1) rec(1)] run0(2) failed_terminal by (simp add: Let_def)
  moreover obtain n' where "find_node i r' = Some n'" "en_status n' = en_status (f n)" "en_error_message n' = en_error_message (f n)"
    by (rule node_saved[OF assms(1), of r' ?d f]) (simp_all add: rec(4) nodes f_def)
  ultimately show ?thesis
    using rec run0(3) by (simp add: step_failed_def res f_def)
qed

lemma commit_work [simp]: "sc_work (commit_agents s) = sc_work s"
  by (simp add: commit_agents_def)

lemma status_rows [simp]:
  "rd_nodes (xd_runs (sc_work (set_agent_status a st s))) = rd_nodes (xd_runs (sc_work s))"
  "rd_runs (xd_runs (sc_work (set_agent_status a st s))) = rd_runs (xd_runs (sc_work s))"
  "rd_tasks (xd_runs (sc_work (set_agent_status a st s))) = rd_tasks (xd_runs (sc_work s))"
  by (simp_all add: set_agent_status_def)

lemma find_rows_cong:
  "rd_nodes r = rd_nodes r' \<Longrightarrow> find_node i r = find_node i r'" "rd_runs r = rd_runs r' \<Longrightarrow> find_run i r = find_run i r'"
  by (simp_all add: find_node_def find_run_def)

lemma start_rows:
  assumes "start_assigned_node env c i r = (Some a, r1)"
  obtains node n run where "find_node i r = Some node" and "find_node i r1 = Some n" and "en_run n = en_run node"
    and "find_run (en_run node) r1 = Some run" and "en_status n = ''running''"
proof -
  from assms obtain node run task where t: "find_node i r = Some node" "find_run (en_run node) r = Some run"
    "Option.bind (en_task node) (\<lambda>i. find_run_task i r) = Some task"
    by (auto simp: start_assigned_node_def node_targets_def Let_def split: option.splits)
  let ?d = "env_db_now env"
  define f where "f = (\<lambda>n. update_node_payload [(''conversation_id'', PStr (uuid_str c)),
      (''run_workspace_root'', PStr (env_workspace_root env))] (n\<lparr>en_status := ''running'', en_started_at := Some (env_now env)\<rparr>))"
  define g where "g = (\<lambda>x. update_context [(''conversation_id'', PStr (uuid_str c)), (''run_workspace'',
      PDict [(''workspace_id'', PStr (uuid_str (pr_id run))), (''root_path'', PStr (env_workspace_root env)),
             (''sandbox_mode'', PStr ''run_shared'')])]
      (x\<lparr>pr_status := ''running'', pr_started_at := (if pr_started_at x = None then Some (env_now env) else pr_started_at x)\<rparr>))"
  have r1: "rd_nodes r1 = rd_nodes (save_node ?d i f r)" "rd_runs r1 = rd_runs (save_run ?d (pr_id run) g r)"
    using assms t by (auto simp: start_assigned_node_def node_targets_def Let_def f_def g_def save_node_def save_run_def save_task_def
        split: option.splits)
  have n: "find_node i r1 = Some (if f node = node then node else (f node)\<lparr>en_updated_at := ?d\<rparr>)"
    unfolding find_rows_cong(1)[OF r1(1)] by (rule find_save_node[OF t(1)]) (simp add: f_def)
  have "find_run (en_run node) r1 \<noteq> None"
    using find_save_run[OF t(2), of g ?d] find_run_id[OF t(2)] by (simp add: find_rows_cong(2)[OF r1(2)] g_def)
  then obtain run1 where "find_run (en_run node) r1 = Some run1" by blast
  moreover have fields: "en_run (f node) = en_run node" "en_status (f node) = ''running''" by (simp_all add: f_def update_node_payload_def)
  moreover have "en_status (if f node = node then node else (f node)\<lparr>en_updated_at := ?d\<rparr>) = ''running''"
    "en_run (if f node = node then node else (f node)\<lparr>en_updated_at := ?d\<rparr>) = en_run node"
    using fields by auto
  ultimately show ?thesis using that t(1) n by blast
qed

lemma complete_rows:
  assumes "complete_assigned_node env c rid i result r = (True, r2)"
  obtains n run where "find_node i r2 = Some n" and "en_status n = ''completed''" and "find_run rid r2 = Some run"
proof -
  from assms obtain node run task where t: "find_node i r = Some node" "find_run rid r = Some run"
    "Option.bind (en_task node) (\<lambda>i. find_run_task i r) = Some task"
    by (auto simp: complete_assigned_node_def split: option.splits)
  let ?d = "env_db_now env"
  define artifacts where "artifacts = (if py_truthy (payload_get ''artifact_delta'' result) then payload_get ''artifact_delta'' result
      else if py_truthy (payload_get ''artifacts'' result) then payload_get ''artifacts'' result else PList [])"
  define f where "f = (\<lambda>n::exec_node. n\<lparr>en_status := ''completed'', en_completed_at := Some (env_now env),
      en_result_payload := merge_payload (en_result_payload n) [(''conversation_id'', PStr (uuid_str c)),
        (''output'', payload_get ''output'' result), (''artifacts'', artifacts)]\<rparr>)"
  define q where "q = save_task ?d (Run_State.run_task.tk_id task) (\<lambda>t. t\<lparr>tk_output_payload := merge_payload (tk_output_payload t)
      [(''last_output'', payload_get ''output'' result), (''conversation_id'', PStr (uuid_str c)),
       (''run_workspace_root'', PStr (env_workspace_root env))]\<rparr>) (save_node ?d i f r)"
  have r2: "r2 = snd (reconcile_run_state (env_now env) ?d rid q)"
    using assms t by (simp add: complete_assigned_node_def Let_def f_def q_def artifacts_def)
  have "find_run rid q = Some run" using t(2) by (simp add: q_def)
  then obtain run' where "find_run rid r2 = Some run'" using reconcile_result[of rid q run "env_now env" ?d] r2 by (metis snd_conv)
  moreover obtain n where "find_node i r2 = Some n" "en_status n = en_status (f node)"
    by (rule node_saved[OF t(1), of r2 ?d f]) (simp_all add: r2 q_def f_def)
  ultimately show ?thesis using that by (simp add: f_def)
qed

lemma failing_turn:
  assumes "start_assigned_node env1 c i (xd_runs (sc_work s)) = (Some a, r1)" and "find_node i (xd_runs (sc_work s)) = Some node"
    and "execute_assigned_node env1 env2 show_error c i (Inl message) s = (later, s')"
  shows "later = [] \<and> step_failed i (en_run node) message (xd_runs (sc_work s'))"
proof -
  obtain n run where n: "find_node i r1 = Some n" "en_run n = en_run node" "find_run (en_run node) r1 = Some run"
    by (rule start_rows[OF assms(1)]) (use assms(2) in auto)
  define s1 where "s1 = set_agent_status a ''idle'' (set_agent_status a ''working'' (map_runs (\<lambda>_. r1) s))"
  have s': "later = []" "xd_runs (sc_work s') = fail_assigned_node env2 (en_run node) i message (xd_runs (sc_work s1))"
    using assms(1,3) n by (auto simp: execute_assigned_node_def Let_def s1_def)
  have "rd_nodes (xd_runs (sc_work s1)) = rd_nodes r1" "rd_runs (xd_runs (sc_work s1)) = rd_runs r1" by (simp_all add: s1_def)
  then have "find_node i (xd_runs (sc_work s1)) = Some n" "find_run (en_run node) (xd_runs (sc_work s1)) = Some run"
    using n find_rows_cong by metis+
  from fail_assigned_result[OF this, where env = env2 and message = message] s' show ?thesis by simp
qed

text \<open>The same happens to a node that has just completed when the next step cannot be scheduled.\<close>

lemma unschedulable_successor:
  assumes "start_assigned_node env1 c i (xd_runs (sc_work s)) = (Some a, r1)" and "find_node i (xd_runs (sc_work s)) = Some node"
    and "complete_assigned_node env2 c (en_run node) i result (xd_runs (sc_work (set_agent_status a ''working'' (map_runs (\<lambda>_. r1) s))))
       = (True, r2)"
    and "schedule_next_step env2 True (en_run node) (set_agent_status a ''idle''
         (commit_agents (map_runs (\<lambda>_. r2) (set_agent_status a ''working'' (map_runs (\<lambda>_. r1) s))))) = (Inl e, s3)"
    and "execute_assigned_node env1 env2 show_error c i (Inr result) s = (later, s')"
  shows "later = [] \<and> step_failed i (en_run node) (show_error e) (xd_runs (sc_work s'))"
proof -
  obtain n run where n: "find_node i r2 = Some n" "find_run (en_run node) r2 = Some run" by (rule complete_rows[OF assms(3)])
  obtain n1 where "find_node i r1 = Some n1" "en_run n1 = en_run node"
    by (rule start_rows[OF assms(1)]) (use assms(2) in auto)
  then have s': "later = []" "xd_runs (sc_work s') = fail_assigned_node env2 (en_run node) i (show_error e)
      (xd_runs (sc_work (set_agent_status a ''idle'' s3)))"
    using assms(1,3,4,5) by (auto simp: execute_assigned_node_def Let_def)
  obtain as where "sc_work s3 = fold show_agent as (sc_work (set_agent_status a ''idle''
         (commit_agents (map_runs (\<lambda>_. r2) (set_agent_status a ''working'' (map_runs (\<lambda>_. r1) s))))))"
    using schedule_next_step_rollback[OF assms(4)] by blast
  then have "rd_nodes (xd_runs (sc_work (set_agent_status a ''idle'' s3))) = rd_nodes r2"
    "rd_runs (xd_runs (sc_work (set_agent_status a ''idle'' s3))) = rd_runs r2"
    by (simp_all add: show_agents_rows show_agents_runs)
  then have "find_node i (xd_runs (sc_work (set_agent_status a ''idle'' s3))) = Some n"
    "find_run (en_run node) (xd_runs (sc_work (set_agent_status a ''idle'' s3))) = Some run"
    using n find_rows_cong by metis+
  from fail_assigned_result[OF this, where env = env2 and message = "show_error e"] s' show ?thesis by simp
qed

subsection \<open>Concrete rows\<close>

definition sample_env :: sched_env where
  "sample_env = \<lparr>env_txt = \<lambda>_. [], env_fmt1 = \<lambda>_. [], env_rank = \<lambda>_. 0, env_now = 2, env_db_now = 2,
     env_user = sample_user, env_new_agent = \<lambda>i. i + 200, env_new_dispatch = \<lambda>i. i + 100, env_workspace_root = ''/w''\<rparr>"

definition sample_step :: "uuid \<Rightarrow> uuid \<Rightarrow> string \<Rightarrow> string \<Rightarrow> exec_node" where
  "sample_step i t kind st = (sample_node i t st)\<lparr>en_project := 50, en_run := 60,
     en_node_payload := PDict [(''step_kind'', PStr kind)]\<rparr>"

definition sample_step_task :: "uuid \<Rightarrow> string \<Rightarrow> run_task" where
  "sample_step_task i st = (sample_run_task i st)\<lparr>tk_project := 50, tk_run := Some 60, tk_assignee_agent := Some 6\<rparr>"

definition sample_sched :: "string \<Rightarrow> sched_db" where
  "sample_sched st = \<lparr>sc_pool = sample_pool,
     sc_work = \<lparr>xd_hosts = (hs_db sample_bound_system)\<lparr>hd_agents := [(5, Some ''remote_session''), (6, None), (7, None)]\<rparr>,
       xd_runs = \<lparr>rd_tasks = [sample_step_task 80 st, sample_step_task 81 st],
         rd_nodes = [sample_step 70 80 ''host_action'' st, sample_step 71 81 ''qa'' st],
         rd_runs = [(sample_run ''scheduled'')\<lparr>pr_id := 60, pr_project := 50\<rparr>], rd_projects = [],
         rd_agents = map run_row (po_agents sample_pool)\<rparr>,
       xd_dispatches = [], xd_events = []\<rparr>\<rparr>"

lemma sample_refs: "node_ids_ok (xd_runs (sc_work (sample_sched st)))"
  by (simp add: node_ids_ok_def sample_sched_def sample_step_def sample_node_def)

text \<open>Task 81 has been launched again, in run 61; the node of run 60 still refers to it. The pool is empty.\<close>

definition relaunched_sched :: sched_db where
  "relaunched_sched = map_runs (\<lambda>r. r\<lparr>
     rd_tasks := [(sample_step_task 81 ''queued'')\<lparr>tk_run := Some 61\<rparr>],
     rd_nodes := [sample_step 71 81 ''qa'' ''pending'', (sample_step 72 81 ''qa'' ''pending'')\<lparr>en_run := 61\<rparr>],
     rd_runs := rd_runs r @ [(sample_run ''queued'')\<lparr>pr_id := 61, pr_project := 50\<rparr>]\<rparr>)
     ((sample_sched ''pending'')\<lparr>sc_pool := sample_pool\<lparr>po_agents := []\<rparr>\<rparr>)"

lemma relaunched_refs:
  "node_ids_ok (xd_runs (sc_work relaunched_sched))" "refers_to_own_tasks 61 (xd_runs (sc_work relaunched_sched))"
  "\<not> refers_to_own_tasks 60 (xd_runs (sc_work relaunched_sched))"
  by code_simp+

text \<open>Scheduling the old run assigns the task of the new one.\<close>

lemma old_run_takes_relaunched_task:
  "map (\<lambda>t. (Run_State.run_task.tk_id t, tk_run t, Run_State.run_task.tk_status t))
       (rd_tasks (xd_runs (sc_work (snd (schedule_next_step sample_env True 60 relaunched_sched)))))
   = [(81, Some 61, ''assigned'')]"
  by code_simp

lemma sample_agree: "agents_agree (sample_sched st)"
  by (simp add: agents_agree_def sample_sched_def sample_pool_ok, simp add: sample_pool_def pool_agent_def dict_get_def)

lemma sample_found:
  "find_run 60 (xd_runs (sc_work (sample_sched st))) = Some ((sample_run ''scheduled'')\<lparr>pr_id := 60, pr_project := 50\<rparr>)"
  "find_node 70 (xd_runs (sc_work (sample_sched st))) = Some (sample_step 70 80 ''host_action'' st)"
  "find_node 71 (xd_runs (sc_work (sample_sched st))) = Some (sample_step 71 81 ''qa'' st)"
  "Option.bind (en_task (sample_step 70 80 ''host_action'' st)) (\<lambda>i. find_run_task i (xd_runs (sc_work (sample_sched st))))
     = Some (sample_step_task 80 st)"
  by (simp_all add: sample_sched_def find_run_def find_node_def find_run_task_def sample_step_def sample_step_task_def sample_node_def
      sample_run_task_def sample_run_def)

lemma sample_host_kind:
  "map_sum id sr_step_kind (read_step (env_txt sample_env) (sample_step 70 80 ''host_action'' ''pending'') (sample_step_task 80 ''pending''))
     = Inr ''host_action''"
  by code_simp

lemma sample_candidate:
  "host_candidate (sc_pool (sample_sched st)) (pr_project ((sample_run ''scheduled'')\<lparr>pr_id := 60, pr_project := 50\<rparr>))
     (env_user sample_env) (pool_agent 5 (Some ''remote_session'') [''shell''])"
  "host_online (env_now sample_env) (xd_hosts (sc_work (sample_sched st))) 5"
  "find_profile 50 ''host_action'' (sc_pool (sample_sched st)) = None"
  using sample_host_candidates sample_host_online(1)[of 2]
  by (simp_all add: sample_sched_def sample_env_def usec_def host_online_bindings[of "(hs_db sample_bound_system)\<lparr>hd_agents := _\<rparr>"]
      find_profile_def sample_pool_def)

lemma sample_dispatched:
  "\<exists>a s'. schedule_ready_node sample_env 60 70 (sample_sched ''pending'') = (Inr (a, None), s')
     \<and> node_dispatched sample_env 70 a (sc_work (sample_sched ''pending'')) (sc_work s')"
proof -
  obtain q where q: "read_step (env_txt sample_env) (sample_step 70 80 ''host_action'' ''pending'') (sample_step_task 80 ''pending'') = Inr q"
    "sr_step_kind q = ''host_action''"
    using sample_host_kind
    by (cases "read_step (env_txt sample_env) (sample_step 70 80 ''host_action'' ''pending'') (sample_step_task 80 ''pending'')") auto
  show ?thesis
    by (rule host_node_dispatched[OF sample_agree sample_found(1,2,4) q sample_candidate(1)])
      (use sample_candidate in \<open>simp_all add: pool_agent_def\<close>)
qed

subsection \<open>Properties\<close>

text \<open>C18: Scheduling a run changes no node and no row of another run, no task of another run that no node of this run
  refers to (none at all when the tasks of its nodes are its own), and no existing dispatch, event, host or install
  code: it moves rows of its own run and adds pending dispatches for it. When it fails, no run and no dispatch has
  changed, but the temporary agents created before the failure stay.\<close>

theorem scheduling_stays_in_run:
  assumes "node_ids_ok (xd_runs (sc_work s))" and "schedule_next_step env auto_execute rid s = (res, s')"
  shows "schedule_effect rid (sc_work s) (sc_work s')
    \<and> (refers_to_own_tasks rid (xd_runs (sc_work s)) \<longrightarrow>
         filter (\<lambda>t. tk_run t \<noteq> Some rid) (rd_tasks (xd_runs (sc_work s')))
         = filter (\<lambda>t. tk_run t \<noteq> Some rid) (rd_tasks (xd_runs (sc_work s))))
    \<and> (\<forall>e. res = Inl e \<longrightarrow>
         (\<exists>as. po_agents (sc_pool s') = po_agents (sc_pool s) @ as \<and> (\<forall>a \<in> set as. pa_is_ephemeral a)
            \<and> sc_work s' = fold show_agent as (sc_work s)))"
  using schedule_next_step_effect[OF assms] own_tasks_only[OF effect_within[OF schedule_next_step_effect[OF assms]]]
    schedule_next_step_rollback[of env auto_execute rid s _ s'] assms(2) by blast

theorem scheduling_stays_in_run_witness:
  "schedule_effect 60 (sc_work (sample_sched ''pending''))
     (sc_work (snd (schedule_next_step sample_env True 60 (sample_sched ''pending''))))
   \<and> schedule_effect 60 (sc_work relaunched_sched) (sc_work (snd (schedule_next_step sample_env True 60 relaunched_sched)))
   \<and> filter (\<lambda>t. tk_run t \<noteq> Some 61) (rd_tasks (xd_runs (sc_work (snd (schedule_next_step sample_env True 61 relaunched_sched)))))
     = filter (\<lambda>t. tk_run t \<noteq> Some 61) (rd_tasks (xd_runs (sc_work relaunched_sched)))"
  using scheduling_stays_in_run[OF sample_refs prod.collapse[symmetric]]
    scheduling_stays_in_run[OF relaunched_refs(1) prod.collapse[symmetric]] relaunched_refs(2) by blast

text \<open>C19: A node that scheduling takes up ends in exactly one of three ways: assigned to an agent of the sandbox and
  handed to the executor, which no host action ever is; queued with one new pending dispatch to an agent whose
  host is online; or blocked with a reason and without a dispatch.\<close>

theorem scheduled_node_outcome:
  assumes "find_run rid (xd_runs (sc_work s)) = Some run" and "find_node i (xd_runs (sc_work s)) = Some node"
    and "Option.bind (en_task node) (\<lambda>i. find_run_task i (xd_runs (sc_work s))) = Some task"
    and "schedule_ready_node env rid i s = (Inr (a, x), s')"
  shows "case x of
      Some j \<Rightarrow> j = i \<and> node_assigned i a (sc_work s) (sc_work s')
        \<and> map_sum id sr_step_kind (read_step (env_txt env) node task) \<noteq> Inr ''host_action''
    | None \<Rightarrow> node_dispatched env i a (sc_work s) (sc_work s') \<or> node_blocked i (sc_work s) (sc_work s')"
  by (rule scheduled_outcome[OF assms])

theorem scheduled_node_outcome_witness:
  "\<exists>a s'. schedule_ready_node sample_env 60 70 (sample_sched ''pending'') = (Inr (a, None), s')
     \<and> (node_dispatched sample_env 70 a (sc_work (sample_sched ''pending'')) (sc_work s')
        \<or> node_blocked 70 (sc_work (sample_sched ''pending'')) (sc_work s'))"
proof -
  obtain a s' where r: "schedule_ready_node sample_env 60 70 (sample_sched ''pending'') = (Inr (a, None), s')"
    using sample_dispatched by blast
  from scheduled_node_outcome[OF sample_found(1,2,4) r] r show ?thesis by auto
qed

text \<open>C27: A host action is dispatched whenever the pool has a suitable agent whose host is online, whatever the
  state of the node (a node that already waits for a host is dispatched once more).\<close>

theorem host_step_dispatched:
  assumes "agents_agree s" and "find_run rid (xd_runs (sc_work s)) = Some run" and "find_node i (xd_runs (sc_work s)) = Some node"
    and "Option.bind (en_task node) (\<lambda>i. find_run_task i (xd_runs (sc_work s))) = Some task"
    and "read_step (env_txt env) node task = Inr q" and "sr_step_kind q = ''host_action''"
    and "host_candidate (sc_pool s) (pr_project run) (env_user env) c" and "host_online (env_now env) (xd_hosts (sc_work s)) (pa_id c)"
  shows "\<exists>a s'. schedule_ready_node env rid i s = (Inr (a, None), s') \<and> node_dispatched env i a (sc_work s) (sc_work s')"
  using assms by (rule host_node_dispatched)

theorem host_step_dispatched_witness:
  "\<exists>a s'. schedule_ready_node sample_env 60 70 (sample_sched ''pending'') = (Inr (a, None), s')
     \<and> node_dispatched sample_env 70 a (sc_work (sample_sched ''pending'')) (sc_work s')"
proof -
  obtain q where q: "read_step (env_txt sample_env) (sample_step 70 80 ''host_action'' ''pending'') (sample_step_task 80 ''pending'') = Inr q"
    "sr_step_kind q = ''host_action''"
    using sample_host_kind
    by (cases "read_step (env_txt sample_env) (sample_step 70 80 ''host_action'' ''pending'') (sample_step_task 80 ''pending'')") auto
  show ?thesis
    by (rule host_step_dispatched[OF sample_agree sample_found(1,2,4) q sample_candidate(1)])
      (use sample_candidate in \<open>simp_all add: pool_agent_def\<close>)
qed

text \<open>C26: When the turn of an executed step raises, its node and its run are failed with the text of the exception
  and no further step is started.\<close>

theorem failing_turn_fails_run:
  assumes "start_assigned_node env1 c i (xd_runs (sc_work s)) = (Some a, r1)" and "find_node i (xd_runs (sc_work s)) = Some node"
    and "execute_assigned_node env1 env2 show_error c i (Inl message) s = (later, s')"
  shows "later = [] \<and> step_failed i (en_run node) message (xd_runs (sc_work s'))"
  by (rule failing_turn[OF assms])

theorem failing_turn_fails_run_witness:
  "step_failed 71 60 ''boom''
     (xd_runs (sc_work (snd (execute_assigned_node sample_env sample_env (\<lambda>_. []) 90 71 (Inl ''boom'') (sample_sched ''assigned'')))))"
proof -
  have "fst (start_assigned_node sample_env 90 71 (xd_runs (sc_work (sample_sched ''assigned'')))) = Some 6" by code_simp
  then have "start_assigned_node sample_env 90 71 (xd_runs (sc_work (sample_sched ''assigned'')))
      = (Some 6, snd (start_assigned_node sample_env 90 71 (xd_runs (sc_work (sample_sched ''assigned'')))))"
    by (metis prod.collapse)
  from failing_turn_fails_run[OF this sample_found(3) prod.collapse[symmetric]] show ?thesis
    by (simp add: sample_step_def)
qed

end
