(* ===== verification/Containers.thy ===== *)
theory Containers
  imports Py_Compare
begin

section \<open>Resource limits and containers\<close>

text \<open>
  \<open>virtualization/resource_limits.py\<close> and \<open>virtualization/container_manager.py\<close>: the limits a sandbox
  gets from the memory of its host, the configuration handed to Docker, and the manager's table of
  containers. Docker is an environment: what it answers to each call of an operation is an argument
  of that operation, a value or an exception, and the same holds for the environment variables and
  the files the limits are computed from. A container's \<open>config\<close> is kept by the two fields that are read
  again later. \<open>ratio * total\<close> is computed in the reals.
\<close>

subsection \<open>Limits\<close>

record resource_limits =
  lim_cpu_cores :: real
  lim_cpu_shares :: int
  lim_memory_mb :: int
  lim_memory_swap_mb :: int
  lim_execution_timeout_seconds :: int
  lim_max_execution_time_seconds :: int
  lim_disk_read_bps :: int
  lim_disk_write_bps :: int
  lim_network_bandwidth_bps :: int
  lim_max_connections :: int
  lim_tmp_storage_mb :: int
  lim_output_storage_mb :: int

definition ResourceLimits :: "real \<Rightarrow> int \<Rightarrow> int \<Rightarrow> int \<Rightarrow> resource_limits" where
  "ResourceLimits cpu_cores memory_mb memory_swap_mb execution_timeout_seconds =
     \<lparr>lim_cpu_cores = cpu_cores, lim_cpu_shares = 512, lim_memory_mb = memory_mb,
      lim_memory_swap_mb = memory_swap_mb, lim_execution_timeout_seconds = execution_timeout_seconds,
      lim_max_execution_time_seconds = 300, lim_disk_read_bps = 10 * 1024 * 1024,
      lim_disk_write_bps = 5 * 1024 * 1024, lim_network_bandwidth_bps = 1 * 1024 * 1024,
      lim_max_connections = 5, lim_tmp_storage_mb = 50, lim_output_storage_mb = 10\<rparr>"

text \<open>\<open>linux\<close> is \<open>platform.system() == "Linux"\<close>, \<open>io_device\<close> the constant \<open>SANDBOX_IO_DEVICE_PATH\<close>.\<close>

definition limits_to_docker_config :: "bool \<Rightarrow> string \<Rightarrow> resource_limits \<Rightarrow> (string, pyval) dict" where
  "limits_to_docker_config linux io_device l =
     [(''cpu_period'', PInt 100000),
      (''cpu_quota'', PInt (if lim_cpu_cores l \<ge> 0 then \<lfloor>lim_cpu_cores l * 100000\<rfloor>
                            else \<lceil>lim_cpu_cores l * 100000\<rceil>)),
      (''cpu_shares'', PInt (lim_cpu_shares l)),
      (''mem_limit'', PStr (int_str (lim_memory_mb l) @ ''m'')),
      (''memswap_limit'', PStr (int_str (lim_memory_swap_mb l) @ ''m''))]
     @ (if linux \<and> io_device \<noteq> []
        then [(''blkio_weight'', PInt 500),
              (''device_read_bps'', PList [PDict [(''Path'', PStr io_device), (''Rate'', PInt (lim_disk_read_bps l))]]),
              (''device_write_bps'', PList [PDict [(''Path'', PStr io_device), (''Rate'', PInt (lim_disk_write_bps l))]])]
        else [])"

definition MIN_MEMORY_MB :: int where "MIN_MEMORY_MB = 128"
definition MAX_MEMORY_MB :: int where "MAX_MEMORY_MB = 262144"
definition DEFAULT_HOST_MEMORY_MB :: int where "DEFAULT_HOST_MEMORY_MB = 4096"
definition DEFAULT_DYNAMIC_MAX_MEMORY_MB :: int where "DEFAULT_DYNAMIC_MAX_MEMORY_MB = 65536"

definition limits_validate :: "resource_limits \<Rightarrow> bool" where
  "limits_validate l =
     (if lim_cpu_cores l \<le> 0 \<or> lim_cpu_cores l > 4 then False
      else if lim_memory_mb l < MIN_MEMORY_MB \<or> lim_memory_mb l > MAX_MEMORY_MB then False
      else if lim_execution_timeout_seconds l \<le> 0 then False
      else True)"

subsection \<open>The memory of the host\<close>

text \<open>
  What the probes read: the environment, the lines of \<open>/proc/meminfo\<close> (\<open>None\<close> when opening or reading
  fails), \<open>sysconf\<close>'s page size and number of pages (\<open>None\<close> when it raises), and the text of the two
  cgroup files (\<open>None\<close> when the file is absent or unreadable).
\<close>

record host_probe =
  hp_getenv :: "string \<Rightarrow> string option"
  hp_meminfo :: "string list option"
  hp_sysconf :: "(int \<times> int) option"
  hp_memory_max :: "string option"
  hp_limit_in_bytes :: "string option"

definition parse_positive_int_env :: "host_probe \<Rightarrow> string \<Rightarrow> int option" where
  "parse_positive_int_env h key =
     (case hp_getenv h key of
        None \<Rightarrow> None
      | Some raw_value \<Rightarrow>
          (case py_int10 (py_strip raw_value) of
             None \<Rightarrow> None
           | Some parsed \<Rightarrow> if parsed \<le> 0 then None else Some parsed))"

text \<open>\<open>s.split()\<close>: the words between white space.\<close>

function py_words :: "string \<Rightarrow> string list" where
  "py_words s =
     (case dropWhile py_isspace s of
        [] \<Rightarrow> []
      | c # cs \<Rightarrow> takeWhile (\<lambda>c. \<not> py_isspace c) (c # cs) # py_words (dropWhile (\<lambda>c. \<not> py_isspace c) (c # cs)))"
  by pat_completeness auto
termination py_words
proof (relation "measure length", goal_cases)
  case (2 s c cs)
  have "\<not> py_isspace c" using 2 hd_dropWhile[of py_isspace s] by auto
  moreover have "length (c # cs) \<le> length s" by (metis 2 length_dropWhile_le)
  ultimately show ?case
    using length_dropWhile_le[of "\<lambda>c. \<not> py_isspace c" cs] by (simp add: less_Suc_eq_le)
qed simp

declare py_words.simps [simp del]

fun meminfo_lines :: "string list \<Rightarrow> int option" where
  "meminfo_lines [] = None"
| "meminfo_lines (line # lines) =
     (if py_startswith line ''MemTotal:'' then
        (let fields = py_words line
         in if length fields \<ge> 2 then
              (case py_int10 (fields ! 1) of
                 None \<Rightarrow> None
               | Some kb \<Rightarrow> if kb > 0 then Some (max 1 (kb div 1024)) else meminfo_lines lines)
            else meminfo_lines lines)
      else meminfo_lines lines)"

definition read_linux_meminfo_mb :: "host_probe \<Rightarrow> int option" where
  "read_linux_meminfo_mb h = (case hp_meminfo h of None \<Rightarrow> None | Some lines \<Rightarrow> meminfo_lines lines)"

fun cgroup_files :: "string option list \<Rightarrow> int option" where
  "cgroup_files [] = None"
| "cgroup_files (file # files) =
     (case file of
        None \<Rightarrow> cgroup_files files
      | Some content \<Rightarrow>
          (let raw_value = py_strip content
           in if raw_value = [] \<or> raw_value = ''max'' then cgroup_files files
              else (case py_int10 raw_value of
                      None \<Rightarrow> cgroup_files files
                    | Some value \<Rightarrow>
                        if value \<le> 0 \<or> value \<ge> 2 ^ 60 then cgroup_files files
                        else Some (max 1 (value div (1024 * 1024))))))"

definition read_cgroup_memory_limit_mb :: "host_probe \<Rightarrow> int option" where
  "read_cgroup_memory_limit_mb h = cgroup_files [hp_memory_max h, hp_limit_in_bytes h]"

definition detect_available_memory_mb :: "host_probe \<Rightarrow> int" where
  "detect_available_memory_mb h =
     (case parse_positive_int_env h ''LINX_SANDBOX_HOST_MEMORY_MB'' of
        Some env_override \<Rightarrow> env_override
      | None \<Rightarrow>
          (let from_meminfo = read_linux_meminfo_mb h;
               detected = (case from_meminfo of
                   Some m \<Rightarrow> Some m
                 | None \<Rightarrow>
                     (case hp_sysconf h of
                        None \<Rightarrow> None
                      | Some (page_size, phys_pages) \<Rightarrow>
                          if page_size > 0 \<and> phys_pages > 0
                          then Some (page_size * phys_pages div (1024 * 1024)) else None));
               total_mb = (case detected of
                   Some m \<Rightarrow> if m \<le> 0 then DEFAULT_HOST_MEMORY_MB else m
                 | None \<Rightarrow> DEFAULT_HOST_MEMORY_MB);
               limited = (case read_cgroup_memory_limit_mb h of
                   Some c \<Rightarrow> if c > 0 then min total_mb c else total_mb
                 | None \<Rightarrow> total_mb)
           in max 1 limited))"

text \<open>\<open>lru_cache(maxsize=1)\<close> on a function without arguments: the first answer is kept.\<close>

definition detect_cached :: "host_probe \<Rightarrow> int option \<Rightarrow> int \<times> int option" where
  "detect_cached h cached =
     (case cached of
        Some m \<Rightarrow> (m, cached)
      | None \<Rightarrow> (detect_available_memory_mb h, Some (detect_available_memory_mb h)))"

definition task_ratio :: "string \<Rightarrow> real" where
  "task_ratio task_type =
     (if task_type = ''default'' then 1 / 4
      else if task_type = ''data_processing'' then 35 / 100
      else if task_type = ''code_execution'' then 30 / 100
      else if task_type = ''ml_inference'' then 1 / 2
      else if task_type = ''lightweight'' then 15 / 100
      else 1 / 4)"

definition dynamic_max_mb :: "host_probe \<Rightarrow> int" where
  "dynamic_max_mb h =
     (let m = (case parse_positive_int_env h ''LINX_SANDBOX_MAX_MEMORY_MB'' of
                 None \<Rightarrow> DEFAULT_DYNAMIC_MAX_MEMORY_MB | Some m \<Rightarrow> m)
      in max MIN_MEMORY_MB (min m MAX_MEMORY_MB))"

definition resolve_dynamic_memory_limit_mb ::
    "host_probe \<Rightarrow> int option \<Rightarrow> string \<Rightarrow> int \<Rightarrow> int \<times> int option" where
  "resolve_dynamic_memory_limit_mb h cached task_type floor_mb =
     (let dynamic_max = dynamic_max_mb h
      in case parse_positive_int_env h ''LINX_SANDBOX_MEMORY_MB'' of
           Some memory_override \<Rightarrow> (max MIN_MEMORY_MB (min memory_override dynamic_max), cached)
         | None \<Rightarrow>
             (let (total_mb, cached') = detect_cached h cached;
                  dynamic_mb = \<lfloor>real_of_int total_mb * task_ratio task_type\<rfloor>;
                  resolved_mb = max floor_mb dynamic_mb;
                  resolved_mb = max MIN_MEMORY_MB (min resolved_mb dynamic_max)
              in ((resolved_mb + 63) div 64 * 64, cached')))"

record task_profile =
  tp_cpu_cores :: real
  tp_memory_floor_mb :: int
  tp_timeout_seconds :: int

definition task_profile_of :: "string \<Rightarrow> task_profile" where
  "task_profile_of task_type =
     (if task_type = ''data_processing''
      then \<lparr>tp_cpu_cores = 1, tp_memory_floor_mb = 1024, tp_timeout_seconds = 120\<rparr>
      else if task_type = ''code_execution''
      then \<lparr>tp_cpu_cores = 1 / 2, tp_memory_floor_mb = 1024, tp_timeout_seconds = 30\<rparr>
      else if task_type = ''ml_inference''
      then \<lparr>tp_cpu_cores = 2, tp_memory_floor_mb = 2048, tp_timeout_seconds = 60\<rparr>
      else if task_type = ''lightweight''
      then \<lparr>tp_cpu_cores = 1 / 4, tp_memory_floor_mb = 256, tp_timeout_seconds = 15\<rparr>
      else \<lparr>tp_cpu_cores = 1 / 2, tp_memory_floor_mb = 512, tp_timeout_seconds = 30\<rparr>)"

definition get_default_limits :: "host_probe \<Rightarrow> int option \<Rightarrow> string \<Rightarrow> resource_limits \<times> int option" where
  "get_default_limits h cached task_type =
     (let profile = task_profile_of task_type;
          (memory_mb, cached') = resolve_dynamic_memory_limit_mb h cached task_type (tp_memory_floor_mb profile)
      in (ResourceLimits (tp_cpu_cores profile) memory_mb memory_mb (tp_timeout_seconds profile), cached'))"

record resource_usage =
  use_cpu_percent :: real
  use_cpu_time_seconds :: real
  use_memory_mb :: real
  use_memory_percent :: real
  use_disk_read_mb :: real
  use_disk_write_mb :: real
  use_network_rx_mb :: real
  use_network_tx_mb :: real
  use_execution_time_seconds :: real

definition is_within_limits :: "resource_limits \<Rightarrow> resource_usage \<Rightarrow> bool" where
  "is_within_limits l u =
     (if use_memory_mb u > real_of_int (lim_memory_mb l) then False
      else if use_execution_time_seconds u > real_of_int (lim_execution_timeout_seconds l) then False
      else True)"

subsection \<open>Bounds of the limits\<close>

lemma dynamic_max_range: "128 \<le> dynamic_max_mb h" "dynamic_max_mb h \<le> 262144"
  by (auto simp: dynamic_max_mb_def Let_def MIN_MEMORY_MB_def MAX_MEMORY_MB_def
      DEFAULT_DYNAMIC_MAX_MEMORY_MB_def split: option.splits)

lemma align_64: "m \<le> (m + 63) div 64 * 64" "(m + 63) div 64 * 64 < m + 64" for m :: int
  using div_mult_mod_eq[of "m + 63" 64] pos_mod_bound[of 64 "m + 63"] pos_mod_sign[of 64 "m + 63"]
  by linarith+

lemma align_64_le: "m \<le> 262144 \<Longrightarrow> (m + 63) div 64 * 64 \<le> 262144" for m :: int
  using zdiv_mono1[of "m + 63" "262144 + 63" 64] by simp

lemma resolved_range:
  "128 \<le> fst (resolve_dynamic_memory_limit_mb h cached t f)"
  "fst (resolve_dynamic_memory_limit_mb h cached t f) \<le> 262144"
  "fst (resolve_dynamic_memory_limit_mb h cached t f) < dynamic_max_mb h + 64"
proof -
  let ?m = "\<lambda>x. max MIN_MEMORY_MB (min x (dynamic_max_mb h))"
  let ?r = "fst (resolve_dynamic_memory_limit_mb h cached t f)"
  have range: "128 \<le> ?m x" "?m x \<le> dynamic_max_mb h" "?m x \<le> 262144" for x
    using dynamic_max_range[of h] by (auto simp: MIN_MEMORY_MB_def)
  obtain x where "?r = ?m x \<or> ?r = (?m x + 63) div 64 * 64"
    by (cases "parse_positive_int_env h ''LINX_SANDBOX_MEMORY_MB''")
      (auto simp: resolve_dynamic_memory_limit_mb_def Let_def split_beta)
  then show "128 \<le> ?r" "?r \<le> 262144" "?r < dynamic_max_mb h + 64"
    using range[of x] align_64[of "?m x"] align_64_le[of "?m x"] by linarith+
qed

lemma task_profile_range:
  "0 < tp_cpu_cores (task_profile_of t)" "tp_cpu_cores (task_profile_of t) \<le> 4"
  "0 < tp_timeout_seconds (task_profile_of t)"
  by (simp_all add: task_profile_of_def)

text \<open>Whatever the environment variables, the probed files and the cached total are, the default
  limits of every task type pass the module's own validation, the swap limit equals the memory limit,
  and the memory exceeds the configured maximum by less than the 64 MB it is aligned to.\<close>

theorem default_limits_valid:
  "limits_validate (fst (get_default_limits h cached task_type))
   \<and> lim_memory_swap_mb (fst (get_default_limits h cached task_type))
       = lim_memory_mb (fst (get_default_limits h cached task_type))
   \<and> lim_memory_mb (fst (get_default_limits h cached task_type)) < dynamic_max_mb h + 64"
  using resolved_range[of h cached task_type "tp_memory_floor_mb (task_profile_of task_type)"]
    task_profile_range[of task_type]
  by (simp add: get_default_limits_def limits_validate_def ResourceLimits_def Let_def split_beta
      MIN_MEMORY_MB_def MAX_MEMORY_MB_def)

text \<open>The alignment can lift the limit over the configured maximum.\<close>

definition host_max_1000 :: host_probe where
  "host_max_1000 =
     \<lparr>hp_getenv = (\<lambda>key. if key = ''LINX_SANDBOX_MAX_MEMORY_MB'' then Some ''1000'' else None),
      hp_meminfo = Some [''MemTotal:       16328856 kB''], hp_sysconf = None,
      hp_memory_max = None, hp_limit_in_bytes = None\<rparr>"

lemma maximum_exceeded:
  "dynamic_max_mb host_max_1000 = 1000"
  "lim_memory_mb (fst (get_default_limits host_max_1000 (Some 15946) ''default'')) = 1024"
proof -
  have env: "parse_positive_int_env host_max_1000 ''LINX_SANDBOX_MAX_MEMORY_MB'' = Some 1000"
    "parse_positive_int_env host_max_1000 ''LINX_SANDBOX_MEMORY_MB'' = None"
    by code_simp+
  show m: "dynamic_max_mb host_max_1000 = 1000"
    by (simp add: dynamic_max_mb_def env MIN_MEMORY_MB_def MAX_MEMORY_MB_def)
  show "lim_memory_mb (fst (get_default_limits host_max_1000 (Some 15946) ''default'')) = 1024"
    by (simp add: get_default_limits_def resolve_dynamic_memory_limit_mb_def m env detect_cached_def
        task_profile_of_def task_ratio_def ResourceLimits_def MIN_MEMORY_MB_def Let_def)
qed


subsection \<open>Container configurations\<close>

datatype sandbox_type = GVISOR | FIRECRACKER | DOCKER_ENHANCED

record container_config =
  cfg_container_id :: string
  cfg_agent_id :: "uuid option"
  cfg_name :: string
  cfg_sandbox_type :: sandbox_type
  cfg_image :: string
  cfg_resource_limits :: resource_limits
  cfg_read_only_root :: bool
  cfg_no_new_privileges :: bool
  cfg_drop_capabilities :: "string list"
  cfg_add_capabilities :: "string list"
  cfg_network_mode :: string
  cfg_network_disabled :: bool
  cfg_tmpfs_mounts :: "(string, string) dict"
  cfg_volume_mounts :: "(string, string) dict"
  cfg_environment :: "(string, string) dict"
  cfg_labels :: "(string, string option) dict"
  cfg_seccomp_profile :: "string option"
  cfg_apparmor_profile :: string

text \<open>The constructor: \<open>fresh\<close> is the \<open>uuid4\<close> text, \<open>default_image\<close> the constant of the module.\<close>

definition ContainerConfig ::
    "string \<Rightarrow> string \<Rightarrow> resource_limits \<Rightarrow> uuid option \<Rightarrow> string \<Rightarrow> sandbox_type \<Rightarrow> container_config" where
  "ContainerConfig fresh default_image limits agent_id name sandbox_type =
     \<lparr>cfg_container_id = fresh, cfg_agent_id = agent_id, cfg_name = name,
      cfg_sandbox_type = sandbox_type, cfg_image = default_image, cfg_resource_limits = limits,
      cfg_read_only_root = True, cfg_no_new_privileges = True, cfg_drop_capabilities = [''ALL''],
      cfg_add_capabilities = [''CHOWN'', ''SETUID'', ''SETGID''],
      cfg_network_mode = ''isolated-network'', cfg_network_disabled = False,
      cfg_tmpfs_mounts = [(''/tmp'', ''mode=1777''), (''/output'', ''mode=1777'')],
      cfg_volume_mounts = [], cfg_environment = [], cfg_labels = [], cfg_seccomp_profile = None,
      cfg_apparmor_profile = ''docker-default''\<rparr>"

definition security_options :: "bool \<Rightarrow> container_config \<Rightarrow> string list" where
  "security_options linux c =
     (if cfg_no_new_privileges c then [''no-new-privileges:true''] else [])
     @ (if linux then
          (case cfg_seccomp_profile c of Some (p # ps) \<Rightarrow> [''seccomp='' @ p # ps] | _ \<Rightarrow> [])
          @ (if cfg_apparmor_profile c \<noteq> [] then [''apparmor='' @ cfg_apparmor_profile c] else [])
        else [])"

definition container_labels :: "container_config \<Rightarrow> (string, string) dict" where
  "container_labels c =
     (let labels = [(''com.linx.managed'', ''true''), (''com.linx.type'', ''sandbox''),
                    (''com.linx.container_id'', cfg_container_id c)]
                   @ (case cfg_agent_id c of None \<Rightarrow> [] | Some a \<Rightarrow> [(''com.linx.agent_id'', uuid_str a)])
      in fold (\<lambda>(key, value) ls.
                 (case value of Some v \<Rightarrow> if py_strip key \<noteq> [] then dict_set key v ls else ls
                  | None \<Rightarrow> ls))
           (cfg_labels c) labels)"

abbreviation str_dict :: "(string, string) dict \<Rightarrow> pyval" where
  "str_dict d \<equiv> PDict (map (\<lambda>(k, v). (k, PStr v)) d)"

definition docker_config_base :: "bool \<Rightarrow> string \<Rightarrow> container_config \<Rightarrow> (string, pyval) dict" where
  "docker_config_base linux io_device c =
        [(''image'', PStr (cfg_image c)),
         (''name'', PStr (if cfg_name c \<noteq> [] then cfg_name c
                         else ''agent-'' @ take 8 (cfg_container_id c))),
         (''detach'', PBool True),
         (''command'', PList [PStr ''/bin/sleep'', PStr ''infinity'']),
         (''environment'', str_dict (cfg_environment c)),
         (''read_only'', PBool (cfg_read_only_root c)),
         (''security_opt'', PList (map PStr (security_options linux c))),
         (''cap_drop'', PList (map PStr (cfg_drop_capabilities c))),
         (''cap_add'', PList (map PStr (cfg_add_capabilities c))),
         (''labels'', str_dict (container_labels c))]
        @ limits_to_docker_config linux io_device (cfg_resource_limits c)"

definition to_docker_config :: "bool \<Rightarrow> string \<Rightarrow> container_config \<Rightarrow> (string, pyval) dict" where
  "to_docker_config linux io_device c =
     (let config = docker_config_base linux io_device c;
        config = (if cfg_tmpfs_mounts c \<noteq> [] then dict_set ''tmpfs'' (str_dict (cfg_tmpfs_mounts c)) config
                  else config);
        config = (if cfg_volume_mounts c \<noteq> []
                  then dict_set ''volumes''
                         (PDict (map (\<lambda>(host, path). (host, PDict [(''bind'', PStr path), (''mode'', PStr ''rw'')]))
                                   (cfg_volume_mounts c))) config
                  else config);
        config = (if cfg_network_disabled c then dict_set ''network_disabled'' (PBool True) config
                  else dict_set ''network_mode'' (PStr (cfg_network_mode c)) config)
      in if cfg_sandbox_type c = GVISOR then dict_set ''runtime'' (PStr ''runsc'') config else config)"

subsection \<open>The manager\<close>

datatype container_status = CREATING | RUNNING | STOPPED | FAILED | TERMINATED

fun container_status_value :: "container_status \<Rightarrow> string" where
  "container_status_value CREATING = ''creating''"
| "container_status_value RUNNING = ''running''"
| "container_status_value STOPPED = ''stopped''"
| "container_status_value FAILED = ''failed''"
| "container_status_value TERMINATED = ''terminated''"

record container_info =
  ci_docker_id :: "string option"
  ci_agent_id :: string
  ci_status :: container_status
  ci_network_mode :: string
  ci_network_disabled :: bool
  ci_created_at :: timestamp
  ci_started_at :: "timestamp option"
  ci_stopped_at :: "timestamp option"

record container_manager =
  cm_docker_available :: bool
  cm_default_sandbox :: sandbox_type
  cm_containers :: "(string, container_info) dict"

definition new_container_manager :: "bool \<Rightarrow> sandbox_type \<Rightarrow> container_manager" where
  "new_container_manager docker_available detected =
     \<lparr>cm_docker_available = docker_available, cm_default_sandbox = detected, cm_containers = []\<rparr>"

text \<open>What the manager raises: its own \<open>RuntimeError\<close>, or an exception that passes through.\<close>

datatype container_error = ManagerError string | OtherError string

text \<open>
  A call of the Docker client returns, raises \<open>NotFound\<close> or another \<open>DockerException\<close>, whose text is
  kept, or raises something else. \<open>NotFound\<close> is a \<open>DockerException\<close>.
\<close>

datatype 'a docker = Returned 'a | RaisedNotFound string | RaisedDocker string | RaisedOther string

fun raised_text :: "'a docker \<Rightarrow> string" where
  "raised_text (Returned v) = []"
| "raised_text (RaisedNotFound e) = e"
| "raised_text (RaisedDocker e) = e"
| "raised_text (RaisedOther e) = e"

definition update_container ::
    "string \<Rightarrow> (container_info \<Rightarrow> container_info) \<Rightarrow> container_manager \<Rightarrow> container_manager" where
  "update_container i f m =
     (case dict_get (cm_containers m) i of
        None \<Rightarrow> m
      | Some c \<Rightarrow> m\<lparr>cm_containers := dict_set i (f c) (cm_containers m)\<rparr>)"

text \<open>\<open>pull\<close> is the text of the exception of the pull, if it raises; \<open>local\<close> says that the image is there.\<close>

record create_answers =
  cr_image_local :: bool
  cr_pull_raises :: "string option"
  cr_create :: "string docker"

definition new_container_info :: "timestamp \<Rightarrow> string option \<Rightarrow> uuid \<Rightarrow> container_config \<Rightarrow> container_info" where
  "new_container_info now docker_id agent_id config =
     \<lparr>ci_docker_id = docker_id, ci_agent_id = uuid_str agent_id, ci_status = CREATING,
      ci_network_mode = cfg_network_mode config, ci_network_disabled = cfg_network_disabled config,
      ci_created_at = now, ci_started_at = None, ci_stopped_at = None\<rparr>"

definition create_container ::
    "timestamp \<Rightarrow> create_answers \<Rightarrow> uuid \<Rightarrow> container_config \<Rightarrow> container_manager
     \<Rightarrow> (container_error + string) \<times> container_manager" where
  "create_container now answers agent_id config m =
     (let container_id = cfg_container_id config;
          failed = (\<lambda>e. (Inl (ManagerError (''Container creation failed: '' @ e)), m));
          stored = (\<lambda>docker_id. (Inr container_id,
              m\<lparr>cm_containers :=
                 dict_set container_id (new_container_info now docker_id agent_id config) (cm_containers m)\<rparr>))
      in if cm_docker_available m then
           (case (if cr_image_local answers then None else cr_pull_raises answers) of
              Some e \<Rightarrow> failed (''Failed to pull image '' @ cfg_image config @ '': '' @ e)
            | None \<Rightarrow>
                (case cr_create answers of
                   Returned docker_id \<Rightarrow> stored (Some docker_id)
                 | raised \<Rightarrow> failed (raised_text raised)))
         else stored None)"

text \<open>
  One attempt to start: \<open>start\<close>, \<open>reload\<close>, the status then seen and, when it is not \<open>running\<close>, \<open>logs\<close>.
\<close>

record start_answers =
  st_start :: "unit docker"
  st_reload :: "unit docker"
  st_status :: string
  st_logs :: "unit docker"

record network_answers =
  nw_get :: "unit docker"
  nw_create :: "unit docker"
  nw_retry :: start_answers

text \<open>What comes out of the attempt: whether it runs, or the exception.\<close>

definition attempt_start :: "bool \<Rightarrow> start_answers \<Rightarrow> bool docker" where
  "attempt_start with_logs a =
     (case st_start a of
        Returned _ \<Rightarrow>
          (case st_reload a of
             Returned _ \<Rightarrow>
               if st_status a = ''running'' then Returned True
               else if with_logs then
                 (case st_logs a of
                    Returned _ \<Rightarrow> Returned False
                  | RaisedNotFound e \<Rightarrow> RaisedNotFound e
                  | RaisedDocker e \<Rightarrow> RaisedDocker e
                  | RaisedOther e \<Rightarrow> RaisedOther e)
               else Returned False
           | RaisedNotFound e \<Rightarrow> RaisedNotFound e
           | RaisedDocker e \<Rightarrow> RaisedDocker e
           | RaisedOther e \<Rightarrow> RaisedOther e)
      | RaisedNotFound e \<Rightarrow> RaisedNotFound e
      | RaisedDocker e \<Rightarrow> RaisedDocker e
      | RaisedOther e \<Rightarrow> RaisedOther e)"

definition set_running :: "timestamp \<Rightarrow> string \<Rightarrow> container_manager \<Rightarrow> container_manager" where
  "set_running now i m =
     update_container i (\<lambda>c. c\<lparr>ci_status := RUNNING, ci_started_at := Some now\<rparr>) m"

definition set_status :: "container_status \<Rightarrow> string \<Rightarrow> container_manager \<Rightarrow> container_manager" where
  "set_status status i m = update_container i (\<lambda>c. c\<lparr>ci_status := status\<rparr>) m"

text \<open>An exception that is no \<open>DockerException\<close> leaves this function.\<close>

definition ensure_network_exists :: "network_answers \<Rightarrow> container_manager \<Rightarrow> string + bool" where
  "ensure_network_exists a m =
     (if \<not> cm_docker_available m then Inr False
      else case nw_get a of
             Returned _ \<Rightarrow> Inr True
           | RaisedNotFound _ \<Rightarrow>
               (case nw_create a of
                  Returned _ \<Rightarrow> Inr True
                | RaisedOther e \<Rightarrow> Inl e
                | _ \<Rightarrow> Inr False)
           | RaisedDocker _ \<Rightarrow> Inr False
           | RaisedOther e \<Rightarrow> Inl e)"

definition retry_start_after_network_recovery ::
    "timestamp \<Rightarrow> network_answers \<Rightarrow> string \<Rightarrow> string \<Rightarrow> container_manager
     \<Rightarrow> (string + bool) \<times> container_manager" where
  "retry_start_after_network_recovery now a container_id start_error m =
     (case dict_get (cm_containers m) container_id of
        None \<Rightarrow> (Inr False, m)
      | Some meta \<Rightarrow>
          (let error_message = py_lower start_error
           in if ci_network_disabled meta \<or> ci_network_mode meta = [] then (Inr False, m)
              else if ci_network_mode meta \<in> {''bridge'', ''host'', ''none''} then (Inr False, m)
              else if \<not> py_substr ''network'' error_message \<or> \<not> py_substr ''not found'' error_message
                then (Inr False, m)
              else case ensure_network_exists a m of
                     Inl e \<Rightarrow> (Inl e, m)
                   | Inr False \<Rightarrow> (Inr False, m)
                   | Inr True \<Rightarrow>
                       if ci_docker_id meta = None then (Inr False, m)
                       else (case attempt_start False (nw_retry a) of
                               Returned True \<Rightarrow> (Inr True, set_running now container_id m)
                             | RaisedOther e \<Rightarrow> (Inl e, m)
                             | _ \<Rightarrow> (Inr False, set_status FAILED container_id m))))"

definition start_container ::
    "timestamp \<Rightarrow> start_answers \<Rightarrow> network_answers \<Rightarrow> string \<Rightarrow> container_manager
     \<Rightarrow> (string + bool) \<times> container_manager" where
  "start_container now a network container_id m =
     (if dict_get (cm_containers m) container_id = None then (Inr False, m)
      else if \<not> cm_docker_available m then (Inr True, set_running now container_id m)
      else let recover = (\<lambda>e.
             (case retry_start_after_network_recovery now network container_id e m of
                (Inl e', m') \<Rightarrow> (Inl e', m')
              | (Inr True, m') \<Rightarrow> (Inr True, m')
              | (Inr False, m') \<Rightarrow> (Inr False, set_status FAILED container_id m')))
           in case attempt_start True a of
                Returned True \<Rightarrow> (Inr True, set_running now container_id m)
              | Returned False \<Rightarrow> (Inr False, set_status FAILED container_id m)
              | RaisedNotFound e \<Rightarrow> recover e
              | RaisedDocker e \<Rightarrow> recover e
              | RaisedOther _ \<Rightarrow> (Inr False, set_status FAILED container_id m))"

definition stop_container ::
    "timestamp \<Rightarrow> unit docker \<Rightarrow> string \<Rightarrow> container_manager \<Rightarrow> bool \<times> container_manager" where
  "stop_container now answer container_id m =
     (if dict_get (cm_containers m) container_id = None then (False, m)
      else case (if cm_docker_available m then answer else Returned ()) of
             Returned _ \<Rightarrow>
               (True, update_container container_id
                  (\<lambda>c. c\<lparr>ci_status := STOPPED, ci_stopped_at := Some now\<rparr>) m)
           | _ \<Rightarrow> (False, m))"

definition terminate_container ::
    "timestamp \<Rightarrow> unit docker \<Rightarrow> unit docker \<Rightarrow> string \<Rightarrow> container_manager \<Rightarrow> bool \<times> container_manager" where
  "terminate_container now stop_answer remove_answer container_id m =
     (case dict_get (cm_containers m) container_id of
        None \<Rightarrow> (False, m)
      | Some c \<Rightarrow>
          (let m1 = (if ci_status c = RUNNING then snd (stop_container now stop_answer container_id m) else m)
           in case (if cm_docker_available m then remove_answer else Returned ()) of
                Returned _ \<Rightarrow> (True, set_status TERMINATED container_id m1)
              | _ \<Rightarrow> (False, m1)))"

text \<open>\<open>reload\<close> and the status Docker then reports.\<close>

definition get_container_status ::
    "unit docker \<Rightarrow> string \<Rightarrow> string \<Rightarrow> container_manager
     \<Rightarrow> (container_error + container_status option) \<times> container_manager" where
  "get_container_status reload docker_status container_id m =
     (case dict_get (cm_containers m) container_id of
        None \<Rightarrow> (Inr None, m)
      | Some c \<Rightarrow>
          (let status_of = (\<lambda>m'. (Inr (map_option ci_status (dict_get (cm_containers m') container_id)), m'))
           in if cm_docker_available m \<and> ci_docker_id c \<noteq> None then
                (case reload of
                   Returned _ \<Rightarrow>
                     if py_lower docker_status = ''running'' then status_of (set_status RUNNING container_id m)
                     else if py_lower docker_status \<in> {''exited'', ''dead''}
                       then status_of (set_status STOPPED container_id m)
                     else status_of m
                 | RaisedNotFound _ \<Rightarrow> status_of (set_status TERMINATED container_id m)
                 | RaisedDocker _ \<Rightarrow> status_of m
                 | RaisedOther e \<Rightarrow> (Inl (OtherError e), m))
              else status_of m))"

type_synonym exec_result = "int \<times> string \<times> string"

definition exec_in_container ::
    "unit docker \<Rightarrow> string \<Rightarrow> exec_result docker \<Rightarrow> string \<Rightarrow> container_manager
     \<Rightarrow> (container_error + exec_result) \<times> container_manager" where
  "exec_in_container reload docker_status answer container_id m =
     (if dict_get (cm_containers m) container_id = None
      then (Inl (ManagerError (''Container '' @ container_id @ '' not found'')), m)
      else case get_container_status reload docker_status container_id m of
             (Inl e, m1) \<Rightarrow> (Inl e, m1)
           | (Inr status, m1) \<Rightarrow>
               if status \<noteq> Some RUNNING then
                 (Inl (ManagerError (''Container '' @ container_id @ '' is not running (status: ''
                    @ (case status of Some s \<Rightarrow> container_status_value s | None \<Rightarrow> ''unknown'') @ '')'')), m1)
               else if \<not> cm_docker_available m1 then (Inr (0, ''Simulated output'', []), m1)
               else case answer of
                      Returned r \<Rightarrow> (Inr r, m1)
                    | RaisedNotFound _ \<Rightarrow>
                        (Inl (ManagerError (''Container '' @ container_id @ '' no longer exists in Docker'')),
                         set_status TERMINATED container_id m1)
                    | RaisedDocker e \<Rightarrow> (Inl (ManagerError (''Command execution failed: '' @ e)), m1)
                    | RaisedOther e \<Rightarrow> (Inl (OtherError e), m1))"

definition list_containers ::
    "string option \<Rightarrow> container_status option \<Rightarrow> container_manager \<Rightarrow> container_info list" where
  "list_containers agent_id status m =
     (let containers = dict_values (cm_containers m);
          containers = (case agent_id of None \<Rightarrow> containers
                        | Some a \<Rightarrow> filter (\<lambda>c. ci_agent_id c = a) containers)
      in case status of None \<Rightarrow> containers | Some s \<Rightarrow> filter (\<lambda>c. ci_status c = s) containers)"

definition cleanup_terminated_containers :: "container_manager \<Rightarrow> nat \<times> container_manager" where
  "cleanup_terminated_containers m =
     (let terminated = map fst (filter (\<lambda>(i, c). ci_status c = TERMINATED) (cm_containers m))
      in (length terminated, m\<lparr>cm_containers := dict_del_all terminated (cm_containers m)\<rparr>))"


subsection \<open>What the manager's answers mean\<close>

definition container_ids :: "container_manager \<Rightarrow> string set" where
  "container_ids m = set (dict_keys (cm_containers m))"

lemma update_container_get:
  "dict_get (cm_containers (update_container i f m)) j
     = (if j = i then map_option f (dict_get (cm_containers m) i) else dict_get (cm_containers m) j)"
  by (auto simp: update_container_def split: option.splits)

lemma update_container_fields [simp]:
  "cm_docker_available (update_container i f m) = cm_docker_available m"
  "cm_default_sandbox (update_container i f m) = cm_default_sandbox m"
  by (auto simp: update_container_def split: option.splits)

lemma update_container_keys [simp]:
  "container_ids (update_container i f m) = container_ids m"
proof (cases "dict_get (cm_containers m) i")
  case (Some c)
  then show ?thesis
    using dict_get_key[OF Some] dict_keys_set[of i "f c" "cm_containers m"]
    by (simp add: update_container_def container_ids_def insert_absorb del: set_map)
qed (simp add: update_container_def)

lemmas manager_updates = set_status_def set_running_def stop_container_def

definition status_in :: "container_manager \<Rightarrow> string \<Rightarrow> container_status option" where
  "status_in m i = map_option ci_status (dict_get (cm_containers m) i)"

lemma status_in_simps [simp]:
  "status_in (set_status s i m) j = (if j = i \<and> status_in m i \<noteq> None then Some s else status_in m j)"
  "status_in (set_running now i m) j = (if j = i \<and> status_in m i \<noteq> None then Some RUNNING else status_in m j)"
  by (auto simp: status_in_def manager_updates update_container_get option.map_comp o_def split: option.splits)

lemma retry_cases:
  assumes "retry_start_after_network_recovery now a i e m = (r, m')"
  shows "(r = Inr True \<and> m' = set_running now i m \<and> status_in m i \<noteq> None)
    \<or> (r = Inr False \<and> (m' = m \<or> m' = set_status FAILED i m)) \<or> (\<exists>e'. r = Inl e' \<and> m' = m)"
proof -
  have decided: "(r = Inr True \<and> m' = set_running now i m \<and> status_in m i \<noteq> None)
      \<or> (r = Inr False \<and> (m' = m \<or> m' = set_status FAILED i m)) \<or> (\<exists>e'. r = Inl e' \<and> m' = m)"
    if "(case network of
           Inl e \<Rightarrow> (Inl e, m)
         | Inr False \<Rightarrow> (Inr False, m)
         | Inr True \<Rightarrow>
             if ci_docker_id meta = None then (Inr False, m)
             else (case attempt of
                     Returned True \<Rightarrow> (Inr True, set_running now i m)
                   | RaisedOther e \<Rightarrow> (Inl e, m)
                   | _ \<Rightarrow> (Inr False, set_status FAILED i m))) = (r, m')"
      and "dict_get (cm_containers m) i = Some meta" for network attempt meta
    using that by (auto simp: status_in_def split: sum.splits bool.splits docker.splits if_splits)
  show ?thesis
    using assms decided
    unfolding retry_start_after_network_recovery_def Let_def
    by (simp split: option.splits if_splits)
qed

lemma start_cases:
  assumes "start_container now a nw i m = (r, m')"
  shows "(r = Inr False \<and> m' = m \<and> status_in m i = None)
    \<or> (status_in m i \<noteq> None
       \<and> ((r = Inr True \<and> m' = set_running now i m)
          \<or> (r = Inr False \<and> (m' = set_status FAILED i m \<or> m' = set_status FAILED i (set_status FAILED i m)))
          \<or> (\<exists>e. r = Inl e \<and> m' = m)))"
proof -
  have recover: ?thesis if "status_in m i \<noteq> None"
    and "(case retry_start_after_network_recovery now nw i e m of
            (Inl e', m') \<Rightarrow> (Inl e', m')
          | (Inr True, m') \<Rightarrow> (Inr True, m')
          | (Inr False, m') \<Rightarrow> (Inr False, set_status FAILED i m')) = (r, m')" for e
    using that retry_cases[of now nw i e m]
    by (cases "retry_start_after_network_recovery now nw i e m")
      (auto split: sum.splits bool.splits)
  show ?thesis
    using assms recover
    by (cases "attempt_start True a")
      (auto simp: start_container_def Let_def status_in_def split: if_splits bool.splits)
qed

lemma frame_simps [simp]:
  "j \<noteq> i \<Longrightarrow> dict_get (cm_containers (set_status st i m)) j = dict_get (cm_containers m) j"
  "j \<noteq> i \<Longrightarrow> dict_get (cm_containers (set_running now i m)) j = dict_get (cm_containers m) j"
  "container_ids (set_status st i m) = container_ids m"
  "container_ids (set_running now i m) = container_ids m"
  "cm_docker_available (set_status st i m) = cm_docker_available m"
  "cm_docker_available (set_running now i m) = cm_docker_available m"
  by (simp_all add: set_status_def set_running_def update_container_get del: set_map)

text \<open>\<open>start_container\<close> tells the truth: \<open>True\<close> leaves the container running, \<open>False\<close> failed or unknown,
  an exception leaves the table as it was; no other container is touched.\<close>

lemma start_container_truthful:
  assumes "start_container now a nw i m = (r, m')"
  shows "(r = Inr True \<longrightarrow> status_in m' i = Some RUNNING)
    \<and> (r = Inr False \<longrightarrow> status_in m' i = (if status_in m i = None then None else Some FAILED))
    \<and> (\<forall>e. r = Inl e \<longrightarrow> m' = m)
    \<and> (\<forall>j. j \<noteq> i \<longrightarrow> dict_get (cm_containers m') j = dict_get (cm_containers m) j)
    \<and> container_ids m' = container_ids m
    \<and> cm_docker_available m' = cm_docker_available m"
  using start_cases[OF assms] by (elim disjE exE conjE; simp del: set_map)


text \<open>A command runs in running containers only, and what it reports back is the status Docker gives.\<close>

lemma reported_status:
  "get_container_status reload st i m = (Inr s, m') \<Longrightarrow> s = status_in m' i"
  by (auto simp: get_container_status_def status_in_def Let_def split: if_splits option.splits docker.splits)

lemma exec_needs_running:
  assumes "exec_in_container reload st answer i m = (Inr r, m')"
  shows "status_in m' i = Some RUNNING"
proof -
  obtain s m1 where "get_container_status reload st i m = (s, m1)" by (metis surj_pair)
  with assms reported_status[of reload st i m _ m1] show ?thesis
    by (cases s) (auto simp: exec_in_container_def split: if_splits docker.splits)
qed

text \<open>A configuration names a network or disables it, never both, and always drops privileges as told.\<close>

lemma docker_config_base_get:
  "dict_get (docker_config_base linux dev c) ''network_disabled'' = None"
  "dict_get (docker_config_base linux dev c) ''network_mode'' = None"
  "dict_get (docker_config_base linux dev c) ''read_only'' = Some (PBool (cfg_read_only_root c))"
  "dict_get (docker_config_base linux dev c) ''cap_drop'' = Some (PList (map PStr (cfg_drop_capabilities c)))"
  by (simp_all add: docker_config_base_def limits_to_docker_config_def dict_get_def)

lemma docker_config_network:
  "dict_get (to_docker_config linux dev c) ''network_disabled'' = (if cfg_network_disabled c then Some (PBool True) else None)"
  "dict_get (to_docker_config linux dev c) ''network_mode''
     = (if cfg_network_disabled c then None else Some (PStr (cfg_network_mode c)))"
  by (simp_all add: to_docker_config_def Let_def docker_config_base_get)

lemma docker_config_hardened:
  "dict_get (to_docker_config linux dev c) ''read_only'' = Some (PBool (cfg_read_only_root c))"
  "dict_get (to_docker_config linux dev c) ''cap_drop'' = Some (PList (map PStr (cfg_drop_capabilities c)))"
  by (simp_all add: to_docker_config_def Let_def docker_config_base_get)

subsection \<open>Cleaning up after Docker\<close>

text \<open>
  \<open>DockerCleanupManager\<close>: the images and containers Docker lists, each with the answer to its removal.
  The functions return their count, or the exception that is not Docker's and leaves them, together
  with what has been removed by then.
\<close>

definition PROTECTED_IMAGE_PREFIXES :: "string list" where
  "PROTECTED_IMAGE_PREFIXES =
     [''postgres:'', ''redis:'', ''minio/'', ''milvusdb/'', ''quay.io/coreos/etcd:'', ''python:'']"

definition is_protected_image :: "string list \<Rightarrow> bool" where
  "is_protected_image tags \<longleftrightarrow> list_ex (\<lambda>tag. list_ex (py_startswith tag) PROTECTED_IMAGE_PREFIXES) tags"

record docker_object =
  do_id :: string
  do_tags :: "string list"
  do_remove :: "unit docker"

fun remove_objects :: "(docker_object \<Rightarrow> bool) \<Rightarrow> docker_object list \<Rightarrow> (string + nat) \<times> string list" where
  "remove_objects skip [] = (Inr 0, [])"
| "remove_objects skip (x # xs) =
     (if skip x then remove_objects skip xs
      else case do_remove x of
             Returned _ \<Rightarrow>
               (let (r, removed) = remove_objects skip xs in (map_sum id Suc r, do_id x # removed))
           | RaisedOther e \<Rightarrow> (Inl e, [])
           | _ \<Rightarrow> remove_objects skip xs)"

definition remove_listed ::
    "bool \<Rightarrow> (docker_object \<Rightarrow> bool) \<Rightarrow> docker_object list docker \<Rightarrow> (string + nat) \<times> string list" where
  "remove_listed docker_available skip listing =
     (if \<not> docker_available then (Inr 0, [])
      else case listing of
             Returned xs \<Rightarrow> remove_objects skip xs
           | RaisedOther e \<Rightarrow> (Inl e, [])
           | _ \<Rightarrow> (Inr 0, []))"

definition cleanup_orphaned_containers :: "bool \<Rightarrow> docker_object list docker \<Rightarrow> (string + nat) \<times> string list" where
  "cleanup_orphaned_containers docker_available listing = remove_listed docker_available (\<lambda>_. False) listing"

definition cleanup_sandbox_images :: "bool \<Rightarrow> docker_object list docker \<Rightarrow> (string + nat) \<times> string list" where
  "cleanup_sandbox_images docker_available listing =
     remove_listed docker_available (\<lambda>x. is_protected_image (do_tags x)) listing"

definition cleanup_dangling_images :: "bool \<Rightarrow> docker_object list docker \<Rightarrow> (string + nat) \<times> string list" where
  "cleanup_dangling_images docker_available listing =
     remove_listed docker_available (\<lambda>x. is_protected_image (do_tags x)) listing"

definition cleanup_container_by_internal_id :: "bool \<Rightarrow> docker_object list docker \<Rightarrow> string + bool" where
  "cleanup_container_by_internal_id docker_available listing =
     map_sum id (\<lambda>n. n > 0) (fst (remove_listed docker_available (\<lambda>_. False) listing))"

definition cleanup_build_cache :: "bool \<Rightarrow> int docker \<Rightarrow> string + int" where
  "cleanup_build_cache docker_available answer =
     (if \<not> docker_available then Inr 0
      else case answer of
             Returned space \<Rightarrow> Inr space
           | RaisedOther e \<Rightarrow> Inl e
           | _ \<Rightarrow> Inr (- 1))"

lemma removed_not_skipped:
  assumes "remove_objects skip xs = (r, removed)" and "i \<in> set removed"
  shows "\<exists>x \<in> set xs. do_id x = i \<and> \<not> skip x \<and> do_remove x = Returned ()"
  using assms
proof (induction xs arbitrary: r removed)
  case (Cons x xs)
  then show ?case
    by (cases "remove_objects skip xs") (auto split: if_splits docker.splits)
qed simp

lemma protected_images_stay:
  assumes "cleanup_sandbox_images d (Returned xs) = (r, removed)" and "i \<in> set removed"
    and "\<forall>x \<in> set xs. do_id x = i \<longrightarrow> is_protected_image (do_tags x)"
  shows False
  using assms by (auto simp: cleanup_sandbox_images_def remove_listed_def split: if_splits
      dest: removed_not_skipped)

end
