(* ===== verification/Sandbox_Pool.thy ===== *)
theory Sandbox_Pool
  imports Containers State_Machine "HOL-Library.Multiset"
begin

section \<open>The pool of warm sandboxes\<close>

text \<open>
  \<open>virtualization/sandbox_pool.py\<close> over the container manager. The pool is used by coroutines: a
  method runs without interruption except where it waits. \<open>initialize_pool\<close> waits for the creation
  tasks it has scheduled, each of which runs in one piece, since putting into an unbounded
  \<open>asyncio.Queue\<close> never waits. \<open>acquire_sandbox\<close> waits in \<open>wait_for(queue.get(), timeout)\<close>: the item is
  taken from the queue by an inner task and handed to the call at a later turn of the loop (Python 3.11;
  the two steps follow each other directly in later versions), or the wait times out, or the call is
  cancelled while it waits. \<open>release_sandbox\<close> and \<open>shutdown\<close> never wait. So the pool is a machine whose
  events are these pieces. The identifiers of containers are fresh \<open>uuid4\<close> texts, of which the machine
  remembers those drawn.
\<close>

subsection \<open>The pool\<close>

record sandbox_pool =
  pl_pool_size :: int
  pl_manager :: container_manager
  pl_available :: "string list"
  pl_active :: "(string, uuid) dict"
  pl_warming :: "string list"
  pl_initialized :: bool

definition new_sandbox_pool :: "int \<Rightarrow> container_manager \<Rightarrow> sandbox_pool" where
  "new_sandbox_pool pool_size manager =
     \<lparr>pl_pool_size = pool_size, pl_manager = manager, pl_available = [], pl_active = [],
      pl_warming = [], pl_initialized = False\<rparr>"

text \<open>What one creation gets from outside: clock, fresh identifier, defaults, and Docker's answers.\<close>

record creation =
  ce_now :: timestamp
  ce_fresh :: string
  ce_image :: string
  ce_limits :: resource_limits
  ce_create :: create_answers
  ce_start :: start_answers
  ce_network :: network_answers

definition create_and_warm_sandbox ::
    "creation \<Rightarrow> nat \<Rightarrow> sandbox_pool \<Rightarrow> (container_error + string) \<times> sandbox_pool" where
  "create_and_warm_sandbox env index p =
     (let temp_agent_id = index;
          config = ContainerConfig (ce_fresh env) (ce_image env) (ce_limits env) (Some temp_agent_id)
                     (''pool-sandbox-'' @ nat_str index) (cm_default_sandbox (pl_manager p))
      in case create_container (ce_now env) (ce_create env) temp_agent_id config (pl_manager p) of
           (Inl e, m) \<Rightarrow> (Inl e, p\<lparr>pl_manager := m\<rparr>)
         | (Inr container_id, m) \<Rightarrow>
             (let p1 = p\<lparr>pl_manager := m, pl_warming := List.insert container_id (pl_warming p)\<rparr>
              in case start_container (ce_now env) (ce_start env) (ce_network env) container_id m of
                   (Inl e, m') \<Rightarrow> (Inl (OtherError e), p1\<lparr>pl_manager := m'\<rparr>)
                 | (Inr success, m') \<Rightarrow>
                     if success
                     then (Inr container_id,
                           p1\<lparr>pl_manager := m', pl_available := pl_available p @ [container_id],
                              pl_warming := removeAll container_id (pl_warming p1)\<rparr>)
                     else (Inl (ManagerError (''Failed to start sandbox '' @ container_id)),
                           p1\<lparr>pl_manager := m'\<rparr>)))"

text \<open>The \<open>TimeoutError\<close> branch of \<open>acquire_sandbox\<close>; what \<open>start_container\<close> returns is not looked at.\<close>

definition create_on_exhaustion :: "creation \<Rightarrow> uuid \<Rightarrow> sandbox_pool \<Rightarrow> string option \<times> sandbox_pool" where
  "create_on_exhaustion env agent_id p =
     (let config = ContainerConfig (ce_fresh env) (ce_image env) (ce_limits env) (Some agent_id) []
                     (cm_default_sandbox (pl_manager p))
      in case create_container (ce_now env) (ce_create env) agent_id config (pl_manager p) of
           (Inl e, m) \<Rightarrow> (None, p\<lparr>pl_manager := m\<rparr>)
         | (Inr container_id, m) \<Rightarrow>
             (case start_container (ce_now env) (ce_start env) (ce_network env) container_id m of
                (Inl e, m') \<Rightarrow> (None, p\<lparr>pl_manager := m'\<rparr>)
              | (Inr _, m') \<Rightarrow>
                  (Some container_id,
                   p\<lparr>pl_manager := m', pl_active := dict_set container_id agent_id (pl_active p)\<rparr>)))"

definition reset_sandbox :: "string \<Rightarrow> sandbox_pool \<Rightarrow> sandbox_pool" where
  "reset_sandbox container_id p = p"

text \<open>Docker's answers to stopping and to removing a container.\<close>

type_synonym removal = "timestamp \<times> unit docker \<times> unit docker"

definition terminate_in :: "removal \<Rightarrow> string \<Rightarrow> container_manager \<Rightarrow> container_manager" where
  "terminate_in a container_id m =
     snd (terminate_container (fst a) (fst (snd a)) (snd (snd a)) container_id m)"

definition release_sandbox :: "removal \<Rightarrow> string \<Rightarrow> sandbox_pool \<Rightarrow> bool \<times> sandbox_pool" where
  "release_sandbox a container_id p =
     (if dict_get (pl_active p) container_id = None then (False, p)
      else let p1 = p\<lparr>pl_active := dict_del container_id (pl_active p)\<rparr>
           in if int (length (pl_available p1)) < pl_pool_size p1
              then let p2 = reset_sandbox container_id p1
                   in (True, p2\<lparr>pl_available := pl_available p2 @ [container_id]\<rparr>)
              else (True, p1\<lparr>pl_manager := terminate_in a container_id (pl_manager p1)\<rparr>))"

record pool_stats =
  ps_pool_size :: int
  ps_available :: nat
  ps_active :: nat
  ps_warming :: nat
  ps_total :: nat

definition get_pool_stats :: "sandbox_pool \<Rightarrow> pool_stats" where
  "get_pool_stats p =
     \<lparr>ps_pool_size = pl_pool_size p, ps_available = length (pl_available p),
      ps_active = length (pl_active p), ps_warming = length (pl_warming p),
      ps_total = length (pl_available p) + length (pl_active p) + length (pl_warming p)\<rparr>"

definition terminate_all :: "(string \<Rightarrow> removal) \<Rightarrow> string list \<Rightarrow> container_manager \<Rightarrow> container_manager" where
  "terminate_all answers ids m = fold (\<lambda>i. terminate_in (answers i) i) ids m"

definition shutdown_pool :: "(string \<Rightarrow> removal) \<Rightarrow> sandbox_pool \<Rightarrow> sandbox_pool" where
  "shutdown_pool answers p =
     (let m1 = terminate_all answers (dict_keys (pl_active p)) (pl_manager p);
          m2 = terminate_all answers (pl_available p) m1;
          m3 = terminate_all answers (pl_warming p) m2
      in p\<lparr>pl_manager := m3, pl_available := [], pl_active := [], pl_warming := []\<rparr>)"

subsection \<open>The machine\<close>

text \<open>
  \<open>pr_tasks\<close>: the creation tasks scheduled and not yet run, with the call of \<open>initialize_pool\<close> they
  belong to; \<open>pr_initializing\<close>: the calls waiting for their tasks; \<open>pr_waiting\<close>: the acquiring calls that
  wait; \<open>pr_taken\<close>: those whose item was taken and which have not resumed; \<open>pr_drawn\<close>: the identifiers
  drawn; \<open>pr_inits\<close>: how many calls of \<open>initialize_pool\<close> found the pool not initialised.
\<close>

record pool_run =
  pr_pool :: sandbox_pool
  pr_tasks :: "(nat \<times> nat) list"
  pr_initializing :: "nat list"
  pr_waiting :: "(nat \<times> uuid) list"
  pr_taken :: "(nat \<times> uuid \<times> string) list"
  pr_drawn :: "string list"
  pr_inits :: nat

definition start_pool :: "int \<Rightarrow> bool \<Rightarrow> sandbox_type \<Rightarrow> pool_run" where
  "start_pool pool_size docker_available detected =
     \<lparr>pr_pool = new_sandbox_pool pool_size (new_container_manager docker_available detected),
      pr_tasks = [], pr_initializing = [], pr_waiting = [], pr_taken = [], pr_drawn = [], pr_inits = 0\<rparr>"

datatype pool_event =
    InitCalled nat
  | TaskRuns nat nat creation
  | InitReturns nat
  | AcquireCalled nat uuid
  | SandboxTaken nat
  | AcquireReturns nat
  | AcquireTimesOut nat creation
  | AcquireCancelled nat
  | ReleaseCalled string removal
  | ShutdownCalled "string \<Rightarrow> removal"

fun pool_next :: "pool_event \<Rightarrow> pool_run \<Rightarrow> pool_run option" where
  "pool_next (InitCalled c) s =
     (if pl_initialized (pr_pool s) then Some s
      else Some (s\<lparr>pr_tasks := pr_tasks s @ map (Pair c) [0..<nat (pl_pool_size (pr_pool s))],
                   pr_initializing := pr_initializing s @ [c], pr_inits := Suc (pr_inits s)\<rparr>))"
| "pool_next (TaskRuns c i env) s =
     (if (c, i) \<in> set (pr_tasks s) \<and> ce_fresh env \<notin> set (pr_drawn s)
      then Some (s\<lparr>pr_pool := snd (create_and_warm_sandbox env i (pr_pool s)),
                   pr_tasks := remove1 (c, i) (pr_tasks s), pr_drawn := ce_fresh env # pr_drawn s\<rparr>)
      else None)"
| "pool_next (InitReturns c) s =
     (if c \<in> set (pr_initializing s) \<and> c \<notin> fst ` set (pr_tasks s)
      then Some (s\<lparr>pr_pool := (pr_pool s)\<lparr>pl_initialized := True\<rparr>,
                   pr_initializing := remove1 c (pr_initializing s)\<rparr>)
      else None)"
| "pool_next (AcquireCalled r agent) s = Some (s\<lparr>pr_waiting := pr_waiting s @ [(r, agent)]\<rparr>)"
| "pool_next (SandboxTaken r) s =
     (case find (\<lambda>w. fst w = r) (pr_waiting s) of
        None \<Rightarrow> None
      | Some w \<Rightarrow>
          (case pl_available (pr_pool s) of
             [] \<Rightarrow> None
           | c # cs \<Rightarrow> Some (s\<lparr>pr_pool := (pr_pool s)\<lparr>pl_available := cs\<rparr>,
                                 pr_waiting := remove1 w (pr_waiting s),
                                 pr_taken := pr_taken s @ [(r, snd w, c)]\<rparr>)))"
| "pool_next (AcquireReturns r) s =
     (case find (\<lambda>t. fst t = r) (pr_taken s) of
        None \<Rightarrow> None
      | Some t \<Rightarrow>
          Some (s\<lparr>pr_pool := (pr_pool s)\<lparr>pl_active :=
                    dict_set (snd (snd t)) (fst (snd t)) (pl_active (pr_pool s))\<rparr>,
                  pr_taken := remove1 t (pr_taken s)\<rparr>))"
| "pool_next (AcquireTimesOut r env) s =
     (case find (\<lambda>w. fst w = r) (pr_waiting s) of
        None \<Rightarrow> None
      | Some w \<Rightarrow>
          if ce_fresh env \<in> set (pr_drawn s) then None
          else Some (s\<lparr>pr_pool := snd (create_on_exhaustion env (snd w) (pr_pool s)),
                       pr_waiting := remove1 w (pr_waiting s), pr_drawn := ce_fresh env # pr_drawn s\<rparr>))"
| "pool_next (AcquireCancelled r) s =
     (case find (\<lambda>w. fst w = r) (pr_waiting s) of
        None \<Rightarrow> None
      | Some w \<Rightarrow> Some (s\<lparr>pr_waiting := remove1 w (pr_waiting s)\<rparr>))"
| "pool_next (ReleaseCalled c a) s = Some (s\<lparr>pr_pool := snd (release_sandbox a c (pr_pool s))\<rparr>)"
| "pool_next (ShutdownCalled answers) s = Some (s\<lparr>pr_pool := shutdown_pool answers (pr_pool s)\<rparr>)"

definition pool_step :: "pool_run \<Rightarrow> pool_event \<Rightarrow> pool_run \<Rightarrow> bool" where
  "pool_step s e s' \<longleftrightarrow> pool_next e s = Some s'"

text \<open>The same, for evaluation.\<close>

fun pool_events :: "pool_event list \<Rightarrow> pool_run \<Rightarrow> pool_run option" where
  "pool_events [] s = Some s"
| "pool_events (e # es) s = (case pool_next e s of None \<Rightarrow> None | Some s' \<Rightarrow> pool_events es s')"

lemma run_of_pool_events: "run_of pool_step s es s' \<longleftrightarrow> pool_events es s = Some s'"
  by (induction es arbitrary: s) (auto simp: run_of_Cons pool_step_def split: option.splits)

subsection \<open>A sandbox is in one place\<close>

text \<open>How often an identifier occurs in the pool: an identifier not drawn never, a drawn one at most once.\<close>

definition occurs :: "pool_run \<Rightarrow> string \<Rightarrow> nat" where
  "occurs s x =
     count (mset (pl_available (pr_pool s))) x + count (mset (map (snd \<circ> snd) (pr_taken s))) x
     + count (mset (dict_keys (pl_active (pr_pool s)))) x + count (mset (pl_warming (pr_pool s))) x"

definition pool_inv :: "pool_run \<Rightarrow> bool" where
  "pool_inv s \<longleftrightarrow> (\<forall>x. occurs s x \<le> (if x \<in> set (pr_drawn s) then 1 else 0))
     \<and> container_ids (pl_manager (pr_pool s)) \<subseteq> set (pr_drawn s)
     \<and> length (pr_tasks s) \<le> pr_inits s * nat (pl_pool_size (pr_pool s))
     \<and> length (pl_available (pr_pool s)) + length (pr_tasks s)
         \<le> Suc (pr_inits s) * nat (pl_pool_size (pr_pool s))"

lemma dict_keys_dict_set:
  "dict_keys (dict_set k v d) = (if k \<in> set (dict_keys d) then dict_keys d else dict_keys d @ [k])"
  by (simp add: dict_set_def update_keys)

lemma dict_keys_dict_del: "dict_keys (dict_del k d) = removeAll k (dict_keys d)"
  by (simp add: dict_del_def delete_keys)

lemma find_fst: "find (\<lambda>w. fst w = r) ws = Some w \<Longrightarrow> w \<in> set ws"
  by (induction ws) (auto split: if_splits)

lemma map_remove1_perm: "x \<in> set xs \<Longrightarrow> mset (map f xs) = mset (f x # map f (remove1 x xs))"
  by (simp flip: image_mset_add_mset)

lemma create_container_keys:
  "create_container now a agent config m = (r, m') \<Longrightarrow>
     (\<exists>e. r = Inl e \<and> m' = m)
     \<or> (r = Inr (cfg_container_id config)
        \<and> container_ids m' = insert (cfg_container_id config) (container_ids m)
        \<and> status_in m' (cfg_container_id config) = Some CREATING
        \<and> (\<forall>j. j \<noteq> cfg_container_id config \<longrightarrow> status_in m' j = status_in m j)
        \<and> cm_docker_available m' = cm_docker_available m)"
  by (auto simp: create_container_def Let_def container_ids_def dict_keys_set status_in_def new_container_info_def
      simp del: set_map split: if_splits option.splits docker.splits)

lemma fresh_config [simp]: "cfg_container_id (ContainerConfig i img limits agent name sandbox) = i"
  by (simp add: ContainerConfig_def)

text \<open>What a creation task does to the pool: nothing, a sandbox that stays among the warming ones, or
  one more available sandbox.\<close>

lemma create_and_warm_effect:
  assumes "create_and_warm_sandbox env i p = (r, p')" and "ce_fresh env \<notin> set (pl_warming p)"
  shows "pl_active p' = pl_active p \<and> pl_pool_size p' = pl_pool_size p
    \<and> pl_initialized p' = pl_initialized p
    \<and> ((pl_available p' = pl_available p \<and> pl_warming p' = pl_warming p \<and> pl_manager p' = pl_manager p)
       \<or> (pl_available p' = pl_available p \<and> pl_warming p' = ce_fresh env # pl_warming p
          \<and> container_ids (pl_manager p')
              = insert (ce_fresh env) (container_ids (pl_manager p)))
       \<or> (pl_available p' = pl_available p @ [ce_fresh env] \<and> pl_warming p' = pl_warming p
          \<and> status_in (pl_manager p') (ce_fresh env) = Some RUNNING
          \<and> container_ids (pl_manager p')
              = insert (ce_fresh env) (container_ids (pl_manager p))))
    \<and> (\<forall>j. j \<noteq> ce_fresh env \<longrightarrow> status_in (pl_manager p') j = status_in (pl_manager p) j)
    \<and> cm_docker_available (pl_manager p') = cm_docker_available (pl_manager p)"
proof -
  let ?i = "ce_fresh env"
  obtain r1 m1 where c: "create_container (ce_now env) (ce_create env) i
      (ContainerConfig ?i (ce_image env) (ce_limits env) (Some i)
         (''pool-sandbox-'' @ nat_str i) (cm_default_sandbox (pl_manager p))) (pl_manager p) = (r1, m1)"
    by (metis surj_pair)
  obtain r2 m2 where s: "start_container (ce_now env) (ce_start env) (ce_network env) ?i m1 = (r2, m2)"
    by (metis surj_pair)
  note start = start_container_truthful[OF s]
  show ?thesis
  proof (cases r1)
    case (Inl e)
    with create_container_keys[OF c] c assms(1) show ?thesis
      by (auto simp: create_and_warm_sandbox_def Let_def)
  next
    case (Inr id1)
    with create_container_keys[OF c] have id1: "id1 = ?i" by simp
    have [simp]: "status_in m2 j = status_in m1 j" if "j \<noteq> ?i" for j
      using start that by (simp add: status_in_def)
    have r1: "r1 = Inr ?i" using Inr id1 by simp
    note created = create_container_keys[OF c, unfolded r1, simplified fresh_config]
    consider (raised) e where "r2 = Inl e" | (up) "r2 = Inr True" | (down) "r2 = Inr False"
      by (metis (full_types) old.sum.exhaust)
    then show ?thesis
    proof cases
      case raised
      then have "p' = p\<lparr>pl_warming := List.insert ?i (pl_warming p), pl_manager := m2\<rparr>"
        using assms(1) by (auto simp: create_and_warm_sandbox_def Let_def c[simplified] r1 s)
      with start created raised assms(2) show ?thesis by (simp del: set_map add: List.insert_def)
    next
      case up
      then have "p' = p\<lparr>pl_manager := m2, pl_available := pl_available p @ [?i],
          pl_warming := removeAll ?i (List.insert ?i (pl_warming p))\<rparr>"
        using assms(1) by (auto simp: create_and_warm_sandbox_def Let_def c[simplified] r1 s)
      with start created up assms(2) show ?thesis by (simp del: set_map add: List.insert_def)
    next
      case down
      then have "p' = p\<lparr>pl_warming := List.insert ?i (pl_warming p), pl_manager := m2\<rparr>"
        using assms(1) by (auto simp: create_and_warm_sandbox_def Let_def c[simplified] r1 s)
      with start created down assms(2) show ?thesis by (simp del: set_map add: List.insert_def)
    qed
  qed
qed

lemma create_on_exhaustion_effect:
  assumes "create_on_exhaustion env agent p = (r, p')"
  shows "pl_available p' = pl_available p \<and> pl_warming p' = pl_warming p
    \<and> pl_pool_size p' = pl_pool_size p \<and> pl_initialized p' = pl_initialized p
    \<and> (r = None \<longrightarrow> pl_active p' = pl_active p)
    \<and> (\<forall>c. r = Some c \<longrightarrow> c = ce_fresh env \<and> pl_active p' = dict_set c agent (pl_active p)
         \<and> status_in (pl_manager p') c \<in> {Some RUNNING, Some FAILED})
    \<and> container_ids (pl_manager p')
        \<subseteq> insert (ce_fresh env) (container_ids (pl_manager p))
    \<and> (\<forall>j. j \<noteq> ce_fresh env \<longrightarrow> status_in (pl_manager p') j = status_in (pl_manager p) j)"
proof -
  let ?i = "ce_fresh env"
  obtain r1 m1 where c: "create_container (ce_now env) (ce_create env) agent
      (ContainerConfig ?i (ce_image env) (ce_limits env) (Some agent) []
         (cm_default_sandbox (pl_manager p))) (pl_manager p) = (r1, m1)"
    by (metis surj_pair)
  obtain r2 m2 where s: "start_container (ce_now env) (ce_start env) (ce_network env) ?i m1 = (r2, m2)"
    by (metis surj_pair)
  note start = start_container_truthful[OF s]
  show ?thesis
  proof (cases r1)
    case (Inl e)
    with create_container_keys[OF c] c assms(1) show ?thesis
      by (auto simp: create_on_exhaustion_def Let_def)
  next
    case (Inr id1)
    with create_container_keys[OF c] have id1: "id1 = ?i" by simp
    have [simp]: "status_in m2 j = status_in m1 j" if "j \<noteq> ?i" for j
      using start that by (simp add: status_in_def)
    have r1: "r1 = Inr ?i" using Inr id1 by simp
    note created = create_container_keys[OF c, unfolded r1, simplified fresh_config]
    show ?thesis
    proof (cases r2)
      case raised: (Inl e)
      then have "p' = p\<lparr>pl_manager := m2\<rparr>" and "r = None"
        using assms by (simp_all add: create_on_exhaustion_def Let_def c[simplified] r1 s)
      with start created raised show ?thesis by (simp del: set_map)
    next
      case ok: (Inr b)
      then have "p' = p\<lparr>pl_manager := m2, pl_active := dict_set ?i agent (pl_active p)\<rparr>" and "r = Some ?i"
        using assms by (simp_all add: create_on_exhaustion_def Let_def c[simplified] r1 s)
      with start created ok show ?thesis by (cases b) (simp_all del: set_map)
    qed
  qed
qed

lemma terminate_keys [simp]:
  "container_ids (terminate_in a i m) = container_ids m"
  by (auto simp: terminate_in_def terminate_container_def stop_container_def set_status_def Let_def
      simp del: set_map split: option.splits docker.splits)

lemma terminate_all_keys [simp]:
  "container_ids (terminate_all a is m) = container_ids m"
  unfolding terminate_all_def by (induction "is" arbitrary: m) (simp_all del: set_map)

lemma occurs_frame [simp]:
  "occurs (s\<lparr>pr_tasks := ts\<rparr>) = occurs s" "occurs (s\<lparr>pr_initializing := cs\<rparr>) = occurs s"
  "occurs (s\<lparr>pr_waiting := ws\<rparr>) = occurs s" "occurs (s\<lparr>pr_inits := k\<rparr>) = occurs s"
  "occurs (s\<lparr>pr_pool := (pr_pool s)\<lparr>pl_initialized := b\<rparr>\<rparr>) = occurs s"
  by (rule ext, simp add: occurs_def)+

lemma not_drawn:
  assumes "pool_inv s" and "x \<notin> set (pr_drawn s)"
  shows "occurs s x = 0" "x \<notin> set (pl_available (pr_pool s))" "x \<notin> set (pl_warming (pr_pool s))"
    "x \<notin> set (dict_keys (pl_active (pr_pool s)))"
proof -
  show "occurs s x = 0" using assms unfolding pool_inv_def by (metis le_zero_eq)
  then show "x \<notin> set (pl_available (pr_pool s))" "x \<notin> set (pl_warming (pr_pool s))"
    "x \<notin> set (dict_keys (pl_active (pr_pool s)))"
    by (simp_all add: occurs_def count_mset_0_iff del: mset_map set_map)
qed

lemma occurs_once: "pool_inv s \<Longrightarrow> occurs s x \<le> 1"
  by (drule pool_inv_def[THEN iffD1], drule conjunct1, drule spec[of _ x]) (simp split: if_splits)

lemma pool_inv_start: "pool_inv (start_pool n d k)"
  by (simp add: pool_inv_def occurs_def start_pool_def new_sandbox_pool_def new_container_manager_def
      container_ids_def)

lemma inv_init:
  "pool_inv s \<Longrightarrow> pool_next (InitCalled c) s = Some s' \<Longrightarrow> pool_inv s'"
  by (auto simp: pool_inv_def split: if_splits)

text \<open>A step that draws an identifier adds at most that one.\<close>

lemma inv_drawn:
  assumes "pool_inv s" and "x \<notin> set (pr_drawn s)" and "pr_drawn s' = x # pr_drawn s"
    and "\<And>y. occurs s' y = occurs s y \<or> y = x \<and> occurs s' y = Suc (occurs s y)"
  shows "occurs s' y \<le> (if y \<in> set (pr_drawn s') then 1 else 0)"
proof -
  have "occurs s y \<le> (if y \<in> set (pr_drawn s) then 1 else 0)" using assms(1) by (simp add: pool_inv_def)
  with assms(2,3) assms(4)[of y] not_drawn(1)[OF assms(1,2)] show ?thesis by (auto split: if_splits)
qed

lemma inv_task:
  assumes inv: "pool_inv s" and step: "pool_next (TaskRuns c i env) s = Some s'"
  shows "pool_inv s'"
proof -
  obtain r p' where warm: "create_and_warm_sandbox env i (pr_pool s) = (r, p')" by (metis surj_pair)
  have fresh: "ce_fresh env \<notin> set (pr_drawn s)" and mem: "(c, i) \<in> set (pr_tasks s)"
    and s': "s' = s\<lparr>pr_pool := p', pr_tasks := remove1 (c, i) (pr_tasks s),
                 pr_drawn := ce_fresh env # pr_drawn s\<rparr>"
    using step warm by (auto split: if_splits)
  note effect = create_and_warm_effect[OF warm not_drawn(3)[OF inv fresh]]
  have tasks: "Suc (length (remove1 (c, i) (pr_tasks s))) = length (pr_tasks s)"
    using mem by (metis One_nat_def Suc_pred length_pos_if_in_set length_remove1)
  have "occurs s' y = occurs s y \<or> y = ce_fresh env \<and> occurs s' y = Suc (occurs s y)" for y
    using effect by (cases "y = ce_fresh env") (elim conjE disjE; simp add: s' occurs_def del: mset_map)+
  then have "occurs s' y \<le> (if y \<in> set (pr_drawn s') then 1 else 0)" for y
    using inv_drawn[OF inv fresh, of s'] by (simp add: s')
  moreover have "length (pl_available p') \<le> Suc (length (pl_available (pr_pool s)))"
    "container_ids (pl_manager p') \<subseteq> insert (ce_fresh env) (container_ids (pl_manager (pr_pool s)))"
    "pl_pool_size p' = pl_pool_size (pr_pool s)"
    using effect by auto
  ultimately show ?thesis
    using inv tasks by (auto simp: pool_inv_def s')
qed

text \<open>Handing a sandbox over moves it.\<close>

lemma moved_taken:
  assumes "pool_next (SandboxTaken r) s = Some s'"
  shows "occurs s' y = occurs s y" "pl_manager (pr_pool s') = pl_manager (pr_pool s)"
    "length (pl_available (pr_pool s')) \<le> length (pl_available (pr_pool s))"
    "pl_pool_size (pr_pool s') = pl_pool_size (pr_pool s)" "pr_drawn s' = pr_drawn s"
    "pr_tasks s' = pr_tasks s" "pr_inits s' = pr_inits s"
  using assms by (auto simp: occurs_def split: option.splits list.splits)

lemma moved_returns:
  assumes inv: "pool_inv s" and step: "pool_next (AcquireReturns r) s = Some s'"
  shows "occurs s' y = occurs s y" "pl_manager (pr_pool s') = pl_manager (pr_pool s)"
    "length (pl_available (pr_pool s')) \<le> length (pl_available (pr_pool s))"
    "pl_pool_size (pr_pool s') = pl_pool_size (pr_pool s)" "pr_drawn s' = pr_drawn s"
    "pr_tasks s' = pr_tasks s" "pr_inits s' = pr_inits s"
proof -
  obtain t where t: "t \<in> set (pr_taken s)"
    and s': "s' = s\<lparr>pr_pool := (pr_pool s)\<lparr>pl_active :=
                  dict_set (snd (snd t)) (fst (snd t)) (pl_active (pr_pool s))\<rparr>,
               pr_taken := remove1 t (pr_taken s)\<rparr>"
    using step by (auto split: option.splits dest: find_fst)
  note moved = map_remove1_perm[OF t, of "snd \<circ> snd"]
  then have "snd (snd t) \<notin> set (dict_keys (pl_active (pr_pool s)))"
    using occurs_once[OF inv, of "snd (snd t)"]
    by (simp add: occurs_def count_mset_0_iff flip: count_mset_0_iff del: mset_map set_map)
  then show "occurs s' y = occurs s y"
    using moved by (simp add: occurs_def s' dict_keys_dict_set del: mset_map set_map)
qed (use step in \<open>auto split: option.splits\<close>)

lemma inv_taken:
  "pool_inv s \<Longrightarrow> pool_next (SandboxTaken r) s = Some s' \<Longrightarrow> pool_inv s'"
  using moved_taken[of r s s'] unfolding pool_inv_def by (auto intro: le_trans)

lemma inv_returns:
  "pool_inv s \<Longrightarrow> pool_next (AcquireReturns r) s = Some s' \<Longrightarrow> pool_inv s'"
  using moved_returns[of s r s'] unfolding pool_inv_def by (auto intro: le_trans)

lemma inv_timeout:
  assumes inv: "pool_inv s" and step: "pool_next (AcquireTimesOut r env) s = Some s'"
  shows "pool_inv s'"
proof -
  obtain w where fresh: "ce_fresh env \<notin> set (pr_drawn s)"
    and s': "s' = s\<lparr>pr_pool := snd (create_on_exhaustion env (snd w) (pr_pool s)),
                 pr_waiting := remove1 w (pr_waiting s), pr_drawn := ce_fresh env # pr_drawn s\<rparr>"
    using step by (auto split: option.splits if_splits)
  obtain c p' where created: "create_on_exhaustion env (snd w) (pr_pool s) = (c, p')"
    by (metis surj_pair)
  note effect = create_on_exhaustion_effect[OF created]
  have "occurs s' y = occurs s y \<or> y = ce_fresh env \<and> occurs s' y = Suc (occurs s y)" for y
    using effect not_drawn(4)[OF inv fresh]
    by (cases c) (auto simp: s' created occurs_def dict_keys_dict_set simp del: mset_map set_map)
  then have "occurs s' y \<le> (if y \<in> set (pr_drawn s') then 1 else 0)" for y
    using inv_drawn[OF inv fresh, of s'] by (simp add: s')
  with effect inv show ?thesis by (auto simp: pool_inv_def s' created)
qed

lemma occurs_release:
  assumes c: "c \<in> set (dict_keys (pl_active (pr_pool s)))" and inv: "pool_inv s"
  shows "count (mset (dict_keys (dict_del c (pl_active (pr_pool s))))) y + (if y = c then 1 else 0)
    = count (mset (dict_keys (pl_active (pr_pool s)))) y"
proof -
  have "count (mset (dict_keys (pl_active (pr_pool s)))) c > 0"
    using c by (simp only: count_greater_zero_iff set_mset_mset)
  then have "count (mset (dict_keys (pl_active (pr_pool s)))) c = 1"
    using occurs_once[OF inv, of c] unfolding occurs_def by linarith
  then show ?thesis
    by (simp add: dict_keys_dict_del removeAll_filter_not_eq del: mset_map)
qed

lemma occurs_fewer:
  assumes "pool_inv s" and "pr_drawn s' = pr_drawn s" and "\<And>y. occurs s' y \<le> occurs s y"
  shows "occurs s' y \<le> (if y \<in> set (pr_drawn s') then 1 else 0)"
  using assms unfolding pool_inv_def by (metis le_trans)

lemma inv_release:
  assumes inv: "pool_inv s" and step: "pool_next (ReleaseCalled c a) s = Some s'"
  shows "pool_inv s'"
proof (cases "c \<in> set (dict_keys (pl_active (pr_pool s)))")
  case True
  then have active: "dict_get (pl_active (pr_pool s)) c \<noteq> None" by (simp add: dict_get_None_iff)
  have "occurs s' y \<le> occurs s y" for y
    using occurs_release[OF True inv, of y] active step
    by (auto simp: occurs_def release_sandbox_def reset_sandbox_def Let_def simp del: mset_map set_map
        split: if_splits)
  moreover have "container_ids (pl_manager (pr_pool s')) = container_ids (pl_manager (pr_pool s))"
    "pr_drawn s' = pr_drawn s" "pr_tasks s' = pr_tasks s" "pr_inits s' = pr_inits s"
    "pl_pool_size (pr_pool s') = pl_pool_size (pr_pool s)"
    "length (pl_available (pr_pool s')) \<le> max (length (pl_available (pr_pool s))) (nat (pl_pool_size (pr_pool s)))"
    using active step by (auto simp: release_sandbox_def reset_sandbox_def Let_def split: if_splits)
  ultimately show ?thesis
    using inv occurs_fewer[OF inv, of s'] by (auto simp: pool_inv_def)
next
  case False
  then have "s' = s" using step by (simp add: release_sandbox_def dict_get_None_iff del: set_map)
  with inv show ?thesis by simp
qed

lemma inv_shutdown:
  assumes inv: "pool_inv s" and step: "pool_next (ShutdownCalled a) s = Some s'"
  shows "pool_inv s'"
proof -
  have s': "s' = s\<lparr>pr_pool := shutdown_pool a (pr_pool s)\<rparr>" using step by simp
  have "occurs s' y \<le> (if y \<in> set (pr_drawn s') then 1 else 0)" for y
    by (rule occurs_fewer[OF inv]) (simp_all add: s' occurs_def shutdown_pool_def Let_def)
  with inv show ?thesis by (simp add: pool_inv_def s' shutdown_pool_def Let_def)
qed

lemma inv_others:
  "pool_inv s \<Longrightarrow> pool_next (InitReturns c) s = Some s' \<Longrightarrow> pool_inv s'"
  "pool_inv s \<Longrightarrow> pool_next (AcquireCalled r agent) s = Some s' \<Longrightarrow> pool_inv s'"
  "pool_inv s \<Longrightarrow> pool_next (AcquireCancelled r) s = Some s' \<Longrightarrow> pool_inv s'"
  by (auto simp: pool_inv_def split: if_splits option.splits)

lemma pool_step_inv: "pool_inv s \<Longrightarrow> pool_step s e s' \<Longrightarrow> pool_inv s'"
  unfolding pool_step_def
  by (cases e)
    (blast intro: inv_init inv_task inv_taken inv_returns inv_timeout inv_release inv_shutdown inv_others)+

interpretation pool: invariant_machine pool_step pool_inv
  by unfold_locales (rule pool_step_inv)


definition is_init :: "pool_event \<Rightarrow> bool" where
  "is_init e = (case e of InitCalled _ \<Rightarrow> True | _ \<Rightarrow> False)"

lemma pool_size_step: "pool_step s e s' \<Longrightarrow> pl_pool_size (pr_pool s') = pl_pool_size (pr_pool s)"
proof (cases e)
  case (TaskRuns c i env)
  then show "pool_step s e s' \<Longrightarrow> pl_pool_size (pr_pool s') = pl_pool_size (pr_pool s)"
    by (auto simp: pool_step_def create_and_warm_sandbox_def Let_def split: if_splits sum.splits prod.splits)
next
  case (AcquireTimesOut r env)
  then show "pool_step s e s' \<Longrightarrow> pl_pool_size (pr_pool s') = pl_pool_size (pr_pool s)"
    by (auto simp: pool_step_def create_on_exhaustion_def Let_def
        split: if_splits sum.splits prod.splits option.splits)
qed (auto simp: pool_step_def release_sandbox_def reset_sandbox_def shutdown_pool_def Let_def
    split: if_splits option.splits list.splits)

lemma inits_step: "pool_step s e s' \<Longrightarrow> pr_inits s' \<le> pr_inits s + (if is_init e then 1 else 0)"
  by (cases e) (auto simp: pool_step_def is_init_def split: if_splits option.splits list.splits)

lemma run_counts:
  "run_of pool_step s es s' \<Longrightarrow>
     pl_pool_size (pr_pool s') = pl_pool_size (pr_pool s)
     \<and> pr_inits s' \<le> pr_inits s + length (filter is_init es)"
proof (induction rule: run_of.induct)
  case (run_snoc s es s' e s'')
  then show ?case using pool_size_step[OF run_snoc(2)] inits_step[OF run_snoc(2)] by auto
qed simp

text \<open>An active sandbox stays with its agent until it is released or the pool shut down.\<close>

lemma active_keeps_agent:
  assumes inv: "pool_inv s" and step: "pool_step s e s'" and c: "dict_get (pl_active (pr_pool s)) c = Some agent"
  shows "dict_get (pl_active (pr_pool s')) c = Some agent
    \<or> (dict_get (pl_active (pr_pool s')) c = None
       \<and> ((\<exists>a. e = ReleaseCalled c a) \<or> (\<exists>a. e = ShutdownCalled a)))"
proof -
  have key: "c \<in> set (dict_keys (pl_active (pr_pool s)))" by (rule dict_get_key[OF c])
  show ?thesis
  proof (cases e)
    case (TaskRuns t i env)
    then obtain r p' where warm: "create_and_warm_sandbox env i (pr_pool s) = (r, p')"
      and fresh: "ce_fresh env \<notin> set (pr_drawn s)" and p': "pr_pool s' = p'"
      using step by (auto simp: pool_step_def split: if_splits) (metis surj_pair)
    show ?thesis
      using create_and_warm_effect[OF warm not_drawn(3)[OF inv fresh]] c p' by simp
  next
    case (AcquireTimesOut r env)
    then obtain w where fresh: "ce_fresh env \<notin> set (pr_drawn s)"
      and p': "pr_pool s' = snd (create_on_exhaustion env (snd w) (pr_pool s))"
      using step by (auto simp: pool_step_def split: if_splits option.splits)
    obtain i p'' where created: "create_on_exhaustion env (snd w) (pr_pool s) = (i, p'')"
      by (metis surj_pair)
    have "c \<noteq> ce_fresh env" using key not_drawn(4)[OF inv fresh] by metis
    then show ?thesis using create_on_exhaustion_effect[OF created] c p' created by (cases i) auto
  next
    case (AcquireReturns r)
    then obtain t where t: "t \<in> set (pr_taken s)"
      and p': "pl_active (pr_pool s') = dict_set (snd (snd t)) (fst (snd t)) (pl_active (pr_pool s))"
      using step by (auto simp: pool_step_def split: option.splits dest: find_fst)
    have "count (mset (map (snd \<circ> snd) (pr_taken s))) (snd (snd t)) > 0"
      using t by (simp only: count_greater_zero_iff set_mset_mset) force
    moreover have "count (mset (dict_keys (pl_active (pr_pool s)))) c > 0"
      using key by (simp only: count_greater_zero_iff set_mset_mset)
    ultimately have "c \<noteq> snd (snd t)"
      using occurs_once[OF inv, of c] unfolding occurs_def by (cases "c = snd (snd t)") (hypsubst, linarith, simp)
    with c p' show ?thesis by simp
  qed (use step c in \<open>auto simp: pool_step_def release_sandbox_def reset_sandbox_def shutdown_pool_def Let_def
      split: if_splits option.splits list.splits\<close>)
qed

text \<open>C16: Whatever calls overlap, and however creations end, a sandbox is in one place only: waiting in
  the queue, on its way to one caller, held by one agent, or warming. An agent keeps its sandbox until
  it is released or the pool shut down; no other call gets it meanwhile. The queue never holds more than
  the pool's size for itself and for each call of \<open>initialize_pool\<close>.\<close>

theorem sandbox_exclusive:
  assumes "run_of pool_step (start_pool pool_size docker detected) es s"
  shows "distinct (pl_available (pr_pool s) @ map (snd \<circ> snd) (pr_taken s)
           @ dict_keys (pl_active (pr_pool s)) @ pl_warming (pr_pool s))
    \<and> (\<forall>e s' c agent. pool_step s e s' \<and> dict_get (pl_active (pr_pool s)) c = Some agent \<longrightarrow>
         dict_get (pl_active (pr_pool s')) c = Some agent
         \<or> (dict_get (pl_active (pr_pool s')) c = None
            \<and> ((\<exists>a. e = ReleaseCalled c a) \<or> (\<exists>a. e = ShutdownCalled a))))
    \<and> length (pl_available (pr_pool s)) \<le> Suc (length (filter is_init es)) * nat pool_size"
proof (intro conjI allI impI)
  have inv: "pool_inv s" using pool.run_inv[OF assms] pool_inv_start by blast
  show "distinct (pl_available (pr_pool s) @ map (snd \<circ> snd) (pr_taken s)
           @ dict_keys (pl_active (pr_pool s)) @ pl_warming (pr_pool s))"
    (is "distinct ?all")
  proof -
    have once: "count (mset ?all) x \<le> 1" for x
      using occurs_once[OF inv, of x] by (simp add: occurs_def del: mset_map)
    have "count (mset ?all) x = (if x \<in> set ?all then 1 else 0)" for x
      using once[of x] by (cases "x \<in> set ?all")
        (metis One_nat_def count_greater_zero_iff le_antisym less_eq_Suc_le set_mset_mset,
         metis count_eq_zero_iff set_mset_mset)
    then show ?thesis by (intro distinct_count_atmost_1[THEN iffD2] allI)
  qed
  show "dict_get (pl_active (pr_pool s')) c = Some agent
      \<or> (dict_get (pl_active (pr_pool s')) c = None
         \<and> ((\<exists>a. e = ReleaseCalled c a) \<or> (\<exists>a. e = ShutdownCalled a)))"
    if "pool_step s e s' \<and> dict_get (pl_active (pr_pool s)) c = Some agent" for e s' c agent
    using active_keeps_agent[OF inv] that by blast
  have size: "pl_pool_size (pr_pool s) = pool_size" and "pr_inits s \<le> length (filter is_init es)"
    using run_counts[OF assms] by (simp_all add: start_pool_def new_sandbox_pool_def)
  then have "Suc (pr_inits s) * nat pool_size \<le> Suc (length (filter is_init es)) * nat pool_size"
    by (intro mult_le_mono1) simp
  moreover have "length (pl_available (pr_pool s)) \<le> Suc (pr_inits s) * nat pool_size"
    using inv unfolding pool_inv_def size by linarith
  ultimately show "length (pl_available (pr_pool s)) \<le> Suc (length (filter is_init es)) * nat pool_size"
    by (rule le_trans[rotated])
qed


subsection \<open>Shutdown\<close>

text \<open>Events in which Docker carries out the removals that are asked for.\<close>

fun removals_succeed :: "pool_event \<Rightarrow> bool" where
  "removals_succeed (ReleaseCalled c a) = (snd (snd a) = Returned ())"
| "removals_succeed (ShutdownCalled answers) = (\<forall>i. snd (snd (answers i)) = Returned ())"
| "removals_succeed _ = True"

text \<open>
  What \<open>acquire_sandbox\<close> leaves behind when it creates a container because the pool is exhausted and starting
  it raises: the call answers \<open>None\<close>, and the container is in none of the pool's collections.
\<close>

fun abandoned :: "pool_event \<Rightarrow> pool_run \<Rightarrow> string set" where
  "abandoned (AcquireTimesOut r env) s =
     (case find (\<lambda>w. fst w = r) (pr_waiting s) of
        None \<Rightarrow> {}
      | Some w \<Rightarrow>
          (case create_on_exhaustion env (snd w) (pr_pool s) of
             (None, p') \<Rightarrow> container_ids (pl_manager p') - container_ids (pl_manager (pr_pool s))
           | (Some c, p') \<Rightarrow> {}))"
| "abandoned _ s = {}"

text \<open>A run with successful removals, and the containers abandoned in it.\<close>

definition removing_step :: "pool_run \<times> string set \<Rightarrow> pool_event \<Rightarrow> pool_run \<times> string set \<Rightarrow> bool" where
  "removing_step a e b \<longleftrightarrow>
     pool_step (fst a) e (fst b) \<and> removals_succeed e \<and> snd b = snd a \<union> abandoned e (fst a)"

text \<open>Starting a sandbox for an agent raises nothing but Docker's own exceptions.\<close>

fun only_docker :: "'a docker \<Rightarrow> bool" where
  "only_docker (RaisedOther e) = False"
| "only_docker _ = True"

fun raises_only_docker :: "pool_event \<Rightarrow> bool" where
  "raises_only_docker (AcquireTimesOut r env) =
     (only_docker (nw_get (ce_network env)) \<and> only_docker (nw_create (ce_network env))
      \<and> only_docker (st_start (nw_retry (ce_network env))) \<and> only_docker (st_reload (nw_retry (ce_network env))))"
| "raises_only_docker _ = True"

definition accounted :: "pool_run \<times> string set \<Rightarrow> bool" where
  "accounted a \<longleftrightarrow> pool_inv (fst a)
     \<and> (\<forall>i st. status_in (pl_manager (pr_pool (fst a))) i = Some st \<longrightarrow>
          occurs (fst a) i > 0 \<or> st = TERMINATED \<or> i \<in> snd a)"

lemma ids_status: "i \<in> container_ids m \<longleftrightarrow> status_in m i \<noteq> None"
  using dict_get_None_iff[of "cm_containers m" i] by (simp add: container_ids_def status_in_def del: set_map not_None_eq)

lemma status_terminate:
  "snd (snd a) = Returned () \<Longrightarrow>
     status_in (terminate_in a i m) j = (if j = i \<and> status_in m i \<noteq> None then Some TERMINATED else status_in m j)"
  by (auto simp: terminate_in_def terminate_container_def stop_container_def set_status_def status_in_def
      update_container_get Let_def split: option.splits docker.splits if_splits)

lemma status_terminate_all:
  assumes "\<forall>i. snd (snd (answers i)) = Returned ()"
  shows "status_in (terminate_all answers is m) j
    = (if j \<in> set is \<and> status_in m j \<noteq> None then Some TERMINATED else status_in m j)"
  using assms unfolding terminate_all_def
  by (induction "is" arbitrary: m) (auto simp: status_terminate)

lemma retry_no_raise:
  assumes "only_docker (nw_get a)" "only_docker (nw_create a)" "only_docker (st_start (nw_retry a))"
    "only_docker (st_reload (nw_retry a))"
  shows "fst (retry_start_after_network_recovery now a i e m) \<noteq> Inl e'"
proof -
  have "attempt_start False (nw_retry a) \<noteq> RaisedOther e" for e
    using assms by (auto simp: attempt_start_def split: docker.splits)
  moreover have "ensure_network_exists a m \<noteq> Inl e" for e
    using assms by (auto simp: ensure_network_exists_def split: docker.splits)
  ultimately show ?thesis
    by (auto simp: retry_start_after_network_recovery_def Let_def
        split: option.splits sum.splits bool.splits docker.splits)
qed

lemma start_no_raise:
  assumes "only_docker (nw_get a)" "only_docker (nw_create a)" "only_docker (st_start (nw_retry a))"
    "only_docker (st_reload (nw_retry a))"
  shows "fst (start_container now st a i m) \<noteq> Inl e"
  using retry_no_raise[OF assms, of now i _ m e]
  by (auto simp: start_container_def Let_def split: docker.splits sum.splits bool.splits prod.splits)
    (metis fst_conv)+


lemma exhaustion_no_raise:
  assumes "create_on_exhaustion env agent p = (None, p')" and "raises_only_docker (AcquireTimesOut r env)"
  shows "pl_manager p' = pl_manager p"
proof -
  obtain r1 m1 where c: "create_container (ce_now env) (ce_create env) agent
      (ContainerConfig (ce_fresh env) (ce_image env) (ce_limits env) (Some agent) []
         (cm_default_sandbox (pl_manager p))) (pl_manager p) = (r1, m1)"
    by (metis surj_pair)
  show ?thesis
  proof (cases r1)
    case (Inl e)
    with c assms(1) create_container_keys[OF c] show ?thesis by (auto simp: create_on_exhaustion_def Let_def)
  next
    case (Inr i)
    obtain r2 m2 where s: "start_container (ce_now env) (ce_start env) (ce_network env) i m1 = (r2, m2)"
      by (metis surj_pair)
    moreover have "r2 \<noteq> Inl e" for e
      using start_no_raise[of "ce_network env" "ce_now env" "ce_start env" i m1 e] assms(2) s by simp
    ultimately have False
      using assms(1) c Inr by (cases r2) (auto simp: create_on_exhaustion_def Let_def)
    then show ?thesis ..
  qed
qed

lemma abandoned_nothing:
  assumes "raises_only_docker e"
  shows "abandoned e s = {}"
proof (cases e)
  case (AcquireTimesOut r env)
  then show ?thesis
    using exhaustion_no_raise[OF _ assms[unfolded AcquireTimesOut]]
    by (auto split: option.split prod.split)
qed auto

lemma abandoned_none:
  assumes "find (\<lambda>w. fst w = r) (pr_waiting s) = Some w" and "create_on_exhaustion env (snd w) (pr_pool s) = (None, p')"
  shows "abandoned (AcquireTimesOut r env) s = container_ids (pl_manager p') - container_ids (pl_manager (pr_pool s))"
  using assms by simp

lemma accounted_frame:
  assumes "accounted (s, lost)" and "pool_inv s'" and "pl_manager (pr_pool s') = pl_manager (pr_pool s)"
    and "\<And>y. occurs s' y = occurs s y" and "lost \<subseteq> lost'"
  shows "accounted (s', lost')"
proof -
  have "occurs s' i > 0 \<or> st = TERMINATED \<or> i \<in> lost'"
    if "status_in (pl_manager (pr_pool s)) i = Some st" for i st
  proof -
    have "occurs s i > 0 \<or> st = TERMINATED \<or> i \<in> lost" using assms(1) that by (simp add: accounted_def)
    then show ?thesis using assms(4)[of i] assms(5) by auto
  qed
  with assms(2,3) show ?thesis by (simp add: accounted_def)
qed

lemma accounted_task:
  assumes acc: "accounted (s, lost)" and step: "pool_next (TaskRuns c i env) s = Some s'" and inv': "pool_inv s'"
  shows "accounted (s', lost)"
proof -
  have inv: "pool_inv s" using acc by (simp add: accounted_def)
  obtain r p' where warm: "create_and_warm_sandbox env i (pr_pool s) = (r, p')" by (metis surj_pair)
  have fresh: "ce_fresh env \<notin> set (pr_drawn s)"
    and s': "s' = s\<lparr>pr_pool := p', pr_tasks := remove1 (c, i) (pr_tasks s),
                 pr_drawn := ce_fresh env # pr_drawn s\<rparr>"
    using step warm by (auto split: if_splits)
  note effect = create_and_warm_effect[OF warm not_drawn(3)[OF inv fresh]]
  have grows: "occurs s y \<le> occurs s' y" for y
    using effect by (elim conjE disjE) (simp_all add: s' occurs_def del: mset_map)
  have new: "occurs s' (ce_fresh env) > 0 \<or> pl_manager p' = pl_manager (pr_pool s)"
    using effect by (elim conjE disjE) (simp_all add: s' occurs_def del: mset_map)
  have "occurs s' j > 0 \<or> st = TERMINATED \<or> j \<in> lost" if "status_in (pl_manager p') j = Some st" for j st
  proof (cases "j = ce_fresh env \<and> pl_manager p' \<noteq> pl_manager (pr_pool s)")
    case False
    then have "status_in (pl_manager (pr_pool s)) j = Some st" using that effect by metis
    then have "occurs s j > 0 \<or> st = TERMINATED \<or> j \<in> lost" using acc by (simp add: accounted_def)
    then show ?thesis using grows[of j] by linarith
  qed (use new in auto)
  with inv' show ?thesis by (simp add: accounted_def s')
qed

lemma accounted_timeout:
  assumes acc: "accounted (s, lost)" and step: "pool_next (AcquireTimesOut r env) s = Some s'" and inv': "pool_inv s'"
  shows "accounted (s', lost \<union> abandoned (AcquireTimesOut r env) s)"
proof -
  have inv: "pool_inv s" using acc by (simp add: accounted_def)
  obtain w where w: "find (\<lambda>w. fst w = r) (pr_waiting s) = Some w" and fresh: "ce_fresh env \<notin> set (pr_drawn s)"
    and s': "s' = s\<lparr>pr_pool := snd (create_on_exhaustion env (snd w) (pr_pool s)),
                 pr_waiting := remove1 w (pr_waiting s), pr_drawn := ce_fresh env # pr_drawn s\<rparr>"
    using step by (auto split: option.splits if_splits)
  obtain c p' where created: "create_on_exhaustion env (snd w) (pr_pool s) = (c, p')"
    by (metis surj_pair)
  note effect = create_on_exhaustion_effect[OF created]
  have old: "occurs s j > 0 \<or> st = TERMINATED \<or> j \<in> lost"
    if "j \<noteq> ce_fresh env" "status_in (pl_manager p') j = Some st" for j st
    using that effect acc by (auto simp: accounted_def)
  show ?thesis
  proof (cases c)
    case None
    then have same: "occurs s' y = occurs s y" for y using effect by (simp add: s' created occurs_def)
    have "ce_fresh env \<notin> container_ids (pl_manager (pr_pool s))"
      using inv fresh by (auto simp: pool_inv_def)
    then have "ce_fresh env \<in> abandoned (AcquireTimesOut r env) s"
      if "status_in (pl_manager p') (ce_fresh env) = Some st" for st
      using that unfolding abandoned_none[OF w created[unfolded None]] by (simp add: ids_status)
    then have "occurs s' j > 0 \<or> st = TERMINATED \<or> j \<in> lost \<union> abandoned (AcquireTimesOut r env) s"
      if "status_in (pl_manager p') j = Some st" for j st
      using that old[of j st] same[of j] by (cases "j = ce_fresh env") (simp_all del: abandoned.simps, blast)
    with inv' show ?thesis by (simp add: accounted_def s' created)
  next
    case (Some i)
    with effect have [simp]: "i = ce_fresh env" by simp
    have grows: "occurs s' y = occurs s y + (if y = ce_fresh env then 1 else 0)" for y
      using effect Some not_drawn(4)[OF inv fresh]
      by (simp add: s' created occurs_def dict_keys_dict_set del: mset_map set_map)
    have "occurs s' j > 0 \<or> st = TERMINATED \<or> j \<in> lost" if "status_in (pl_manager p') j = Some st" for j st
      using that old[of j st] grows[of j] by (cases "j = ce_fresh env") auto
    then have "accounted (s', lost)" using inv' by (simp add: accounted_def s' created)
    then show ?thesis using accounted_frame[OF _ inv'] by blast
  qed
qed

lemma accounted_release:
  assumes acc: "accounted (s, lost)" and step: "pool_next (ReleaseCalled c a) s = Some s'" and inv': "pool_inv s'"
    and obeys: "removals_succeed (ReleaseCalled c a)"
  shows "accounted (s', lost)"
proof (cases "c \<in> set (dict_keys (pl_active (pr_pool s)))")
  case True
  then have active: "dict_get (pl_active (pr_pool s)) c \<noteq> None" by (simp add: dict_get_None_iff del: set_map)
  have inv: "pool_inv s" using acc by (simp add: accounted_def)
  note left = occurs_release[OF True inv]
  show ?thesis
  proof (cases "int (length (pl_available (pr_pool s))) < pl_pool_size (pr_pool s)")
    case True
    then have s': "s' = s\<lparr>pr_pool := (pr_pool s)\<lparr>pl_active := dict_del c (pl_active (pr_pool s)),
        pl_available := pl_available (pr_pool s) @ [c]\<rparr>\<rparr>"
      using step active by (auto simp: release_sandbox_def reset_sandbox_def Let_def)
    have "occurs s' y = occurs s y" for y
      using left[of y] by (simp add: s' occurs_def del: mset_map split: if_splits)
    with accounted_frame[OF acc inv'] show ?thesis by (simp add: s')
  next
    case False
    then have s': "s' = s\<lparr>pr_pool := (pr_pool s)\<lparr>pl_active := dict_del c (pl_active (pr_pool s)),
        pl_manager := terminate_in a c (pl_manager (pr_pool s))\<rparr>\<rparr>"
      using step active by (auto simp: release_sandbox_def Let_def)
    have "occurs s' y = occurs s y" if "y \<noteq> c" for y
      using left[of y] that by (simp add: s' occurs_def del: mset_map)
    moreover have "occurs s i > 0 \<or> st = TERMINATED \<or> i \<in> lost"
      if "status_in (pl_manager (pr_pool s)) i = Some st" for i st
      using that acc by (simp add: accounted_def)
    moreover have "st = TERMINATED \<or> j \<noteq> c \<and> status_in (pl_manager (pr_pool s)) j = Some st"
      if "status_in (terminate_in a c (pl_manager (pr_pool s))) j = Some st" for j st
      using that obeys by (cases "j = c") (auto simp: status_terminate split: if_splits)
    ultimately have "occurs s' j > 0 \<or> st = TERMINATED \<or> j \<in> lost"
      if "status_in (terminate_in a c (pl_manager (pr_pool s))) j = Some st" for j st
      using that by metis
    with inv' show ?thesis by (simp add: accounted_def s')
  qed
next
  case False
  then have "s' = s" using step by (simp add: release_sandbox_def dict_get_None_iff del: set_map)
  with acc show ?thesis by simp
qed

lemma status_shutdown:
  assumes "removals_succeed (ShutdownCalled answers)"
    and "status_in (pl_manager (shutdown_pool answers p)) i = Some st"
  shows "st = TERMINATED \<or> (status_in (pl_manager p) i = Some st
     \<and> i \<notin> set (pl_available p) \<union> set (dict_keys (pl_active p)) \<union> set (pl_warming p))"
  using assms by (auto simp: shutdown_pool_def Let_def status_terminate_all simp del: set_map split: if_splits)

lemma accounted_shutdown:
  assumes acc: "accounted (s, lost)" and step: "pool_next (ShutdownCalled answers) s = Some s'" and inv': "pool_inv s'"
    and obeys: "removals_succeed (ShutdownCalled answers)"
  shows "accounted (s', lost)"
proof -
  have s': "s' = s\<lparr>pr_pool := shutdown_pool answers (pr_pool s)\<rparr>" using step by simp
  have "occurs s' i > 0 \<or> st = TERMINATED \<or> i \<in> lost"
    if "status_in (pl_manager (shutdown_pool answers (pr_pool s))) i = Some st" for i st
    using status_shutdown[OF obeys that] acc
    by (auto simp: accounted_def s' occurs_def shutdown_pool_def Let_def simp del: mset_map set_map)
  with inv' show ?thesis by (simp add: accounted_def s')
qed

lemma accounted_step: "accounted a \<Longrightarrow> removing_step a e b \<Longrightarrow> accounted b"
proof -
  obtain s lost s' lost' where [simp]: "a = (s, lost)" "b = (s', lost')" by fastforce
  assume "accounted a" and "removing_step a e b"
  then have acc: "accounted (s, lost)" and step: "pool_next e s = Some s'" and obeys: "removals_succeed e"
    and lost': "lost' = lost \<union> abandoned e s" and inv: "pool_inv s"
    by (simp_all add: removing_step_def pool_step_def accounted_def)
  then have inv': "pool_inv s'" using pool_step_inv by (auto simp: pool_step_def)
  have lost: "lost \<subseteq> lost'" using lost' by simp
  have "accounted (s', lost')"
  proof (cases e)
    case (TaskRuns c i env)
    with accounted_task[OF acc _ inv'] step lost' show ?thesis by simp
  next
    case (AcquireTimesOut r env)
    with accounted_timeout[OF acc _ inv'] step lost' show ?thesis by blast
  next
    case (ReleaseCalled c a)
    with accounted_release[OF acc _ inv'] step obeys lost' show ?thesis by simp
  next
    case (ShutdownCalled answers)
    with accounted_shutdown[OF acc _ inv'] step obeys lost' show ?thesis by simp
  next
    case (SandboxTaken r)
    with accounted_frame[OF acc inv' _ _ lost] moved_taken[of r s s'] step show ?thesis by blast
  next
    case (AcquireReturns r)
    with accounted_frame[OF acc inv' _ _ lost] moved_returns[OF inv, of r s'] step show ?thesis by blast
  qed (rule accounted_frame[OF acc inv' _ _ lost];
      use step in \<open>auto split: if_splits option.splits\<close>)+
  then show "accounted b" by simp
qed

interpretation removing_pool: invariant_machine removing_step accounted
  by unfold_locales (rule accounted_step)

text \<open>Every run with successful removals is one of these.\<close>

lemma removing_run:
  "run_of pool_step s es s' \<Longrightarrow> \<forall>e \<in> set es. removals_succeed e \<Longrightarrow>
     \<exists>lost. run_of removing_step (s, {}) es (s', lost)"
proof (induction rule: run_of.induct)
  case (run_snoc s es s' e s'')
  then obtain lost where "run_of removing_step (s, {}) es (s', lost)" by auto
  moreover have "removing_step (s', lost) e (s'', lost \<union> abandoned e s')"
    using run_snoc by (simp add: removing_step_def)
  ultimately show ?case by (blast intro: run_of.run_snoc)
qed (blast intro: run_of.intros)

lemma nothing_abandoned:
  "run_of removing_step a es b \<Longrightarrow> snd a = {} \<Longrightarrow> \<forall>e \<in> set es. raises_only_docker e \<Longrightarrow> snd b = {}"
  by (induction rule: run_of.induct) (auto simp: removing_step_def abandoned_nothing)

text \<open>C17: When Docker carries out removals, a shutdown at any point of any run terminates every container
  the pool has ever made, those in the queue, those held by agents and those that failed to start
  included, with two exceptions: one that was taken from the queue for a caller that has not resumed yet,
  and one that \<open>acquire_sandbox\<close> created on exhaustion and abandoned because its start raised an exception
  (which the pool then keeps nowhere). Nothing is abandoned when looking up and creating the network and
  the repeated start raise nothing but Docker's own exceptions.\<close>

theorem shutdown_terminates_all:
  assumes "run_of removing_step (start_pool pool_size docker detected, {}) es (s, lost)"
    and "removing_step (s, lost) (ShutdownCalled answers) (s', lost')"
  shows "(\<forall>i \<in> container_ids (pl_manager (pr_pool s')).
        status_in (pl_manager (pr_pool s')) i = Some TERMINATED
        \<or> i \<in> (snd \<circ> snd) ` set (pr_taken s') \<or> i \<in> lost)
    \<and> ((\<forall>e \<in> set es. raises_only_docker e) \<longrightarrow> lost = {})"
proof (intro conjI ballI impI)
  fix i assume i: "i \<in> container_ids (pl_manager (pr_pool s'))"
  have "accounted (start_pool pool_size docker detected, {})"
    using pool_inv_start by (simp add: accounted_def start_pool_def new_sandbox_pool_def
        new_container_manager_def status_in_def)
  then have "accounted (s', lost')"
    using removing_pool.run_inv[OF run_snoc[OF assms]] by blast
  moreover obtain st where st: "status_in (pl_manager (pr_pool s')) i = Some st"
    using i by (auto simp: ids_status)
  ultimately have "occurs s' i > 0 \<or> st = TERMINATED \<or> i \<in> lost'" by (simp add: accounted_def)
  moreover have "lost' = lost" using assms(2) by (simp add: removing_step_def)
  moreover have "pl_available (pr_pool s') = []" "pl_active (pr_pool s') = []" "pl_warming (pr_pool s') = []"
    using assms(2) by (auto simp: removing_step_def pool_step_def shutdown_pool_def Let_def)
  ultimately show "status_in (pl_manager (pr_pool s')) i = Some TERMINATED
      \<or> i \<in> (snd \<circ> snd) ` set (pr_taken s') \<or> i \<in> lost"
    using st by (auto simp: occurs_def)
next
  show "\<forall>e \<in> set es. raises_only_docker e \<Longrightarrow> lost = {}"
    using nothing_abandoned[OF assms(1)] by simp
qed

subsection \<open>Examples\<close>

definition good_creation :: "string \<Rightarrow> creation" where
  "good_creation i =
     \<lparr>ce_now = 0, ce_fresh = i, ce_image = ''python'', ce_limits = ResourceLimits 1 512 512 30,
      ce_create = \<lparr>cr_image_local = True, cr_pull_raises = None, cr_create = Returned ''d''\<rparr>,
      ce_start = \<lparr>st_start = Returned (), st_reload = Returned (), st_status = ''running'', st_logs = Returned ()\<rparr>,
      ce_network = \<lparr>nw_get = Returned (), nw_create = Returned (),
        nw_retry = \<lparr>st_start = Returned (), st_reload = Returned (), st_status = ''running'', st_logs = Returned ()\<rparr>\<rparr>\<rparr>"

definition failing_creation :: "string \<Rightarrow> creation" where
  "failing_creation i = (good_creation i)\<lparr>ce_start :=
     \<lparr>st_start = RaisedDocker ''no space left'', st_reload = Returned (), st_status = [], st_logs = Returned ()\<rparr>\<rparr>"

abbreviation removed :: removal where "removed \<equiv> (0, Returned (), Returned ())"

definition observe :: "string \<Rightarrow> pool_run option \<Rightarrow> (uuid option \<times> container_status option) option" where
  "observe i r = map_option (\<lambda>s. (dict_get (pl_active (pr_pool s)) i, status_in (pl_manager (pr_pool s)) i)) r"

text \<open>A sandbox whose start failed is handed out, returns to the pool and is handed to the next agent.\<close>

lemma failed_sandbox_recycled:
  "observe ''a'' (pool_events
     [AcquireCalled 0 1, AcquireTimesOut 0 (failing_creation ''a''), ReleaseCalled ''a'' removed,
      AcquireCalled 1 2, SandboxTaken 1, AcquireReturns 1] (start_pool 1 True GVISOR))
   = Some (Some 2, Some FAILED)"
  by code_simp

text \<open>Sandboxes appear after the shutdown: for a call that was waiting, and from a creation task.\<close>

lemma sandbox_after_shutdown:
  "observe ''a'' (pool_events
     [AcquireCalled 0 1, ShutdownCalled (\<lambda>_. removed), AcquireTimesOut 0 (good_creation ''a'')]
     (start_pool 1 True GVISOR)) = Some (Some 1, Some RUNNING)"
  "map_option (\<lambda>s. pl_available (pr_pool s)) (pool_events
     [InitCalled 0, ShutdownCalled (\<lambda>_. removed), TaskRuns 0 0 (good_creation ''a'')]
     (start_pool 1 True GVISOR)) = Some [''a'']"
  by code_simp+

text \<open>Two overlapping initialisations fill the queue beyond its size.\<close>

lemma pool_overfilled:
  "map_option (\<lambda>s. get_pool_stats (pr_pool s)) (pool_events
     [InitCalled 0, InitCalled 1, TaskRuns 0 0 (good_creation ''a''), TaskRuns 1 0 (good_creation ''b''),
      InitReturns 0, InitReturns 1] (start_pool 1 True GVISOR))
   = Some \<lparr>ps_pool_size = 1, ps_available = 2, ps_active = 0, ps_warming = 0, ps_total = 2\<rparr>"
  by code_simp

text \<open>After a shutdown the pool counts as initialised for ever.\<close>

lemma no_second_life:
  "pl_initialized (shutdown_pool answers p) = pl_initialized p"
  "pl_initialized (pr_pool s) \<Longrightarrow> pool_next (InitCalled c) s = Some s"
  by (simp_all add: shutdown_pool_def Let_def)

definition sample_events :: "pool_event list" where
  "sample_events =
     [InitCalled 0, TaskRuns 0 0 (good_creation ''a''), TaskRuns 0 1 (failing_creation ''b''), InitReturns 0,
      AcquireCalled 7 1, SandboxTaken 7, AcquireReturns 7]"

theorem sandbox_exclusive_witness:
  "\<exists>s. run_of pool_step (start_pool 2 True GVISOR) sample_events s
     \<and> distinct (pl_available (pr_pool s) @ map (snd \<circ> snd) (pr_taken s)
         @ dict_keys (pl_active (pr_pool s)) @ pl_warming (pr_pool s))
     \<and> dict_get (pl_active (pr_pool s)) ''a'' = Some 1 \<and> pl_warming (pr_pool s) = [''b'']"
proof -
  obtain s where s: "pool_events sample_events (start_pool 2 True GVISOR) = Some s"
    and "dict_get (pl_active (pr_pool s)) ''a'' = Some 1 \<and> pl_warming (pr_pool s) = [''b'']"
    by (rule that[of "the (pool_events sample_events (start_pool 2 True GVISOR))"]) code_simp+
  with sandbox_exclusive[of 2 True GVISOR sample_events s] show ?thesis
    by (auto simp: run_of_pool_events)
qed

text \<open>
  A container that is abandoned: its network is gone, and looking for it raises. No shutdown terminates it.
\<close>

definition raising_creation :: "string \<Rightarrow> creation" where
  "raising_creation i = (good_creation i)\<lparr>
     ce_start := \<lparr>st_start = RaisedDocker ''network linx not found'', st_reload = Returned (), st_status = [],
                   st_logs = Returned ()\<rparr>,
     ce_network := \<lparr>nw_get = RaisedOther ''connection reset'', nw_create = Returned (),
                     nw_retry = ce_start (good_creation i)\<rparr>\<rparr>"

theorem shutdown_terminates_all_witness:
  "\<exists>s s'. run_of removing_step (start_pool 2 True GVISOR, {}) sample_events (s, {})
     \<and> removing_step (s, {}) (ShutdownCalled (\<lambda>_. removed)) (s', {})
     \<and> status_in (pl_manager (pr_pool s')) ''a'' = Some TERMINATED
     \<and> status_in (pl_manager (pr_pool s')) ''b'' = Some TERMINATED"
proof -
  let ?down = "\<lambda>s. the (pool_next (ShutdownCalled (\<lambda>_. removed)) s)"
  obtain s s' where s: "pool_events sample_events (start_pool 2 True GVISOR) = Some s"
    and s': "pool_next (ShutdownCalled (\<lambda>_. removed)) s = Some s'"
    and ids: "''a'' \<in> container_ids (pl_manager (pr_pool s'))"
      "''b'' \<in> container_ids (pl_manager (pr_pool s'))" "pr_taken s' = []"
    by (rule that[of "the (pool_events sample_events (start_pool 2 True GVISOR))"
          "?down (the (pool_events sample_events (start_pool 2 True GVISOR)))"]) code_simp+
  have ok: "\<forall>e \<in> set sample_events. removals_succeed e" "\<forall>e \<in> set sample_events. raises_only_docker e"
    by (simp_all add: sample_events_def)
  from s obtain lost where run: "run_of removing_step (start_pool 2 True GVISOR, {}) sample_events (s, lost)"
    using removing_run[OF _ ok(1)] by (auto simp: run_of_pool_events)
  have step: "removing_step (s, lost) (ShutdownCalled (\<lambda>_. removed)) (s', lost)"
    using s' by (simp add: removing_step_def pool_step_def)
  have lost: "lost = {}" using shutdown_terminates_all[OF run step] ok(2) by blast
  from shutdown_terminates_all[OF run step] ids
  have "status_in (pl_manager (pr_pool s')) ''a'' = Some TERMINATED"
    "status_in (pl_manager (pr_pool s')) ''b'' = Some TERMINATED"
    by (auto simp: lost)
  with run step show ?thesis unfolding lost by blast
qed

lemma abandoned_container_survives:
  "observe ''a'' (pool_events
     [AcquireCalled 0 1, AcquireTimesOut 0 (raising_creation ''a''), ShutdownCalled (\<lambda>_. removed)]
     (start_pool 1 True GVISOR)) = Some (None, Some CREATING)"
  by code_simp

end
