(* ===== verification/Knowledge_Access.thy ===== *)
theory Knowledge_Access
  imports Abac Agent_Access
begin

section \<open>Who may see knowledge\<close>

text \<open>
  \<open>access_control/knowledge_filter.py\<close> with its callers in \<open>knowledge_base/knowledge_search.py\<close> and
  \<open>api_gateway/routers/knowledge.py\<close>: the decision on one item, the same decision as a condition added
  to an SQL query and as a filter expression of the vector store, the filter applied to results, and the
  checks for writing and deleting. Attributes are dictionaries of values; a query is modelled by the rows
  it returns. How PostgreSQL reads the text of a UUID is the parameter \<open>pg_uuid\<close>, of which the theorems use
  that it reads the canonical text (\<open>pg_reads\<close>).
\<close>

subsection \<open>The decision on one item\<close>

definition attr_get :: "(string, pyval) dict option \<Rightarrow> string \<Rightarrow> pyval" where
  "attr_get d k = (case d of None \<Rightarrow> PNone | Some d \<Rightarrow> (case dict_get d k of None \<Rightarrow> PNone | Some v \<Rightarrow> v))"

definition attrs_present :: "(string, pyval) dict option \<Rightarrow> bool" where
  "attrs_present d = (case d of None \<Rightarrow> False | Some d \<Rightarrow> d \<noteq> [])"

text \<open>What \<open>evaluate_abac_access\<close> reads: \<open>str\<close> of floats and containers, the clock, the global engine.\<close>

record abac_service =
  as_txt :: "pyval \<Rightarrow> string"
  as_isoformat :: "timestamp \<Rightarrow> string"
  as_now :: timestamp
  as_engine :: abac_engine

definition evaluate_abac_access :: "abac_service \<Rightarrow> pyval \<Rightarrow> string \<Rightarrow> pyval \<Rightarrow> string \<Rightarrow> bool" where
  "evaluate_abac_access s user_attributes resource_type resource_attributes action =
     engine_evaluate (as_txt s) (as_isoformat s) (as_now s) user_attributes resource_type
       resource_attributes action None (as_engine s)"

text \<open>The branch for team items: granted, denied, or (\<open>None\<close>) left to the policies.\<close>

definition team_decision ::
    "(pyval \<Rightarrow> string) \<Rightarrow> role \<Rightarrow> action \<Rightarrow> (string, pyval) dict option \<Rightarrow> (string, pyval) dict option
     \<Rightarrow> bool option" where
  "team_decision txt role action user_attributes resource_attributes =
     (let permitted = check_permission role KNOWLEDGE action (Some ''permitted'');
          user_dept_id = attr_get user_attributes ''department_id'';
          resource_dept_id = attr_get resource_attributes ''department_id'';
          both = py_truthy user_dept_id \<and> py_truthy resource_dept_id;
          same = py_text txt user_dept_id = py_text txt resource_dept_id
      in if both \<and> same \<and> permitted then Some True
         else if both \<and> \<not> same then Some False
         else if attrs_present user_attributes \<and> attrs_present resource_attributes
           then (let user_dept = attr_get user_attributes ''department'';
                     resource_dept = attr_get resource_attributes ''department'';
                     both = py_truthy user_dept \<and> py_truthy resource_dept
                 in if both \<and> py_eq user_dept resource_dept then (if permitted then Some True else None)
                    else if both \<and> \<not> py_eq user_dept resource_dept then Some False
                    else None)
         else None)"

definition abac_decision ::
    "abac_service \<Rightarrow> action \<Rightarrow> (string, pyval) dict option \<Rightarrow> (string, pyval) dict option \<Rightarrow> bool" where
  "abac_decision s action user_attributes resource_attributes =
     (let has_explicit_resource_attributes =
            (case resource_attributes of None \<Rightarrow> False
             | Some d \<Rightarrow> list_ex (\<lambda>key. key \<notin> {''access_level'', ''owner_user_id''}) (dict_keys d))
      in if attrs_present user_attributes \<and> attrs_present resource_attributes
            \<and> has_explicit_resource_attributes
         then evaluate_abac_access s (PDict (the user_attributes)) ''knowledge''
                (PDict (the resource_attributes)) (action_value action)
         else False)"

definition can_access_knowledge_item ::
    "abac_service \<Rightarrow> current_user \<Rightarrow> action \<Rightarrow> pyval \<Rightarrow> pyval \<Rightarrow> (string, pyval) dict option
     \<Rightarrow> (string, pyval) dict option \<Rightarrow> bool" where
  "can_access_knowledge_item s u action owner_user_id access_level user_attributes resource_attributes =
     (case role_of_value (cu_role u) of
        None \<Rightarrow> False
      | Some role \<Rightarrow>
          (let policies = abac_decision s action user_attributes resource_attributes
           in if check_permission role KNOWLEDGE action None then True
              else if py_text (as_txt s) owner_user_id = cu_user_id u
                \<and> check_permission role KNOWLEDGE action (Some ''own'') then True
              else if access_level = PStr ''public'' then
                (if action = READ \<and> check_permission role KNOWLEDGE action (Some ''permitted'') then True
                 else policies)
              else if access_level = PStr ''team'' then
                (case team_decision (as_txt s) role action user_attributes resource_attributes of
                   Some decision \<Rightarrow> decision
                 | None \<Rightarrow> policies)
              else policies))"

subsection \<open>The query\<close>

record knowledge_row =
  kn_id :: uuid
  kn_owner :: uuid
  kn_access_level :: string
  kn_department :: "uuid option"

text \<open>\<open>UUID(current_user.user_id)\<close> may raise; so may the database on a text that is no UUID.\<close>

datatype query_error = BadUserId | BadDepartmentId

definition department_condition ::
    "(string \<Rightarrow> uuid option) \<Rightarrow> (pyval \<Rightarrow> string) \<Rightarrow> (string, pyval) dict option
     \<Rightarrow> query_error + (knowledge_row \<Rightarrow> bool)" where
  "department_condition pg_uuid txt user_attributes =
     (let user_dept_id = attr_get user_attributes ''department_id''
      in if py_truthy user_dept_id then
           (case pg_uuid (py_text txt user_dept_id) of
              None \<Rightarrow> Inl BadDepartmentId
            | Some d \<Rightarrow> Inr (\<lambda>row. kn_access_level row = ''team'' \<and> kn_department row = Some d))
         else if attrs_present user_attributes \<and> py_truthy (attr_get user_attributes ''department'')
           then Inr (\<lambda>row. kn_access_level row = ''team'')
         else Inr (\<lambda>row. False))"

definition filter_knowledge_query ::
    "(string \<Rightarrow> uuid option) \<Rightarrow> (pyval \<Rightarrow> string) \<Rightarrow> current_user \<Rightarrow> action \<Rightarrow> (string, pyval) dict option
     \<Rightarrow> knowledge_row list \<Rightarrow> query_error + knowledge_row list" where
  "filter_knowledge_query pg_uuid txt u action user_attributes rows =
     (case role_of_value (cu_role u) of
        None \<Rightarrow> Inr []
      | Some role \<Rightarrow>
          if check_permission role KNOWLEDGE action None then Inr rows
          else
            (case (if check_permission role KNOWLEDGE action (Some ''own'') then
                     (case parse_uuid (cu_user_id u) of
                        None \<Rightarrow> Inl BadUserId | Some i \<Rightarrow> Inr (\<lambda>row. kn_owner row = i))
                   else Inr (\<lambda>row. False)) of
               Inl e \<Rightarrow> Inl e
             | Inr own \<Rightarrow>
                 (case (if check_permission role KNOWLEDGE action (Some ''permitted'') then
                          (case department_condition pg_uuid txt user_attributes of
                             Inl e \<Rightarrow> Inl e
                           | Inr team \<Rightarrow> Inr (\<lambda>row. kn_access_level row = ''public'' \<or> team row))
                        else Inr (\<lambda>row. False)) of
                    Inl e \<Rightarrow> Inl e
                  | Inr permitted \<Rightarrow> Inr (filter (\<lambda>row. own row \<or> permitted row) rows))))"

text \<open>The listing endpoint: the department comes from the request's query string.\<close>

definition list_knowledge_items ::
    "(string \<Rightarrow> uuid option) \<Rightarrow> (pyval \<Rightarrow> string) \<Rightarrow> current_user \<Rightarrow> string option \<Rightarrow> knowledge_row list
     \<Rightarrow> query_error + knowledge_row list" where
  "list_knowledge_items pg_uuid txt u department_id rows =
     (let user_attributes = (case str_or department_id None of
                               Some d \<Rightarrow> [(''department_id'', PStr d)] | None \<Rightarrow> [])
      in filter_knowledge_query pg_uuid txt u READ (Some user_attributes) rows)"

subsection \<open>The expression of the vector store\<close>

definition milvus_conditions ::
    "(pyval \<Rightarrow> string) \<Rightarrow> role \<Rightarrow> current_user \<Rightarrow> action \<Rightarrow> (string, pyval) dict option \<Rightarrow> string list" where
  "milvus_conditions txt role u action user_attributes =
     (if check_permission role KNOWLEDGE action (Some ''own'')
      then [''owner_user_id == \"'' @ cu_user_id u @ ''\"''] else [])
     @ (if check_permission role KNOWLEDGE action (Some ''permitted'')
        then [''access_level == \"public\"'']
          @ (let user_dept_id = attr_get user_attributes ''department_id''
             in if py_truthy user_dept_id
                then [''(access_level == \"team\" and department_id == \"'' @ py_text txt user_dept_id @ ''\")'']
                else if attrs_present user_attributes \<and> py_truthy (attr_get user_attributes ''department'')
                  then [''access_level == \"team\"'']
                else [])
        else [])"

definition build_milvus_filter_expr ::
    "(pyval \<Rightarrow> string) \<Rightarrow> current_user \<Rightarrow> action \<Rightarrow> (string, pyval) dict option \<Rightarrow> string option \<Rightarrow> string" where
  "build_milvus_filter_expr txt u action user_attributes additional_filters =
     (case role_of_value (cu_role u) of
        None \<Rightarrow> ''id == -1''
      | Some role \<Rightarrow>
          if check_permission role KNOWLEDGE action None
          then (case str_or additional_filters None of Some f \<Rightarrow> f | None \<Rightarrow> [])
          else let conditions = milvus_conditions txt role u action user_attributes
               in if conditions = [] then ''id == -1''
                  else let filter_expr = py_join '' or '' (map (\<lambda>c. ''('' @ c @ '')'') conditions)
                       in case str_or additional_filters None of
                            Some f \<Rightarrow> ''('' @ filter_expr @ '') and ('' @ f @ '')''
                          | None \<Rightarrow> filter_expr)"

subsection \<open>Results\<close>

text \<open>\<open>item.get("metadata") or item.get("item_metadata") or {}\<close>; \<open>**\<close> on something else raises.\<close>

definition item_metadata :: "(string, pyval) dict \<Rightarrow> pyval" where
  "item_metadata item =
     (case val_or (dict_get item ''metadata'') (dict_get item ''item_metadata'') of
        Some v \<Rightarrow> if py_truthy v then v else PDict []
      | None \<Rightarrow> PDict [])"

definition item_accessible ::
    "abac_service \<Rightarrow> current_user \<Rightarrow> action \<Rightarrow> (string, pyval) dict option \<Rightarrow> (string, pyval) dict
     \<Rightarrow> py_error + bool" where
  "item_accessible s u action user_attributes item =
     (let owner_user_id = attr_get (Some item) ''owner_user_id'';
          access_level = attr_get (Some item) ''access_level''
      in case item_metadata item of
           PDict metadata \<Rightarrow>
             (let resource_attributes =
                    fold (\<lambda>(k, v) d. dict_set k v d) metadata
                      [(''access_level'', access_level), (''owner_user_id'', owner_user_id)]
              in Inr (can_access_knowledge_item s u action owner_user_id access_level user_attributes
                        (Some resource_attributes)))
         | _ \<Rightarrow> Inl TypeError)"

fun filter_knowledge_results ::
    "abac_service \<Rightarrow> (string, pyval) dict list \<Rightarrow> current_user \<Rightarrow> action \<Rightarrow> (string, pyval) dict option
     \<Rightarrow> py_error + (string, pyval) dict list" where
  "filter_knowledge_results s [] u action user_attributes = Inr []"
| "filter_knowledge_results s (item # items) u action user_attributes =
     (case item_accessible s u action user_attributes item of
        Inl e \<Rightarrow> Inl e
      | Inr accessible \<Rightarrow>
          (case filter_knowledge_results s items u action user_attributes of
             Inl e \<Rightarrow> Inl e
           | Inr filtered \<Rightarrow> Inr (if accessible then item # filtered else filtered)))"

definition get_accessible_knowledge_ids :: "current_user \<Rightarrow> action \<Rightarrow> string list option" where
  "get_accessible_knowledge_ids u action =
     (case role_of_value (cu_role u) of
        None \<Rightarrow> Some []
      | Some role \<Rightarrow> if check_permission role KNOWLEDGE action None then None else Some [])"

definition check_knowledge_write_permission :: "current_user \<Rightarrow> string option \<Rightarrow> string option \<Rightarrow> bool" where
  "check_knowledge_write_permission u knowledge_id owner_user_id =
     (case role_of_value (cu_role u) of
        None \<Rightarrow> False
      | Some role \<Rightarrow>
          if check_permission role KNOWLEDGE UPDATE None then True
          else if str_present owner_user_id \<and> check_permission role KNOWLEDGE UPDATE (Some ''own'')
            then owner_user_id = Some (cu_user_id u)
          else \<not> str_present knowledge_id \<and> check_permission role KNOWLEDGE CREATE None)"

definition check_knowledge_delete_permission :: "current_user \<Rightarrow> string \<Rightarrow> bool" where
  "check_knowledge_delete_permission u owner_user_id =
     (case role_of_value (cu_role u) of
        None \<Rightarrow> False
      | Some role \<Rightarrow>
          if check_permission role KNOWLEDGE DELETE None then True
          else if check_permission role KNOWLEDGE DELETE (Some ''own'') then owner_user_id = cu_user_id u
          else False)"

subsection \<open>The decision, the query and the listing\<close>

lemma knowledge_permissions [simp]:
  "check_permission r KNOWLEDGE READ None \<longleftrightarrow> r \<in> {ADMIN, MANAGER}"
  "check_permission r KNOWLEDGE READ (Some ''own'') \<longleftrightarrow> r \<noteq> VIEWER"
  "check_permission r KNOWLEDGE READ (Some ''permitted'')"
  "check_permission r KNOWLEDGE UPDATE None \<longleftrightarrow> r \<in> {ADMIN, MANAGER}"
  "check_permission r KNOWLEDGE UPDATE (Some ''own'') \<longleftrightarrow> r \<noteq> VIEWER"
  "check_permission r KNOWLEDGE CREATE None \<longleftrightarrow> r \<noteq> VIEWER"
  "check_permission r KNOWLEDGE DELETE None \<longleftrightarrow> r = ADMIN"
  "check_permission r KNOWLEDGE DELETE (Some ''own'') \<longleftrightarrow> r \<noteq> VIEWER"
  by (cases r; simp add: check_role role_grants)+

text \<open>
  The departments whose team items a user's attributes open to a query: its own, all of them (the code
  leaves the comparison of the departments' names to its callers), or none.
\<close>

datatype team_scope = NoTeams | EveryTeam | OneTeam uuid

fun scope_covers :: "team_scope \<Rightarrow> uuid option \<Rightarrow> bool" where
  "scope_covers NoTeams e = False"
| "scope_covers EveryTeam e = True"
| "scope_covers (OneTeam d) e = (e = Some d)"

text \<open>Who may read an item by role, ownership, level and department.\<close>

definition may_read_knowledge :: "role \<Rightarrow> uuid \<Rightarrow> team_scope \<Rightarrow> knowledge_row \<Rightarrow> bool" where
  "may_read_knowledge r i sc row \<longleftrightarrow>
     r \<in> {ADMIN, MANAGER} \<or> (r = USER \<and> kn_owner row = i) \<or> kn_access_level row = ''public''
     \<or> (kn_access_level row = ''team'' \<and> scope_covers sc (kn_department row))"

definition pg_reads :: "(string \<Rightarrow> uuid option) \<Rightarrow> bool" where
  "pg_reads pg_uuid \<longleftrightarrow> (\<forall>v < 2 ^ 128. pg_uuid (uuid_str v) = Some v)"

text \<open>
  Attributes whose \<open>department_id\<close> is absent (or falsy), or the text of a UUID; \<open>named\<close> is the
  department's name, which older attributes carry instead.
\<close>

definition says_department :: "(string, pyval) dict option \<Rightarrow> uuid option \<Rightarrow> bool" where
  "says_department a dept \<longleftrightarrow>
     (case dept of
        None \<Rightarrow> \<not> py_truthy (attr_get a ''department_id'')
      | Some d \<Rightarrow> d < 2 ^ 128 \<and> attr_get a ''department_id'' = PStr (uuid_str d))"

definition named :: "(string, pyval) dict option \<Rightarrow> pyval" where
  "named a = attr_get a ''department''"

definition scope_of :: "(string, pyval) dict option \<Rightarrow> uuid option \<Rightarrow> team_scope" where
  "scope_of ua dept =
     (case dept of
        Some d \<Rightarrow> OneTeam d
      | None \<Rightarrow> if py_truthy (named ua) then EveryTeam else NoTeams)"

text \<open>The attributes of a user and of an item name the same department, or different ones.\<close>

definition same_team ::
    "(string, pyval) dict option \<Rightarrow> uuid option \<Rightarrow> (string, pyval) dict option \<Rightarrow> uuid option \<Rightarrow> bool" where
  "same_team ua dept ra e \<longleftrightarrow>
     (if dept \<noteq> None \<and> e \<noteq> None then dept = e
      else py_truthy (named ua) \<and> py_truthy (named ra) \<and> py_eq (named ua) (named ra))"

definition other_team ::
    "(string, pyval) dict option \<Rightarrow> uuid option \<Rightarrow> (string, pyval) dict option \<Rightarrow> uuid option \<Rightarrow> bool" where
  "other_team ua dept ra e \<longleftrightarrow>
     (if dept \<noteq> None \<and> e \<noteq> None then dept \<noteq> e
      else py_truthy (named ua) \<and> py_truthy (named ra) \<and> \<not> py_eq (named ua) (named ra))"

text \<open>What the decision on one item grants without a policy.\<close>

definition may_open_knowledge ::
    "role \<Rightarrow> uuid \<Rightarrow> (string, pyval) dict option \<Rightarrow> uuid option \<Rightarrow> (string, pyval) dict option \<Rightarrow> uuid option
     \<Rightarrow> knowledge_row \<Rightarrow> bool" where
  "may_open_knowledge r i ua dept ra e row \<longleftrightarrow>
     r \<in> {ADMIN, MANAGER} \<or> (r = USER \<and> kn_owner row = i) \<or> kn_access_level row = ''public''
     \<or> (kn_access_level row = ''team'' \<and> same_team ua dept ra e)"

definition row_ok :: "knowledge_row \<Rightarrow> bool" where
  "row_ok row \<longleftrightarrow> kn_owner row < 2 ^ 128 \<and> (\<forall>d. kn_department row = Some d \<longrightarrow> d < 2 ^ 128)"

lemma truthy_named: "py_truthy (attr_get a k) \<Longrightarrow> attrs_present a"
  by (auto simp: attr_get_def attrs_present_def dict_get_def split: option.splits)

lemma uuid_truthy [simp]: "py_truthy (PStr (uuid_str d))"
  by simp

lemma query_read:
  assumes "role_of_value (cu_role u) = Some r" and "cu_user_id u = uuid_str i" and "i < 2 ^ 128"
    and "pg_reads pg_uuid" and "says_department ua dept"
  shows "filter_knowledge_query pg_uuid txt u READ ua rows
    = Inr (filter (may_read_knowledge r i (scope_of ua dept)) rows)"
proof -
  have "parse_uuid (uuid_str i) = Some i" using assms(3) by (simp add: parse_uuid_str)
  moreover have "department_condition pg_uuid txt ua
      = Inr (\<lambda>row. kn_access_level row = ''team'' \<and> scope_covers (scope_of ua dept) (kn_department row))"
    using assms(4,5) truthy_named[of ua "''department''"] by (cases dept)
      (auto simp: department_condition_def says_department_def scope_of_def named_def pg_reads_def Let_def)
  ultimately show ?thesis
    using assms(1,2)
    by (cases r) (auto simp: filter_knowledge_query_def may_read_knowledge_def intro!: filter_cong)
qed

lemma team_decision_read:
  assumes "r \<in> {USER, VIEWER}" and "says_department ua dept" and "says_department ra e"
  shows "team_decision txt r READ ua ra
    = (if same_team ua dept ra e then Some True else if other_team ua dept ra e then Some False else None)"
proof -
  have permitted: "check_permission r KNOWLEDGE READ (Some ''permitted'')" using assms(1) by auto
  have names: "py_truthy (named ua) \<Longrightarrow> attrs_present ua" "py_truthy (named ra) \<Longrightarrow> attrs_present ra"
    unfolding named_def by (erule truthy_named)+
  show ?thesis
  proof (cases "dept \<noteq> None \<and> e \<noteq> None")
    case True
    with assms(2,3) permitted show ?thesis
      by (auto simp: team_decision_def says_department_def same_team_def other_team_def uuid_str_inj Let_def)
  next
    case False
    then have "\<not> (py_truthy (attr_get ua ''department_id'') \<and> py_truthy (attr_get ra ''department_id''))"
      using assms(2,3) by (auto simp: says_department_def)
    with False permitted names show ?thesis
      by (auto simp: team_decision_def same_team_def other_team_def named_def Let_def)
  qed
qed

lemma item_read:
  assumes "role_of_value (cu_role u) = Some r" and "cu_user_id u = uuid_str i" and "i < 2 ^ 128"
    and "says_department ua dept" and "says_department ra e" and "row_ok row"
  shows "can_access_knowledge_item s u READ (PStr (uuid_str (kn_owner row))) (PStr (kn_access_level row)) ua ra
    \<longleftrightarrow> may_open_knowledge r i ua dept ra e row
      \<or> (abac_decision s READ ua ra \<and> \<not> (kn_access_level row = ''team'' \<and> other_team ua dept ra e))"
proof -
  have owner: "uuid_str (kn_owner row) = cu_user_id u \<longleftrightarrow> kn_owner row = i"
    using assms(2,3,6) by (simp add: row_ok_def uuid_str_inj)
  have disjoint: "\<not> (same_team ua dept ra e \<and> other_team ua dept ra e)"
    by (simp add: same_team_def other_team_def)
  show ?thesis
    using assms(1) owner disjoint team_decision_read[OF _ assms(4,5), of r "as_txt s"]
    by (cases r) (auto simp: can_access_knowledge_item_def may_open_knowledge_def Let_def)
qed

text \<open>
  A caller that hands the item's own department over, and no names, has the same items opened as listed;
  unless the user's attributes carry a name only, when the query lists the team items of every department.
\<close>

lemma listed_as_opened:
  assumes "\<not> py_truthy (named ra)" and "scope_of ua dept \<noteq> EveryTeam"
  shows "may_open_knowledge r i ua dept ra (kn_department row) row \<longleftrightarrow> may_read_knowledge r i (scope_of ua dept) row"
  using assms by (cases dept; cases "kn_department row")
    (auto simp: may_open_knowledge_def may_read_knowledge_def same_team_def scope_of_def split: if_splits)


text \<open>
  The listing takes the department from the request: every user lists the team items of every
  department it asks for.
\<close>

lemma listing_trusts_request:
  assumes "role_of_value (cu_role u) = Some r" and "cu_user_id u = uuid_str i" and "i < 2 ^ 128"
    and "pg_reads pg_uuid" and "d < 2 ^ 128"
  shows "list_knowledge_items pg_uuid txt u (Some (uuid_str d)) rows
    = Inr (filter (may_read_knowledge r i (OneTeam d)) rows)"
proof -
  have "str_or (Some (uuid_str d)) None = Some (uuid_str d)"
    by (simp add: str_or_def split: list.splits)
  moreover have "says_department (Some [(''department_id'', PStr (uuid_str d))]) (Some d)"
    using assms(5) by (simp add: says_department_def attr_get_def dict_get_def)
  ultimately show ?thesis
    using query_read[OF assms(1-4)] by (simp add: list_knowledge_items_def scope_of_def)
qed

text \<open>The endpoints for a single item give no attributes: a team item listed to its department is not shown.\<close>

lemma detail_ignores_department:
  assumes "role_of_value (cu_role u) = Some r" and "r \<notin> {ADMIN, MANAGER}" and "owner \<noteq> cu_user_id u"
  shows "\<not> can_access_knowledge_item s u READ (PStr owner) (PStr ''team'') None None"
  using assms by (auto simp: can_access_knowledge_item_def team_decision_def abac_decision_def
      attr_get_def attrs_present_def Let_def)

text \<open>Writing and deleting.\<close>

lemma write_exact:
  "check_knowledge_write_permission u (Some k) (Some owner)
     \<longleftrightarrow> (\<exists>r. role_of_value (cu_role u) = Some r
          \<and> (r \<in> {ADMIN, MANAGER} \<or> (r = USER \<and> (if owner = [] then k = [] else owner = cu_user_id u))))"
  by (auto simp: check_knowledge_write_permission_def split: option.splits role.splits)
    (metis role.exhaust)+

lemma delete_exact:
  "check_knowledge_delete_permission u owner
     \<longleftrightarrow> (\<exists>r. role_of_value (cu_role u) = Some r \<and> (r = ADMIN \<or> (r \<noteq> VIEWER \<and> owner = cu_user_id u)))"
  by (auto simp: check_knowledge_delete_permission_def split: option.splits)

lemma results_sublist:
  "filter_knowledge_results s items u a ua = Inr filtered \<Longrightarrow>
     filtered = filter (\<lambda>item. item_accessible s u a ua item = Inr True) items"
  by (induction items arbitrary: filtered) (auto split: sum.splits if_splits)


subsection \<open>The expression of the vector store says the same\<close>

datatype vector_condition = OwnerIs string | LevelIs string | TeamOf string

fun render :: "vector_condition \<Rightarrow> string" where
  "render (OwnerIs i) = ''owner_user_id == \"'' @ i @ ''\"''"
| "render (LevelIs l) = ''access_level == \"'' @ l @ ''\"''"
| "render (TeamOf d) = ''(access_level == \"team\" and department_id == \"'' @ d @ ''\")''"

text \<open>What it selects: an entity holds the text of its item's identifiers.\<close>

fun selects :: "vector_condition \<Rightarrow> knowledge_row \<Rightarrow> bool" where
  "selects (OwnerIs i) row = (uuid_str (kn_owner row) = i)"
| "selects (LevelIs l) row = (kn_access_level row = l)"
| "selects (TeamOf d) row = (kn_access_level row = ''team'' \<and> map_option uuid_str (kn_department row) = Some d)"

definition read_conditions :: "role \<Rightarrow> uuid \<Rightarrow> team_scope \<Rightarrow> vector_condition list" where
  "read_conditions r i sc =
     (if r = USER then [OwnerIs (uuid_str i)] else []) @ [LevelIs ''public'']
     @ (case sc of NoTeams \<Rightarrow> [] | EveryTeam \<Rightarrow> [LevelIs ''team''] | OneTeam d \<Rightarrow> [TeamOf (uuid_str d)])"

lemma milvus_expression_exact:
  assumes "role_of_value (cu_role u) = Some r" and "r \<notin> {ADMIN, MANAGER}" and "cu_user_id u = uuid_str i"
    and "i < 2 ^ 128" and "says_department ua dept"
  shows "build_milvus_filter_expr txt u READ ua None
      = py_join '' or '' (map (\<lambda>c. ''('' @ render c @ '')'') (read_conditions r i (scope_of ua dept)))"
    and "row_ok row \<Longrightarrow> (\<exists>c \<in> set (read_conditions r i (scope_of ua dept)). selects c row)
      \<longleftrightarrow> may_read_knowledge r i (scope_of ua dept) row"
proof -
  have "milvus_conditions txt r u READ ua = map render (read_conditions r i (scope_of ua dept))"
    using assms truthy_named[of ua "''department''"] by (cases r; cases dept)
      (auto simp: milvus_conditions_def read_conditions_def says_department_def scope_of_def named_def Let_def)
  moreover have "read_conditions r i (scope_of ua dept) \<noteq> []" by (simp add: read_conditions_def)
  ultimately show "build_milvus_filter_expr txt u READ ua None
      = py_join '' or '' (map (\<lambda>c. ''('' @ render c @ '')'') (read_conditions r i (scope_of ua dept)))"
    using assms(1,2) by (simp add: build_milvus_filter_expr_def str_or_def o_def)
  show "(\<exists>c \<in> set (read_conditions r i (scope_of ua dept)). selects c row)
      \<longleftrightarrow> may_read_knowledge r i (scope_of ua dept) row"
    if "row_ok row"
    using assms(2,4,5) that
    by (cases r; cases dept; cases "kn_department row")
      (auto simp: read_conditions_def may_read_knowledge_def row_ok_def says_department_def scope_of_def uuid_str_inj)
qed

subsection \<open>Examples\<close>

definition sample_rows :: "knowledge_row list" where
  "sample_rows =
     [\<lparr>kn_id = 1, kn_owner = 7, kn_access_level = ''private'', kn_department = None\<rparr>,
      \<lparr>kn_id = 2, kn_owner = 8, kn_access_level = ''team'', kn_department = Some 3\<rparr>,
      \<lparr>kn_id = 3, kn_owner = 8, kn_access_level = ''team'', kn_department = Some 4\<rparr>,
      \<lparr>kn_id = 4, kn_owner = 8, kn_access_level = ''public'', kn_department = None\<rparr>]"

definition sample_reader :: current_user where
  "sample_reader = CurrentUser (uuid_str 7) ''reader'' ''user'' None None"


end
