(* ===== verification/Knowledge_Search.thy ===== *)
theory Knowledge_Search
  imports Knowledge_Access "HOL-Library.Multiset"
begin

section \<open>Searching knowledge\<close>

text \<open>
  \<open>knowledge_base/knowledge_search.py\<close> from the hits of the two retrievers to the answer: fusion of the
  rankings, the permission filter, reranking by a model or by word overlap, the guard for short queries,
  the relevance gate and the cut; and \<open>normalize_rerank_scores\<close> of \<open>llm_providers/openai_compatible.py\<close>.
  The hits, the query terms, \<open>unicodedata.normalize("NFKC", _)\<close> and the answer of the rerank service are
  arguments. Floats are reals. The numbers that the search itself keeps in a result's metadata
  (\<open>rerank_score\<close>, \<open>base_score\<close>, \<open>query_overlap\<close>, \<open>method_score\<close>, \<open>semantic_floor_applied\<close>) are fields of the
  result; the other entries are the dictionary \<open>sr_metadata\<close>. Results are objects that are changed in
  place: the candidates of a model rerank are therefore updated by index.
\<close>

record search_result =
  sr_chunk_id :: string
  sr_document_id :: string
  sr_content :: string
  sr_score :: real
  sr_chunk_index :: int
  sr_metadata :: "(string, pyval) dict"
  sr_keywords :: "string list option"
  sr_summary :: "string option"
  sr_search_method :: string
  sr_rerank_score :: "real option"
  sr_base_score :: "real option"
  sr_overlap :: "(real \<times> real \<times> bool) option"

record search_config =
  sc_semantic_weight :: real
  sc_fulltext_weight :: real
  sc_rrf_k :: int
  sc_min_relevance_score :: real
  sc_hybrid_score_scale :: real
  sc_keyword_min_rank :: real
  sc_rerank_enabled :: bool
  sc_rerank_provider :: string
  sc_rerank_model :: string
  sc_rerank_top_k :: int
  sc_rerank_weight :: real

record search_filter =
  sf_user_id :: string
  sf_user_role :: string
  sf_user_attributes :: "(string, pyval) dict option"
  sf_top_k :: int
  sf_min_relevance_score :: "real option"

subsection \<open>Fusion of two rankings\<close>

type_synonym fusion = "(string, real) dict \<times> (string, search_result) dict"

definition add_score :: "string \<Rightarrow> real \<Rightarrow> (string, real) dict \<Rightarrow> (string, real) dict" where
  "add_score key x scores =
     dict_set key ((case dict_get scores key of Some s \<Rightarrow> s | None \<Rightarrow> 0) + x) scores"

definition list_present :: "'a list option \<Rightarrow> bool" where
  "list_present v = (case v of None \<Rightarrow> False | Some xs \<Rightarrow> xs \<noteq> [])"

text \<open>A chunk found by both retrievers: the missing keywords and summary come from the second hit.\<close>

definition merge_texts :: "search_result \<Rightarrow> search_result \<Rightarrow> search_result" where
  "merge_texts result existing =
     (let existing = (if list_present (sr_keywords result) \<and> \<not> list_present (sr_keywords existing)
                      then existing\<lparr>sr_keywords := sr_keywords result\<rparr> else existing)
      in if list_present (sr_summary result) \<and> \<not> list_present (sr_summary existing)
         then existing\<lparr>sr_summary := sr_summary result\<rparr> else existing)"

fun fuse ::
    "(search_result \<Rightarrow> search_result \<Rightarrow> search_result) \<Rightarrow> real \<Rightarrow> int \<Rightarrow> nat \<Rightarrow> search_result list
     \<Rightarrow> fusion \<Rightarrow> py_error + fusion" where
  "fuse again weight k rank [] (scores, found) = Inr (scores, found)"
| "fuse again weight k rank (result # results) (scores, found) =
     (if k + int rank + 1 = 0 then Inl ZeroDivisionError
      else let key = sr_chunk_id result;
               scores = add_score key (weight / real_of_int (k + int rank + 1)) scores;
               found = (case dict_get found key of
                          None \<Rightarrow> dict_set key result found
                        | Some existing \<Rightarrow> dict_set key (again result existing) found)
           in fuse again weight k (Suc rank) results (scores, found))"

definition rrf_merge ::
    "search_config \<Rightarrow> search_result list \<Rightarrow> search_result list \<Rightarrow> py_error + search_result list" where
  "rrf_merge cfg vector_results bm25_results =
     (case fuse (\<lambda>result existing. existing) (sc_semantic_weight cfg) (sc_rrf_k cfg) 0 vector_results ([], []) of
        Inl e \<Rightarrow> Inl e
      | Inr fusion \<Rightarrow>
          (case fuse merge_texts (sc_fulltext_weight cfg) (sc_rrf_k cfg) 0 bm25_results fusion of
             Inl e \<Rightarrow> Inl e
           | Inr (scores, found) \<Rightarrow>
               Inr (map (\<lambda>(key, score). (the (dict_get found key))
                           \<lparr>sr_score := score, sr_search_method := ''hybrid''\<rparr>)
                      (sort_key (\<lambda>(key, score). - score) scores))))"

subsection \<open>The permission filter\<close>

definition result_dict :: "string \<Rightarrow> search_result \<Rightarrow> (string, pyval) dict" where
  "result_dict user_id r =
     [(''chunk_id'', PStr (sr_chunk_id r)), (''document_id'', PStr (sr_document_id r)),
      (''owner_user_id'', (case dict_get (sr_metadata r) ''owner_user_id'' of Some v \<Rightarrow> v | None \<Rightarrow> PStr user_id)),
      (''access_level'', (case dict_get (sr_metadata r) ''access_level'' of Some v \<Rightarrow> v | None \<Rightarrow> PStr ''private'')),
      (''content'', PStr (sr_content r)), (''similarity_score'', PFloat (sr_score r)),
      (''chunk_index'', PInt (sr_chunk_index r)), (''metadata'', PDict (sr_metadata r)),
      (''keywords'', (case sr_keywords r of None \<Rightarrow> PNone | Some ks \<Rightarrow> PList (map PStr ks))),
      (''summary'', (case sr_summary r of None \<Rightarrow> PNone | Some t \<Rightarrow> PStr t)),
      (''search_method'', PStr (sr_search_method r))]"

definition search_user :: "search_filter \<Rightarrow> current_user" where
  "search_user f =
     CurrentUser (sf_user_id f) ''knowledge_search_user''
       (if sf_user_role f = [] then ''user'' else sf_user_role f) None None"

definition apply_permission_filter ::
    "abac_service \<Rightarrow> search_result list \<Rightarrow> search_filter \<Rightarrow> search_result list" where
  "apply_permission_filter s results f =
     (case filter_knowledge_results s (map (result_dict (sf_user_id f)) results) (search_user f) READ
             (sf_user_attributes f) of
        Inl _ \<Rightarrow> results
      | Inr filtered \<Rightarrow>
          (let filtered_ids = map (\<lambda>d. attr_get (Some d) ''chunk_id'') filtered
           in filter (\<lambda>r. PStr (sr_chunk_id r) \<in> set filtered_ids) results))"

subsection \<open>Reranking by a model\<close>

definition normalize_result_score_for_blend :: "search_config \<Rightarrow> search_result \<Rightarrow> real" where
  "normalize_result_score_for_blend cfg r =
     (let raw_score = max (sr_score r) 0;
          method = py_lower (sr_search_method r)
      in if method = ''vector'' then min raw_score 1
         else if method = ''bm25'' then raw_score / (1 + raw_score)
         else if method = ''keyword'' then min (raw_score / max (sc_keyword_min_rank cfg * 2) 1) 1
         else if method = ''hybrid'' then min (raw_score / max (sc_hybrid_score_scale cfg) (1 / 1000000)) 1
         else raw_score / (1 + raw_score))"

definition normalize_rerank_scores :: "(int \<times> real) list \<Rightarrow> (int \<times> real) list" where
  "normalize_rerank_scores items =
     (if items = [] then []
      else let scores = map snd items;
               normalized =
                 (if list_all (\<lambda>x. 0 \<le> x \<and> x \<le> 1) scores then items
                  else let min_score = Min (set scores); max_score = Max (set scores)
                       in if max_score - min_score \<le> 1 / 1000000000 then map (\<lambda>(i, x). (i, 1 / 2)) items
                          else map (\<lambda>(i, x). (i, (x - min_score) / (max_score - min_score))) items)
           in sort_key (\<lambda>p. - snd p) normalized)"

definition round_half_even :: "real \<Rightarrow> int" where
  "round_half_even x =
     (let f = \<lfloor>x\<rfloor>; d = x - real_of_int f
      in if d < 1 / 2 then f else if d > 1 / 2 then f + 1 else if even f then f else f + 1)"

definition round4 :: "real \<Rightarrow> real" where
  "round4 x = real_of_int (round_half_even (x * 10000)) / 10000"

text \<open>The loop over the service's answers, on the candidates and the indices reranked so far.\<close>

fun rerank_loop ::
    "search_config \<Rightarrow> (int \<times> real) list \<Rightarrow> search_result list \<Rightarrow> nat list \<Rightarrow> search_result list \<times> nat list" where
  "rerank_loop cfg [] candidates chosen = (candidates, chosen)"
| "rerank_loop cfg ((doc_index, rerank_score) # items) candidates chosen =
     (if doc_index < 0 \<or> doc_index \<ge> int (length candidates) then rerank_loop cfg items candidates chosen
      else let i = nat doc_index;
               candidate = candidates ! i;
               rerank_weight = min (max (sc_rerank_weight cfg) 0) 1;
               base_score = normalize_result_score_for_blend cfg candidate;
               candidate = candidate\<lparr>sr_rerank_score := Some (round4 rerank_score),
                 sr_base_score := Some (round4 base_score),
                 sr_score := rerank_weight * rerank_score + (1 - rerank_weight) * base_score\<rparr>
           in rerank_loop cfg items (candidates[i := candidate]) (chosen @ [i]))"

definition rerank_with_model ::
    "search_config \<Rightarrow> (search_result list \<Rightarrow> (int \<times> real) list) \<Rightarrow> search_result list \<Rightarrow> int
     \<Rightarrow> search_result list \<times> bool" where
  "rerank_with_model cfg rerank_items results top_k =
     (if \<not> sc_rerank_enabled cfg \<or> sc_rerank_provider cfg = [] \<or> sc_rerank_model cfg = []
         \<or> length results \<le> 1
      then (results, False)
      else let candidate_limit = nat (min (int (length results)) (max (max (sc_rerank_top_k cfg) top_k) 10));
               candidates = take candidate_limit results
           in case rerank_loop cfg (rerank_items candidates) candidates [] of
                (candidates', chosen) \<Rightarrow>
                  if chosen = [] then (results, False)
                  else let reranked = map ((!) candidates') chosen;
                           reranked_ids = map sr_chunk_id reranked
                       in (reranked @ filter (\<lambda>r. sr_chunk_id r \<notin> set reranked_ids) candidates'
                             @ drop candidate_limit results, True))"

subsection \<open>Reranking by word overlap\<close>

definition join_texts :: "search_result \<Rightarrow> string" where
  "join_texts r =
     py_join '' '' [sr_content r, (case sr_summary r of None \<Rightarrow> [] | Some t \<Rightarrow> t),
       py_join '' '' (case sr_keywords r of None \<Rightarrow> [] | Some ks \<Rightarrow> ks)]"

definition overlap_result ::
    "search_config \<Rightarrow> string list \<Rightarrow> nat \<Rightarrow> nat \<Rightarrow> search_result \<Rightarrow> search_result" where
  "overlap_result cfg terms total_results rank_index r =
     (let lexical_text = py_lower (join_texts r);
          matched_terms = length (filter (\<lambda>t. py_substr t lexical_text) terms);
          overlap_score = real matched_terms / real (length terms);
          method_score = normalize_result_score_for_blend cfg r;
          rank_prior = 1 - real rank_index / real (max total_results 1) * (35 / 100);
          floor_applied = (py_lower (sr_search_method r) = ''vector'' \<and> overlap_score = 0 \<and> length terms \<ge> 2);
          final_score =
            (if floor_applied
             then max (88 / 100 * method_score + 12 / 100 * rank_prior) (method_score * (90 / 100))
             else 55 / 100 * overlap_score + 35 / 100 * method_score + 10 / 100 * rank_prior)
      in r\<lparr>sr_score := final_score,
           sr_overlap := Some (round4 overlap_score, round4 method_score, floor_applied)\<rparr>)"

definition rerank_by_query_overlap ::
    "search_config \<Rightarrow> search_result list \<Rightarrow> string list \<Rightarrow> search_result list" where
  "rerank_by_query_overlap cfg results query_terms =
     (if results = [] \<or> query_terms = [] then results
      else let terms = take 16 (map py_lower (filter (\<lambda>t. length t \<ge> 2) query_terms))
           in if terms = [] then results
              else sort_key (\<lambda>r. - sr_score r)
                     (map (\<lambda>(i, r). overlap_result cfg terms (length results) i r)
                        (zip [0..<length results] results)))"

subsection \<open>The guard for short queries\<close>

definition contains_literal_query_term :: "(string \<Rightarrow> string) \<Rightarrow> search_result \<Rightarrow> string \<Rightarrow> bool" where
  "contains_literal_query_term nfkc r term_text =
     (let normalized_term = py_lower (py_strip (nfkc term_text))
      in if length normalized_term < 2 then False
         else py_substr normalized_term (py_lower (join_texts r)))"

definition literal_terms :: "(string \<Rightarrow> string) \<Rightarrow> string \<Rightarrow> string list \<Rightarrow> string list" where
  "literal_terms nfkc normalized_query query_terms =
     foldl (\<lambda>terms candidate.
        let t = py_lower (py_strip (nfkc candidate))
        in if length t < 2 \<or> t \<in> set terms then terms else terms @ [t]) [] (normalized_query # query_terms)"

definition or_zero :: "real option \<Rightarrow> real" where
  "or_zero v = (case v of None \<Rightarrow> 0 | Some x \<Rightarrow> x)"

text \<open>\<open>metadata.get("base_score") or self._normalize_result_score_for_blend(result) or 0.0\<close>\<close>

definition base_score_of :: "search_config \<Rightarrow> search_result \<Rightarrow> real" where
  "base_score_of cfg r =
     (if or_zero (sr_base_score r) \<noteq> 0 then or_zero (sr_base_score r)
      else normalize_result_score_for_blend cfg r)"

definition lift_score :: "real \<Rightarrow> search_result \<Rightarrow> search_result" where
  "lift_score base r = r\<lparr>sr_score := max (sr_score r) (base * (90 / 100))\<rparr>"

fun supported_results ::
    "search_config \<Rightarrow> (search_result \<Rightarrow> bool) \<Rightarrow> real \<Rightarrow> search_result list \<Rightarrow> search_result list" where
  "supported_results cfg literal support_floor [] = []"
| "supported_results cfg literal support_floor (r # rs) =
     (let rest = supported_results cfg literal support_floor rs
      in if literal r then r # rest
         else if or_zero (sr_rerank_score r) < support_floor then rest
         else if base_score_of cfg r < 42 / 100 then rest
         else lift_score (base_score_of cfg r) r # rest)"

definition apply_short_query_precision_guard ::
    "search_config \<Rightarrow> (string \<Rightarrow> string) \<Rightarrow> string \<Rightarrow> string list \<Rightarrow> search_result list \<Rightarrow> search_result list
     \<Rightarrow> search_result list" where
  "apply_short_query_precision_guard cfg nfkc query query_terms bm25_results results =
     (if results = [] \<or> bm25_results \<noteq> [] then results
      else let normalized_query = py_lower (py_strip (nfkc query))
           in if length normalized_query < 2 then results
              else if \<not> (CHR '' '' \<notin> set normalized_query \<and> length normalized_query \<le> 4) then results
              else let literal = (\<lambda>r. list_ex (contains_literal_query_term nfkc r)
                                        (literal_terms nfkc normalized_query query_terms));
                       top_rerank_score = Max (set (map (or_zero \<circ> sr_rerank_score) results));
                       supported = (if top_rerank_score \<ge> 3 / 100
                                    then supported_results cfg literal (max (top_rerank_score * (1 / 2)) (2 / 100)) results
                                    else [])
                   in if supported \<noteq> [] then supported
                      else let scored = sort_key (\<lambda>p. - snd p) (map (\<lambda>r. (r, base_score_of cfg r)) results);
                               leader = hd scored;
                               runner_up_base = (case tl scored of [] \<Rightarrow> 0 | p # ps \<Rightarrow> snd p)
                           in if snd leader \<ge> 1 / 2 \<and> snd leader - runner_up_base \<ge> 3 / 100
                              then [lift_score (snd leader) (fst leader)]
                              else filter (\<lambda>r. literal r
                                     \<or> max (or_zero (sr_rerank_score r)) (normalize_result_score_for_blend cfg r)
                                         \<ge> 75 / 100) results)"

subsection \<open>The search\<close>

definition resolve_effective_min_relevance_score :: "search_config \<Rightarrow> real option \<Rightarrow> bool \<Rightarrow> real" where
  "resolve_effective_min_relevance_score cfg requested model_rerank_applied =
     (let effective = (case requested of None \<Rightarrow> sc_min_relevance_score cfg | Some x \<Rightarrow> x);
          effective = (if \<not> model_rerank_applied then max effective (sc_min_relevance_score cfg) else effective)
      in max 0 (min effective 1))"

text \<open>\<open>xs[:k]\<close>\<close>

definition top_slice :: "int \<Rightarrow> 'a list \<Rightarrow> 'a list" where
  "top_slice k xs = (if k \<ge> 0 then take (nat k) xs else take (nat (int (length xs) + k)) xs)"

definition merge_hits ::
    "search_config \<Rightarrow> search_result list \<Rightarrow> search_result list \<Rightarrow> py_error + search_result list" where
  "merge_hits cfg vector_results bm25_results =
     (if vector_results \<noteq> [] \<and> bm25_results \<noteq> [] then rrf_merge cfg vector_results bm25_results
      else if vector_results \<noteq> [] then Inr vector_results
      else if bm25_results \<noteq> [] then Inr bm25_results
      else Inr [])"

definition filtered_search ::
    "search_config \<Rightarrow> (string \<Rightarrow> string) \<Rightarrow> abac_service \<Rightarrow> (search_result list \<Rightarrow> (int \<times> real) list)
     \<Rightarrow> search_result list \<Rightarrow> search_result list \<Rightarrow> string \<Rightarrow> string list \<Rightarrow> search_filter
     \<Rightarrow> py_error + search_result list" where
  "filtered_search cfg nfkc s rerank_items vector_results bm25_results query query_terms f =
     (case merge_hits cfg vector_results bm25_results of
        Inl e \<Rightarrow> Inl e
      | Inr merged \<Rightarrow>
          (let filtered = apply_permission_filter s merged f;
               (ranked, model_rerank_applied) = rerank_with_model cfg rerank_items filtered (sf_top_k f);
               ranked = (if model_rerank_applied then ranked
                         else rerank_by_query_overlap cfg ranked query_terms);
               guarded = apply_short_query_precision_guard cfg nfkc query query_terms bm25_results ranked;
               effective = resolve_effective_min_relevance_score cfg (sf_min_relevance_score f) model_rerank_applied
           in Inr (top_slice (sf_top_k f) (filter (\<lambda>r. sr_score r \<ge> effective) guarded))))"

text \<open>
  Without a filter the hits of \<open>milvus_conn.search\<close> come back as they are, whoever asks. What that call
  answers is the argument \<open>raw\<close>; the repository's \<open>MilvusConnectionManager\<close> has no such method, for it \<open>raw\<close>
  is the \<open>AttributeError\<close>. A hit lacks a key when the field is \<open>None\<close>.
\<close>

record raw_hit =
  rh_knowledge_id :: "pyval option"
  rh_chunk_text :: "pyval option"
  rh_distance :: "real option"

record raw_answer =
  rw_knowledge_id :: pyval
  rw_chunk_text :: pyval
  rw_relevance_score :: real

datatype search_answer = RawAnswer "raw_answer list" | Ranked "search_result list"

fun raw_answers :: "raw_hit list \<Rightarrow> py_error + raw_answer list" where
  "raw_answers [] = Inr []"
| "raw_answers (hit # hits) =
     (case (rh_knowledge_id hit, rh_chunk_text hit) of
        (Some knowledge_id, Some chunk_text) \<Rightarrow>
          (case raw_answers hits of
             Inl e \<Rightarrow> Inl e
           | Inr answers \<Rightarrow>
               Inr (\<lparr>rw_knowledge_id = knowledge_id, rw_chunk_text = chunk_text,
                     rw_relevance_score =
                       max 0 (1 - (case rh_distance hit of None \<Rightarrow> 1 | Some d \<Rightarrow> d))\<rparr> # answers))
      | _ \<Rightarrow> Inl KeyError)"

definition search ::
    "search_config \<Rightarrow> (string \<Rightarrow> string) \<Rightarrow> abac_service \<Rightarrow> (search_result list \<Rightarrow> (int \<times> real) list)
     \<Rightarrow> py_error + raw_hit list \<Rightarrow> search_result list \<Rightarrow> search_result list \<Rightarrow> string \<Rightarrow> string list
     \<Rightarrow> search_filter option \<Rightarrow> py_error + search_answer" where
  "search cfg nfkc s rerank_items raw vector_results bm25_results query query_terms search_filter =
     (case search_filter of
        None \<Rightarrow> (case raw of Inl e \<Rightarrow> Inl e | Inr hits \<Rightarrow> map_sum id RawAnswer (raw_answers hits))
      | Some f \<Rightarrow>
          map_sum id Ranked
            (filtered_search cfg nfkc s rerank_items vector_results bm25_results query query_terms f))"


subsection \<open>Fusion computes reciprocal ranks\<close>

fun reciprocal_rank :: "real \<Rightarrow> int \<Rightarrow> nat \<Rightarrow> search_result list \<Rightarrow> string \<Rightarrow> real" where
  "reciprocal_rank weight k rank [] key = 0"
| "reciprocal_rank weight k rank (r # rs) key =
     (if sr_chunk_id r = key then weight / real_of_int (k + int rank + 1) else 0)
       + reciprocal_rank weight k (Suc rank) rs key"

definition fusion_ok :: "fusion \<Rightarrow> bool" where
  "fusion_ok fusion \<longleftrightarrow> dict_wf (fst fusion)
     \<and> (\<forall>key. (dict_get (fst fusion) key = None) = (dict_get (snd fusion) key = None))
     \<and> (\<forall>key r. dict_get (snd fusion) key = Some r \<longrightarrow> sr_chunk_id r = key)"

definition score_in :: "fusion \<Rightarrow> string \<Rightarrow> real" where
  "score_in fusion key = (case dict_get (fst fusion) key of None \<Rightarrow> 0 | Some x \<Rightarrow> x)"

lemma score_add: "score_in (add_score key x scores, found) key' = score_in (scores, found') key' + (if key' = key then x else 0)"
  by (auto simp: score_in_def add_score_def split: option.splits)

lemma fuse_exact:
  assumes "k \<ge> 0" and "fusion_ok fusion" and "\<And>r e. sr_chunk_id (again r e) = sr_chunk_id e"
  shows "\<exists>fusion'. fuse again weight k rank rs fusion = Inr fusion' \<and> fusion_ok fusion'
    \<and> (\<forall>key. score_in fusion' key = score_in fusion key + reciprocal_rank weight k rank rs key)
    \<and> set (dict_keys (fst fusion')) = set (dict_keys (fst fusion)) \<union> set (map sr_chunk_id rs)"
  using assms(2)
proof (induction rs arbitrary: rank fusion)
  case (Cons r rs)
  obtain scores found where fusion: "fusion = (scores, found)" by (cases fusion)
  let ?scores = "add_score (sr_chunk_id r) (weight / real_of_int (k + int rank + 1)) scores"
  let ?found = "case dict_get found (sr_chunk_id r) of None \<Rightarrow> dict_set (sr_chunk_id r) r found
    | Some e \<Rightarrow> dict_set (sr_chunk_id r) (again r e) found"
  have ok: "fusion_ok (?scores, ?found)"
    using Cons.prems assms(3) unfolding fusion
    by (auto simp: fusion_ok_def add_score_def split: option.splits)
  have step: "fuse again weight k rank (r # rs) fusion = fuse again weight k (Suc rank) rs (?scores, ?found)"
    using assms(1) by (simp add: fusion Let_def)
  have "set (dict_keys (fst (?scores, ?found))) = insert (sr_chunk_id r) (set (dict_keys (fst fusion)))"
    by (simp add: fusion add_score_def dict_keys_set del: set_map)
  moreover have "score_in (?scores, ?found) key
      = score_in fusion key + (if sr_chunk_id r = key then weight / real_of_int (k + int rank + 1) else 0)" for key
    by (subst score_add[of _ _ _ _ _ found]) (auto simp: fusion)
  ultimately show ?case
    using Cons.IH[OF ok, of "Suc rank"] unfolding step by (auto simp: add_ac)
next
  case Nil
  then show ?case by (cases fusion) auto
qed

lemma merge_texts_id [simp]: "sr_chunk_id (merge_texts r e) = sr_chunk_id e"
  by (simp add: merge_texts_def Let_def)

text \<open>C15: The fused ranking holds every chunk that one of the two retrievers found, exactly once, with the
  sum of its weighted reciprocal ranks as its score, best first.\<close>

theorem rrf_merge_exact:
  assumes "sc_rrf_k cfg \<ge> 0"
  shows "\<exists>merged. rrf_merge cfg vector_results bm25_results = Inr merged
    \<and> distinct (map sr_chunk_id merged)
    \<and> set (map sr_chunk_id merged) = set (map sr_chunk_id vector_results) \<union> set (map sr_chunk_id bm25_results)
    \<and> (\<forall>r \<in> set merged. sr_score r
          = reciprocal_rank (sc_semantic_weight cfg) (sc_rrf_k cfg) 0 vector_results (sr_chunk_id r)
          + reciprocal_rank (sc_fulltext_weight cfg) (sc_rrf_k cfg) 0 bm25_results (sr_chunk_id r))
    \<and> sorted_wrt (\<lambda>a b. sr_score a \<ge> sr_score b) merged"
proof -
  have start: "fusion_ok ([], [])" by (simp add: fusion_ok_def)
  obtain f1 where f1: "fuse (\<lambda>result existing. existing) (sc_semantic_weight cfg) (sc_rrf_k cfg) 0 vector_results ([], [])
        = Inr f1" "fusion_ok f1"
      "\<forall>key. score_in f1 key = reciprocal_rank (sc_semantic_weight cfg) (sc_rrf_k cfg) 0 vector_results key"
      "set (dict_keys (fst f1)) = set (map sr_chunk_id vector_results)"
    using fuse_exact[OF assms start, of "\<lambda>result existing. existing" "sc_semantic_weight cfg" 0 vector_results]
    by (auto simp: score_in_def)
  obtain f2 where f2: "fuse merge_texts (sc_fulltext_weight cfg) (sc_rrf_k cfg) 0 bm25_results f1 = Inr f2"
      "fusion_ok f2"
      "\<forall>key. score_in f2 key = score_in f1 key
         + reciprocal_rank (sc_fulltext_weight cfg) (sc_rrf_k cfg) 0 bm25_results key"
      "set (dict_keys (fst f2)) = set (dict_keys (fst f1)) \<union> set (map sr_chunk_id bm25_results)"
    using fuse_exact[OF assms f1(2), of merge_texts "sc_fulltext_weight cfg" 0 bm25_results] by auto
  obtain scores found where f2_eq: "f2 = (scores, found)" by (cases f2)
  let ?order = "sort_key (\<lambda>(key, score). - score) scores"
  let ?item = "\<lambda>(key, score). (the (dict_get found key))\<lparr>sr_score := score, sr_search_method := ''hybrid''\<rparr>"
  have merged: "rrf_merge cfg vector_results bm25_results = Inr (map ?item ?order)"
    using f1(1) f2(1) by (simp add: rrf_merge_def f2_eq)
  have item: "sr_chunk_id (?item p) = fst p \<and> sr_score (?item p) = snd p
      \<and> snd p = score_in f2 (fst p)" if "p \<in> set scores" for p
  proof -
    have "dict_get scores (fst p) = Some (snd p)"
      using that f2(2) dict_mem_get[of scores "fst p" "snd p"] by (simp add: fusion_ok_def f2_eq)
    moreover from this f2(2) obtain r where "dict_get found (fst p) = Some r" "sr_chunk_id r = fst p"
      by (metis f2_eq fst_conv fusion_ok_def not_None_eq option.distinct(1) snd_conv)
    ultimately show ?thesis by (simp add: f2_eq score_in_def split_beta)
  qed
  then have ids: "map sr_chunk_id (map ?item ?order) = map fst ?order"
    by (auto simp del: split_beta)
  have "distinct (map fst ?order)"
    using f2(2) by (simp add: fusion_ok_def f2_eq dict_wf_def distinct_map)
  moreover have "set (map fst ?order) = set (map sr_chunk_id vector_results) \<union> set (map sr_chunk_id bm25_results)"
    using f1(4) f2(4) by (simp add: f2_eq)
  moreover have "sorted_wrt (\<lambda>a b. sr_score a \<ge> sr_score b) (map ?item ?order)"
  proof -
    have "sorted (map (\<lambda>(key, score). - score) ?order)" by simp
    then have "sorted_wrt (\<lambda>p q. snd p \<ge> snd q) ?order"
      by (simp add: sorted_map split_beta)
    then have "sorted_wrt (\<lambda>p q. sr_score (?item p) \<ge> sr_score (?item q)) ?order"
      by (rule sorted_wrt_mono_rel[rotated]) (use item in auto)
    then show ?thesis by (simp add: sorted_wrt_map)
  qed
  moreover have "sr_score r = reciprocal_rank (sc_semantic_weight cfg) (sc_rrf_k cfg) 0 vector_results (sr_chunk_id r)
      + reciprocal_rank (sc_fulltext_weight cfg) (sc_rrf_k cfg) 0 bm25_results (sr_chunk_id r)"
    if "r \<in> set (map ?item ?order)" for r
    using that item f1(3) f2(3) by fastforce
  ultimately show ?thesis unfolding merged using ids by metis
qed


subsection \<open>Nothing but permitted chunks comes back\<close>

text \<open>A chunk is permitted when a hit that carries it passes the decision on items.\<close>

definition permitted_chunk :: "abac_service \<Rightarrow> search_filter \<Rightarrow> search_result list \<Rightarrow> string \<Rightarrow> bool" where
  "permitted_chunk s f merged c \<longleftrightarrow>
     (\<exists>m \<in> set merged. sr_chunk_id m = c
        \<and> item_accessible s (search_user f) READ (sf_user_attributes f) (result_dict (sf_user_id f) m) = Inr True)"

lemma result_dict_metadata [simp]: "item_metadata (result_dict i r) = PDict (sr_metadata r)"
  by (cases "sr_metadata r") (simp_all add: item_metadata_def result_dict_def dict_get_def val_or_def)

lemma result_dict_chunk [simp]: "attr_get (Some (result_dict i r)) ''chunk_id'' = PStr (sr_chunk_id r)"
  by (simp add: attr_get_def result_dict_def dict_get_def)

lemma results_never_raise:
  "\<exists>filtered. filter_knowledge_results s (map (result_dict i) rs) u a ua = Inr filtered"
proof (induction rs)
  case (Cons r rs)
  have "\<exists>b. item_accessible s u a ua (result_dict i r) = Inr b" by (simp add: item_accessible_def Let_def)
  with Cons show ?case by auto
qed simp

lemma permission_filter_exact:
  "apply_permission_filter s merged f = filter (\<lambda>r. permitted_chunk s f merged (sr_chunk_id r)) merged"
proof -
  obtain filtered where filtered:
    "filter_knowledge_results s (map (result_dict (sf_user_id f)) merged) (search_user f) READ (sf_user_attributes f)
       = Inr filtered"
    using results_never_raise by blast
  have "PStr c \<in> set (map (\<lambda>d. attr_get (Some d) ''chunk_id'') filtered) \<longleftrightarrow> permitted_chunk s f merged c" for c
    unfolding results_sublist[OF filtered] permitted_chunk_def by force
  with filtered show ?thesis by (simp add: apply_permission_filter_def)
qed

lemma rerank_loop_ids:
  assumes "rerank_loop cfg items cs chosen = (cs', chosen')" and "\<forall>i \<in> set chosen. i < length cs"
  shows "map sr_chunk_id cs' = map sr_chunk_id cs \<and> (\<forall>i \<in> set chosen'. i < length cs)
    \<and> chosen' = chosen @ map nat (filter (\<lambda>i. 0 \<le> i \<and> i < int (length cs)) (map fst items))"
  using assms
proof (induction cfg items cs chosen rule: rerank_loop.induct)
  case (2 cfg i x items cs chosen)
  show ?case
  proof (cases "i < 0 \<or> i \<ge> int (length cs)")
    case True
    with 2 show ?thesis by auto
  next
    case False
    let ?c = "(cs ! nat i)\<lparr>sr_rerank_score := Some (round4 x),
      sr_base_score := Some (round4 (normalize_result_score_for_blend cfg (cs ! nat i))),
      sr_score := min (max (sc_rerank_weight cfg) 0) 1 * x
        + (1 - min (max (sc_rerank_weight cfg) 0) 1) * normalize_result_score_for_blend cfg (cs ! nat i)\<rparr>"
    have i: "nat i < length cs" using False by linarith
    have step: "rerank_loop cfg items (cs[nat i := ?c]) (chosen @ [nat i]) = (cs', chosen')"
      using 2(3) False by (simp add: Let_def)
    have "\<forall>j \<in> set (chosen @ [nat i]). j < length (cs[nat i := ?c])" using 2(4) i by simp
    note IH = 2(2)[OF False refl refl refl refl refl step this]
    have same: "map sr_chunk_id (cs[nat i := ?c]) = map sr_chunk_id cs"
      using i by (intro nth_equalityI) (simp_all add: nth_list_update)
    show ?thesis using IH False unfolding same by auto
  qed
qed auto

lemma rerank_ids:
  assumes "rerank_with_model cfg items rs k = (rs', b)"
  shows "set (map sr_chunk_id rs') \<subseteq> set (map sr_chunk_id rs)"
proof (cases "rs' = rs")
  case False
  define n where "n = nat (min (int (length rs)) (max (max (sc_rerank_top_k cfg) k) 10))"
  obtain cs chosen where loop: "rerank_loop cfg (items (take n rs)) (take n rs) [] = (cs, chosen)"
    by (metis surj_pair)
  have none: "\<forall>i \<in> set []. i < length (take n rs)" by simp
  note ids = rerank_loop_ids[OF loop none]
  note same = ids[THEN conjunct1] and below = ids[THEN conjunct2, THEN conjunct1]
  from arg_cong[OF same, of length] have len: "length cs = length (take n rs)" by simp
  have "rs' = map ((!) cs) chosen @ filter (\<lambda>r. sr_chunk_id r \<notin> set (map sr_chunk_id (map ((!) cs) chosen))) cs
      @ drop n rs"
    using assms False unfolding rerank_with_model_def Let_def n_def[symmetric]
    by (simp add: loop del: map_map split: if_splits)
  moreover have "set (map ((!) cs) chosen) \<subseteq> set cs"
    using below unfolding len[symmetric] by (auto intro: nth_mem)
  moreover have "set (map sr_chunk_id cs) \<subseteq> set (map sr_chunk_id rs)"
  proof -
    have "map sr_chunk_id cs = take n (map sr_chunk_id rs)" using same by (simp add: take_map)
    then show ?thesis by (metis set_take_subset)
  qed
  ultimately have "set rs' \<subseteq> set cs \<union> set rs" and "sr_chunk_id ` set cs \<subseteq> sr_chunk_id ` set rs"
    by (auto dest: in_set_dropD)
  then show ?thesis by auto
qed simp

lemma overlap_ids: "set (map sr_chunk_id (rerank_by_query_overlap cfg rs terms)) = set (map sr_chunk_id rs)"
proof -
  have "map sr_chunk_id (map (\<lambda>(i, r). overlap_result cfg ts n i r) (zip [0..<length rs] rs)) = map sr_chunk_id rs"
    for ts n
    by (intro nth_equalityI) (simp_all add: overlap_result_def Let_def)
  then show ?thesis
    by (simp add: rerank_by_query_overlap_def Let_def del: map_map) (metis list.set_map set_sort)
qed

lemma supported_ids: "set (map sr_chunk_id (supported_results cfg l x rs)) \<subseteq> set (map sr_chunk_id rs)"
  by (induction rs) (auto simp: Let_def lift_score_def)

lemma guard_ids:
  "set (map sr_chunk_id (apply_short_query_precision_guard cfg nfkc q ts bs rs)) \<subseteq> set (map sr_chunk_id rs)"
proof (cases "rs = []")
  case False
  let ?scored = "sort_key (\<lambda>p. - snd p) (map (\<lambda>r. (r, base_score_of cfg r)) rs)"
  have "?scored \<noteq> []" using False by (metis length_0_conv length_map length_sort)
  then have "hd ?scored \<in> set ?scored" by (rule hd_in_set)
  then have "fst (hd ?scored) \<in> set rs" by auto
  then show ?thesis
    using supported_ids[of cfg _ _ rs]
    by (auto simp: apply_short_query_precision_guard_def Let_def lift_score_def subset_iff)
qed (simp add: apply_short_query_precision_guard_def)

lemma filtered_search_permitted:
  assumes "filtered_search cfg nfkc s rerank_items vector_results bm25_results query query_terms f = Inr answer"
  shows "\<exists>merged. merge_hits cfg vector_results bm25_results = Inr merged
    \<and> (\<forall>r \<in> set answer. permitted_chunk s f merged (sr_chunk_id r) \<and> 0 \<le> sr_score r
         \<and> min (case sf_min_relevance_score f of None \<Rightarrow> sc_min_relevance_score cfg | Some x \<Rightarrow> x) 1 \<le> sr_score r)
    \<and> (sf_top_k f \<ge> 0 \<longrightarrow> int (length answer) \<le> sf_top_k f)"
proof -
  obtain merged where merged: "merge_hits cfg vector_results bm25_results = Inr merged"
    using assms by (auto simp: filtered_search_def split: sum.splits)
  define filtered where "filtered = apply_permission_filter s merged f"
  obtain ranked b where ranked: "rerank_with_model cfg rerank_items filtered (sf_top_k f) = (ranked, b)"
    by (metis surj_pair)
  define ranked' where "ranked' = (if b then ranked else rerank_by_query_overlap cfg ranked query_terms)"
  define guarded where
    "guarded = apply_short_query_precision_guard cfg nfkc query query_terms bm25_results ranked'"
  define floor where "floor = resolve_effective_min_relevance_score cfg (sf_min_relevance_score f) b"
  have answer: "answer = top_slice (sf_top_k f) (filter (\<lambda>r. sr_score r \<ge> floor) guarded)"
    using assms merged ranked
    by (simp add: filtered_search_def Let_def filtered_def ranked'_def guarded_def floor_def)
  have "set (map sr_chunk_id guarded) \<subseteq> set (map sr_chunk_id filtered)"
    using guard_ids[of cfg nfkc query query_terms bm25_results ranked'] rerank_ids[OF ranked]
      overlap_ids[of cfg ranked query_terms]
    unfolding guarded_def ranked'_def by (auto simp del: set_map split: if_splits)
  then have "permitted_chunk s f merged (sr_chunk_id r)" if "r \<in> set guarded" for r
    using that unfolding filtered_def permission_filter_exact by fastforce
  moreover have "set answer \<subseteq> {r \<in> set guarded. sr_score r \<ge> floor}"
    unfolding answer top_slice_def by (auto dest: in_set_takeD)
  moreover have "0 \<le> floor
      \<and> min (case sf_min_relevance_score f of None \<Rightarrow> sc_min_relevance_score cfg | Some x \<Rightarrow> x) 1 \<le> floor"
    by (auto simp: floor_def resolve_effective_min_relevance_score_def Let_def split: option.splits)
  moreover have "sf_top_k f \<ge> 0 \<longrightarrow> int (length answer) \<le> sf_top_k f"
    by (auto simp: answer top_slice_def)
  ultimately show ?thesis using merged by (intro exI[of _ merged]) (auto 0 4)
qed

lemma map_sum_Inr: "map_sum f g x = Inr y \<longleftrightarrow> (\<exists>z. x = Inr z \<and> y = g z)"
  by (cases x) auto

lemma raw_answers_all:
  "raw_answers hits = Inr answers \<Longrightarrow>
     map (Some \<circ> rw_knowledge_id) answers = map rh_knowledge_id hits
     \<and> map (Some \<circ> rw_chunk_text) answers = map rh_chunk_text hits \<and> (\<forall>a \<in> set answers. 0 \<le> rw_relevance_score a)"
  by (induction hits arbitrary: answers) (auto split: option.splits sum.splits)

text \<open>C14: Whatever the retrievers deliver and the rerank service answers, a search with a filter returns only
  chunks that the decision on single items permits to the searcher, at most as many as asked for, and none
  below the relevance floor, the request's own or else the configured one (cut at 1). A search without a
  filter asks nobody: it returns every hit of the vector store.\<close>

theorem search_returns_permitted:
  assumes "search cfg nfkc s rerank_items raw vector_results bm25_results query query_terms search_filter
    = Inr answer"
  shows "case search_filter of
      Some f \<Rightarrow> \<exists>results merged. answer = Ranked results \<and> merge_hits cfg vector_results bm25_results = Inr merged
        \<and> (\<forall>r \<in> set results. permitted_chunk s f merged (sr_chunk_id r) \<and> 0 \<le> sr_score r
             \<and> min (case sf_min_relevance_score f of None \<Rightarrow> sc_min_relevance_score cfg | Some x \<Rightarrow> x) 1 \<le> sr_score r)
        \<and> (sf_top_k f \<ge> 0 \<longrightarrow> int (length results) \<le> sf_top_k f)
    | None \<Rightarrow> \<exists>hits answers. raw = Inr hits \<and> answer = RawAnswer answers
        \<and> map (Some \<circ> rw_knowledge_id) answers = map rh_knowledge_id hits
        \<and> map (Some \<circ> rw_chunk_text) answers = map rh_chunk_text hits"
proof (cases search_filter)
  case None
  with assms obtain hits answers where "raw = Inr hits" "raw_answers hits = Inr answers" "answer = RawAnswer answers"
    by (auto simp: search_def map_sum_Inr split: sum.splits)
  with None raw_answers_all show ?thesis by auto
next
  case (Some f)
  with assms obtain results where "answer = Ranked results"
    and "filtered_search cfg nfkc s rerank_items vector_results bm25_results query query_terms f = Inr results"
    by (auto simp: search_def map_sum_Inr)
  with filtered_search_permitted Some show ?thesis by fastforce
qed

lemma rerank_scores_normalized:
  assumes "items \<noteq> []"
  shows "mset (map fst (normalize_rerank_scores items)) = mset (map fst items)"
    and "p \<in> set (normalize_rerank_scores items) \<Longrightarrow> 0 \<le> snd p \<and> snd p \<le> 1"
proof -
  let ?lo = "Min (set (map snd items))" and ?hi = "Max (set (map snd items))"
  have between: "?lo \<le> x \<and> x \<le> ?hi" if "(i, x) \<in> set items" for i x
    using that by (force intro: Min_le Max_ge)
  show "mset (map fst (normalize_rerank_scores items)) = mset (map fst items)"
  proof -
    obtain norm where "normalize_rerank_scores items = sort_key (\<lambda>p. - snd p) norm" "map fst norm = map fst items"
      using assms by (auto simp: normalize_rerank_scores_def Let_def o_def split_beta split: if_splits)
    then show ?thesis by (metis mset_map mset_sort)
  qed
  assume "p \<in> set (normalize_rerank_scores items)"
  then show "0 \<le> snd p \<and> snd p \<le> 1"
    using assms between
    by (force simp: normalize_rerank_scores_def Let_def list_all_iff split: if_splits)
qed


subsection \<open>Examples\<close>

definition sample_hit :: "string \<Rightarrow> string \<Rightarrow> string \<Rightarrow> real \<Rightarrow> search_result" where
  "sample_hit c owner level score =
     \<lparr>sr_chunk_id = c, sr_document_id = ''d'', sr_content = ''quarterly report'', sr_score = score,
      sr_chunk_index = 0, sr_metadata = [(''owner_user_id'', PStr owner), (''access_level'', PStr level)],
      sr_keywords = None, sr_summary = None, sr_search_method = ''vector'', sr_rerank_score = None,
      sr_base_score = None, sr_overlap = None\<rparr>"

definition sample_config :: search_config where
  "sample_config =
     \<lparr>sc_semantic_weight = 7 / 10, sc_fulltext_weight = 3 / 10, sc_rrf_k = 60, sc_min_relevance_score = 3 / 10,
      sc_hybrid_score_scale = 2 / 100, sc_keyword_min_rank = 4, sc_rerank_enabled = True,
      sc_rerank_provider = ''p'', sc_rerank_model = ''m'', sc_rerank_top_k = 30, sc_rerank_weight = 85 / 100\<rparr>"

definition sample_filter :: search_filter where
  "sample_filter = \<lparr>sf_user_id = ''u'', sf_user_role = ''user'', sf_user_attributes = None, sf_top_k = 5,
     sf_min_relevance_score = None\<rparr>"

definition no_policies :: abac_service where
  "no_policies = \<lparr>as_txt = (\<lambda>v. []), as_isoformat = (\<lambda>t. []), as_now = 0, as_engine = []\<rparr>"

text \<open>A service that names one document twice makes it appear twice.\<close>

lemma duplicate_answer_duplicates_chunk:
  "map sr_chunk_id (fst (rerank_with_model sample_config (\<lambda>_. [(0, 1), (0, 1 / 2)])
     [sample_hit ''a'' ''u'' ''private'' 1, sample_hit ''b'' ''u'' ''private'' 1] 5)) = [''a'', ''a'', ''b'']"
  by (simp add: rerank_with_model_def sample_config_def sample_hit_def Let_def)

theorem rrf_merge_exact_witness:
  "\<exists>merged. rrf_merge sample_config [sample_hit ''a'' ''u'' ''private'' 1, sample_hit ''b'' ''u'' ''private'' 1]
       [sample_hit ''b'' ''u'' ''private'' 1] = Inr merged
     \<and> set (map sr_chunk_id merged) = {''a'', ''b''} \<and> distinct (map sr_chunk_id merged)"
  using rrf_merge_exact[of sample_config
      "[sample_hit ''a'' ''u'' ''private'' 1, sample_hit ''b'' ''u'' ''private'' 1]" "[sample_hit ''b'' ''u'' ''private'' 1]"]
  by (auto simp: sample_config_def sample_hit_def)

theorem search_returns_permitted_witness:
  "(\<exists>results. search sample_config (\<lambda>q. q) no_policies (\<lambda>_. []) (Inl AttributeError)
       [sample_hit ''mine'' ''u'' ''private'' (9 / 10), sample_hit ''secret'' ''v'' ''private'' 1] []
       ''quarterly report'' [''quarterly'', ''report''] (Some sample_filter) = Inr (Ranked results)
     \<and> (\<forall>r \<in> set results. sr_chunk_id r \<noteq> ''secret'' \<and> 3 / 10 \<le> sr_score r))
   \<and> permitted_chunk no_policies sample_filter
       [sample_hit ''mine'' ''u'' ''private'' (9 / 10), sample_hit ''secret'' ''v'' ''private'' 1] ''mine''"
proof -
  let ?hits = "[sample_hit ''mine'' ''u'' ''private'' (9 / 10), sample_hit ''secret'' ''v'' ''private'' 1]"
  have merged: "merge_hits sample_config ?hits [] = Inr ?hits" by (simp add: merge_hits_def)
  have item: "item_accessible no_policies (search_user sample_filter) READ None
      (result_dict ''u'' (sample_hit c owner ''private'' x)) = Inr (owner = ''u'')" for c owner x
    by (simp add: item_accessible_def can_access_knowledge_item_def abac_decision_def search_user_def
        sample_filter_def CurrentUser_def role_of_value.simps result_dict_def sample_hit_def attr_get_def
        dict_get_def no_policies_def attrs_present_def item_metadata_def val_or_def Let_def)
  have secret: "\<not> permitted_chunk no_policies sample_filter ?hits ''secret''"
    using item[of "''secret''" "''v''" 1]
    by (simp add: permitted_chunk_def sample_filter_def) (simp add: sample_hit_def)
  have mine: "permitted_chunk no_policies sample_filter ?hits ''mine''"
    using item[of "''mine''" "''u''" "9 / 10"]
    by (simp add: permitted_chunk_def sample_filter_def) (simp add: sample_hit_def)
  obtain results where answer: "search sample_config (\<lambda>q. q) no_policies (\<lambda>_. []) (Inl AttributeError) ?hits []
      ''quarterly report'' [''quarterly'', ''report''] (Some sample_filter) = Inr (Ranked results)"
    by (simp add: search_def filtered_search_def merged split_beta Let_def)
  have floor: "sf_min_relevance_score sample_filter = None" "min (sc_min_relevance_score sample_config) 1 = 3 / 10"
    by (simp_all add: sample_filter_def sample_config_def)
  have "\<forall>r \<in> set results. permitted_chunk no_policies sample_filter ?hits (sr_chunk_id r) \<and> 3 / 10 \<le> sr_score r"
    using search_returns_permitted[OF answer] unfolding merged by (auto simp: floor)
  with answer secret mine show ?thesis by metis
qed

end
