(* ===== verification/Spec2Isabelle.thy ===== *)
theory Spec2Isabelle
  imports
    Task_Graph Task_Dependencies Run_State
    Skill_Deps
    Task_Queue Circuit_Breaker Rate_Limiter Stores
    Rbac Jwt_Auth Abac Agent_Access Assignment Recovery
    Document_Chunker Policy_Loader Messages Runtime_Binding Runtime_Dispatch
    Agent_Provisioning Run_Scheduler
    Containers Sandbox_Pool Knowledge_Access Knowledge_Search
begin

text \<open>
  LinX is a platform that runs teams of agents: a FastAPI backend (\<open>src/backend\<close>) plans a goal as
  a graph of tasks, schedules the tasks on agents, records every run, and guards all of it by
  authentication, roles, attributes and rate limits. This library models the backend's own logic,
  written as the Python code is written, and proves what makes each part correct.

  \<^bold>\<open>Conventions.\<close> One theory per component; a definition carries the name of the function it
  models, with a prefix where two modules use one name. An object is a record of its attributes, an
  enum a datatype, a dictionary an association list with distinct keys in insertion order, an
  exception a value of a sum type. A method is a function from the old object to the result and the
  new one; the clock, fresh UUIDs and the rows a query returns are arguments. Instants are integers
  (microseconds) where the code uses \<open>datetime\<close> and reals where it uses \<open>time.time()\<close>. Logging,
  locks around straight-line code and global singletons are left out. Calls of an \<open>asyncio\<close> object
  interleave between awaits only, so such an object is a step relation whose labels are the calls
  (\<open>State_Machine\<close>: \<open>run_of\<close>, and the contracts \<open>invariant_machine\<close> and \<open>monotone_machine\<close> that each
  component of this kind is an interpretation of).

  \<^bold>\<open>Shared.\<close> \<open>LinX_Prelude\<close>: dictionaries, \<open>min\<close>/\<open>max\<close> by key, stable sorting, strings.
  \<open>Py_Values\<close>: dynamically typed values, truth values, UUIDs and their text. \<open>Py_Compare\<close>: Python's
  comparison operators on them. \<open>Dep_Graph\<close>: dependency maps, their edges and reachability, and the
  contract \<open>cycle_check\<close> that each of the three cycle detectors of the code is an interpretation of.

  \<^bold>\<open>Planning and running tasks.\<close>
  \<open>Task_Graph\<close> (\<open>task_manager/dependency_resolver.py\<close>): building the graph, \<open>has_cycles\<close>, Kahn's
  algorithm, the ready tasks. The cycle test is exact, the resulting order respects every
  dependency and is complete, and an acyclic unfinished graph always has a ready task.
  \<open>Task_Dependencies\<close> (\<open>project_execution/task_dependencies.py\<close> and its two tables):
  normalising a client's dependency list, replacing the dependencies of a task, deciding whether
  its upstream tasks are satisfied. Replacing keeps the tables consistent and acyclic, touches
  nothing else, fails exactly on a cycle, and round-trips through the serialised form.
  \<open>Run_State\<close> (\<open>project_execution/service.py\<close>, \<open>execution_nodes.py\<close>, \<open>scheduler.py\<close>): the status of
  tasks, runs and projects computed from execution nodes, reconciliation, retirement of a run's
  temporary agents and selection of the nodes to dispatch. Reconciliation is idempotent and decides
  as specified; the ready nodes are exact.
  \<open>Assignment\<close> (\<open>task_manager/capability_mapper.py\<close>, \<open>agent_assigner.py\<close>, \<open>load_balancer.py\<close>):
  scoring of agents against a task, the choice of one, and the balancing of load. The assigned agent
  is a best available one, a batch never assigns one agent twice, and the balancer picks a least
  loaded agent.
  \<open>Recovery\<close> (\<open>task_manager/error_handler.py\<close>, \<open>recovery_coordinator.py\<close>): retries with their delays,
  the breakers of agents and reassignment, as steps between the points where the code sleeps or
  reads the clock. The parameter \<open>tracked\<close> says whether an in-place change of a JSON column reaches
  the database, which the code leaves to the mapping of the column.

  \<open>Runtime_Binding\<close> (\<open>project_execution/external_runtime_service.py\<close> and the requests of
  \<open>api_gateway/routers/external_runtime.py\<close>): install codes, the binding of a host to an external
  agent, its machine token and heartbeats. A token authenticates exactly as the last bootstrap and
  unregistration say, a code binds one host, and an agent is online exactly under the stated
  conditions. \<open>hashlib.sha256\<close> is a parameter and secrets are drawn fresh.
  \<open>Runtime_Dispatch\<close> (the same files): the work handed to a host, and its reports, which are copied
  to the node, the task and the run and reconciled by \<open>Run_State\<close>. The last completion finishes
  a run that is open, a failure fails it, and the event stream is read without gaps.
  \<open>Agent_Provisioning\<close> (\<open>project_execution/agent_provisioner.py\<close>, \<open>capability_mapper.py\<close>): the agent of a
  step, taken from the project's pool by \<open>Agent_Access\<close>, the load of \<open>Assignment\<close> and the host states of
  \<open>Runtime_Binding\<close>, or created for the run. The best eligible agent is taken, and a host action
  gets an agent whose host is online or fails with the reason, except that a project without a suitable
  agent whose profile names an internal runtime gets a temporary agent of that runtime.
  \<open>Run_Scheduler\<close> (\<open>project_execution/scheduler.py\<close>, \<open>planning.py\<close>): a scheduling call composes the selection
  of \<open>Run_State\<close>, the provisioner and the dispatches, with its transaction and those of the sessions it
  opens; executing a node. It stays within its run and the tasks the nodes of the run refer to, and each node
  is assigned, dispatched or blocked.

  \<^bold>\<open>Skills.\<close> \<open>Skill_Deps\<close> (\<open>skill_library/dependency_resolver.py\<close>): resolution and load order list
  each skill after everything it needs, and fail exactly when a cycle is reachable.

  \<^bold>\<open>Traffic.\<close>
  \<open>Task_Queue\<close> (\<open>task_manager/task_queue.py\<close>): in every run of calls a dequeued task has all its
  dependencies completed and the queue stays within its bound.
  \<open>Circuit_Breaker\<close> (\<open>production/circuit_breaker.py\<close>): calls are split where they await the guarded
  function, so overlapping, late and cancelled calls are covered; thresholds, timeouts and recovery.
  \<open>Rate_Limiter\<close> (\<open>production/rate_limiter.py\<close>): the sliding windows agree with a reference that
  remembers every request, and bound the requests of every window; clean-up is unobservable.

  \<open>Stores\<close> (\<open>performance/cache_manager.py\<close>, \<open>skill_library/skill_cache.py\<close>,
  \<open>production/request_deduplication.py\<close>): a cache answers the last value written and not expired;
  concurrent requests of one key run the handler once.
  \<open>Messages\<close> (\<open>message_bus/message.py\<close>, \<open>authorization.py\<close>, \<open>audit.py\<close>): who may send to whom, and an
  audit log that is the recent part of a log that forgets nothing.

  \<^bold>\<open>Access control\<close> (\<open>access_control/\<close>).
  \<open>Rbac\<close> (\<open>rbac.py\<close>, \<open>permissions.py\<close>, \<open>memory_filter.py\<close>): roles, inheritance, the decision
  functions and the endpoint guards. \<open>Jwt_Auth\<close> (\<open>jwt_auth.py\<close>, \<open>permissions.py\<close>): issuing, decoding,
  refreshing and revoking tokens, and the authentication of a request; the library \<open>jose\<close> is a
  parameter whose documented behaviour is the hypothesis \<open>jose_ok\<close>, satisfied by \<open>clear_encode\<close> and
  \<open>clear_decode\<close>. \<open>Abac\<close> (\<open>abac.py\<close>): conditions, policies and the engine, against the reference
  \<open>policy_applies\<close>. \<open>Policy_Loader\<close> (\<open>policy_loader.py\<close>): policies as rows, their serialised
  conditions, and the engine filled from the table, which decides as the rows say. \<open>Agent_Access\<close>
  (\<open>agent_access.py\<close>): the ancestors of a department, and the agents a user sees as a query, as a
  list and as a decision.

  \<^bold>\<open>Knowledge.\<close> \<open>Document_Chunker\<close> (\<open>knowledge_base/document_chunker.py\<close>): the fixed-size, semantic and
  hierarchical strategies; no text is lost, and the fixed-size loop returns exactly under the stated
  bounds. The tokenizer is a parameter.

  \<open>Knowledge_Access\<close> (\<open>access_control/knowledge_filter.py\<close>): who may see an item, as a decision, as a
  query, as an expression of the vector store and as a filter of results; \<open>may_read_knowledge\<close> specifies
  the query and \<open>may_open_knowledge\<close> the decision, and they are compared. \<open>Knowledge_Search\<close>
  (\<open>knowledge_base/knowledge_search.py\<close>): fusion of the two rankings, the permission filter, the rerankings, the precision guard and the cut. Fusion is exact, and
  a search with a filter returns only what the decision permits (without one it returns the hits as they
  are); the retrievers, the vector store's own search and the rerank service are arguments.

  \<^bold>\<open>Sandboxes.\<close> \<open>Containers\<close> (\<open>virtualization/resource_limits.py\<close>, \<open>container_manager.py\<close>): limits computed
  from the host's memory, the configuration for Docker, the table of containers, with Docker's answers
  as arguments. \<open>Sandbox_Pool\<close> (\<open>virtualization/sandbox_pool.py\<close>): the pool as a machine whose events are
  the pieces of its methods between their awaits; a sandbox serves one agent at a time, and a shutdown
  terminates all containers but those on their way to a caller and those whose start raised.

  \<^bold>\<open>Loops.\<close> No definition uses fuel: the depth-first searches terminate because the set of unvisited
  vertices shrinks, Kahn's loop because the vertices of positive in-degree and the queue shrink
  together, inheritance because every parent role is lower, the walk to a department's ancestors
  because the departments not yet seen shrink, reading a stored condition because it is smaller than
  what holds it. The fixed-size chunking loop may run forever and is a partial function; the theorem
  \<open>fixed_size_returns_iff\<close> says when it returns.

  \<^bold>\<open>Not modelled.\<close> HTTP routing and serialisation, SQL and its sessions beyond the rows read and
  written, the language-model, vector-store, object-store and robot drivers, what Docker does, the
  frontend, configuration loading, monitoring, and the parts of the modelled packages that only call
  those. Floating-point rounding is not modelled, nor are strings beyond code point 255.
\<close>

end
